(* ===== verification/Prelude.thy ===== *)
theory Prelude
  imports
    Main
    "HOL-Library.Char_ord"
    "HOL-Library.List_Lexorder"
    "HOL-Library.Product_Lexorder"
begin

text \<open>
  Shared vocabulary of the ShardGate development: the collections that carry the
  component proofs, Go's results as sums, Go's durations and timestamps as integers,
  decimal numerals (\<open>strconv.Itoa\<close>, \<open>strconv.Atoi\<close>) with their round trip, and a few
  generic facts on lists and options.

  Go strings are byte strings, so \<^typ>\<open>string\<close> (a list of 8-bit characters) counts what
  \<open>len\<close> counts; the lexicographic order on strings is the byte order Redis uses for the
  members of a sorted set.  A Go result \<open>(T, error)\<close> is a sum, \<open>Inl\<close> holding the error.
\<close>

section \<open>Collections\<close>

named_theorems redis_simps \<open>reads of the store after writes to it\<close>
named_theorems key_simps \<open>equality of Redis keys\<close>
named_theorems script_defs \<open>bodies of the Lua scripts and of their Go callers\<close>

section \<open>Types of the model\<close>

type_synonym key = string
type_synonym token = string
type_synonym millis = int
type_synonym duration = int \<comment> \<open>nanoseconds, as \<open>time.Duration\<close>\<close>
type_synonym gotime = int \<comment> \<open>nanoseconds since the Unix epoch; the zero \<open>time.Time\<close> is \<open>None\<close> of an option\<close>

text \<open>
  \<open>time.Time.UnixMilli\<close> rounds towards minus infinity, \<open>time.Duration.Milliseconds\<close>
  truncates towards zero, as Go's integer division does.
\<close>

definition quot :: "int \<Rightarrow> int \<Rightarrow> int" where
  "quot a b = sgn a * sgn b * (\<bar>a\<bar> div \<bar>b\<bar>)"

definition UnixMilli :: "gotime \<Rightarrow> millis" where
  "UnixMilli t = t div 1000000"

definition Milliseconds :: "duration \<Rightarrow> millis" where
  "Milliseconds d = quot d 1000000"

lemma Milliseconds_nonneg: "0 \<le> d \<Longrightarrow> Milliseconds d = d div 1000000"
  by (cases "d = 0") (simp_all add: Milliseconds_def quot_def)

lemma Milliseconds_ge_0 [simp]: "0 \<le> d \<Longrightarrow> 0 \<le> Milliseconds d"
  by (simp add: Milliseconds_nonneg)

lemma Milliseconds_mono: "0 \<le> a \<Longrightarrow> a \<le> b \<Longrightarrow> Milliseconds a \<le> Milliseconds b"
  by (simp add: Milliseconds_nonneg zdiv_mono1)

lemma Milliseconds_scale: "Milliseconds (1000000 * k) = k"
  by (simp add: Milliseconds_def quot_def abs_mult sgn_mult flip: mult.assoc)
    (simp add: sgn_mult_abs)

section \<open>Options\<close>

definition or_else :: "'a option \<Rightarrow> 'a \<Rightarrow> 'a" where
  "or_else x d = (case x of None \<Rightarrow> d | Some v \<Rightarrow> v)"

lemma or_else_simps [simp]: "or_else None d = d" "or_else (Some v) d = v"
  by (simp_all add: or_else_def)

section \<open>Decimal numerals\<close>

definition digit_char :: "nat \<Rightarrow> char" where
  "digit_char d = char_of (48 + d)"

definition digit_val :: "char \<Rightarrow> nat" where
  "digit_val c = of_char c - 48"

definition is_digit :: "char \<Rightarrow> bool" where
  "is_digit c \<longleftrightarrow> CHR ''0'' \<le> c \<and> c \<le> CHR ''9''"

lemma is_digit_of_char: "is_digit c \<longleftrightarrow> 48 \<le> (of_char c :: nat) \<and> (of_char c :: nat) \<le> 57"
  by (simp add: is_digit_def less_eq_char_def)

lemma digit_char_facts:
  assumes "d < 10"
  shows "digit_val (digit_char d) = d" "is_digit (digit_char d)"
  using assms
  by (simp_all add: digit_val_def digit_char_def is_digit_of_char of_char_of)

fun show_nat :: "nat \<Rightarrow> string" where
  "show_nat n = (if n < 10 then [digit_char n] else show_nat (n div 10) @ [digit_char (n mod 10)])"

declare show_nat.simps [simp del]

definition read_nat :: "string \<Rightarrow> nat" where
  "read_nat s = foldl (\<lambda>acc c. acc * 10 + digit_val c) 0 s"

definition Itoa :: "int \<Rightarrow> string" where
  "Itoa i = (if i < 0 then CHR ''-'' # show_nat (nat (- i)) else show_nat (nat i))"

text \<open>
  \<open>strconv.Atoi\<close>: an optional sign, then at least one digit and digits only, then the
  range of a 64-bit \<open>int\<close>.
\<close>

definition Atoi :: "string \<Rightarrow> int option" where
  "Atoi s =
    (let (neg, ds) = (case s of [] \<Rightarrow> (False, [])
                      | c # cs \<Rightarrow> if c = CHR ''-'' then (True, cs)
                                  else if c = CHR ''+'' then (False, cs) else (False, s));
         v = (if neg then - int (read_nat ds) else int (read_nat ds))
     in if ds = [] \<or> \<not> list_all is_digit ds then None
        else if - (2 ^ 63) \<le> v \<and> v < 2 ^ 63 then Some v else None)"

lemma read_nat_snoc [simp]: "read_nat (s @ [c]) = read_nat s * 10 + digit_val c"
  by (simp add: read_nat_def)

lemma read_show_nat [simp]: "read_nat (show_nat n) = n"
proof (induction n rule: show_nat.induct)
  case (1 n)
  show ?case
  proof (cases "n < 10")
    case True
    then show ?thesis by (subst show_nat.simps) (simp add: read_nat_def digit_char_facts)
  next
    case False
    with "1.IH" have "read_nat (show_nat (n div 10)) = n div 10" by simp
    with False show ?thesis by (subst show_nat.simps) (simp add: digit_char_facts)
  qed
qed

lemma show_nat_digits [simp]: "list_all is_digit (show_nat n)"
proof (induction n rule: show_nat.induct)
  case (1 n)
  then show ?case by (subst show_nat.simps) (auto simp: digit_char_facts)
qed

lemma show_nat_Nil [simp]: "show_nat n \<noteq> []"
  by (subst show_nat.simps) simp

lemma show_nat_inj [simp]: "show_nat m = show_nat n \<longleftrightarrow> m = n"
  by (metis read_show_nat)

lemma length_show_nat: "n < 10 ^ k \<Longrightarrow> 0 < k \<Longrightarrow> length (show_nat n) \<le> k"
proof (induction n arbitrary: k rule: show_nat.induct)
  case (1 n)
  show ?case
  proof (cases "n < 10")
    case True
    with "1.prems" show ?thesis by (subst show_nat.simps) simp
  next
    case False
    then have "k \<noteq> 1" using "1.prems" by auto
    with "1.prems" obtain j where k: "k = Suc j" and j: "0 < j" by (cases k) auto
    with "1.prems" have "n div 10 < 10 ^ j" by (simp add: less_mult_imp_div_less)
    with "1.IH" False j have "length (show_nat (n div 10)) \<le> j" by blast
    with False k show ?thesis by (subst show_nat.simps) simp
  qed
qed

lemma read_nat_zeros: "read_nat (replicate k CHR ''0'' @ s) = read_nat s"
  by (induction k) (simp_all add: read_nat_def digit_val_def)

lemma read_nat_bound: "list_all is_digit s \<Longrightarrow> read_nat s < 10 ^ length s"
proof (induction s rule: rev_induct)
  case Nil
  then show ?case by (simp add: read_nat_def)
next
  case (snoc c s)
  then have "read_nat s < 10 ^ length s" "digit_val c < 10"
    by (auto simp: is_digit_of_char digit_val_def)
  then show ?case by simp
qed

lemma is_digit_no_sign: "is_digit c \<Longrightarrow> c \<noteq> CHR ''-'' \<and> c \<noteq> CHR ''+''"
  by (auto simp: is_digit_of_char)

lemma Atoi_digits:
  assumes "list_all is_digit s" "s \<noteq> []" "length s \<le> 18"
  shows "Atoi s = Some (int (read_nat s))"
proof -
  have "read_nat s < 10 ^ length s" by (rule read_nat_bound [OF assms(1)])
  also have "\<dots> \<le> (10::nat) ^ 18" using assms(3) by (intro power_increasing) auto
  finally have "int (read_nat s) < 2 ^ 63" by simp
  with assms(1,2) show ?thesis
    by (cases s) (auto simp: Atoi_def Let_def dest: is_digit_no_sign)
qed

lemma Itoa_nonneg: "0 \<le> i \<Longrightarrow> Itoa i = show_nat (nat i)"
  by (simp add: Itoa_def)

lemma show_nat_no_minus: "show_nat m \<noteq> CHR ''-'' # s"
proof
  assume "show_nat m = CHR ''-'' # s"
  with show_nat_digits [of m] show False by (simp add: is_digit_of_char)
qed

lemma Itoa_inj [simp]: "Itoa i = Itoa j \<longleftrightarrow> i = j"
  using show_nat_no_minus show_nat_no_minus [symmetric]
  by (auto simp: Itoa_def split: if_splits)

lemma Itoa_chars: "c \<in> set (Itoa i) \<Longrightarrow> is_digit c \<or> c = CHR ''-''"
  using show_nat_digits by (auto simp: Itoa_def list_all_iff split: if_splits)

section \<open>Lists\<close>

lemma filter_takeWhile_length:
  "length (takeWhile P xs) < length xs \<longleftrightarrow> (\<exists>x \<in> set xs. \<not> P x)"
  by (induction xs) auto

lemma append_sep_inj:
  assumes "c \<notin> set xs" "c \<notin> set ys" "xs @ c # us = ys @ c # vs"
  shows "xs = ys \<and> us = vs"
  using assms
proof (induction xs arbitrary: ys)
  case Nil
  then show ?case by (cases ys) auto
next
  case (Cons x xs)
  then show ?case by (cases ys) auto
qed

lemma append_sep_inj_right:
  assumes "c \<notin> set us" "c \<notin> set vs" "xs @ c # us = ys @ c # vs"
  shows "xs = ys \<and> us = vs"
proof -
  from assms(3) have "rev us @ c # rev xs = rev vs @ c # rev ys"
    by (metis append.assoc append_Cons append_Nil rev.simps(2) rev_append)
  with assms(1,2) have "rev us = rev vs \<and> rev xs = rev ys"
    by (intro append_sep_inj) auto
  then show ?thesis by simp
qed

end
