(* ===== verification/Keys.thy ===== *)
theory Keys
  imports Prelude
begin

text \<open>
  Redis key names (\<open>src/internal/keys/keys.go\<close>).  A key is a resource prefix, a colon, a
  hash tag \<open>{event:slot}\<close> and possibly more; a greylist shard shares the slot of its
  original shard.  The lemmas show that keys of different resources, shards, tokens or
  entry tickets are different strings, and that all keys one script touches carry the same
  Redis Cluster hash tag, so the script runs in one slot.
\<close>

definition prefixQueue :: string where "prefixQueue = ''queue''"
definition prefixHold :: string where "prefixHold = ''hold''"
definition prefixSeq :: string where "prefixSeq = ''seq''"
definition prefixUser :: string where "prefixUser = ''user''"
definition prefixAdmitted :: string where "prefixAdmitted = ''admitted''"
definition prefixBudget :: string where "prefixBudget = ''budget''"
definition prefixShards :: string where "prefixShards = ''shards''"
definition prefixEntry :: string where "prefixEntry = ''entry''"
definition prefixChallenge :: string where "prefixChallenge = ''challenge''"
definition prefixScore :: string where "prefixScore = ''score''"
definition prefixStats :: string where "prefixStats = ''stats''"
definition prefixSuspicion :: string where "prefixSuspicion = ''suspicion''"
definition prefixIdem :: string where "prefixIdem = ''idem''"

lemmas prefix_defs = prefixQueue_def prefixHold_def prefixSeq_def prefixUser_def
  prefixAdmitted_def prefixBudget_def prefixShards_def prefixEntry_def prefixChallenge_def
  prefixScore_def prefixStats_def prefixSuspicion_def prefixIdem_def

definition slotOf :: "string \<Rightarrow> string" where
  "slotOf shard =
    (if length shard > 1 \<and> hd shard = CHR ''g'' then CHR ''s'' # tl shard else shard)"

definition ShardTag :: "string \<Rightarrow> string \<Rightarrow> string" where
  "ShardTag event shard = ''{'' @ event @ '':'' @ slotOf shard @ ''}''"

definition EventTag :: "string \<Rightarrow> string" where
  "EventTag event = ''{'' @ event @ ''}''"

definition shardKey :: "string \<Rightarrow> string \<Rightarrow> string \<Rightarrow> key" where
  "shardKey prefix event shard =
    (if slotOf shard \<noteq> shard then prefix @ '':'' @ ShardTag event shard @ '':'' @ shard
     else prefix @ '':'' @ ShardTag event shard)"

definition Queue :: "string \<Rightarrow> string \<Rightarrow> key" where
  "Queue event shard = shardKey prefixQueue event shard"

definition Hold :: "string \<Rightarrow> string \<Rightarrow> key" where
  "Hold event shard = shardKey prefixHold event shard"

definition Seq :: "string \<Rightarrow> string \<Rightarrow> key" where
  "Seq event shard = shardKey prefixSeq event shard"

definition Budget :: "string \<Rightarrow> string \<Rightarrow> key" where
  "Budget event shard = shardKey prefixBudget event shard"

definition Score :: "string \<Rightarrow> string \<Rightarrow> key" where
  "Score event shard = shardKey prefixScore event shard"

definition Stats :: "string \<Rightarrow> string \<Rightarrow> key" where
  "Stats event shard = shardKey prefixStats event shard"

definition User :: "string \<Rightarrow> string \<Rightarrow> token \<Rightarrow> key" where
  "User event shard tokenID = prefixUser @ '':'' @ ShardTag event shard @ '':'' @ tokenID"

definition UserPrefix :: "string \<Rightarrow> string \<Rightarrow> string" where
  "UserPrefix event shard = prefixUser @ '':'' @ ShardTag event shard @ '':''"

definition Entry :: "string \<Rightarrow> string \<Rightarrow> string \<Rightarrow> key" where
  "Entry event shard jti = prefixEntry @ '':'' @ ShardTag event shard @ '':'' @ jti"

definition EntryPrefix :: "string \<Rightarrow> string \<Rightarrow> string" where
  "EntryPrefix event shard = prefixEntry @ '':'' @ ShardTag event shard @ '':''"

definition Admitted :: "string \<Rightarrow> key" where
  "Admitted event = prefixAdmitted @ '':'' @ EventTag event"

definition Shards :: "string \<Rightarrow> key" where
  "Shards event = prefixShards @ '':'' @ EventTag event"

definition Challenge_key :: "string \<Rightarrow> string \<Rightarrow> key" where
  "Challenge_key event nonce = prefixChallenge @ '':{'' @ event @ '':'' @ nonce @ ''}''"

definition Suspicion :: "string \<Rightarrow> string \<Rightarrow> key" where
  "Suspicion event subject = prefixSuspicion @ '':{'' @ event @ '':'' @ subject @ ''}''"

definition Idem :: "string \<Rightarrow> string \<Rightarrow> key" where
  "Idem event idemKey = prefixIdem @ '':{'' @ event @ '':'' @ idemKey @ ''}''"

section \<open>Distinct resources, distinct keys\<close>

text \<open>Identifiers that reach a key contain neither a brace nor a colon.\<close>

definition plain :: "string \<Rightarrow> bool" where
  "plain s \<longleftrightarrow> CHR ''{'' \<notin> set s \<and> CHR ''}'' \<notin> set s \<and> CHR '':'' \<notin> set s"

lemma plain_append [simp]: "plain (a @ b) \<longleftrightarrow> plain a \<and> plain b"
  by (auto simp: plain_def)

lemma slotOf_plain [simp]: "plain shard \<Longrightarrow> plain (slotOf shard)"
  by (cases shard) (auto simp: plain_def slotOf_def)

lemma slotOf_idem [simp]: "slotOf (slotOf shard) = slotOf shard"
  by (simp add: slotOf_def)

lemma prefix_sep:
  assumes "CHR '':'' \<notin> set p" "CHR '':'' \<notin> set q"
  shows "p @ CHR '':'' # x = q @ CHR '':'' # y \<longleftrightarrow> p = q \<and> x = y"
  using append_sep_inj [OF assms] by auto

lemma tag_inj:
  assumes "plain ev" "plain ev'" "plain s" "plain s'"
    "ev @ CHR '':'' # slotOf s @ CHR ''}'' # x = ev' @ CHR '':'' # slotOf s' @ CHR ''}'' # y"
  shows "ev = ev' \<and> slotOf s = slotOf s' \<and> x = y"
proof -
  have "ev = ev' \<and> slotOf s @ CHR ''}'' # x = slotOf s' @ CHR ''}'' # y"
    using assms by (intro append_sep_inj) (auto simp: plain_def)
  moreover have "CHR ''}'' \<notin> set (slotOf s)" "CHR ''}'' \<notin> set (slotOf s')"
    using slotOf_plain [OF assms(3)] slotOf_plain [OF assms(4)] by (auto simp: plain_def)
  ultimately show ?thesis using append_sep_inj by metis
qed

text \<open>Every key is its resource prefix, a colon, and the rest; the prefixes have no colon.\<close>

definition key_rest :: "key \<Rightarrow> string" where
  "key_rest k = tl (dropWhile (\<lambda>c. c \<noteq> CHR '':'') k)"

definition key_kind :: "key \<Rightarrow> string" where
  "key_kind k = takeWhile (\<lambda>c. c \<noteq> CHR '':'') k"

lemma key_kind_prefix: "CHR '':'' \<notin> set p \<Longrightarrow> key_kind (p @ CHR '':'' # x) = p"
  by (induction p) (auto simp: key_kind_def)

lemma key_kinds [simp]:
  "key_kind (Queue e s) = prefixQueue" "key_kind (Hold e s) = prefixHold"
  "key_kind (Seq e s) = prefixSeq" "key_kind (Budget e s) = prefixBudget"
  "key_kind (Score e s) = prefixScore" "key_kind (Stats e s) = prefixStats"
  "key_kind (User e s t) = prefixUser" "key_kind (Entry e s t) = prefixEntry"
  "key_kind (Admitted e) = prefixAdmitted" "key_kind (Shards e) = prefixShards"
  "key_kind (Challenge_key e n) = prefixChallenge"
  "key_kind (Suspicion e n) = prefixSuspicion" "key_kind (Idem e n) = prefixIdem"
  by (simp_all add: Queue_def Hold_def Seq_def Budget_def Score_def Stats_def User_def
      Entry_def Admitted_def Shards_def Challenge_key_def Suspicion_def Idem_def shardKey_def
      prefix_defs key_kind_def)

lemma key_disjoint [key_simps]:
  "Queue e s \<noteq> Hold e' s'" "Hold e s \<noteq> Queue e' s'"
  "Seq e s \<noteq> Budget e' s'" "Budget e s \<noteq> Seq e' s'"
  "Seq e s \<noteq> Suspicion e' n" "Suspicion e n \<noteq> Seq e' s"
  "Budget e s \<noteq> Suspicion e' n" "Suspicion e n \<noteq> Budget e' s"
  "Entry e s j \<noteq> Challenge_key e' n" "Challenge_key e n \<noteq> Entry e' s j"
  by (simp_all add: Queue_def Hold_def Seq_def Budget_def Entry_def Challenge_key_def
      Suspicion_def shardKey_def prefix_defs)

lemma shardKey_inj:
  assumes "CHR '':'' \<notin> set p" "plain ev" "plain ev'" "plain s" "plain s'"
  shows "shardKey p ev s = shardKey p ev' s' \<longleftrightarrow> ev = ev' \<and> s = s'"
proof
  assume eq: "shardKey p ev s = shardKey p ev' s'"
  let ?x = "if slotOf s \<noteq> s then CHR '':'' # s else []"
  let ?y = "if slotOf s' \<noteq> s' then CHR '':'' # s' else []"
  from eq have "ev @ CHR '':'' # slotOf s @ CHR ''}'' # ?x = ev' @ CHR '':'' # slotOf s' @ CHR ''}'' # ?y"
    using assms(1) by (auto simp: shardKey_def ShardTag_def split: if_splits)
  then have "ev = ev' \<and> slotOf s = slotOf s' \<and> ?x = ?y"
    using assms by (intro tag_inj) auto
  then show "ev = ev' \<and> s = s'" by (auto split: if_splits)
qed auto

lemma Queue_inj [key_simps]:
  "plain ev \<Longrightarrow> plain s \<Longrightarrow> plain s' \<Longrightarrow> Queue ev s = Queue ev s' \<longleftrightarrow> s = s'"
  by (simp add: Queue_def shardKey_inj prefix_defs)

lemma Hold_inj [key_simps]:
  "plain ev \<Longrightarrow> plain s \<Longrightarrow> plain s' \<Longrightarrow> Hold ev s = Hold ev s' \<longleftrightarrow> s = s'"
  by (simp add: Hold_def shardKey_inj prefix_defs)

lemma Budget_inj [key_simps]:
  "plain ev \<Longrightarrow> plain s \<Longrightarrow> plain s' \<Longrightarrow> Budget ev s = Budget ev s' \<longleftrightarrow> s = s'"
  by (simp add: Budget_def shardKey_inj prefix_defs)

lemma User_token_inj [key_simps]: "User ev s t = User ev s t' \<longleftrightarrow> t = t'"
  by (simp add: User_def)

lemma Entry_jti_inj [key_simps]: "Entry ev s j = Entry ev s j' \<longleftrightarrow> j = j'"
  by (simp add: Entry_def)

lemma Suspicion_inj [key_simps]: "Suspicion ev a = Suspicion ev b \<longleftrightarrow> a = b"
  by (simp add: Suspicion_def)

lemma Challenge_key_inj [key_simps]: "Challenge_key ev a = Challenge_key ev b \<longleftrightarrow> a = b"
  by (simp add: Challenge_key_def)

lemma User_inj:
  assumes "plain ev" "plain ev'" "plain s" "plain s'"
  shows "User ev s t = User ev' s' t' \<longleftrightarrow> ev = ev' \<and> slotOf s = slotOf s' \<and> t = t'"
  using tag_inj [OF assms, of "CHR '':'' # t" "CHR '':'' # t'"]
  by (auto simp: User_def ShardTag_def)

lemma UserPrefix_User: "UserPrefix ev s @ t = User ev s t"
  by (simp add: User_def UserPrefix_def)

lemma EntryPrefix_Entry: "EntryPrefix ev s @ j = Entry ev s j"
  by (simp add: Entry_def EntryPrefix_def)

section \<open>One script, one cluster slot\<close>

text \<open>
  Redis Cluster hashes the bytes between the first opening brace and the next closing
  brace, if there are any, and the whole key otherwise (Redis Cluster specification).
\<close>

definition hash_tag :: "key \<Rightarrow> string" where
  "hash_tag k =
    (case dropWhile (\<lambda>c. c \<noteq> CHR ''{'') k of
       [] \<Rightarrow> k
     | _ # t \<Rightarrow> let tag = takeWhile (\<lambda>c. c \<noteq> CHR ''}'') t
                in if tag = [] \<or> length tag = length t then k else tag)"

lemma hash_tag_braced:
  assumes "CHR ''{'' \<notin> set p" "CHR ''}'' \<notin> set t" "t \<noteq> []"
  shows "hash_tag (p @ CHR ''{'' # t @ CHR ''}'' # x) = t"
proof -
  have "dropWhile (\<lambda>c. c \<noteq> CHR ''{'') (p @ CHR ''{'' # t @ CHR ''}'' # x) = CHR ''{'' # t @ CHR ''}'' # x"
    using assms(1) by (induction p) auto
  moreover have "takeWhile (\<lambda>c. c \<noteq> CHR ''}'') (t @ CHR ''}'' # x) = t"
    using assms(2) by (induction t) auto
  ultimately show ?thesis using assms(3) by (simp add: hash_tag_def)
qed

lemma hash_tag_shardKey:
  assumes "CHR ''{'' \<notin> set p" "plain ev" "plain s"
  shows "hash_tag (shardKey p ev s) = ev @ CHR '':'' # slotOf s"
proof -
  have "CHR ''{'' \<notin> set (p @ '':'')" "CHR ''}'' \<notin> set (ev @ CHR '':'' # slotOf s)"
    using assms slotOf_plain [OF assms(3)] by (auto simp: plain_def)
  from hash_tag_braced [OF this, of "[]"] hash_tag_braced [OF this, of "CHR '':'' # s"]
  show ?thesis by (cases "slotOf s = s") (auto simp: shardKey_def ShardTag_def)
qed

lemma hash_tag_tagged:
  assumes "CHR ''{'' \<notin> set p" "plain ev" "plain s"
  shows "hash_tag (p @ CHR '':'' # ShardTag ev s @ CHR '':'' # t) = ev @ CHR '':'' # slotOf s"
proof -
  have "CHR ''{'' \<notin> set (p @ '':'')" "CHR ''}'' \<notin> set (ev @ CHR '':'' # slotOf s)"
    using assms slotOf_plain [OF assms(3)] by (auto simp: plain_def)
  from hash_tag_braced [OF this, of "CHR '':'' # t"]
  show ?thesis by (simp add: ShardTag_def)
qed

end
