(* ===== verification/Sha256.thy ===== *)
theory Sha256
  imports Prelude "HOL-Library.Word"
begin

unbundle bit_operations_syntax

text \<open>
  The hashing primitives of Go's standard library that the services call:
  \<open>crypto/sha256\<close>, \<open>crypto/hmac\<close> over it (RFC 2104), the big-endian 64-bit read of
  \<open>encoding/binary\<close>, and \<open>base64.RawURLEncoding\<close>.  They are written out, so that shard
  assignment and proof of work are functions that compute; the lemmas give the sizes and
  the character set their callers depend on.  Nothing here assumes that the hash is hard
  to invert.
\<close>

section \<open>SHA-256\<close>

type_synonym u32 = "32 word"

text \<open>
  The round constants and the initial state, written four (and eight) words to a
  big-endian literal.
\<close>

fun unpack32 :: "nat \<Rightarrow> int \<Rightarrow> u32 list" where
  "unpack32 0 v = []"
| "unpack32 (Suc n) v = unpack32 n (v div 2 ^ 32) @ [word_of_int (v mod 2 ^ 32)]"

definition K256 :: "u32 list" where
  "K256 = concat (map (unpack32 4) [
    0x428a2f9871374491b5c0fbcfe9b5dba5,
    0x3956c25b59f111f1923f82a4ab1c5ed5,
    0xd807aa9812835b01243185be550c7dc3,
    0x72be5d7480deb1fe9bdc06a7c19bf174,
    0xe49b69c1efbe47860fc19dc6240ca1cc,
    0x2de92c6f4a7484aa5cb0a9dc76f988da,
    0x983e5152a831c66db00327c8bf597fc7,
    0xc6e00bf3d5a7914706ca635114292967,
    0x27b70a852e1b21384d2c6dfc53380d13,
    0x650a7354766a0abb81c2c92e92722c85,
    0xa2bfe8a1a81a664bc24b8b70c76c51a3,
    0xd192e819d6990624f40e3585106aa070,
    0x19a4c1161e376c082748774c34b0bcb5,
    0x391c0cb34ed8aa4a5b9cca4f682e6ff3,
    0x748f82ee78a5636f84c878148cc70208,
    0x90befffaa4506cebbef9a3f7c67178f2])"

definition H256 :: "u32 list" where
  "H256 = unpack32 8
    0x6a09e667bb67ae853c6ef372a54ff53a510e527f9b05688c1f83d9ab5be0cd19"

definition byte_of :: "char \<Rightarrow> int" where
  "byte_of c = of_char c"

definition be_int :: "string \<Rightarrow> int" where
  "be_int s = foldl (\<lambda>acc c. acc * 256 + byte_of c) 0 s"

fun be_bytes :: "nat \<Rightarrow> int \<Rightarrow> string" where
  "be_bytes 0 v = []"
| "be_bytes (Suc n) v = be_bytes n (v div 256) @ [char_of (v mod 256)]"

fun chunks :: "nat \<Rightarrow> 'a list \<Rightarrow> 'a list list" where
  "chunks n xs = (if n = 0 \<or> xs = [] then [] else take n xs # chunks n (drop n xs))"

declare chunks.simps [simp del]

definition pad256 :: "string \<Rightarrow> string" where
  "pad256 m =
    (let l = length m; z = (119 - l mod 64) mod 64
     in m @ [char_of (128::int)] @ replicate z (char_of (0::int)) @ be_bytes 8 (8 * int l))"

definition small_sigma0 :: "u32 \<Rightarrow> u32" where
  "small_sigma0 x = word_rotr 7 x XOR word_rotr 18 x XOR drop_bit 3 x"

definition small_sigma1 :: "u32 \<Rightarrow> u32" where
  "small_sigma1 x = word_rotr 17 x XOR word_rotr 19 x XOR drop_bit 10 x"

definition big_sigma0 :: "u32 \<Rightarrow> u32" where
  "big_sigma0 x = word_rotr 2 x XOR word_rotr 13 x XOR word_rotr 22 x"

definition big_sigma1 :: "u32 \<Rightarrow> u32" where
  "big_sigma1 x = word_rotr 6 x XOR word_rotr 11 x XOR word_rotr 25 x"

fun extend :: "nat \<Rightarrow> u32 list \<Rightarrow> u32 list" where
  "extend 0 w = w"
| "extend (Suc n) w =
    (let t = length w
     in extend n (w @ [small_sigma1 (w ! (t - 2)) + w ! (t - 7) +
                       small_sigma0 (w ! (t - 15)) + w ! (t - 16)]))"

type_synonym hstate = "u32 \<times> u32 \<times> u32 \<times> u32 \<times> u32 \<times> u32 \<times> u32 \<times> u32"

definition round256 :: "u32 \<times> u32 \<Rightarrow> hstate \<Rightarrow> hstate" where
  "round256 kw st =
    (case kw of (k, w) \<Rightarrow> case st of (a, b, c, d, e, f, g, h) \<Rightarrow>
       let t1 = h + big_sigma1 e + ((e AND f) XOR (NOT e AND g)) + k + w;
           t2 = big_sigma0 a + ((a AND b) XOR (a AND c) XOR (b AND c))
       in (t1 + t2, a, b, c, d + t1, e, f, g))"

definition add_states :: "hstate \<Rightarrow> hstate \<Rightarrow> hstate" where
  "add_states s t =
    (case s of (a, b, c, d, e, f, g, h) \<Rightarrow> case t of (a', b', c', d', e', f', g', h') \<Rightarrow>
       (a + a', b + b', c + c', d + d', e + e', f + f', g + g', h + h'))"

definition compress :: "string \<Rightarrow> hstate \<Rightarrow> hstate" where
  "compress block st =
    (let w = extend 48 (map (\<lambda>b. of_int (be_int b)) (chunks 4 block))
     in add_states st (fold round256 (zip K256 w) st))"

definition init256 :: hstate where
  "init256 = (H256 ! 0, H256 ! 1, H256 ! 2, H256 ! 3, H256 ! 4, H256 ! 5, H256 ! 6, H256 ! 7)"

definition word_bytes :: "u32 \<Rightarrow> string" where
  "word_bytes w = be_bytes 4 (uint w)"

definition state_bytes :: "hstate \<Rightarrow> string" where
  "state_bytes st =
    (case st of (a, b, c, d, e, f, g, h) \<Rightarrow> concat (map word_bytes [a, b, c, d, e, f, g, h]))"

definition sha256 :: "string \<Rightarrow> string" where
  "sha256 m = state_bytes (fold compress (chunks 64 (pad256 m)) init256)"

lemma length_be_bytes [simp]: "length (be_bytes n v) = n"
  by (induction n arbitrary: v) simp_all

lemma length_sha256 [simp]: "length (sha256 m) = 32"
  by (simp add: sha256_def state_bytes_def word_bytes_def split: prod.split)

section \<open>HMAC-SHA256\<close>

definition xor_bytes :: "string \<Rightarrow> int \<Rightarrow> string" where
  "xor_bytes s v = map (\<lambda>c. char_of (byte_of c XOR v)) s"

definition hmac_sha256 :: "string \<Rightarrow> string \<Rightarrow> string" where
  "hmac_sha256 k m =
    (let k0 = (if length k > 64 then sha256 k else k);
         k1 = k0 @ replicate (64 - length k0) (char_of (0::int))
     in sha256 (xor_bytes k1 92 @ sha256 (xor_bytes k1 54 @ m)))"

lemma length_hmac [simp]: "length (hmac_sha256 k m) = 32"
  by (simp add: hmac_sha256_def Let_def)

section \<open>Big-endian reads and base64url\<close>

definition be_uint64 :: "string \<Rightarrow> 64 word" where
  "be_uint64 s = of_int (be_int (take 8 s))"

definition b64_char :: "int \<Rightarrow> char" where
  "b64_char v = ''ABCDEFGHIJKLMNOPQRSTUVWXYZabcdefghijklmnopqrstuvwxyz0123456789-_'' ! nat (v mod 64)"

fun RawURLEncoding :: "string \<Rightarrow> string" where
  "RawURLEncoding [] = []"
| "RawURLEncoding [a] =
    [b64_char (byte_of a div 4), b64_char (byte_of a mod 4 * 16)]"
| "RawURLEncoding [a, b] =
    [b64_char (byte_of a div 4), b64_char (byte_of a mod 4 * 16 + byte_of b div 16),
     b64_char (byte_of b mod 16 * 4)]"
| "RawURLEncoding (a # b # c # s) =
    [b64_char (byte_of a div 4), b64_char (byte_of a mod 4 * 16 + byte_of b div 16),
     b64_char (byte_of b mod 16 * 4 + byte_of c div 64), b64_char (byte_of c mod 64)]
    @ RawURLEncoding s"

definition url_char :: "char \<Rightarrow> bool" where
  "url_char c \<longleftrightarrow> (CHR ''a'' \<le> c \<and> c \<le> CHR ''z'') \<or> (CHR ''A'' \<le> c \<and> c \<le> CHR ''Z'') \<or>
    (CHR ''0'' \<le> c \<and> c \<le> CHR ''9'') \<or> c = CHR ''-'' \<or> c = CHR ''_''"

lemma b64_alphabet:
  "list_all url_char ''ABCDEFGHIJKLMNOPQRSTUVWXYZabcdefghijklmnopqrstuvwxyz0123456789-_''"
  by code_simp

lemma b64_char_url [simp]: "url_char (b64_char v)"
proof -
  have "nat (v mod 64) < length ''ABCDEFGHIJKLMNOPQRSTUVWXYZabcdefghijklmnopqrstuvwxyz0123456789-_''"
    by simp
  then have "b64_char v \<in> set ''ABCDEFGHIJKLMNOPQRSTUVWXYZabcdefghijklmnopqrstuvwxyz0123456789-_''"
    unfolding b64_char_def by (rule nth_mem)
  with b64_alphabet show ?thesis by (auto simp only: list_all_iff)
qed

lemma RawURLEncoding_chars: "c \<in> set (RawURLEncoding s) \<Longrightarrow> url_char c"
  by (induction s rule: RawURLEncoding.induct) auto

lemma length_RawURLEncoding: "length (RawURLEncoding s) = (4 * length s + 2) div 3"
  by (induction s rule: RawURLEncoding.induct) (auto simp: div_add_self2)

end
