(* ===== verification/Shard.thy ===== *)
theory Shard
  imports Keys Sha256
begin

text \<open>
  Shard assignment (\<open>src/internal/shard/shard.go\<close>) and shard growth
  (\<open>src/internal/shard/grower.go\<close>): identifiers and their validation, the HMAC-based
  assignment, the monotone shard counter.

  The assigner's atomic counter is a field of its record; \<open>Grow\<close> is the effect of its
  compare-and-swap loop.  One failed swap means another goroutine changed the counter, so
  the loop is also given as a run over the values the counter shows (\<open>grow_loop\<close>), which
  covers interleaved growth.
\<close>

section \<open>Shard identifiers\<close>

datatype shard_error = ErrNoSalt | ErrBadCount | ErrInvalidID | ErrNoCapacity

definition normalPrefix :: char where "normalPrefix = CHR ''s''"
definition greylistPrefix :: char where "greylistPrefix = CHR ''g''"
definition idWidth :: nat where "idWidth = 4"
definition zeroPad :: string where "zeroPad = ''0000''"
definition maxIDDigits :: nat where "maxIDDigits = 9"

definition pad :: "int \<Rightarrow> string" where
  "pad n = (let s = Itoa n in if length s \<ge> idWidth then s else take (idWidth - length s) zeroPad @ s)"

definition ID :: "int \<Rightarrow> string" where
  "ID n = normalPrefix # pad n"

definition GreylistID :: "int \<Rightarrow> string" where
  "GreylistID n = greylistPrefix # pad n"

definition Validate :: "string \<Rightarrow> shard_error option" where
  "Validate sid =
    (if length sid < 2 \<or> length sid - 1 > maxIDDigits then Some ErrInvalidID
     else if hd sid \<noteq> normalPrefix \<and> hd sid \<noteq> greylistPrefix then Some ErrInvalidID
     else if \<not> list_all is_digit (tl sid) then Some ErrInvalidID
     else None)"

definition ParseID :: "string \<Rightarrow> shard_error + int \<times> bool" where
  "ParseID sid =
    (case Validate sid of
       Some e \<Rightarrow> Inl e
     | None \<Rightarrow>
         (case Atoi (tl sid) of
            None \<Rightarrow> Inl ErrInvalidID
          | Some n \<Rightarrow> Inr (n, hd sid = greylistPrefix)))"

definition IsGreylist :: "string \<Rightarrow> bool" where
  "IsGreylist sid \<longleftrightarrow> length sid > 0 \<and> hd sid = greylistPrefix"

definition Greylist :: "string \<Rightarrow> shard_error + string" where
  "Greylist sid =
    (case Validate sid of Some e \<Rightarrow> Inl e | None \<Rightarrow> Inr (greylistPrefix # tl sid))"

definition Origin :: "string \<Rightarrow> shard_error + string" where
  "Origin sid =
    (case Validate sid of Some e \<Rightarrow> Inl e | None \<Rightarrow> Inr (normalPrefix # tl sid))"

lemmas prefix_chars [simp] = normalPrefix_def greylistPrefix_def

lemma Validate_None:
  "Validate sid = None \<longleftrightarrow>
    (\<exists>c ds. sid = c # ds \<and> (c = CHR ''s'' \<or> c = CHR ''g'') \<and> ds \<noteq> [] \<and> length ds \<le> 9 \<and>
      list_all is_digit ds)"
  by (cases sid) (auto simp: Validate_def maxIDDigits_def Suc_le_eq)

lemma digits_plain: "list_all is_digit ds \<Longrightarrow> plain ds"
proof -
  have "\<not> is_digit CHR ''{''" "\<not> is_digit CHR ''}''" "\<not> is_digit CHR '':''"
    by (simp_all add: is_digit_of_char)
  then show "list_all is_digit ds \<Longrightarrow> plain ds" by (auto simp: plain_def list_all_iff)
qed

lemma Validate_plain [simp]: "Validate sid = None \<Longrightarrow> plain sid"
  using digits_plain by (auto simp: Validate_None plain_def)

lemma pad_digits: "0 \<le> n \<Longrightarrow> list_all is_digit (pad n) \<and> pad n \<noteq> [] \<and> read_nat (pad n) = nat n"
proof -
  assume n: "0 \<le> n"
  have z: "take k zeroPad = replicate (min k 4) CHR ''0''" for k
    using take_replicate [of k 4 "CHR ''0''"] by (simp add: zeroPad_def numeral_eq_Suc min.commute)
  show ?thesis
    using n by (auto simp: pad_def Let_def Itoa_nonneg z read_nat_zeros list_all_iff is_digit_of_char
        show_nat_digits [unfolded list_all_iff is_digit_of_char, rule_format])
qed

lemma length_pad: "0 \<le> n \<Longrightarrow> n < 10 ^ 9 \<Longrightarrow> length (pad n) \<le> 9"
proof -
  assume n: "0 \<le> n" "n < 10 ^ 9"
  then have "nat n < 10 ^ 9" by simp
  then have "length (show_nat (nat n)) \<le> 9" by (rule length_show_nat) simp
  with n show ?thesis by (simp add: pad_def Let_def Itoa_nonneg idWidth_def zeroPad_def)
qed

lemma Validate_ID: "0 \<le> n \<Longrightarrow> n < 10 ^ 9 \<Longrightarrow> Validate (ID n) = None \<and> Validate (GreylistID n) = None"
  using pad_digits [of n] length_pad [of n]
  by (auto simp: Validate_None ID_def GreylistID_def)

lemma Atoi_pad: "0 \<le> n \<Longrightarrow> n < 10 ^ 9 \<Longrightarrow> Atoi (pad n) = Some n"
  using pad_digits [of n] length_pad [of n] Atoi_digits [of "pad n"] by simp

lemma Origin_Greylist:
  assumes "Validate sid = None"
  obtains g where "Greylist sid = Inr g" "Validate g = None" "IsGreylist g"
    "Origin g = Origin sid" "slotOf g = slotOf sid"
proof -
  obtain c ds where sid: "sid = c # ds" "c = CHR ''s'' \<or> c = CHR ''g''" "ds \<noteq> []"
    "length ds \<le> 9" "list_all is_digit ds"
    using assms by (auto simp: Validate_None)
  then have "Validate (CHR ''g'' # ds) = None" by (auto simp: Validate_None)
  with assms sid show thesis
    by (intro that [of "CHR ''g'' # ds"])
      (auto simp: Greylist_def Origin_def IsGreylist_def slotOf_def)
qed

section \<open>Assignment\<close>

record Assigner =
  a_salt :: string
  a_max :: int
  a_count :: int

definition NewAssigner :: "string \<Rightarrow> int \<Rightarrow> int \<Rightarrow> shard_error + Assigner" where
  "NewAssigner salt count mx =
    (if length salt = 0 then Inl ErrNoSalt
     else if mx \<le> 0 \<or> count \<le> 0 \<or> count > mx then Inl ErrBadCount
     else Inr \<lparr>a_salt = salt, a_max = mx, a_count = count\<rparr>)"

definition Index :: "Assigner \<Rightarrow> token \<Rightarrow> int" where
  "Index a tokenID =
    (let digest = hmac_sha256 (a_salt a) tokenID; n = be_uint64 digest
     in uint (n mod of_int (a_count a)))"

definition Assign :: "Assigner \<Rightarrow> token \<Rightarrow> string" where
  "Assign a tokenID = ID (Index a tokenID)"

text \<open>The compare-and-swap loop: \<open>cur\<close> is the value loaded, \<open>seen\<close> the values the counter
  has at the swaps of the iterations that follow; a swap succeeds when it still has the
  loaded value.  The result is the value returned and the value stored.\<close>

fun grow_loop :: "int \<Rightarrow> int \<Rightarrow> int list \<Rightarrow> (int \<times> int) option" where
  "grow_loop n cur seen =
    (if n \<le> cur then Some (cur, cur)
     else case seen of
            [] \<Rightarrow> None
          | v # vs \<Rightarrow> if v = cur then Some (n, n) else grow_loop n v vs)"

definition Grow :: "Assigner \<Rightarrow> int \<Rightarrow> (shard_error option \<times> int) \<times> Assigner" where
  "Grow a n =
    (if n > a_max a then ((Some ErrNoCapacity, a_count a), a)
     else case grow_loop n (a_count a) [a_count a] of
            None \<Rightarrow> ((None, a_count a), a)
          | Some (ret, new) \<Rightarrow> ((None, ret), a\<lparr>a_count := new\<rparr>))"

definition EnsureCapacity :: "Assigner \<Rightarrow> int \<Rightarrow> int \<Rightarrow> (shard_error option \<times> int) \<times> Assigner" where
  "EnsureCapacity a joined shardSize =
    (if shardSize \<le> 0 then ((Some ErrBadCount, a_count a), a)
     else let need = quot (joined + shardSize - 1) shardSize;
              need = (if need < 1 then 1 else need)
          in if need > a_max a
             then (case Grow a (a_max a) of ((_, n), a') \<Rightarrow> ((Some ErrNoCapacity, n), a'))
             else Grow a need)"

text \<open>\<open>Grower.once\<close>: a failed count leaves the assigner alone.\<close>

definition Grower_once :: "(string + int) \<Rightarrow> int \<Rightarrow> Assigner \<Rightarrow> Assigner" where
  "Grower_once totalWaiting shardSize a =
    (case totalWaiting of
       Inl _ \<Rightarrow> a
     | Inr waiting \<Rightarrow> snd (EnsureCapacity a waiting shardSize))"

definition assigner_ok :: "Assigner \<Rightarrow> bool" where
  "assigner_ok a \<longleftrightarrow> a_salt a \<noteq> [] \<and> 0 < a_count a \<and> a_count a \<le> a_max a"

lemma NewAssigner_ok: "NewAssigner salt c m = Inr a \<Longrightarrow> assigner_ok a"
  by (auto simp: NewAssigner_def assigner_ok_def split: if_splits)

lemma Grow_eq:
  "Grow a n = (if n > a_max a then ((Some ErrNoCapacity, a_count a), a)
    else ((None, max n (a_count a)), a\<lparr>a_count := max n (a_count a)\<rparr>))"
  by (simp add: Grow_def max_def)

lemma grow_loop_result: "grow_loop n cur seen = Some (ret, new) \<Longrightarrow> ret = new \<and> n \<le> new"
  by (induction n cur seen rule: grow_loop.induct) (auto split: if_splits list.splits)

lemma Index_eq:
  assumes "0 < a_count a" "a_count a < 2 ^ 64"
  shows "Index a t = uint (be_uint64 (hmac_sha256 (a_salt a) t)) mod a_count a"
  using assms by (simp add: Index_def Let_def uint_mod uint_word_of_int_eq take_bit_eq_mod)

section \<open>Properties\<close>

text \<open>
  Shard identifiers round-trip: parsing gives back the number and the kind, a shard and
  its greylist shard name each other, and they share one slot.
\<close>

theorem shard_ids_round_trip:
  assumes "0 \<le> n" "n < 10 ^ 9"
  shows "ParseID (ID n) = Inr (n, False) \<and> ParseID (GreylistID n) = Inr (n, True) \<and>
    Greylist (ID n) = Inr (GreylistID n) \<and> Origin (GreylistID n) = Inr (ID n) \<and>
    IsGreylist (GreylistID n) \<and> \<not> IsGreylist (ID n) \<and> slotOf (GreylistID n) = slotOf (ID n)"
  using Validate_ID [OF assms] Atoi_pad [OF assms] pad_digits [OF assms(1)]
  by (auto simp: ParseID_def Greylist_def Origin_def IsGreylist_def slotOf_def ID_def GreylistID_def)

theorem shard_ids_round_trip_witness:
  "ID 42 = ''s0042'' \<and> ParseID (ID 42) = Inr (42, False) \<and> Origin (GreylistID 42) = Inr ''s0042''"
proof -
  have "ID 42 = ''s0042''" by code_simp
  with shard_ids_round_trip [of 42] show ?thesis by simp
qed

text \<open>
  Every token is assigned to an existing shard: the index is below the current count and
  the identifier passes validation; and growing is monotone, bounded by the maximum, and makes
  room for everybody who has joined unless the maximum itself is too small, which is reported.
\<close>

theorem assignment_and_growth:
  assumes "NewAssigner salt count mx = Inr a0" "mx \<le> 10 ^ 9" "0 < sz" "0 \<le> joined"
    "a = a0\<lparr>a_count := c\<rparr>" "0 < c" "c \<le> mx"
  shows "0 \<le> Index a t \<and> Index a t < c \<and> Validate (Assign a t) = None \<and>
    (let ((e, n), a') = EnsureCapacity a joined sz
     in n = a_count a' \<and> c \<le> n \<and> n \<le> mx \<and>
        (e = None \<longrightarrow> joined \<le> n * sz) \<and> (e \<noteq> None \<longrightarrow> e = Some ErrNoCapacity \<and> n = mx \<and> mx * sz < joined))"
proof -
  have a: "a_count a = c" "a_max a = mx" using assms(1,5) by (auto simp: NewAssigner_def split: if_splits)
  have i: "0 \<le> Index a t" "Index a t < c"
    using Index_eq [of a t] a assms(2,6,7) by simp_all
  then have v: "Validate (Assign a t) = None"
    using Validate_ID [of "Index a t"] assms(2,7) by (simp add: Assign_def)
  let ?need = "(joined + sz - 1) div sz"
  have q: "quot (joined + sz - 1) sz = ?need"
    using assms(3,4) by (cases "joined + sz - 1 = 0") (simp_all add: quot_def)
  have n1: "joined \<le> ?need * sz"
  proof -
    have "joined + sz - 1 = ?need * sz + (joined + sz - 1) mod sz" by simp
    moreover have "(joined + sz - 1) mod sz \<le> sz - 1" using assms(3) by simp
    ultimately show ?thesis by linarith
  qed
  have mono: "joined \<le> n * sz" if "?need \<le> n" for n
    using n1 mult_right_mono [OF that, of sz] assms(3) by linarith
  have big: "mx * sz < joined" if "mx < ?need"
  proof -
    have "(mx + 1) * sz \<le> ?need * sz" using that assms(3) by (intro mult_right_mono) auto
    also have "\<dots> \<le> joined + sz - 1" using div_mult_mod_eq [of "joined + sz - 1" sz] pos_mod_sign [of sz "joined + sz - 1"] assms(3)
      by linarith
    finally show ?thesis by (simp add: distrib_right)
  qed
  have room: "joined \<le> max (if ?need < 1 then 1 else ?need) c * sz"
    by (rule mono) auto
  have "let ((e, n), a') = EnsureCapacity a joined sz
     in n = a_count a' \<and> c \<le> n \<and> n \<le> mx \<and>
        (e = None \<longrightarrow> joined \<le> n * sz) \<and> (e \<noteq> None \<longrightarrow> e = Some ErrNoCapacity \<and> n = mx \<and> mx * sz < joined)"
    using assms(3,6,7) room big
    by (auto simp: EnsureCapacity_def Grow_eq q a Let_def max_def split: if_splits)
  with i v show ?thesis by simp
qed

theorem assignment_and_growth_witness:
  "let a = \<lparr>a_salt = ''salt'', a_max = 8, a_count = 2\<rparr>
    in Index a ''token'' < 2 \<and> snd (fst (EnsureCapacity a 950 200)) = 5 \<and> 950 \<le> (5::int) * 200"
proof -
  let ?a = "\<lparr>a_salt = ''salt'', a_max = 8, a_count = 2\<rparr> :: Assigner"
  have n: "NewAssigner ''salt'' 1 8 = Inr \<lparr>a_salt = ''salt'', a_max = 8, a_count = 1\<rparr>" by code_simp
  have e: "EnsureCapacity ?a 950 200 = ((None, 5), ?a\<lparr>a_count := 5\<rparr>)" by code_simp
  from assignment_and_growth [OF n, of 200 950 ?a 2 "''token''"] e show ?thesis by simp
qed

end
