(* ===== verification/Redis.thy ===== *)
theory Redis
  imports Prelude
begin

text \<open>
  The store the services share: the Redis data structures the Lua scripts and the Go
  packages touch, with the commands they issue, and the client side of a script call
  (\<open>src/internal/redisx/redisx.go\<close>).

  \<^item> A sorted set is the list of its \<open>(score, member)\<close> pairs in Redis order (score, then
    member bytes).  \<open>zadd\<close>, \<open>zrem\<close>, \<open>zrank\<close>, \<open>zscore\<close>, \<open>zcard\<close> and \<open>zrange\<close> are the
    commands of the same names.  The locale \<open>ranked_set\<close> states what their clients rely
    on, proves the facts about ranks once, and is interpreted on this representation.
  \<^item> The keyspace is one record with a field per kind of value (sorted sets, user hashes,
    counters, plain strings, score hashes, sets), each indexed by the real key string; that
    the kinds never collide is a theorem on the key names (theory \<open>Keys\<close>).
  \<^item> Expiry: hashes, counters and strings carry an absolute deadline, and every read
    compares it with the server clock, which stands still while a script runs.
  \<^item> Numbers in hashes and scores are integers: all of them are ranks, counters or
    millisecond timestamps below \<open>2 ^ 53\<close>, on which Lua's doubles are exact.
\<close>

section \<open>Sorted sets\<close>

type_synonym zset = "(int \<times> string) list"

definition zscore :: "zset \<Rightarrow> string \<Rightarrow> int option" where
  "zscore z m = map_option fst (List.find (\<lambda>p. snd p = m) z)"

definition zrem :: "zset \<Rightarrow> string \<Rightarrow> zset" where
  "zrem z m = filter (\<lambda>p. snd p \<noteq> m) z"

definition zadd :: "zset \<Rightarrow> int \<Rightarrow> string \<Rightarrow> zset" where
  "zadd z s m = insort (s, m) (zrem z m)"

definition zrank :: "zset \<Rightarrow> string \<Rightarrow> int option" where
  "zrank z m =
    (let ahead = takeWhile (\<lambda>p. snd p \<noteq> m) z
     in if length ahead < length z then Some (int (length ahead)) else None)"

definition zcard :: "zset \<Rightarrow> int" where
  "zcard z = int (length z)"

text \<open>\<open>ZRANGE start stop\<close> by index, with Redis's reading of negative indices.\<close>

definition zrange :: "zset \<Rightarrow> int \<Rightarrow> int \<Rightarrow> string list" where
  "zrange z start stop =
    (let n = zcard z;
         a = max 0 (if start < 0 then start + n else start);
         b = min (n - 1) (if stop < 0 then stop + n else stop)
     in if a > b \<or> a \<ge> n then [] else map snd (take (nat (b - a + 1)) (drop (nat a) z)))"

definition zmembers :: "zset \<Rightarrow> string set" where
  "zmembers z = snd ` set z"

definition zwf :: "zset \<Rightarrow> bool" where
  "zwf z \<longleftrightarrow> sorted z \<and> distinct (map snd z)"

subsection \<open>The interface and the facts about ranks it gives\<close>

locale ranked_set =
  fixes add :: "'z \<Rightarrow> int \<Rightarrow> string \<Rightarrow> 'z"
    and remove :: "'z \<Rightarrow> string \<Rightarrow> 'z"
    and score :: "'z \<Rightarrow> string \<Rightarrow> int option"
    and rank :: "'z \<Rightarrow> string \<Rightarrow> int option"
    and size_of :: "'z \<Rightarrow> int"
    and invar :: "'z \<Rightarrow> bool"
  assumes invar_add: "invar z \<Longrightarrow> invar (add z s m)"
    and invar_remove: "invar z \<Longrightarrow> invar (remove z m)"
    and score_add: "invar z \<Longrightarrow> score (add z s m) = (score z)(m \<mapsto> s)"
    and score_remove: "invar z \<Longrightarrow> score (remove z m) = (score z)(m := None)"
    and finite_score: "invar z \<Longrightarrow> finite (dom (score z))"
    and size_score: "invar z \<Longrightarrow> size_of z = int (card (dom (score z)))"
    and rank_None: "invar z \<Longrightarrow> score z m = None \<Longrightarrow> rank z m = None"
    and rank_score: "invar z \<Longrightarrow> score z m = Some s \<Longrightarrow>
      rank z m = Some (int (card {m' \<in> dom (score z). (the (score z m'), m') < (s, m)}))"
begin

definition ahead :: "'z \<Rightarrow> int \<Rightarrow> string \<Rightarrow> string set" where
  "ahead z s m = {m' \<in> dom (score z). (the (score z m'), m') < (s, m)}"

lemma finite_ahead: "invar z \<Longrightarrow> finite (ahead z s m)"
  unfolding ahead_def using finite_score by simp

lemma rank_ahead: "invar z \<Longrightarrow> score z m = Some s \<Longrightarrow> rank z m = Some (int (card (ahead z s m)))"
  by (simp add: rank_score ahead_def)

lemma rank_Some_iff: "invar z \<Longrightarrow> (\<exists>r. rank z m = Some r) \<longleftrightarrow> (\<exists>s. score z m = Some s)"
  by (cases "score z m") (auto simp: rank_None rank_score)

lemma rank_nonneg: "invar z \<Longrightarrow> rank z m = Some r \<Longrightarrow> 0 \<le> r"
  by (cases "score z m") (auto simp: rank_None rank_score)

lemma rank_less_size:
  assumes "invar z" "rank z m = Some r"
  shows "r < size_of z"
proof -
  obtain s where s: "score z m = Some s"
    using assms rank_Some_iff by blast
  have "m \<notin> ahead z s m" "m \<in> dom (score z)" "ahead z s m \<subseteq> dom (score z)"
    using s by (auto simp: ahead_def)
  then have "ahead z s m \<subset> dom (score z)" by blast
  then have "card (ahead z s m) < card (dom (score z))"
    by (intro psubset_card_mono finite_score assms(1))
  with assms s show ?thesis by (simp add: rank_ahead size_score)
qed

lemma rank_mono:
  assumes z: "invar z" and m: "score z m = Some s" and m': "score z m' = Some s'"
    and lt: "(s, m) < (s', m')"
  shows "the (rank z m) < the (rank z m')"
proof -
  have "m \<in> ahead z s' m'" "m \<notin> ahead z s m"
    using m lt by (auto simp: ahead_def)
  moreover have "ahead z s m \<subseteq> ahead z s' m'"
    using lt by (auto simp: ahead_def)
  ultimately have "ahead z s m \<subset> ahead z s' m'" by blast
  then have "card (ahead z s m) < card (ahead z s' m')"
    by (intro psubset_card_mono finite_ahead z)
  with z m m' show ?thesis by (simp add: rank_ahead)
qed

lemma rank_inj:
  assumes "invar z" "rank z m = Some r" "rank z m' = Some r"
  shows "m = m'"
proof (rule ccontr)
  assume ne: "m \<noteq> m'"
  obtain s s' where ss: "score z m = Some s" "score z m' = Some s'"
    using assms rank_Some_iff by blast
  from ne consider "(s, m) < (s', m')" | "(s', m') < (s, m)"
    by (metis neq_iff prod.inject)
  then show False
    using rank_mono [OF assms(1)] ss assms by cases fastforce+
qed

lemma rank_remove_other:
  assumes z: "invar z" and m: "score z m = Some s" and ne: "m' \<noteq> m"
  shows "rank (remove z m') m =
    Some (the (rank z m) - (if m' \<in> ahead z s m then 1 else 0))"
proof -
  have m2: "score (remove z m') m = Some s"
    using z m ne by (simp add: score_remove)
  have eq: "ahead (remove z m') s m = ahead z s m - {m'}"
    using z by (auto simp: ahead_def score_remove)
  have "card (ahead z s m) \<ge> 1" if "m' \<in> ahead z s m"
    using that finite_ahead [OF z] by (metis One_nat_def Suc_leI card_gt_0_iff empty_iff)
  then show ?thesis
    using z m m2 finite_ahead [OF z]
    by (auto simp: rank_ahead invar_remove eq card_Diff_singleton_if of_nat_diff)
qed

lemma rank_remove_le:
  assumes "invar z" "score z m = Some s" "m' \<noteq> m"
  shows "the (rank (remove z m') m) \<le> the (rank z m)"
  using rank_remove_other [OF assms] by simp

lemma rank_add_behind:
  assumes z: "invar z" and m: "score z m = Some s" and new: "score z m' = None"
    and lt: "(s, m) < (s', m')"
  shows "rank (add z s' m') m = rank z m"
proof -
  have ne: "m \<noteq> m'" using m new by auto
  have "ahead (add z s' m') s m = ahead z s m"
    using z new lt ne by (auto simp: ahead_def score_add)
  with z m ne show ?thesis by (simp add: rank_ahead invar_add score_add)
qed

end

subsection \<open>The sorted-list representation provides it\<close>

lemma zscore_eq_map_of: "zscore z m = map_of (map prod.swap z) m"
  by (induction z) (auto simp: zscore_def)

lemma map_of_swap_filter:
  "map_of (map prod.swap (filter (\<lambda>p. snd p \<noteq> m) z)) = (map_of (map prod.swap z))(m := None)"
  by (induction z) (auto simp: fun_eq_iff)

lemma map_of_swap_insort:
  "m \<notin> snd ` set z \<Longrightarrow>
    map_of (map prod.swap (insort (s, m) z)) = (map_of (map prod.swap z))(m \<mapsto> s)"
  by (induction z) (auto simp: fun_eq_iff)

lemma distinct_snd_insort:
  "distinct (map snd (insort (s, m) z)) \<longleftrightarrow> distinct (map snd z) \<and> m \<notin> snd ` set z"
  by (induction z) (auto simp: set_insort_key)

lemma zwf_zrem: "zwf z \<Longrightarrow> zwf (zrem z m)"
  using sorted_filter [of id z]
  by (auto simp: zwf_def zrem_def distinct_map inj_on_def)

lemma zwf_zadd: "zwf z \<Longrightarrow> zwf (zadd z s m)"
proof -
  assume "zwf z"
  then have "zwf (zrem z m)" by (rule zwf_zrem)
  moreover have "m \<notin> snd ` set (zrem z m)" by (auto simp: zrem_def)
  ultimately show ?thesis
    by (simp add: zwf_def zadd_def distinct_snd_insort sorted_insort)
qed

lemma dom_zscore: "dom (zscore z) = zmembers z"
proof -
  have "dom (map_of (map prod.swap z)) = fst ` set (map prod.swap z)"
    by (rule dom_map_of_conv_image_fst)
  then show ?thesis
    by (simp add: zscore_eq_map_of [abs_def] zmembers_def image_image)
qed

lemma zscore_mem: "zwf z \<Longrightarrow> zscore z m = Some s \<longleftrightarrow> (s, m) \<in> set z"
  unfolding zscore_eq_map_of zwf_def
  by (subst map_of_eq_Some_iff) (force simp: comp_def)+

lemma zcard_card: "zwf z \<Longrightarrow> zcard z = int (card (dom (zscore z)))"
  by (simp add: dom_zscore zmembers_def zcard_def zwf_def distinct_card flip: set_map)

lemma takeWhile_less_sorted:
  assumes "sorted z" "distinct (map snd z)" "(s, m) \<in> set z"
  shows "set (takeWhile (\<lambda>p. snd p \<noteq> m) z) = {p \<in> set z. p < (s, m)}"
  using assms
proof (induction z)
  case Nil
  then show ?case by simp
next
  case (Cons p z)
  show ?case
  proof (cases "snd p = m")
    case True
    have "(s, m) \<notin> set z" using Cons.prems(2) True by (force simp: image_iff)
    with Cons.prems(3) have p: "p = (s, m)" by auto
    have "\<not> q < (s, m)" if "q \<in> set z" for q
      using that Cons.prems(1) p by auto
    with p True show ?thesis by auto
  next
    case False
    with Cons.prems have mem: "(s, m) \<in> set z" by auto
    with Cons.prems(1) False have "p < (s, m)" by (auto simp: less_le)
    with False mem Cons show ?thesis by auto
  qed
qed

lemma zrank_ahead:
  assumes "zwf z" "zscore z m = Some s"
  shows "zrank z m = Some (int (card {m' \<in> dom (zscore z). (the (zscore z m'), m') < (s, m)}))"
proof -
  let ?tw = "takeWhile (\<lambda>p. snd p \<noteq> m) z"
  have mem: "(s, m) \<in> set z" and wf: "sorted z" "distinct (map snd z)"
    using assms by (simp_all add: zscore_mem zwf_def)
  have "distinct (map snd ?tw)"
    using wf(2) by (metis distinct_append map_append takeWhile_dropWhile_id)
  then have "length ?tw = card (snd ` set ?tw)"
    by (metis distinct_card length_map set_map)
  also have "snd ` set ?tw = snd ` {p \<in> set z. p < (s, m)}"
    by (simp add: takeWhile_less_sorted [OF wf mem])
  also have "\<dots> = {m' \<in> dom (zscore z). (the (zscore z m'), m') < (s, m)}"
  proof (intro set_eqI iffI)
    fix x assume "x \<in> snd ` {p \<in> set z. p < (s, m)}"
    then obtain t where "(t, x) \<in> set z" and lt: "(t, x) < (s, m)" by force
    then have "zscore z x = Some t" by (simp add: zscore_mem assms(1))
    with lt show "x \<in> {m' \<in> dom (zscore z). (the (zscore z m'), m') < (s, m)}" by auto
  next
    fix x assume "x \<in> {m' \<in> dom (zscore z). (the (zscore z m'), m') < (s, m)}"
    then obtain t where "zscore z x = Some t" and lt: "(t, x) < (s, m)" by auto
    then have "(t, x) \<in> set z" by (simp add: zscore_mem assms(1))
    with lt show "x \<in> snd ` {p \<in> set z. p < (s, m)}" by force
  qed
  finally have len: "length ?tw = card {m' \<in> dom (zscore z). (the (zscore z m'), m') < (s, m)}" .
  have "length ?tw < length z"
    unfolding filter_takeWhile_length using mem by force
  then show ?thesis
    unfolding zrank_def Let_def len [symmetric] by simp
qed

interpretation zs: ranked_set zadd zrem zscore zrank zcard zwf
proof unfold_locales
  fix z s m
  assume z: "zwf z"
  show "zwf (zadd z s m)" "zwf (zrem z m)" using z by (rule zwf_zadd zwf_zrem)+
  show "zscore (zadd z s m) = (zscore z)(m \<mapsto> s)"
  proof -
    have "m \<notin> snd ` set (zrem z m)" by (auto simp: zrem_def)
    then show ?thesis
      unfolding zscore_eq_map_of [abs_def] zadd_def
      by (simp add: map_of_swap_insort zrem_def map_of_swap_filter)
  qed
  show "zscore (zrem z m) = (zscore z)(m := None)"
    by (simp add: zscore_eq_map_of [abs_def] zrem_def map_of_swap_filter)
  show "finite (dom (zscore z))" by (simp add: dom_zscore zmembers_def)
  show "zcard z = int (card (dom (zscore z)))" using z by (rule zcard_card)
  show "zscore z m = None \<Longrightarrow> zrank z m = None"
    using dom_zscore [of z]
    by (force simp: zrank_def Let_def filter_takeWhile_length zmembers_def)
  show "zscore z m = Some s \<Longrightarrow>
      zrank z m = Some (int (card {m' \<in> dom (zscore z). (the (zscore z m'), m') < (s, m)}))"
    using z by (rule zrank_ahead)
qed

lemmas zset_laws [simp] = zs.invar_add zs.invar_remove zs.score_add zs.score_remove

lemma zwf_Nil [simp]: "zwf []" by (simp add: zwf_def)

lemma zscore_Nil [simp]: "zscore [] m = None" by (simp add: zscore_def)

lemma zrange_members: "m \<in> set (zrange z a b) \<Longrightarrow> zscore z m \<noteq> None"
proof -
  assume "m \<in> set (zrange z a b)"
  then have "m \<in> zmembers z"
    by (auto simp: zrange_def Let_def zmembers_def split: if_splits
        dest!: in_set_takeD in_set_dropD)
  then show ?thesis using dom_zscore by fastforce
qed

lemma zrange_length:
  assumes "0 \<le> a" "0 < n"
  shows "int (length (zrange z a (a + n - 1))) \<le> n" "length (zrange z a (a + n - 1)) \<le> length z"
  using assms by (auto simp: zrange_def Let_def zcard_def)

lemma zrange_distinct: "zwf z \<Longrightarrow> distinct (zrange z a b)"
  by (auto simp: zrange_def Let_def zwf_def distinct_take distinct_drop
      simp flip: take_map drop_map)

section \<open>The keyspace\<close>

text \<open>
  The user hash \<open>user:{event:slot}:<token>\<close>: one optional field per hash field the
  scripts read or write, \<open>None\<close> for a field the hash does not have.
\<close>

record user_hash =
  u_state :: "string option"
  u_shard :: "string option"
  u_orig_shard :: "string option"
  u_orig_rank :: "int option"
  u_segment :: "string option"
  u_score :: "int option"
  u_fp_hash :: "string option"
  u_ip_prefix :: "string option"
  u_joined_at :: "int option"
  u_last_seen :: "int option"
  u_hb_count :: "int option"
  u_evict_at :: "int option"
  u_evicted_at :: "int option"
  u_admitted_at :: "int option"
  u_entry_jti :: "string option"
  u_redeemed_at :: "int option"
  u_rc_count :: "int option"
  u_rc_at :: "int option"
  u_scored_at :: "int option"
  u_held_at :: "int option"
  u_blocked_at :: "int option"
  u_greylisted_at :: "int option"
  u_restored_at :: "int option"
  u_observe_from :: "int option"
  u_hb_base :: "int option"

definition no_user :: user_hash where
  "no_user = \<lparr>u_state = None, u_shard = None, u_orig_shard = None, u_orig_rank = None,
    u_segment = None, u_score = None, u_fp_hash = None, u_ip_prefix = None,
    u_joined_at = None, u_last_seen = None, u_hb_count = None, u_evict_at = None,
    u_evicted_at = None, u_admitted_at = None, u_entry_jti = None, u_redeemed_at = None,
    u_rc_count = None, u_rc_at = None, u_scored_at = None, u_held_at = None,
    u_blocked_at = None, u_greylisted_at = None, u_restored_at = None,
    u_observe_from = None, u_hb_base = None\<rparr>"

type_synonym deadline = "millis option"

record redis =
  zsets :: "key \<Rightarrow> zset"
  users :: "key \<rightharpoonup> user_hash \<times> deadline"
  counters :: "key \<rightharpoonup> int \<times> deadline"
  strings :: "key \<rightharpoonup> string \<times> deadline"
  scores :: "key \<Rightarrow> token \<rightharpoonup> int"
  sets :: "key \<Rightarrow> string set"
  clock :: millis
  loaded :: "string set" \<comment> \<open>the script cache: digests \<open>EVALSHA\<close> finds\<close>

definition empty_redis :: redis where
  "empty_redis = \<lparr>zsets = (\<lambda>_. []), users = Map.empty, counters = Map.empty,
    strings = Map.empty, scores = (\<lambda>_. Map.empty), sets = (\<lambda>_. {}), clock = 0, loaded = {}\<rparr>"

definition alive :: "redis \<Rightarrow> deadline \<Rightarrow> bool" where
  "alive r d = (case d of None \<Rightarrow> True | Some t \<Rightarrow> clock r < t)"

definition live :: "redis \<Rightarrow> ('v \<times> deadline) option \<Rightarrow> 'v option" where
  "live r e = (case e of None \<Rightarrow> None | Some (v, d) \<Rightarrow> if alive r d then Some v else None)"

subsection \<open>Commands on user hashes\<close>

definition user_get :: "redis \<Rightarrow> key \<Rightarrow> user_hash option" where
  "user_get r k = live r (users r k)"

definition hget :: "redis \<Rightarrow> key \<Rightarrow> (user_hash \<Rightarrow> 'a option) \<Rightarrow> 'a option" where
  "hget r k f = (case user_get r k of None \<Rightarrow> None | Some h \<Rightarrow> f h)"

text \<open>
  \<open>HSET\<close>, \<open>HDEL\<close> and \<open>HINCRBY\<close> change fields and keep the expiry of an existing hash; on
  a key that is gone, \<open>HSET\<close> starts a fresh hash without expiry.
\<close>

definition hset :: "redis \<Rightarrow> key \<Rightarrow> (user_hash \<Rightarrow> user_hash) \<Rightarrow> redis" where
  "hset r k f =
    (case user_get r k of
       None \<Rightarrow> r\<lparr>users := (users r)(k \<mapsto> (f no_user, None))\<rparr>
     | Some h \<Rightarrow> r\<lparr>users := (users r)(k \<mapsto> (f h, snd (the (users r k))))\<rparr>)"

definition del_user :: "redis \<Rightarrow> key \<Rightarrow> redis" where
  "del_user r k = r\<lparr>users := (users r)(k := None)\<rparr>"

text \<open>\<open>PEXPIRE\<close> with a time in the past deletes the key.\<close>

definition pexpire :: "redis \<Rightarrow> key \<Rightarrow> millis \<Rightarrow> redis" where
  "pexpire r k ms =
    (case user_get r k of
       None \<Rightarrow> r
     | Some h \<Rightarrow> if ms \<le> 0 then del_user r k
                 else r\<lparr>users := (users r)(k \<mapsto> (h, Some (clock r + ms)))\<rparr>)"

subsection \<open>Commands on sorted sets, counters and strings\<close>

definition ZADD :: "redis \<Rightarrow> key \<Rightarrow> int \<Rightarrow> string \<Rightarrow> redis" where
  "ZADD r k s m = r\<lparr>zsets := (zsets r)(k := zadd (zsets r k) s m)\<rparr>"

definition ZREM :: "redis \<Rightarrow> key \<Rightarrow> string \<Rightarrow> redis" where
  "ZREM r k m = r\<lparr>zsets := (zsets r)(k := zrem (zsets r k) m)\<rparr>"

definition counter_get :: "redis \<Rightarrow> key \<Rightarrow> int option" where
  "counter_get r k = live r (counters r k)"

text \<open>\<open>INCR\<close> and \<open>DECR\<close> start at 0 on a missing key and keep an existing expiry.\<close>

definition incr_by :: "redis \<Rightarrow> key \<Rightarrow> int \<Rightarrow> int \<times> redis" where
  "incr_by r k d =
    (case counter_get r k of
       None \<Rightarrow> (d, r\<lparr>counters := (counters r)(k \<mapsto> (d, None))\<rparr>)
     | Some n \<Rightarrow> (n + d, r\<lparr>counters := (counters r)(k \<mapsto> (n + d, snd (the (counters r k))))\<rparr>))"

definition set_counter_px :: "redis \<Rightarrow> key \<Rightarrow> int \<Rightarrow> millis \<Rightarrow> redis" where
  "set_counter_px r k v ms = r\<lparr>counters := (counters r)(k \<mapsto> (v, Some (clock r + ms)))\<rparr>"

definition string_get :: "redis \<Rightarrow> key \<Rightarrow> string option" where
  "string_get r k = live r (strings r k)"

definition set_string_px :: "redis \<Rightarrow> key \<Rightarrow> string \<Rightarrow> millis \<Rightarrow> redis" where
  "set_string_px r k v ms = r\<lparr>strings := (strings r)(k \<mapsto> (v, Some (clock r + ms)))\<rparr>"

definition del_string :: "redis \<Rightarrow> key \<Rightarrow> redis" where
  "del_string r k = r\<lparr>strings := (strings r)(k := None)\<rparr>"

definition hset_score :: "redis \<Rightarrow> key \<Rightarrow> token \<Rightarrow> int \<Rightarrow> redis" where
  "hset_score r k t v = r\<lparr>scores := (scores r)(k := (scores r k)(t \<mapsto> v))\<rparr>"

text \<open>Time passes on the server; nothing is written.\<close>

definition tick :: "millis \<Rightarrow> redis \<Rightarrow> redis" where
  "tick d r = r\<lparr>clock := clock r + d\<rparr>"

subsection \<open>Reads after writes\<close>

lemma alive_frame [simp]:
  "alive (r\<lparr>zsets := a\<rparr>) d = alive r d" "alive (r\<lparr>users := b\<rparr>) d = alive r d"
  "alive (r\<lparr>counters := c\<rparr>) d = alive r d" "alive (r\<lparr>strings := e\<rparr>) d = alive r d"
  "alive (r\<lparr>scores := f\<rparr>) d = alive r d" "alive (r\<lparr>sets := g\<rparr>) d = alive r d"
  "alive (r\<lparr>loaded := h\<rparr>) d = alive r d"
  by (simp_all add: alive_def split: option.split)

lemma live_frame [simp]:
  "live (r\<lparr>zsets := a\<rparr>) = live r" "live (r\<lparr>users := b\<rparr>) = live r"
  "live (r\<lparr>counters := c\<rparr>) = live r" "live (r\<lparr>strings := e\<rparr>) = live r"
  "live (r\<lparr>scores := f\<rparr>) = live r" "live (r\<lparr>sets := g\<rparr>) = live r"
  "live (r\<lparr>loaded := h\<rparr>) = live r"
  by (simp_all add: live_def fun_eq_iff split: option.split)

lemma live_SomeD: "live r e = Some v \<Longrightarrow> \<exists>d. e = Some (v, d) \<and> alive r d"
  by (auto simp: live_def split: option.splits if_splits)

lemma live_Some_None [simp]: "live r (Some (v, None)) = Some v"
  by (simp add: live_def alive_def)

lemma live_None [simp]: "live r None = None"
  by (simp add: live_def)

lemma live_deadline [simp]: "0 < ms \<Longrightarrow> live r (Some (v, Some (clock r + ms))) = Some v"
  by (simp add: live_def alive_def)

lemma user_get_hset [redis_simps]:
  "user_get (hset r k f) k' =
    (if k' = k then Some (f (or_else (user_get r k) no_user)) else user_get r k')"
proof (cases "user_get r k")
  case None
  then show ?thesis by (simp add: hset_def user_get_def)
next
  case (Some h)
  then obtain d where "users r k = Some (h, d)" "alive r d"
    by (auto simp: user_get_def dest: live_SomeD)
  with Some show ?thesis by (simp add: hset_def user_get_def live_def)
qed

lemma user_get_del [redis_simps]:
  "user_get (del_user r k) k' = (if k' = k then None else user_get r k')"
  by (simp add: user_get_def del_user_def)

lemma user_get_pexpire [redis_simps]:
  "user_get (pexpire r k ms) k' = (if k' = k \<and> ms \<le> 0 then None else user_get r k')"
proof (cases "user_get r k")
  case None
  then show ?thesis by (simp add: pexpire_def)
next
  case (Some h)
  then have "pexpire r k ms = (if ms \<le> 0 then del_user r k
      else r\<lparr>users := (users r)(k \<mapsto> (h, Some (clock r + ms)))\<rparr>)"
    by (simp add: pexpire_def)
  with Some show ?thesis
    by (simp add: user_get_del) (simp add: user_get_def)
qed

lemma user_get_frame [redis_simps]:
  "user_get (ZADD r q s m) k = user_get r k"
  "user_get (ZREM r q m) k = user_get r k"
  "user_get (snd (incr_by r c d)) k = user_get r k"
  "user_get (set_counter_px r c v ms) k = user_get r k"
  "user_get (set_string_px r e s' ms) k = user_get r k"
  "user_get (del_string r e) k = user_get r k"
  "user_get (hset_score r c t v) k = user_get r k"
  by (simp_all add: user_get_def ZADD_def ZREM_def incr_by_def set_counter_px_def
      set_string_px_def del_string_def hset_score_def split: option.splits)

lemma zsets_after [redis_simps]:
  "zsets (ZADD r q s m) k = (if k = q then zadd (zsets r q) s m else zsets r k)"
  "zsets (ZREM r q m) k = (if k = q then zrem (zsets r q) m else zsets r k)"
  "zsets (hset r u f) = zsets r"
  "zsets (del_user r u) = zsets r"
  "zsets (pexpire r u ms) = zsets r"
  "zsets (snd (incr_by r c d)) = zsets r"
  "zsets (set_counter_px r c v ms) = zsets r"
  "zsets (set_string_px r e s' ms) = zsets r"
  "zsets (del_string r e) = zsets r"
  "zsets (hset_score r c t v) = zsets r"
  by (simp_all add: ZADD_def ZREM_def hset_def del_user_def pexpire_def incr_by_def
      set_counter_px_def set_string_px_def del_string_def hset_score_def split: option.splits)

lemma counter_after [redis_simps]:
  "counter_get (ZADD r q s m) k = counter_get r k"
  "counter_get (ZREM r q m) k = counter_get r k"
  "counter_get (hset r u f) k = counter_get r k"
  "counter_get (del_user r u) k = counter_get r k"
  "counter_get (pexpire r u ms) k = counter_get r k"
  "counter_get (set_string_px r e s' ms) k = counter_get r k"
  "counter_get (del_string r e) k = counter_get r k"
  "counter_get (hset_score r c t v) k = counter_get r k"
  by (simp_all add: counter_get_def ZADD_def ZREM_def hset_def del_user_def pexpire_def
      set_string_px_def del_string_def hset_score_def split: option.splits)

lemma counter_set [redis_simps]:
  "0 < ms \<Longrightarrow> counter_get (set_counter_px r c v ms) k = (if k = c then Some v else counter_get r k)"
  by (simp add: counter_get_def set_counter_px_def)

lemma counter_incr [redis_simps]:
  "counter_get (snd (incr_by r c d)) k =
    (if k = c then Some (or_else (counter_get r c) 0 + d) else counter_get r k)"
  "fst (incr_by r c d) = or_else (counter_get r c) 0 + d"
proof -
  show "fst (incr_by r c d) = or_else (counter_get r c) 0 + d"
    by (simp add: incr_by_def split: option.splits)
  show "counter_get (snd (incr_by r c d)) k =
    (if k = c then Some (or_else (counter_get r c) 0 + d) else counter_get r k)"
  proof (cases "counter_get r c")
    case None
    then show ?thesis by (simp add: incr_by_def counter_get_def)
  next
    case (Some n)
    then obtain d' where "counters r c = Some (n, d')" "alive r d'"
      by (auto simp: counter_get_def dest: live_SomeD)
    with Some show ?thesis by (simp add: incr_by_def counter_get_def live_def)
  qed
qed

lemma string_after [redis_simps]:
  "string_get (ZADD r q s m) k = string_get r k"
  "string_get (ZREM r q m) k = string_get r k"
  "string_get (hset r u f) k = string_get r k"
  "string_get (del_user r u) k = string_get r k"
  "string_get (pexpire r u ms) k = string_get r k"
  "string_get (snd (incr_by r c d)) k = string_get r k"
  "string_get (set_counter_px r c v ms) k = string_get r k"
  "string_get (hset_score r c t v) k = string_get r k"
  "string_get (del_string r e) k = (if k = e then None else string_get r k)"
  by (simp_all add: string_get_def ZADD_def ZREM_def hset_def del_user_def pexpire_def
      incr_by_def set_counter_px_def hset_score_def del_string_def split: option.splits)

lemma string_set [redis_simps]:
  "0 < ms \<Longrightarrow> string_get (set_string_px r e v ms) k = (if k = e then Some v else string_get r k)"
  by (simp add: string_get_def set_string_px_def)

lemma scores_after [redis_simps]:
  "scores (ZADD r q s m) = scores r"
  "scores (ZREM r q m) = scores r"
  "scores (hset r u f) = scores r"
  "scores (del_user r u) = scores r"
  "scores (pexpire r u ms) = scores r"
  "scores (snd (incr_by r c d)) = scores r"
  "scores (set_counter_px r c v ms) = scores r"
  "scores (set_string_px r e s' ms) = scores r"
  "scores (del_string r e) = scores r"
  "scores (hset_score r c t v) = (scores r)(c := (scores r c)(t \<mapsto> v))"
  by (simp_all add: ZADD_def ZREM_def hset_def del_user_def pexpire_def incr_by_def
      set_counter_px_def set_string_px_def del_string_def hset_score_def split: option.splits)

lemma clock_after [redis_simps]:
  "clock (ZADD r q s m) = clock r"
  "clock (ZREM r q m) = clock r"
  "clock (hset r u f) = clock r"
  "clock (del_user r u) = clock r"
  "clock (pexpire r u ms) = clock r"
  "clock (snd (incr_by r c d)) = clock r"
  "clock (set_counter_px r c v ms) = clock r"
  "clock (set_string_px r e s' ms) = clock r"
  "clock (del_string r e) = clock r"
  "clock (hset_score r c t v) = clock r"
  by (simp_all add: ZADD_def ZREM_def hset_def del_user_def pexpire_def incr_by_def
      set_counter_px_def set_string_px_def del_string_def hset_score_def split: option.splits)

lemma hget_Some: "hget r k f = Some v \<longleftrightarrow> (\<exists>h. user_get r k = Some h \<and> f h = Some v)"
  by (simp add: hget_def split: option.splits)

lemma user_get_tick: "0 \<le> d \<Longrightarrow> user_get (tick d r) k = Some h \<Longrightarrow> user_get r k = Some h"
  by (auto simp: user_get_def tick_def live_def alive_def split: option.splits if_splits)

section \<open>Calling a script\<close>

text \<open>
  A Lua value of a reply, the errors a call can end with, and what the network may do to
  one round trip: deliver it, lose the request, or lose the reply of a request that was
  carried out.  A retry by the client library is a further call.
\<close>

datatype lval = LInt int | LStr string

datatype redis_error = NoScript | Network | ScriptError string

datatype link = Delivered | RequestLost | ReplyLost

type_synonym script = "redis \<Rightarrow> (string + lval list) \<times> redis"

record Script =
  script_name :: string
  script_sha :: string
  script_body :: script

definition evalsha_server :: "Script \<Rightarrow> redis \<Rightarrow> (redis_error + lval list) \<times> redis" where
  "evalsha_server sc r =
    (if script_sha sc \<in> loaded r
     then (case script_body sc r of
             (Inl e, r') \<Rightarrow> (Inl (ScriptError e), r')
           | (Inr v, r') \<Rightarrow> (Inr v, r'))
     else (Inl NoScript, r))"

definition EvalSha :: "link \<Rightarrow> Script \<Rightarrow> redis \<Rightarrow> (redis_error + lval list) \<times> redis" where
  "EvalSha l sc r =
    (case l of
       Delivered \<Rightarrow> evalsha_server sc r
     | RequestLost \<Rightarrow> (Inl Network, r)
     | ReplyLost \<Rightarrow> (Inl Network, snd (evalsha_server sc r)))"

definition ScriptLoad :: "link \<Rightarrow> Script \<Rightarrow> redis \<Rightarrow> (redis_error + unit) \<times> redis" where
  "ScriptLoad l sc r =
    (let r' = r\<lparr>loaded := insert (script_sha sc) (loaded r)\<rparr>
     in case l of Delivered \<Rightarrow> (Inr (), r')
        | RequestLost \<Rightarrow> (Inl Network, r) | ReplyLost \<Rightarrow> (Inl Network, r'))"

definition isNoScript :: "redis_error \<Rightarrow> bool" where
  "isNoScript e \<longleftrightarrow> e = NoScript"

record net =
  link1 :: link
  link_load :: link
  link2 :: link

definition Run :: "net \<Rightarrow> Script \<Rightarrow> redis \<Rightarrow> (redis_error + lval list) \<times> redis" where
  "Run n sc r =
    (case EvalSha (link1 n) sc r of
       (Inr v, r1) \<Rightarrow> (Inr v, r1)
     | (Inl e, r1) \<Rightarrow>
         if isNoScript e then
           (case ScriptLoad (link_load n) sc r1 of
              (Inl le, r2) \<Rightarrow> (Inl le, r2)
            | (Inr _, r2) \<Rightarrow> EvalSha (link2 n) sc r2)
         else (Inl e, r1))"

end
