(* ===== verification/QueueScripts.thy ===== *)
theory QueueScripts
  imports Redis Keys
begin

text \<open>
  The Lua scripts of the waiting queue (\<open>src/scripts/lua/\<close>): \<open>enqueue\<close>, \<open>position\<close>,
  \<open>heartbeat\<close>, \<open>evict\<close> and \<open>rechallenge\<close>.  A script is a function of its \<open>KEYS\<close> and
  \<open>ARGV\<close> on the store, returning the reply array (or a script error) and the new store;
  Redis runs it atomically.  Each definition follows the script line by line: \<open>hget\<close> is a
  field of an \<open>HMGET\<close> reply, \<open>or_else x d\<close> is Lua's \<open>x or d\<close>, and a rank or score that
  Lua reads as \<open>false\<close>/\<open>nil\<close> is \<open>None\<close>.
\<close>

definition rank_reply :: "zset \<Rightarrow> string \<Rightarrow> int" where
  "rank_reply z m = or_else (zrank z m) (- 1)"

text \<open>\<open>queue.LotteryBand\<close>, which the Go caller hands to the script.\<close>

definition LotteryBand :: int where
  "LotteryBand = 1000000000"

section \<open>enqueue.lua\<close>

definition enqueue_snapshot :: "key \<Rightarrow> token \<Rightarrow> string \<Rightarrow> int \<Rightarrow> string \<Rightarrow> redis \<Rightarrow> lval list" where
  "enqueue_snapshot queueKey tokenID status rankScore segment r =
    [LStr status, LInt (rank_reply (zsets r queueKey) tokenID), LInt (zcard (zsets r queueKey)),
     LInt rankScore, LStr segment]"

definition enqueue_new :: "key \<Rightarrow> key \<Rightarrow> key \<Rightarrow> token \<Rightarrow> string \<Rightarrow> millis \<Rightarrow> millis \<Rightarrow> int \<Rightarrow> int \<Rightarrow>
    string \<Rightarrow> string \<Rightarrow> millis \<Rightarrow> script" where
  "enqueue_new queueKey seqKey userKey tokenID shard nowMs lotteryEndMs lotteryRand lotteryBand
      fpHash ipPrefix userTTLms r =
    (let (rankScore, segment, r1) =
           (if nowMs < lotteryEndMs then (lotteryRand, ''lottery'', r)
            else (lotteryBand + fst (incr_by r seqKey 1), ''fifo'', snd (incr_by r seqKey 1)));
         r2 = ZADD r1 queueKey rankScore tokenID;
         r3 = hset r2 userKey (\<lambda>h. h\<lparr>
                u_state := Some ''waiting'',
                u_shard := Some shard,
                u_orig_shard := Some shard,
                u_orig_rank := Some rankScore,
                u_segment := Some segment,
                u_score := Some 0,
                u_fp_hash := Some fpHash,
                u_ip_prefix := Some ipPrefix,
                u_joined_at := Some nowMs,
                u_last_seen := Some nowMs,
                u_hb_count := Some 0\<rparr>);
         r4 = pexpire r3 userKey userTTLms
     in (Inr (enqueue_snapshot queueKey tokenID ''created'' rankScore segment r4), r4))"

definition enqueue_lua :: "key \<Rightarrow> key \<Rightarrow> key \<Rightarrow> token \<Rightarrow> string \<Rightarrow> millis \<Rightarrow> millis \<Rightarrow> int \<Rightarrow> int \<Rightarrow>
    string \<Rightarrow> string \<Rightarrow> millis \<Rightarrow> script" where
  "enqueue_lua queueKey seqKey userKey tokenID shard nowMs lotteryEndMs lotteryRand lotteryBand
      fpHash ipPrefix userTTLms r =
    (let rankScore = or_else (hget r userKey u_orig_rank) (- 1);
         segment = or_else (hget r userKey u_segment) ''''
     in case hget r userKey u_state of
          Some state \<Rightarrow>
            if state = ''waiting'' \<or> state = ''evicting'' then
              let r1 = pexpire (hset r userKey (\<lambda>h. h\<lparr>u_last_seen := Some nowMs\<rparr>)) userKey userTTLms
              in (Inr (enqueue_snapshot queueKey tokenID ''exists'' rankScore segment r1), r1)
            else if state \<noteq> ''evicted'' then
              (Inr (enqueue_snapshot queueKey tokenID state rankScore segment r), r)
            else
              enqueue_new queueKey seqKey userKey tokenID shard nowMs lotteryEndMs lotteryRand
                lotteryBand fpHash ipPrefix userTTLms (del_user r userKey)
        | None \<Rightarrow>
            enqueue_new queueKey seqKey userKey tokenID shard nowMs lotteryEndMs lotteryRand
              lotteryBand fpHash ipPrefix userTTLms r)"

section \<open>position.lua\<close>

definition position_lua :: "key \<Rightarrow> key \<Rightarrow> key \<Rightarrow> token \<Rightarrow> script" where
  "position_lua queueKey holdKey userKey tokenID r =
    (Inr
      (case hget r userKey u_state of
         None \<Rightarrow>
           [LStr ''unknown'', LInt (- 1), LInt (zcard (zsets r queueKey)), LInt (- 1),
            LInt (zcard (zsets r holdKey)), LInt (- 1), LStr '''', LInt (- 1), LInt (- 1),
            LInt (- 1), LInt 0, LInt (- 1)]
       | Some state \<Rightarrow>
           [LStr state,
            LInt (rank_reply (zsets r queueKey) tokenID),
            LInt (zcard (zsets r queueKey)),
            LInt (rank_reply (zsets r holdKey) tokenID),
            LInt (zcard (zsets r holdKey)),
            LInt (or_else (hget r userKey u_orig_rank) (- 1)),
            LStr (or_else (hget r userKey u_segment) ''''),
            LInt (or_else (hget r userKey u_joined_at) (- 1)),
            LInt (or_else (hget r userKey u_last_seen) (- 1)),
            LInt (or_else (hget r userKey u_score) 0),
            LInt (or_else (hget r userKey u_rc_count) 0),
            LInt (or_else (hget r userKey u_observe_from) (- 1))]),
     r)"

section \<open>heartbeat.lua\<close>

definition heartbeat_lua :: "key \<Rightarrow> key \<Rightarrow> token \<Rightarrow> millis \<Rightarrow> millis \<Rightarrow> script" where
  "heartbeat_lua queueKey userKey tokenID nowMs userTTLms r =
    (case hget r userKey u_state of
       None \<Rightarrow> (Inr [LStr ''unknown'', LInt (- 1), LInt 0, LInt (- 1), LInt 0], r)
     | Some state0 \<Rightarrow>
         let delta = (case hget r userKey u_last_seen of None \<Rightarrow> - 1 | Some prev \<Rightarrow> nowMs - prev);
             (state, revived, r1) =
               (if state0 = ''evicting'' then
                  (''waiting'', 1,
                   hset r userKey (\<lambda>h. h\<lparr>u_evict_at := None, u_state := Some ''waiting''\<rparr>))
                else (state0, 0, r));
             r2 = hset r1 userKey (\<lambda>h. h\<lparr>u_last_seen := Some nowMs\<rparr>);
             beats = or_else (hget r2 userKey u_hb_count) 0 + 1;
             r3 = hset r2 userKey (\<lambda>h. h\<lparr>u_hb_count := Some beats\<rparr>);
             r4 = pexpire r3 userKey userTTLms
         in (Inr [LStr state, LInt delta, LInt beats,
                  LInt (rank_reply (zsets r4 queueKey) tokenID), LInt revived], r4))"

section \<open>evict.lua\<close>

record sweep_acc =
  sw_store :: redis
  sw_marked :: int
  sw_removed :: int
  sw_ghosts :: int

definition evict_member :: "key \<Rightarrow> string \<Rightarrow> millis \<Rightarrow> millis \<Rightarrow> millis \<Rightarrow> millis \<Rightarrow> token \<Rightarrow>
    sweep_acc \<Rightarrow> sweep_acc" where
  "evict_member queueKey prefix nowMs staleAfter graceMs evictedTTL tokenID a =
    (let r = sw_store a; userKey = prefix @ tokenID
     in case hget r userKey u_state of
          None \<Rightarrow>
            a\<lparr>sw_store := ZREM r queueKey tokenID, sw_ghosts := sw_ghosts a + 1\<rparr>
        | Some state \<Rightarrow>
            if state = ''evicting'' then
              (case hget r userKey u_evict_at of
                 None \<Rightarrow> a
               | Some evictAt \<Rightarrow>
                   if nowMs \<ge> evictAt then
                     a\<lparr>sw_store :=
                         pexpire (hset (ZREM r queueKey tokenID) userKey
                           (\<lambda>h. h\<lparr>u_state := Some ''evicted'', u_evicted_at := Some nowMs\<rparr>))
                           userKey evictedTTL,
                       sw_removed := sw_removed a + 1\<rparr>
                   else a)
            else if state = ''waiting'' then
              (case hget r userKey u_last_seen of
                 None \<Rightarrow> a
               | Some lastSeen \<Rightarrow>
                   if nowMs - lastSeen > staleAfter then
                     a\<lparr>sw_store := hset r userKey
                         (\<lambda>h. h\<lparr>u_state := Some ''evicting'', u_evict_at := Some (nowMs + graceMs)\<rparr>),
                       sw_marked := sw_marked a + 1\<rparr>
                   else a)
            else a)"

definition evict_lua :: "key \<Rightarrow> string \<Rightarrow> millis \<Rightarrow> millis \<Rightarrow> millis \<Rightarrow> int \<Rightarrow> int \<Rightarrow> millis \<Rightarrow> script" where
  "evict_lua queueKey prefix nowMs staleAfter graceMs offset0 limit evictedTTL r =
    (let size = zcard (zsets r queueKey)
     in if size = 0 then (Inr [LInt 0, LInt 0, LInt 0, LInt 0, LInt 0, LInt 0], r)
        else
          let offset = (if offset0 < 0 \<or> offset0 \<ge> size then 0 else offset0);
              members = zrange (zsets r queueKey) offset (offset + limit - 1);
              a = fold (evict_member queueKey prefix nowMs staleAfter graceMs evictedTTL) members
                    \<lparr>sw_store = r, sw_marked = 0, sw_removed = 0, sw_ghosts = 0\<rparr>;
              next0 = offset + int (length members);
              nextOffset = (if next0 \<ge> size then 0 else next0)
          in (Inr [LInt (int (length members)), LInt (sw_marked a), LInt (sw_removed a),
                   LInt (sw_ghosts a), LInt nextOffset, LInt size], sw_store a))"

section \<open>rechallenge.lua\<close>

definition rechallenge_lua :: "key \<Rightarrow> key \<Rightarrow> key \<Rightarrow> key \<Rightarrow> key \<Rightarrow> token \<Rightarrow> string \<Rightarrow> int \<Rightarrow> int \<Rightarrow> int \<Rightarrow>
    millis \<Rightarrow> millis \<Rightarrow> script" where
  "rechallenge_lua originKey greyKey holdKey scoreKey userKey tokenID originShard maxAttempts
      passScore holdScore nowMs userTTLms r =
    (case hget r userKey u_state of
       None \<Rightarrow> (Inr [LStr ''unknown'', LStr ''unknown'', LInt (- 1), LInt 0, LInt (- 1)], r)
     | Some state \<Rightarrow>
         let attempts0 = or_else (hget r userKey u_rc_count) 0;
             score0 = or_else (hget r userKey u_score) 0
         in if state \<noteq> ''greylist'' then
              (Inr [LStr ''noop'', LStr state, LInt (- 1), LInt attempts0, LInt score0], r)
            else case hget r userKey u_orig_rank of
              None \<Rightarrow> (Inr [LStr ''no_rank'', LStr state, LInt (- 1), LInt attempts0, LInt score0], r)
            | Some rank \<Rightarrow>
                let attempts = attempts0 + 1;
                    hb = or_else (hget r userKey u_hb_count) 0;
                    r1 = hset r userKey (\<lambda>h. h\<lparr>u_rc_count := Some attempts, u_rc_at := Some nowMs\<rparr>)
                in if attempts > maxAttempts then
                     let score = (if score0 < holdScore then holdScore else score0);
                         r2 = ZADD (ZREM r1 greyKey tokenID) holdKey rank tokenID;
                         r3 = hset_score r2 scoreKey tokenID score;
                         r4 = hset r3 userKey (\<lambda>h. h\<lparr>u_state := Some ''held'',
                                u_shard := Some originShard, u_score := Some score,
                                u_scored_at := Some nowMs, u_held_at := Some nowMs\<rparr>);
                         r5 = hset r4 userKey (\<lambda>h. h\<lparr>u_greylisted_at := None\<rparr>);
                         r6 = pexpire r5 userKey userTTLms
                     in (Inr [LStr ''exhausted'', LStr ''held'', LInt rank, LInt attempts, LInt score], r6)
                   else
                     let score = (if score0 > passScore then passScore else score0);
                         r2 = ZADD (ZREM r1 greyKey tokenID) originKey rank tokenID;
                         r3 = hset_score r2 scoreKey tokenID score;
                         r4 = hset r3 userKey (\<lambda>h. h\<lparr>u_state := Some ''waiting'',
                                u_shard := Some originShard, u_score := Some score,
                                u_scored_at := Some nowMs, u_restored_at := Some nowMs,
                                u_observe_from := Some nowMs, u_hb_base := Some hb\<rparr>);
                         r5 = hset r4 userKey (\<lambda>h. h\<lparr>u_greylisted_at := None\<rparr>);
                         r6 = pexpire r5 userKey userTTLms
                     in (Inr [LStr ''restored'', LStr ''waiting'', LInt rank, LInt attempts, LInt score], r6))"

lemmas queue_script_defs = enqueue_snapshot_def enqueue_new_def enqueue_lua_def position_lua_def
  heartbeat_lua_def evict_member_def evict_lua_def rechallenge_lua_def rank_reply_def

end
