(* ===== verification/AdmissionScripts.thy ===== *)
theory AdmissionScripts
  imports Redis Keys
begin

text \<open>
  The Lua scripts of admission control (\<open>src/scripts/lua/\<close>): \<open>refill_budget\<close>, \<open>admit\<close>
  and \<open>redeem\<close>.  \<open>SET ... PX ttl\<close> with a non-positive \<open>ttl\<close> is a Redis error: it ends the
  script there and keeps the writes made before it, as Redis does.
\<close>

definition px_error :: string where
  "px_error = ''ERR invalid expire time in 'set' command''"

section \<open>refill\_budget.lua\<close>

definition refill_budget_lua :: "key \<Rightarrow> key \<Rightarrow> int \<Rightarrow> int \<Rightarrow> millis \<Rightarrow> script" where
  "refill_budget_lua budgetKey queueKey grant cap ttlMs r =
    (let waiting = zcard (zsets r queueKey);
         budget = or_else (counter_get r budgetKey) 0 + grant;
         budget = (if budget > cap then cap else budget);
         budget = (if budget > waiting then waiting else budget);
         budget = (if budget < 0 then 0 else budget)
     in if ttlMs \<le> 0 then (Inl px_error, r)
        else (Inr [LInt budget, LInt waiting], set_counter_px r budgetKey budget ttlMs))"

section \<open>admit.lua\<close>

definition admit_lua :: "key \<Rightarrow> key \<Rightarrow> key \<Rightarrow> token \<Rightarrow> string \<Rightarrow> millis \<Rightarrow> string \<Rightarrow> millis \<Rightarrow> millis \<Rightarrow>
    millis \<Rightarrow> int \<Rightarrow> script" where
  "admit_lua queueKey budgetKey userKey tokenID jti nowMs entryPrefix entryTTLms userTTLms
      minDwellMs minBeats r =
    (let budget = or_else (counter_get r budgetKey) 0
     in case hget r userKey u_state of
          None \<Rightarrow> (Inr [LStr ''unknown'', LInt (- 1), LInt budget, LStr '''', LInt (- 1)], r)
        | Some state \<Rightarrow>
            let obsFrom = (case hget r userKey u_observe_from of
                             Some t \<Rightarrow> Some t | None \<Rightarrow> hget r userKey u_joined_at);
                waited = (case obsFrom of Some t \<Rightarrow> nowMs - t | None \<Rightarrow> - 1);
                beats = or_else (hget r userKey u_hb_count) 0 - or_else (hget r userKey u_hb_base) 0
            in if state = ''admitted'' then
                 (Inr [LStr ''admitted'', LInt (- 1), LInt budget,
                       LStr (or_else (hget r userKey u_entry_jti) ''''), LInt (- 1)], r)
               else if state \<noteq> ''waiting'' then
                 (Inr [LStr state, LInt (- 1), LInt budget, LStr '''', LInt (- 1)], r)
               else case zrank (zsets r queueKey) tokenID of
                 None \<Rightarrow> (Inr [LStr ''unknown'', LInt (- 1), LInt budget, LStr '''', LInt (- 1)], r)
               | Some rank \<Rightarrow>
                   if minDwellMs > 0 \<and> (waited < 0 \<or> waited < minDwellMs) then
                     (Inr [LStr ''observing'', LInt rank, LInt budget, LStr '''', LInt waited], r)
                   else if minBeats > 0 \<and> beats < minBeats then
                     (Inr [LStr ''observing'', LInt rank, LInt budget, LStr '''', LInt waited], r)
                   else if rank \<ge> budget then
                     (Inr [LStr ''not_yet'', LInt rank, LInt budget, LStr '''', LInt (- 1)], r)
                   else
                     let budget' = fst (incr_by r budgetKey (- 1));
                         r1 = snd (incr_by r budgetKey (- 1));
                         r2 = ZREM r1 queueKey tokenID;
                         r3 = hset r2 userKey (\<lambda>h. h\<lparr>u_state := Some ''admitted'',
                                u_admitted_at := Some nowMs, u_entry_jti := Some jti\<rparr>);
                         r4 = pexpire r3 userKey userTTLms
                     in if entryTTLms \<le> 0 then (Inl px_error, r4)
                        else (Inr [LStr ''admitted'', LInt rank, LInt budget', LStr jti, LInt waited],
                              set_string_px r4 (entryPrefix @ jti) tokenID entryTTLms))"

section \<open>redeem.lua\<close>

definition redeem_lua :: "key \<Rightarrow> key \<Rightarrow> token \<Rightarrow> millis \<Rightarrow> script" where
  "redeem_lua entryKey userKey tokenID nowMs r =
    (case string_get r entryKey of
       None \<Rightarrow> (Inr [LStr ''missing'', LStr ''''], r)
     | Some owner \<Rightarrow>
         if owner \<noteq> tokenID then (Inr [LStr ''mismatch'', LStr owner], r)
         else (Inr [LStr ''burned'', LStr owner],
               hset (del_string r entryKey) userKey (\<lambda>h. h\<lparr>u_redeemed_at := Some nowMs\<rparr>)))"

lemmas admission_script_defs = refill_budget_lua_def admit_lua_def redeem_lua_def

end
