(* ===== verification/ActionScripts.thy ===== *)
theory ActionScripts
  imports Redis Keys
begin

text \<open>
  The Lua scripts of the quarantine ladder (\<open>src/scripts/lua/\<close>): \<open>apply_action\<close>
  (observe, hold, block), \<open>move_shard\<close> (greylist) and \<open>restore_shard\<close>.
\<close>

section \<open>apply\_action.lua\<close>

definition apply_rankOf :: "key \<Rightarrow> key \<Rightarrow> token \<Rightarrow> redis \<Rightarrow> int" where
  "apply_rankOf queueKey userKey tokenID r =
    (case hget r userKey u_orig_rank of
       Some rk \<Rightarrow> rk
     | None \<Rightarrow> or_else (zscore (zsets r queueKey) tokenID) (- 1))"

definition zrem_count :: "zset \<Rightarrow> string \<Rightarrow> int" where
  "zrem_count z m = (if zscore z m = None then 0 else 1)"

definition apply_action_lua :: "key \<Rightarrow> key \<Rightarrow> key \<Rightarrow> key \<Rightarrow> key \<Rightarrow> token \<Rightarrow> int \<Rightarrow> string \<Rightarrow> millis \<Rightarrow>
    millis \<Rightarrow> script" where
  "apply_action_lua queueKey holdKey scoreKey userKey greyKey tokenID score action nowMs userTTLms r =
    (case hget r userKey u_state of
       None \<Rightarrow> (Inr [LStr ''unknown'', LStr ''unknown'', LInt (- 1)], r)
     | Some state \<Rightarrow>
         let r1 = hset_score r scoreKey tokenID score;
             r2 = hset r1 userKey (\<lambda>h. h\<lparr>u_score := Some score, u_scored_at := Some nowMs\<rparr>);
             r3 = pexpire r2 userKey userTTLms
         in if state = ''blocked'' then (Inr [LStr ''noop'', LStr state, LInt (- 1)], r3)
            else if action = ''observe'' then
              (Inr [LStr ''observe'', LStr state, LInt (apply_rankOf queueKey userKey tokenID r3)], r3)
            else if action = ''hold'' then
              if state = ''held'' then
                (Inr [LStr ''noop'', LStr state, LInt (apply_rankOf queueKey userKey tokenID r3)], r3)
              else
                let rank = apply_rankOf queueKey userKey tokenID r3;
                    r4 = ZREM r3 queueKey tokenID;
                    removed = zrem_count (zsets r3 queueKey) tokenID + zrem_count (zsets r4 greyKey) tokenID;
                    r5 = ZREM r4 greyKey tokenID;
                    r6 = (if removed > 0 \<and> rank \<ge> 0 then ZADD r5 holdKey rank tokenID else r5);
                    r7 = hset r6 userKey (\<lambda>h. h\<lparr>u_state := Some ''held'', u_held_at := Some nowMs\<rparr>)
                in (Inr [LStr ''hold'', LStr ''held'', LInt rank], r7)
            else if action = ''block'' then
              let rank = apply_rankOf queueKey userKey tokenID r3;
                  r4 = ZREM (ZREM (ZREM r3 queueKey tokenID) greyKey tokenID) holdKey tokenID;
                  r5 = hset r4 userKey (\<lambda>h. h\<lparr>u_state := Some ''blocked'', u_blocked_at := Some nowMs\<rparr>)
              in (Inr [LStr ''block'', LStr ''blocked'', LInt rank], r5)
            else (Inr [LStr ''unknown_action'', LStr state, LInt (- 1)], r3))"

section \<open>move\_shard.lua\<close>

definition move_shard_lua :: "key \<Rightarrow> key \<Rightarrow> key \<Rightarrow> key \<Rightarrow> token \<Rightarrow> string \<Rightarrow> int \<Rightarrow> millis \<Rightarrow> millis \<Rightarrow>
    script" where
  "move_shard_lua fromKey toKey scoreKey userKey tokenID greyShard score nowMs userTTLms r =
    (case hget r userKey u_state of
       None \<Rightarrow> (Inr [LStr ''unknown'', LStr ''unknown'', LInt (- 1)], r)
     | Some state \<Rightarrow>
         let shard0 = hget r userKey u_shard;
             orig_shard0 = hget r userKey u_orig_shard;
             orig_rank0 = hget r userKey u_orig_rank;
             r1 = hset_score r scoreKey tokenID score;
             r2 = hset r1 userKey (\<lambda>h. h\<lparr>u_score := Some score, u_scored_at := Some nowMs\<rparr>);
             r3 = pexpire r2 userKey userTTLms
         in if state \<noteq> ''waiting'' \<and> state \<noteq> ''evicting'' then
              (Inr [LStr ''noop'', LStr state, LInt (- 1)], r3)
            else case zscore (zsets r3 fromKey) tokenID of
              None \<Rightarrow> (Inr [LStr ''noop'', LStr state, LInt (- 1)], r3)
            | Some rank \<Rightarrow>
                let r4 = ZADD (ZREM r3 fromKey tokenID) toKey rank tokenID;
                    r5 = (if orig_shard0 = None
                          then hset r4 userKey (\<lambda>h. h\<lparr>u_orig_shard := Some (or_else shard0 '''')\<rparr>)
                          else r4);
                    r6 = (if orig_rank0 = None
                          then hset r5 userKey (\<lambda>h. h\<lparr>u_orig_rank := Some rank\<rparr>) else r5);
                    r7 = hset r6 userKey (\<lambda>h. h\<lparr>u_state := Some ''greylist'',
                           u_shard := Some greyShard, u_greylisted_at := Some nowMs\<rparr>)
                in (Inr [LStr ''greylist'', LStr ''greylist'', LInt rank], r7))"

section \<open>restore\_shard.lua\<close>

definition restore_shard_lua :: "key \<Rightarrow> key \<Rightarrow> key \<Rightarrow> key \<Rightarrow> token \<Rightarrow> string \<Rightarrow> millis \<Rightarrow> millis \<Rightarrow>
    script" where
  "restore_shard_lua originKey greyKey holdKey userKey tokenID originShard nowMs userTTLms r =
    (case hget r userKey u_state of
       None \<Rightarrow> (Inr [LStr ''unknown'', LStr ''unknown'', LInt (- 1)], r)
     | Some state \<Rightarrow>
         if state \<noteq> ''greylist'' \<and> state \<noteq> ''held'' then
           (Inr [LStr ''noop'', LStr state, LInt (- 1)], r)
         else case hget r userKey u_orig_rank of
           None \<Rightarrow> (Inr [LStr ''no_rank'', LStr state, LInt (- 1)], r)
         | Some rank \<Rightarrow>
             let r1 = ZREM (ZREM r greyKey tokenID) holdKey tokenID;
                 r2 = ZADD r1 originKey rank tokenID;
                 r3 = hset r2 userKey (\<lambda>h. h\<lparr>u_state := Some ''waiting'',
                        u_shard := Some originShard, u_restored_at := Some nowMs\<rparr>);
                 r4 = hset r3 userKey (\<lambda>h. h\<lparr>u_held_at := None, u_greylisted_at := None\<rparr>);
                 r5 = pexpire r4 userKey userTTLms
             in (Inr [LStr ''restore'', LStr ''waiting'', LInt rank], r5))"

lemmas action_script_defs = apply_rankOf_def zrem_count_def apply_action_lua_def
  move_shard_lua_def restore_shard_lua_def

end
