(* ===== verification/Lanes.thy ===== *)
theory Lanes
  imports Shard QueueScripts AdmissionScripts ActionScripts
begin

text \<open>
  The state machine of one slot: a shard, its greylist shard and its hold set.  Every state
  transition of the program is one Lua script, so a run of the system is a sequence of
  script executions, expiry being the passing of time between them.  \<open>slot_op\<close> lists the
  script calls the Go code makes on a slot, \<open>exec\<close> runs one with the keys the Go code
  passes, and \<open>reachable\<close> collects the stores of all runs from the empty store.

  A token has a place in at most one of three lanes, the waiting queue, the greylist queue
  and the hold set.  \<open>lane_inv\<close> ties the lane to the state field of the user hash and the
  score in the lane to the rank the token was given first.
\<close>

section \<open>The slot and its operations\<close>

definition grey_of :: "string \<Rightarrow> string" where
  "grey_of sid = CHR ''g'' # tl sid"

definition slot_ok :: "string \<Rightarrow> string \<Rightarrow> bool" where
  "slot_ok ev sid \<longleftrightarrow> plain ev \<and> Validate sid = None \<and> hd sid = CHR ''s''"

datatype slot_op =
    Tick millis
  | Enqueue_op token millis millis int int string string millis
  | Position_op token
  | Heartbeat_op token millis millis
  | Sweep_op millis millis millis int int millis
  | Rechallenge_op token int int int millis millis
  | Refill_op int int millis
  | Admit_op token string millis millis millis millis int
  | Redeem_op token string millis
  | Apply_op token int string millis millis
  | Move_op token int millis millis
  | Restore_op token millis millis

fun exec :: "string \<Rightarrow> string \<Rightarrow> slot_op \<Rightarrow> script" where
  "exec ev sid (Tick d) r = (Inr [], tick d r)"
| "exec ev sid (Enqueue_op t now lend lrand band fp ip ttl) r =
    enqueue_lua (Queue ev sid) (Seq ev sid) (User ev sid t) t sid now lend lrand band fp ip ttl r"
| "exec ev sid (Position_op t) r =
    position_lua (Queue ev sid) (Hold ev sid) (User ev sid t) t r"
| "exec ev sid (Heartbeat_op t now ttl) r =
    heartbeat_lua (Queue ev sid) (User ev sid t) t now ttl r"
| "exec ev sid (Sweep_op now stale grace off lim ettl) r =
    evict_lua (Queue ev sid) (UserPrefix ev sid) now stale grace off lim ettl r"
| "exec ev sid (Rechallenge_op t mx pass hold now ttl) r =
    rechallenge_lua (Queue ev sid) (Queue ev (grey_of sid)) (Hold ev sid) (Score ev sid)
      (User ev sid t) t sid mx pass hold now ttl r"
| "exec ev sid (Refill_op grant cap ttl) r =
    refill_budget_lua (Budget ev sid) (Queue ev sid) grant cap ttl r"
| "exec ev sid (Admit_op t jti now ettl uttl dwell beats) r =
    admit_lua (Queue ev sid) (Budget ev sid) (User ev sid t) t jti now (EntryPrefix ev sid)
      ettl uttl dwell beats r"
| "exec ev sid (Redeem_op t jti now) r =
    redeem_lua (Entry ev sid jti) (User ev sid t) t now r"
| "exec ev sid (Apply_op t score action now ttl) r =
    apply_action_lua (Queue ev sid) (Hold ev sid) (Score ev sid) (User ev sid t)
      (Queue ev (grey_of sid)) t score action now ttl r"
| "exec ev sid (Move_op t score now ttl) r =
    move_shard_lua (Queue ev sid) (Queue ev (grey_of sid)) (Score ev sid) (User ev sid t) t
      (grey_of sid) score now ttl r"
| "exec ev sid (Restore_op t now ttl) r =
    restore_shard_lua (Queue ev sid) (Queue ev (grey_of sid)) (Hold ev sid) (User ev sid t) t
      sid now ttl r"

text \<open>
  What the callers guarantee.  Time does not run backwards; the lifetimes in the arguments
  are positive, as the configuration check demands; grants are not negative; the gate
  enqueues only tokens it has just drawn, so a token that enters is not still a member of
  the greylist queue or the hold set, and FIFO scores start above the lottery band.
\<close>

fun op_ok :: "string \<Rightarrow> string \<Rightarrow> redis \<Rightarrow> slot_op \<Rightarrow> bool" where
  "op_ok ev sid r (Tick d) \<longleftrightarrow> 0 \<le> d"
| "op_ok ev sid r (Enqueue_op t now lend lrand band fp ip ttl) \<longleftrightarrow>
    0 < ttl \<and> 0 \<le> lrand \<and> lrand < band \<and> band = LotteryBand \<and>
    (hget r (User ev sid t) u_state = None \<longrightarrow>
       zscore (zsets r (Queue ev (grey_of sid))) t = None \<and> zscore (zsets r (Hold ev sid)) t = None)"
| "op_ok ev sid r (Position_op t) \<longleftrightarrow> True"
| "op_ok ev sid r (Heartbeat_op t now ttl) \<longleftrightarrow> 0 < ttl"
| "op_ok ev sid r (Sweep_op now stale grace off lim ettl) \<longleftrightarrow> 0 < ettl \<and> 0 < lim"
| "op_ok ev sid r (Rechallenge_op t mx pass hold now ttl) \<longleftrightarrow> 0 < ttl"
| "op_ok ev sid r (Refill_op grant cap ttl) \<longleftrightarrow> 0 \<le> grant \<and> 0 < ttl"
| "op_ok ev sid r (Admit_op t jti now ettl uttl dwell beats) \<longleftrightarrow> 0 < ettl \<and> 0 < uttl"
| "op_ok ev sid r (Redeem_op t jti now) \<longleftrightarrow> True"
| "op_ok ev sid r (Apply_op t score action now ttl) \<longleftrightarrow> 0 < ttl"
| "op_ok ev sid r (Move_op t score now ttl) \<longleftrightarrow> 0 < ttl"
| "op_ok ev sid r (Restore_op t now ttl) \<longleftrightarrow> 0 < ttl"

inductive reachable :: "string \<Rightarrow> string \<Rightarrow> redis \<Rightarrow> bool" for ev sid where
  start: "reachable ev sid empty_redis"
| step: "reachable ev sid r \<Longrightarrow> op_ok ev sid r opn \<Longrightarrow> reachable ev sid (snd (exec ev sid opn r))"

section \<open>Keys of a slot are different\<close>

lemma slot_keys [key_simps]:
  assumes "slot_ok ev sid"
  shows "Queue ev (grey_of sid) \<noteq> Queue ev sid" "Queue ev sid \<noteq> Queue ev (grey_of sid)"
proof -
  obtain ds where sid: "sid = CHR ''s'' # ds" "ds \<noteq> []" "length ds \<le> 9" "list_all is_digit ds"
    using assms by (auto simp: slot_ok_def Validate_None)
  then have "plain (grey_of sid)" "plain sid" "plain ev"
    using assms digits_plain [of ds] by (auto simp: grey_of_def slot_ok_def plain_def)
  with sid show "Queue ev (grey_of sid) \<noteq> Queue ev sid" "Queue ev sid \<noteq> Queue ev (grey_of sid)"
    by (auto simp: key_simps grey_of_def)
qed

section \<open>The lane invariant\<close>

type_synonym place = "int option \<times> int option \<times> int option \<times> user_hash option"

definition place_of :: "string \<Rightarrow> string \<Rightarrow> redis \<Rightarrow> token \<Rightarrow> place" where
  "place_of ev sid r t =
    (zscore (zsets r (Queue ev sid)) t, zscore (zsets r (Queue ev (grey_of sid))) t,
     zscore (zsets r (Hold ev sid)) t, user_get r (User ev sid t))"

text \<open>
  A token whose hash is gone is not constrained: it is a ghost until a sweep drops it.
\<close>

fun place_ok :: "place \<Rightarrow> bool" where
  "place_ok (q, g, h, None) = True"
| "place_ok (q, g, h, Some u) =
    (case u_state u of
       None \<Rightarrow> True
     | Some st \<Rightarrow>
         (q \<noteq> None \<longrightarrow> (st = ''waiting'' \<or> st = ''evicting'') \<and> u_orig_rank u = q) \<and>
         (g \<noteq> None \<longrightarrow> st = ''greylist'' \<and> u_orig_rank u = g) \<and>
         (h \<noteq> None \<longrightarrow> st = ''held'' \<and> u_orig_rank u = h))"

definition zsets_ok :: "string \<Rightarrow> string \<Rightarrow> redis \<Rightarrow> bool" where
  "zsets_ok ev sid r \<longleftrightarrow> zwf (zsets r (Queue ev sid)) \<and> zwf (zsets r (Queue ev (grey_of sid))) \<and>
    zwf (zsets r (Hold ev sid))"

definition lane_inv :: "string \<Rightarrow> string \<Rightarrow> redis \<Rightarrow> bool" where
  "lane_inv ev sid r \<longleftrightarrow> zsets_ok ev sid r \<and> (\<forall>t. place_ok (place_of ev sid r t))"

lemma lane_inv_empty: "lane_inv ev sid empty_redis"
  by (simp add: lane_inv_def zsets_ok_def place_of_def empty_redis_def user_get_def)

text \<open>A script changes one token's place and keeps the others.\<close>

definition moves_only :: "string \<Rightarrow> string \<Rightarrow> token \<Rightarrow> redis \<Rightarrow> redis \<Rightarrow> bool" where
  "moves_only ev sid t r r' \<longleftrightarrow> zsets_ok ev sid r' \<and>
    (\<forall>t'. t' \<noteq> t \<longrightarrow> place_of ev sid r' t' = place_of ev sid r t') \<and>
    place_ok (place_of ev sid r' t)"

lemma lane_inv_step:
  assumes "lane_inv ev sid r"
    "zwf (zsets r (Queue ev sid)) \<Longrightarrow> zwf (zsets r (Queue ev (grey_of sid))) \<Longrightarrow>
      zwf (zsets r (Hold ev sid)) \<Longrightarrow> place_ok (place_of ev sid r t) \<Longrightarrow> moves_only ev sid t r r'"
  shows "lane_inv ev sid r'"
  using assms unfolding lane_inv_def zsets_ok_def moves_only_def by metis

lemmas lane_simps = moves_only_def place_of_def zsets_ok_def hget_def redis_simps key_simps

lemma lane_inv_place: "lane_inv ev sid r \<Longrightarrow> place_ok (place_of ev sid r t)"
  by (simp add: lane_inv_def)

lemma enqueue_new_inv:
  assumes "slot_ok ev sid" "lane_inv ev sid r" "0 < ttl"
    "zscore (zsets r (Queue ev (grey_of sid))) t = None" "zscore (zsets r (Hold ev sid)) t = None"
  shows "lane_inv ev sid (snd (enqueue_new (Queue ev sid) (Seq ev sid) (User ev sid t) t sid now lend
    lrand band fp ip ttl r))"
  by (rule lane_inv_step [where t = t, OF assms(2)])
    (use assms in \<open>simp add: enqueue_new_def Let_def lane_simps\<close>)

lemma heartbeat_inv:
  assumes "slot_ok ev sid" "lane_inv ev sid r" "0 < ttl"
  shows "lane_inv ev sid (snd (heartbeat_lua (Queue ev sid) (User ev sid t) t now ttl r))"
  by (rule lane_inv_step [where t = t, OF assms(2)])
    (use assms(1,3) in \<open>auto simp: heartbeat_lua_def Let_def lane_simps split: option.splits\<close>)

lemma del_user_inv: "lane_inv ev sid r \<Longrightarrow> lane_inv ev sid (del_user r (User ev sid t))"
  by (erule lane_inv_step [where t = t]) (simp add: lane_simps)

lemma enqueue_inv:
  assumes "slot_ok ev sid" "lane_inv ev sid r" "0 < ttl"
    "hget r (User ev sid t) u_state = None \<Longrightarrow>
       zscore (zsets r (Queue ev (grey_of sid))) t = None \<and> zscore (zsets r (Hold ev sid)) t = None"
  shows "lane_inv ev sid (snd (enqueue_lua (Queue ev sid) (Seq ev sid) (User ev sid t) t sid now lend
    lrand band fp ip ttl r))"
proof (cases "hget r (User ev sid t) u_state")
  case None
  with assms enqueue_new_inv show ?thesis by (simp add: enqueue_lua_def Let_def)
next
  case (Some st)
  consider "st = ''waiting'' \<or> st = ''evicting''" | "st = ''evicted''" |
    "st \<noteq> ''waiting''" "st \<noteq> ''evicting''" "st \<noteq> ''evicted''" by blast
  then show ?thesis
  proof cases
    case 1
    then show ?thesis
      by (intro lane_inv_step [where t = t, OF assms(2)])
        (use Some assms(1,3) in \<open>auto simp: enqueue_lua_def Let_def lane_simps split: option.splits\<close>)
  next
    case 2
    have "zscore (zsets r (Queue ev (grey_of sid))) t = None \<and> zscore (zsets r (Hold ev sid)) t = None"
      using lane_inv_place [OF assms(2), of t] Some 2
      by (auto simp: place_of_def hget_Some)
    then have "lane_inv ev sid (snd (enqueue_new (Queue ev sid) (Seq ev sid) (User ev sid t) t sid now lend
        lrand band fp ip ttl (del_user r (User ev sid t))))"
      using assms(1,3) by (intro enqueue_new_inv del_user_inv assms(2)) (simp_all add: redis_simps)
    with Some 2 show ?thesis by (simp add: enqueue_lua_def Let_def)
  next
    case 3
    with Some assms(2) show ?thesis by (simp add: enqueue_lua_def Let_def)
  qed
qed

lemma rechallenge_inv:
  assumes "slot_ok ev sid" "lane_inv ev sid r" "0 < ttl"
  shows "lane_inv ev sid (snd (rechallenge_lua (Queue ev sid) (Queue ev (grey_of sid)) (Hold ev sid)
    (Score ev sid) (User ev sid t) t sid mx pass hold now ttl r))"
  by (rule lane_inv_step [where t = t, OF assms(2)])
    (use assms(1,3) in \<open>auto simp: rechallenge_lua_def Let_def lane_simps split: option.splits\<close>)

lemma admit_inv:
  assumes "slot_ok ev sid" "lane_inv ev sid r" "0 < ettl" "0 < uttl"
  shows "lane_inv ev sid (snd (admit_lua (Queue ev sid) (Budget ev sid) (User ev sid t) t jti now
    (EntryPrefix ev sid) ettl uttl dwell beats r))"
  by (rule lane_inv_step [where t = t, OF assms(2)])
    (use assms(1,3,4) in \<open>auto simp: admit_lua_def Let_def lane_simps split: option.splits\<close>)

lemma redeem_inv:
  assumes "slot_ok ev sid" "lane_inv ev sid r"
  shows "lane_inv ev sid (snd (redeem_lua (Entry ev sid jti) (User ev sid t) t now r))"
  by (rule lane_inv_step [where t = t, OF assms(2)])
    (use assms(1) in \<open>auto simp: redeem_lua_def Let_def lane_simps or_else_def no_user_def split: option.splits\<close>)

lemma move_inv:
  assumes "slot_ok ev sid" "lane_inv ev sid r" "0 < ttl"
  shows "lane_inv ev sid (snd (move_shard_lua (Queue ev sid) (Queue ev (grey_of sid)) (Score ev sid)
    (User ev sid t) t (grey_of sid) score now ttl r))"
  by (rule lane_inv_step [where t = t, OF assms(2)])
    (use assms(1,3) in \<open>auto simp: move_shard_lua_def Let_def lane_simps split: option.splits\<close>)

lemma restore_inv:
  assumes "slot_ok ev sid" "lane_inv ev sid r" "0 < ttl"
  shows "lane_inv ev sid (snd (restore_shard_lua (Queue ev sid) (Queue ev (grey_of sid)) (Hold ev sid)
    (User ev sid t) t sid now ttl r))"
  by (rule lane_inv_step [where t = t, OF assms(2)])
    (use assms(1,3) in \<open>auto simp: restore_shard_lua_def Let_def lane_simps split: option.splits\<close>)


lemma apply_hold_inv:
  assumes "slot_ok ev sid" "lane_inv ev sid r" "0 < ttl" "hget r (User ev sid t) u_state = Some st"
    "st \<noteq> ''blocked''"
  shows "lane_inv ev sid (snd (apply_action_lua (Queue ev sid) (Hold ev sid) (Score ev sid) (User ev sid t)
      (Queue ev (grey_of sid)) t score ''hold'' now ttl r))" (is "lane_inv _ _ ?r'")
proof (rule lane_inv_step [where t = t, OF assms(2)])
  assume z: "zwf (zsets r (Queue ev sid))" "zwf (zsets r (Queue ev (grey_of sid)))"
    "zwf (zsets r (Hold ev sid))" "place_ok (place_of ev sid r t)"
  obtain u where u: "user_get r (User ev sid t) = Some u" "u_state u = Some st"
    using assms(4) by (auto simp: hget_Some)
  show "moves_only ev sid t r ?r'"
  proof (cases "st = ''held''")
    case True
    with z u assms(1,3) show ?thesis
      by (simp add: apply_action_lua_def apply_rankOf_def Let_def lane_simps)
  next
    case False
    with z u assms(1,3,5) show ?thesis
      by (cases "zscore (zsets r (Queue ev sid)) t";
          cases "zscore (zsets r (Queue ev (grey_of sid))) t"; cases "zscore (zsets r (Hold ev sid)) t")
        (simp_all add: apply_action_lua_def apply_rankOf_def zrem_count_def Let_def lane_simps)
  qed
qed

lemma apply_inv:
  assumes "slot_ok ev sid" "lane_inv ev sid r" "0 < ttl"
  shows "lane_inv ev sid (snd (apply_action_lua (Queue ev sid) (Hold ev sid) (Score ev sid) (User ev sid t)
      (Queue ev (grey_of sid)) t score action now ttl r))"
proof (cases "\<exists>st. hget r (User ev sid t) u_state = Some st \<and> st \<noteq> ''blocked'' \<and> action = ''hold''")
  case True
  then show ?thesis using apply_hold_inv [OF assms] by blast
next
  case False
  then show ?thesis
  by (intro lane_inv_step [where t = t, OF assms(2)])
    (use assms(1,3) in \<open>auto simp: apply_action_lua_def Let_def lane_simps split: option.splits\<close>)
qed


lemma evict_member_inv:
  assumes "slot_ok ev sid" "lane_inv ev sid (sw_store a)" "0 < ettl"
  shows "lane_inv ev sid (sw_store (evict_member (Queue ev sid) (UserPrefix ev sid) now stale grace
    ettl t a))"
  by (rule lane_inv_step [where t = t, OF assms(2)])
    (use assms(1,3) in \<open>auto simp: evict_member_def UserPrefix_User Let_def lane_simps split: option.splits\<close>)

lemma evict_fold_inv:
  assumes "slot_ok ev sid" "0 < ettl"
  shows "lane_inv ev sid (sw_store a) \<Longrightarrow>
    lane_inv ev sid (sw_store (fold (evict_member (Queue ev sid) (UserPrefix ev sid) now stale grace ettl) ts a))"
  using evict_member_inv [OF assms(1) _ assms(2)] by (induction ts arbitrary: a) simp_all

lemma evict_inv:
  assumes "slot_ok ev sid" "lane_inv ev sid r" "0 < ettl"
  shows "lane_inv ev sid (snd (evict_lua (Queue ev sid) (UserPrefix ev sid) now stale grace off lim ettl r))"
  using assms evict_fold_inv [of ev sid ettl "\<lparr>sw_store = r, sw_marked = 0, sw_removed = 0, sw_ghosts = 0\<rparr>"]
  by (simp add: evict_lua_def Let_def)

lemma tick_inv: "lane_inv ev sid r \<Longrightarrow> 0 \<le> d \<Longrightarrow> lane_inv ev sid (tick d r)"
proof -
  assume inv: "lane_inv ev sid r" and d: "0 \<le> d"
  have "place_ok (place_of ev sid (tick d r) t)" for t
  proof (cases "user_get (tick d r) (User ev sid t)")
    case None
    then show ?thesis by (simp add: place_of_def)
  next
    case (Some u)
    with lane_inv_place [OF inv, of t] user_get_tick [OF d Some] show ?thesis
      by (simp add: place_of_def tick_def)
  qed
  with inv show ?thesis by (simp add: lane_inv_def zsets_ok_def tick_def)
qed

lemma lane_inv_frame:
  assumes "lane_inv ev sid r" "zsets r' = zsets r" "\<And>t. user_get r' (User ev sid t) = user_get r (User ev sid t)"
  shows "lane_inv ev sid r'"
  using assms by (simp add: lane_inv_def zsets_ok_def place_of_def)

lemma refill_inv:
  "lane_inv ev sid r \<Longrightarrow> lane_inv ev sid (snd (refill_budget_lua (Budget ev sid) (Queue ev sid) grant cap ttl r))"
  by (erule lane_inv_frame) (auto simp: refill_budget_lua_def Let_def redis_simps)

lemmas script_invs = enqueue_inv heartbeat_inv rechallenge_inv admit_inv redeem_inv move_inv
  restore_inv apply_inv evict_inv tick_inv refill_inv

lemma exec_lane_inv:
  assumes "slot_ok ev sid" "lane_inv ev sid r" "op_ok ev sid r opn"
  shows "lane_inv ev sid (snd (exec ev sid opn r))"
  using assms by (cases opn) (simp_all add: script_invs position_lua_def)

lemma reachable_lane_inv: "reachable ev sid r \<Longrightarrow> slot_ok ev sid \<Longrightarrow> lane_inv ev sid r"
  by (induction rule: reachable.induct) (simp_all add: lane_inv_empty exec_lane_inv)

end
