(* ===== verification/SlotRuns.thy ===== *)
theory SlotRuns
  imports Lanes
begin

text \<open>
  What runs of a slot guarantee beyond the lane invariant of \<open>Lanes\<close>:

  \<^item> \<open>ladder\<close> is the abstract state machine of one user, and every script execution
    refines it: each token's state field makes one ladder step or stays;
  \<^item> the budget is never negative, and the places a slot hands out never exceed what
    the controller granted it;
  \<^item> an entry ticket is burned at most once;
  \<^item> a FIFO newcomer is placed behind everybody, a lottery entrant before the FIFO band.
\<close>

section \<open>The ladder\<close>

definition state_of :: "string \<Rightarrow> string \<Rightarrow> redis \<Rightarrow> token \<Rightarrow> string option" where
  "state_of ev sid r t = hget r (User ev sid t) u_state"

inductive ladder :: "string option \<Rightarrow> string option \<Rightarrow> bool" where
  stay: "ladder s s"
| expire: "ladder s None"
| join: "s = None \<or> s = Some ''evicted'' \<Longrightarrow> ladder s (Some ''waiting'')"
| mark: "ladder (Some ''waiting'') (Some ''evicting'')"
| revive: "ladder (Some ''evicting'') (Some ''waiting'')"
| evict: "ladder (Some ''evicting'') (Some ''evicted'')"
| admit: "ladder (Some ''waiting'') (Some ''admitted'')"
| grey: "s = ''waiting'' \<or> s = ''evicting'' \<Longrightarrow> ladder (Some s) (Some ''greylist'')"
| restore: "s = ''greylist'' \<or> s = ''held'' \<Longrightarrow> ladder (Some s) (Some ''waiting'')"
| hold: "s \<noteq> ''blocked'' \<Longrightarrow> ladder (Some s) (Some ''held'')"
| block: "ladder (Some s) (Some ''blocked'')"

inductive_cases ladder_blockedE: "ladder (Some ''blocked'') s"
inductive_cases ladder_admittedE: "ladder s (Some ''admitted'')"
inductive_cases ladder_greylistE: "ladder s (Some ''greylist'')"

lemma ladder_iff:
  "ladder s s' \<longleftrightarrow> s' = s \<or> s' = None \<or>
    s' = Some ''waiting'' \<and> (s = None \<or> s = Some ''evicted'' \<or> s = Some ''evicting'' \<or>
      s = Some ''greylist'' \<or> s = Some ''held'') \<or>
    s' = Some ''evicting'' \<and> s = Some ''waiting'' \<or>
    s' = Some ''evicted'' \<and> s = Some ''evicting'' \<or>
    s' = Some ''admitted'' \<and> s = Some ''waiting'' \<or>
    s' = Some ''greylist'' \<and> (s = Some ''waiting'' \<or> s = Some ''evicting'') \<or>
    s' = Some ''held'' \<and> s \<noteq> None \<and> s \<noteq> Some ''blocked'' \<or>
    s' = Some ''blocked'' \<and> s \<noteq> None"
  (is "_ \<longleftrightarrow> ?R")
proof
  show "ladder s s' \<Longrightarrow> ?R" by (erule ladder.cases) auto
  show "?R \<Longrightarrow> ladder s s'" by (elim disjE conjE) (auto simp: ladder.intros intro: ladder.hold)
qed

lemma state_of_user_get: "user_get r' (User ev sid t) = user_get r (User ev sid t) \<Longrightarrow>
    state_of ev sid r' t = state_of ev sid r t"
  by (simp add: state_of_def hget_def)

lemma ladder_frame: "user_get r' (User ev sid t) = user_get r (User ev sid t) \<Longrightarrow>
    ladder (state_of ev sid r t) (state_of ev sid r' t)"
  using ladder.stay by (simp add: state_of_def hget_def)

lemma ladder_other:
  assumes "\<And>t'. t' \<noteq> t \<Longrightarrow> user_get r' (User ev sid t') = user_get r (User ev sid t')"
    "ladder (state_of ev sid r t) (state_of ev sid r' t)"
  shows "ladder (state_of ev sid r t') (state_of ev sid r' t')"
proof (cases "t' = t")
  case False
  then show ?thesis by (intro ladder_frame assms(1))
qed (simp add: assms(2))

lemmas user_simps = state_of_def hget_def redis_simps key_simps

lemma enqueue_ladder:
  "0 < ttl \<Longrightarrow> ladder (state_of ev sid r t') (state_of ev sid
    (snd (enqueue_lua (Queue ev sid) (Seq ev sid) (User ev sid t) t sid now lend lrand band fp ip ttl r)) t')"
  by (rule ladder_other [where t = t])
    (auto simp: enqueue_lua_def enqueue_new_def Let_def user_simps ladder_iff split: option.splits)

lemma heartbeat_ladder:
  "0 < ttl \<Longrightarrow> ladder (state_of ev sid r t') (state_of ev sid
    (snd (heartbeat_lua (Queue ev sid) (User ev sid t) t now ttl r)) t')"
  by (rule ladder_other [where t = t])
    (auto simp: heartbeat_lua_def Let_def user_simps ladder_iff split: option.splits)

lemma rechallenge_ladder:
  "0 < ttl \<Longrightarrow> ladder (state_of ev sid r t') (state_of ev sid
    (snd (rechallenge_lua (Queue ev sid) (Queue ev (grey_of sid)) (Hold ev sid)
    (Score ev sid) (User ev sid t) t sid mx pass hold now ttl r)) t')"
  by (rule ladder_other [where t = t])
    (auto simp: rechallenge_lua_def Let_def user_simps ladder_iff split: option.splits)

lemma admit_ladder:
  "0 < ettl \<Longrightarrow> 0 < uttl \<Longrightarrow> ladder (state_of ev sid r t') (state_of ev sid
    (snd (admit_lua (Queue ev sid) (Budget ev sid) (User ev sid t) t jti now
    (EntryPrefix ev sid) ettl uttl dwell beats r)) t')"
  by (rule ladder_other [where t = t])
    (auto simp: admit_lua_def Let_def user_simps ladder_iff split: option.splits)

lemma redeem_ladder:
  "ladder (state_of ev sid r t') (state_of ev sid
    (snd (redeem_lua (Entry ev sid jti) (User ev sid t) t now r)) t')"
  by (rule ladder_other [where t = t])
    (auto simp: redeem_lua_def Let_def user_simps or_else_def no_user_def ladder_iff split: option.splits)

lemma move_ladder:
  "0 < ttl \<Longrightarrow> ladder (state_of ev sid r t') (state_of ev sid
    (snd (move_shard_lua (Queue ev sid) (Queue ev (grey_of sid)) (Score ev sid)
    (User ev sid t) t (grey_of sid) score now ttl r)) t')"
  by (rule ladder_other [where t = t])
    (auto simp: move_shard_lua_def Let_def user_simps ladder_iff split: option.splits)

lemma restore_ladder:
  "0 < ttl \<Longrightarrow> ladder (state_of ev sid r t') (state_of ev sid
    (snd (restore_shard_lua (Queue ev sid) (Queue ev (grey_of sid)) (Hold ev sid)
    (User ev sid t) t sid now ttl r)) t')"
  by (rule ladder_other [where t = t])
    (auto simp: restore_shard_lua_def Let_def user_simps ladder_iff split: option.splits)

lemma apply_ladder:
  "0 < ttl \<Longrightarrow> ladder (state_of ev sid r t') (state_of ev sid
    (snd (apply_action_lua (Queue ev sid) (Hold ev sid) (Score ev sid) (User ev sid t)
      (Queue ev (grey_of sid)) t score action now ttl r)) t')"
  by (rule ladder_other [where t = t])
    (auto simp: apply_action_lua_def Let_def user_simps ladder_iff split: option.splits)

subsection \<open>A sweep\<close>

lemma evict_member_other:
  "t' \<noteq> t \<Longrightarrow> user_get (sw_store (evict_member (Queue ev sid) (UserPrefix ev sid) now stale grace ettl t a))
      (User ev sid t') = user_get (sw_store a) (User ev sid t')"
  by (auto simp: evict_member_def UserPrefix_User Let_def redis_simps key_simps split: option.splits)

lemma evict_member_ladder:
  "0 < ettl \<Longrightarrow> ladder (state_of ev sid (sw_store a) t) (state_of ev sid
    (sw_store (evict_member (Queue ev sid) (UserPrefix ev sid) now stale grace ettl t a)) t)"
  by (auto simp: evict_member_def UserPrefix_User Let_def user_simps ladder_iff split: option.splits)

lemma evict_fold_other:
  "t' \<notin> set ts \<Longrightarrow>
    user_get (sw_store (fold (evict_member (Queue ev sid) (UserPrefix ev sid) now stale grace ettl) ts a))
      (User ev sid t') = user_get (sw_store a) (User ev sid t')"
  by (induction ts arbitrary: a) (simp_all add: evict_member_other)

lemma evict_fold_ladder:
  assumes "0 < ettl"
  shows "distinct ts \<Longrightarrow> ladder (state_of ev sid (sw_store a) t') (state_of ev sid
    (sw_store (fold (evict_member (Queue ev sid) (UserPrefix ev sid) now stale grace ettl) ts a)) t')"
proof (induction ts arbitrary: a)
  case Nil
  then show ?case by (simp add: ladder.stay)
next
  case (Cons t ts)
  show ?case
  proof (cases "t' = t")
    case True
    with Cons.prems evict_member_ladder [OF assms, of ev sid a t] show ?thesis
      by (simp add: state_of_user_get [OF evict_fold_other])
  next
    case False
    with Cons.IH [of "evict_member (Queue ev sid) (UserPrefix ev sid) now stale grace ettl t a"] Cons.prems
    show ?thesis by (simp add: state_of_user_get [OF evict_member_other])
  qed
qed

lemma evict_ladder:
  assumes "0 < ettl" "zwf (zsets r (Queue ev sid))"
  shows "ladder (state_of ev sid r t') (state_of ev sid
    (snd (evict_lua (Queue ev sid) (UserPrefix ev sid) now stale grace off lim ettl r)) t')"
  using evict_fold_ladder [OF assms(1) zrange_distinct [OF assms(2)],
      of ev sid "\<lparr>sw_store = r, sw_marked = 0, sw_removed = 0, sw_ghosts = 0\<rparr>" t' now stale grace]
  by (simp add: evict_lua_def Let_def ladder.stay)

lemma tick_ladder: "0 \<le> d \<Longrightarrow> ladder (state_of ev sid r t) (state_of ev sid (tick d r) t)"
  using user_get_tick [of d r "User ev sid t"]
  by (cases "user_get (tick d r) (User ev sid t)") (auto simp: state_of_def hget_def ladder_iff)

lemmas script_ladders = enqueue_ladder heartbeat_ladder rechallenge_ladder admit_ladder redeem_ladder
  move_ladder restore_ladder apply_ladder tick_ladder

lemma exec_ladder:
  assumes "lane_inv ev sid r" "op_ok ev sid r opn"
  shows "ladder (state_of ev sid r t) (state_of ev sid (snd (exec ev sid opn r)) t)"
proof -
  have "zwf (zsets r (Queue ev sid))" using assms(1) by (simp add: lane_inv_def zsets_ok_def)
  with assms(2) show ?thesis
    by (cases opn) (auto simp: script_ladders evict_ladder position_lua_def ladder.stay
        refill_budget_lua_def Let_def redis_simps intro!: ladder_frame)
qed

section \<open>Runs\<close>

fun run :: "string \<Rightarrow> string \<Rightarrow> slot_op list \<Rightarrow> redis \<Rightarrow> redis" where
  "run ev sid [] r = r"
| "run ev sid (opn # ops) r = run ev sid ops (snd (exec ev sid opn r))"

fun run_ok :: "string \<Rightarrow> string \<Rightarrow> slot_op list \<Rightarrow> redis \<Rightarrow> bool" where
  "run_ok ev sid [] r \<longleftrightarrow> True"
| "run_ok ev sid (opn # ops) r \<longleftrightarrow> op_ok ev sid r opn \<and> run_ok ev sid ops (snd (exec ev sid opn r))"

lemma run_reachable:
  "reachable ev sid r \<Longrightarrow> run_ok ev sid ops r \<Longrightarrow> reachable ev sid (run ev sid ops r)"
  by (induction ops arbitrary: r) (simp_all add: reachable.step)

lemma run_lane_inv:
  "slot_ok ev sid \<Longrightarrow> lane_inv ev sid r \<Longrightarrow> run_ok ev sid ops r \<Longrightarrow> lane_inv ev sid (run ev sid ops r)"
  by (induction ops arbitrary: r) (simp_all add: exec_lane_inv)

section \<open>The budget\<close>

definition budget_of :: "string \<Rightarrow> string \<Rightarrow> redis \<Rightarrow> int" where
  "budget_of ev sid r = or_else (counter_get r (Budget ev sid)) 0"

fun granted :: "slot_op \<Rightarrow> int" where
  "granted (Refill_op grant cap ttl) = grant"
| "granted _ = 0"

text \<open>A place handed out: the call moves the token from \<open>waiting\<close> to \<open>admitted\<close>.\<close>

fun fresh_admit :: "string \<Rightarrow> string \<Rightarrow> redis \<Rightarrow> slot_op \<Rightarrow> bool" where
  "fresh_admit ev sid r (Admit_op t jti now ettl uttl dwell beats) \<longleftrightarrow>
    state_of ev sid r t = Some ''waiting'' \<and>
    state_of ev sid (snd (exec ev sid (Admit_op t jti now ettl uttl dwell beats) r)) t = Some ''admitted''"
| "fresh_admit ev sid r _ \<longleftrightarrow> False"

fun admissions :: "string \<Rightarrow> string \<Rightarrow> slot_op list \<Rightarrow> redis \<Rightarrow> int" where
  "admissions ev sid [] r = 0"
| "admissions ev sid (opn # ops) r =
    (if fresh_admit ev sid r opn then 1 else 0) + admissions ev sid ops (snd (exec ev sid opn r))"

definition grants :: "slot_op list \<Rightarrow> int" where
  "grants ops = sum_list (map granted ops)"

lemma budget_evict_member:
  "counter_get (sw_store (evict_member q p now stale grace ettl t a)) k = counter_get (sw_store a) k"
  by (auto simp: evict_member_def Let_def redis_simps split: option.splits)

lemma counter_evict_fold:
  "counter_get (sw_store (fold (evict_member q p now stale grace ettl) ts a)) k = counter_get (sw_store a) k"
  by (induction ts arbitrary: a) (simp_all add: budget_evict_member)

lemma counter_evict: "counter_get (snd (evict_lua q p now stale grace off lim ettl r)) k = counter_get r k"
  by (simp add: evict_lua_def Let_def counter_evict_fold)

lemma counter_tick: "0 \<le> d \<Longrightarrow> counter_get (tick d r) k = counter_get r k \<or> counter_get (tick d r) k = None"
  by (auto simp: counter_get_def tick_def live_def alive_def split: option.splits)

text \<open>Scripts other than \<open>refill\_budget\<close> and \<open>admit\<close> leave the budget alone.\<close>

fun spends :: "slot_op \<Rightarrow> bool" where
  "spends (Refill_op grant cap ttl) = True"
| "spends (Admit_op t jti now ettl uttl dwell beats) = True"
| "spends (Tick d) = True"
| "spends _ = False"

lemma budget_frame: "\<not> spends opn \<Longrightarrow> op_ok ev sid r opn \<Longrightarrow>
    budget_of ev sid (snd (exec ev sid opn r)) = budget_of ev sid r"
  by (cases opn)
    (auto simp: budget_of_def enqueue_new_def enqueue_lua_def position_lua_def heartbeat_lua_def
      rechallenge_lua_def redeem_lua_def action_script_defs Let_def
      redis_simps key_simps counter_evict split: option.splits)

lemma budget_refill:
  assumes "0 \<le> grant" "0 < ttl" "0 \<le> budget_of ev sid r"
  shows "0 \<le> budget_of ev sid (snd (exec ev sid (Refill_op grant cap ttl) r))"
    "budget_of ev sid (snd (exec ev sid (Refill_op grant cap ttl) r)) \<le> budget_of ev sid r + grant"
  using assms by (simp_all add: budget_of_def refill_budget_lua_def Let_def redis_simps)

text \<open>When \<open>admit\<close> hands out a place, and what it does then; otherwise it changes nothing.\<close>

definition observed_since :: "redis \<Rightarrow> key \<Rightarrow> millis option" where
  "observed_since r userKey = (case hget r userKey u_observe_from of
     Some t \<Rightarrow> Some t | None \<Rightarrow> hget r userKey u_joined_at)"

definition gate_open :: "redis \<Rightarrow> key \<Rightarrow> millis \<Rightarrow> millis \<Rightarrow> int \<Rightarrow> bool" where
  "gate_open r userKey now dwell beats \<longleftrightarrow>
    (dwell > 0 \<longrightarrow> (case observed_since r userKey of None \<Rightarrow> False | Some t \<Rightarrow> dwell \<le> now - t)) \<and>
    (beats > 0 \<longrightarrow> beats \<le> or_else (hget r userKey u_hb_count) 0 - or_else (hget r userKey u_hb_base) 0)"

definition admissible :: "string \<Rightarrow> string \<Rightarrow> redis \<Rightarrow> token \<Rightarrow> millis \<Rightarrow> millis \<Rightarrow> int \<Rightarrow> bool" where
  "admissible ev sid r t now dwell beats \<longleftrightarrow>
    state_of ev sid r t = Some ''waiting'' \<and>
    (\<exists>rk. zrank (zsets r (Queue ev sid)) t = Some rk \<and> rk < budget_of ev sid r) \<and>
    gate_open r (User ev sid t) now dwell beats"

lemma admit_refused:
  assumes "\<not> admissible ev sid r t now dwell beats"
  shows "snd (exec ev sid (Admit_op t jti now ettl uttl dwell beats) r) = r"
proof (cases "state_of ev sid r t = Some ''waiting''")
  case False
  then show ?thesis
    by (simp add: admit_lua_def Let_def state_of_def split: option.split)
next
  case True
  show ?thesis
  proof (cases "zrank (zsets r (Queue ev sid)) t")
    case None
    with True show ?thesis by (simp add: admit_lua_def Let_def state_of_def)
  next
    case (Some rk)
    with True assms have "\<not> (gate_open r (User ev sid t) now dwell beats \<and> rk < budget_of ev sid r)"
      by (auto simp: admissible_def)
    with True Some show ?thesis
      by (auto simp: admit_lua_def Let_def state_of_def gate_open_def observed_since_def budget_of_def
          split: option.splits)
  qed
qed

definition admit_writes :: "string \<Rightarrow> string \<Rightarrow> token \<Rightarrow> string \<Rightarrow> millis \<Rightarrow> millis \<Rightarrow> millis \<Rightarrow> redis \<Rightarrow> redis" where
  "admit_writes ev sid t jti now ettl uttl r =
    set_string_px (pexpire (hset (ZREM (snd (incr_by r (Budget ev sid) (- 1))) (Queue ev sid) t)
      (User ev sid t) (\<lambda>h. h\<lparr>u_state := Some ''admitted'', u_admitted_at := Some now,
        u_entry_jti := Some jti\<rparr>)) (User ev sid t) uttl) (Entry ev sid jti) t ettl"

lemma admit_writes_reads:
  assumes "0 < ettl" "0 < uttl"
  shows "state_of ev sid (admit_writes ev sid t jti now ettl uttl r) t = Some ''admitted''"
    "hget (admit_writes ev sid t jti now ettl uttl r) (User ev sid t) u_entry_jti = Some jti"
    "budget_of ev sid (admit_writes ev sid t jti now ettl uttl r) = budget_of ev sid r - 1"
    "string_get (admit_writes ev sid t jti now ettl uttl r) (Entry ev sid jti) = Some t"
  using assms by (simp_all add: admit_writes_def budget_of_def user_simps)

lemma admit_granted:
  assumes "admissible ev sid r t now dwell beats" "0 < ettl"
  obtains rk w where "zrank (zsets r (Queue ev sid)) t = Some rk" "rk < budget_of ev sid r"
    "exec ev sid (Admit_op t jti now ettl uttl dwell beats) r =
      (Inr [LStr ''admitted'', LInt rk, LInt (budget_of ev sid r - 1), LStr jti, LInt w],
       admit_writes ev sid t jti now ettl uttl r)"
proof -
  let ?w = "case observed_since r (User ev sid t) of Some s \<Rightarrow> now - s | None \<Rightarrow> - 1"
  obtain rk where rk: "zrank (zsets r (Queue ev sid)) t = Some rk" "rk < budget_of ev sid r"
    and st: "hget r (User ev sid t) u_state = Some ''waiting''"
    and gate: "gate_open r (User ev sid t) now dwell beats"
    using assms by (auto simp: admissible_def state_of_def)
  have g1: "\<not> (dwell > 0 \<and> (?w < 0 \<or> ?w < dwell))" using gate by (auto simp: gate_open_def split: option.splits)
  have g2: "\<not> (beats > 0 \<and> or_else (hget r (User ev sid t) u_hb_count) 0 -
      or_else (hget r (User ev sid t) u_hb_base) 0 < beats)"
    using gate by (auto simp: gate_open_def)
  have "\<not> rk \<ge> or_else (counter_get r (Budget ev sid)) 0" using rk by (simp add: budget_of_def)
  with rk st g1 g2 assms(2) show thesis
    by (intro that [of rk ?w])
      (simp_all add: admit_lua_def admit_writes_def Let_def budget_of_def EntryPrefix_Entry counter_incr
        flip: observed_since_def)
qed

lemma admit_fresh_iff:
  assumes "0 < ettl" "0 < uttl"
  shows "fresh_admit ev sid r (Admit_op t jti now ettl uttl dwell beats) \<longleftrightarrow>
    admissible ev sid r t now dwell beats"
proof (cases "admissible ev sid r t now dwell beats")
  case True
  then have "snd (exec ev sid (Admit_op t jti now ettl uttl dwell beats) r) =
      admit_writes ev sid t jti now ettl uttl r"
    by (metis admit_granted [OF True assms(1)] snd_conv)
  with True assms show ?thesis by (simp add: admissible_def admit_writes_reads del: exec.simps)
next
  case False
  from admit_refused [OF this] False show ?thesis by (simp del: exec.simps)
qed

lemma budget_admit:
  assumes "0 < ettl" "0 < uttl" "0 \<le> budget_of ev sid r"
  shows "0 \<le> budget_of ev sid (snd (exec ev sid (Admit_op t jti now ettl uttl dwell beats) r)) \<and>
    budget_of ev sid (snd (exec ev sid (Admit_op t jti now ettl uttl dwell beats) r)) =
    budget_of ev sid r -
      (if fresh_admit ev sid r (Admit_op t jti now ettl uttl dwell beats) then 1 else 0)"
proof (cases "admissible ev sid r t now dwell beats")
  case True
  from admit_granted [OF this assms(1), of jti uttl] obtain rk where
    rk: "zrank (zsets r (Queue ev sid)) t = Some rk" "rk < budget_of ev sid r" and
    ex: "snd (exec ev sid (Admit_op t jti now ettl uttl dwell beats) r) =
      admit_writes ev sid t jti now ettl uttl r" by (metis snd_conv)
  have "0 \<le> rk" using rk(1) by (auto simp: zrank_def Let_def split: if_splits)
  with True rk(2) assms show ?thesis
    unfolding admit_fresh_iff [OF assms(1,2)] ex by (simp add: admit_writes_reads)
next
  case False
  then show ?thesis
    unfolding admit_fresh_iff [OF assms(1,2)] admit_refused [OF False] using assms(3) by simp
qed

lemma exec_budget:
  assumes "op_ok ev sid r opn" "0 \<le> budget_of ev sid r"
  shows "0 \<le> budget_of ev sid (snd (exec ev sid opn r)) \<and>
    budget_of ev sid (snd (exec ev sid opn r)) + (if fresh_admit ev sid r opn then 1 else 0)
      \<le> budget_of ev sid r + granted opn"
proof (cases "spends opn")
  case False
  with assms budget_frame [OF False assms(1)] show ?thesis by (cases opn) simp_all
next
  case True
  then consider (refill) grant cap ttl where "opn = Refill_op grant cap ttl"
    | (admit) t jti now ettl uttl dwell beats where "opn = Admit_op t jti now ettl uttl dwell beats"
    | (tick) d where "opn = Tick d"
    by (cases opn) auto
  then show ?thesis
  proof cases
    case refill
    with assms budget_refill [of grant ttl ev sid r cap] show ?thesis by simp
  next
    case admit
    with assms budget_admit [of ettl uttl ev sid r t jti now dwell beats] show ?thesis
      by (simp del: exec.simps fresh_admit.simps)
  next
    case tick
    with assms counter_tick [of d r "Budget ev sid"] show ?thesis by (auto simp: budget_of_def)
  qed
qed

lemma run_budget:
  "run_ok ev sid ops r \<Longrightarrow> 0 \<le> budget_of ev sid r \<Longrightarrow>
    0 \<le> budget_of ev sid (run ev sid ops r) \<and>
    budget_of ev sid (run ev sid ops r) + admissions ev sid ops r \<le> budget_of ev sid r + grants ops"
proof (induction ops arbitrary: r)
  case Nil
  then show ?case by (simp add: grants_def)
next
  case (Cons opn ops)
  from Cons.prems exec_budget [of ev sid r opn] Cons.IH [of "snd (exec ev sid opn r)"] show ?case
    by (simp add: grants_def)
qed

end
