(* ===== verification/Fairness.thy ===== *)
theory Fairness
  imports SlotRuns
begin

text \<open>
  Order and tickets in the runs of a slot: lottery entrants before FIFO entrants, FIFO
  newcomers at the tail, and entry tickets that are burned at most once.
\<close>

section \<open>The two bands\<close>

definition seq_of :: "string \<Rightarrow> string \<Rightarrow> redis \<Rightarrow> int" where
  "seq_of ev sid r = (case counters r (Seq ev sid) of None \<Rightarrow> 0 | Some (n, _) \<Rightarrow> n)"

text \<open>The sequence counter has no expiry, so it survives the passing of time.\<close>

definition seq_persistent :: "string \<Rightarrow> string \<Rightarrow> redis \<Rightarrow> bool" where
  "seq_persistent ev sid r \<longleftrightarrow>
    (case counters r (Seq ev sid) of None \<Rightarrow> True | Some (n, d) \<Rightarrow> 0 \<le> n \<and> d = None)"

fun band_ok :: "int \<Rightarrow> int option \<Rightarrow> string option \<Rightarrow> bool" where
  "band_ok n None seg \<longleftrightarrow> seg = None"
| "band_ok n (Some k) seg \<longleftrightarrow> 0 \<le> k \<and> k \<le> LotteryBand + n \<and>
    (seg = Some ''lottery'' \<longrightarrow> k < LotteryBand) \<and> (seg = Some ''fifo'' \<longrightarrow> LotteryBand < k)"

definition rank_ok :: "int \<Rightarrow> place \<Rightarrow> bool" where
  "rank_ok n p = (case p of (q, g, h, u) \<Rightarrow>
    pred_option (\<lambda>s. 0 \<le> s \<and> s \<le> LotteryBand + n) q \<and> pred_option (\<lambda>s. 0 \<le> s \<and> s \<le> LotteryBand + n) g \<and>
    pred_option (\<lambda>s. 0 \<le> s \<and> s \<le> LotteryBand + n) h \<and> pred_option (\<lambda>v. band_ok n (u_orig_rank v) (u_segment v)) u)"

definition fifo_inv :: "string \<Rightarrow> string \<Rightarrow> redis \<Rightarrow> bool" where
  "fifo_inv ev sid r \<longleftrightarrow> seq_persistent ev sid r \<and> (\<forall>t. rank_ok (seq_of ev sid r) (place_of ev sid r t))"

lemma band_ok_mono: "band_ok n k seg \<Longrightarrow> n \<le> m \<Longrightarrow> band_ok m k seg"
  by (cases k) simp_all

lemma rank_ok_mono: "rank_ok n p \<Longrightarrow> n \<le> m \<Longrightarrow> rank_ok m p"
  by (auto simp: rank_ok_def band_ok_mono elim!: option.pred_mono_strong split: prod.splits)

lemma fifo_inv_empty: "fifo_inv ev sid empty_redis"
  by (simp add: fifo_inv_def seq_persistent_def rank_ok_def place_of_def empty_redis_def user_get_def)

lemma fifo_inv_step:
  assumes inv: "fifo_inv ev sid r" "lane_inv ev sid r"
    and seq: "seq_persistent ev sid r'" "seq_of ev sid r \<le> seq_of ev sid r'"
    and place: "zwf (zsets r (Queue ev sid)) \<Longrightarrow> zwf (zsets r (Queue ev (grey_of sid))) \<Longrightarrow>
      zwf (zsets r (Hold ev sid)) \<Longrightarrow> rank_ok (seq_of ev sid r) (place_of ev sid r t) \<Longrightarrow>
      place_ok (place_of ev sid r t) \<Longrightarrow>
      (\<forall>t'. t' \<noteq> t \<longrightarrow> place_of ev sid r' t' = place_of ev sid r t') \<and>
      rank_ok (seq_of ev sid r') (place_of ev sid r' t)"
  shows "fifo_inv ev sid r'"
proof -
  have p: "(\<forall>t'. t' \<noteq> t \<longrightarrow> place_of ev sid r' t' = place_of ev sid r t') \<and>
      rank_ok (seq_of ev sid r') (place_of ev sid r' t)"
    using inv by (intro place) (simp_all add: fifo_inv_def lane_inv_def zsets_ok_def)
  have "rank_ok (seq_of ev sid r') (place_of ev sid r' t')" for t'
  proof (cases "t' = t")
    case True
    with p show ?thesis by simp
  next
    case False
    with p have "place_of ev sid r' t' = place_of ev sid r t'" by simp
    with inv(1) seq(2) show ?thesis
      by (auto simp: fifo_inv_def intro: rank_ok_mono)
  qed
  with seq(1) show ?thesis by (simp add: fifo_inv_def)
qed

subsection \<open>The sequence counter\<close>

lemma counters_after [redis_simps]:
  "counters (ZADD r q s m) = counters r" "counters (ZREM r q m) = counters r"
  "counters (hset r u f) = counters r" "counters (del_user r u) = counters r"
  "counters (pexpire r u ms) = counters r" "counters (set_string_px r e v ms) = counters r"
  "counters (del_string r e) = counters r" "counters (hset_score r c t n) = counters r"
  "counters (tick d r) = counters r"
  by (simp_all add: ZADD_def ZREM_def hset_def del_user_def pexpire_def set_string_px_def
      del_string_def hset_score_def tick_def split: option.splits)

lemma counters_incr_other: "c \<noteq> k \<Longrightarrow> counters (snd (incr_by r c d)) k = counters r k"
  by (simp add: incr_by_def split: option.splits)

lemma counters_set_other: "c \<noteq> k \<Longrightarrow> counters (set_counter_px r c v ms) k = counters r k"
  by (simp add: set_counter_px_def)

lemma seq_incr:
  assumes "seq_persistent ev sid r"
  shows "fst (incr_by r (Seq ev sid) 1) = seq_of ev sid r + 1"
    "counters (snd (incr_by r (Seq ev sid) 1)) (Seq ev sid) = Some (seq_of ev sid r + 1, None)"
  using assms
  by (auto simp: incr_by_def counter_get_def live_def alive_def seq_of_def seq_persistent_def
      split: option.splits)

lemma seq_frame:
  "counters r' (Seq ev sid) = counters r (Seq ev sid) \<Longrightarrow>
    seq_of ev sid r' = seq_of ev sid r \<and> seq_persistent ev sid r' = seq_persistent ev sid r"
  by (simp add: seq_of_def seq_persistent_def)

lemma fifo_inv_same_seq:
  assumes "fifo_inv ev sid r" "lane_inv ev sid r" "counters r' (Seq ev sid) = counters r (Seq ev sid)"
    "zwf (zsets r (Queue ev sid)) \<Longrightarrow> zwf (zsets r (Queue ev (grey_of sid))) \<Longrightarrow>
      zwf (zsets r (Hold ev sid)) \<Longrightarrow> rank_ok (seq_of ev sid r) (place_of ev sid r t) \<Longrightarrow>
      place_ok (place_of ev sid r t) \<Longrightarrow>
      (\<forall>t'. t' \<noteq> t \<longrightarrow> place_of ev sid r' t' = place_of ev sid r t') \<and>
      rank_ok (seq_of ev sid r) (place_of ev sid r' t)"
  shows "fifo_inv ev sid r'"
  using assms seq_frame [OF assms(3)]
  by (intro fifo_inv_step [OF assms(1,2), where t = t]) (simp_all add: fifo_inv_def)

lemmas band_simps = place_of_def rank_ok_def hget_def redis_simps key_simps

lemma enqueue_new_fifo:
  assumes "slot_ok ev sid" "fifo_inv ev sid r" "lane_inv ev sid r" "0 < ttl" "0 \<le> lrand" "lrand < LotteryBand"
  shows "fifo_inv ev sid (snd (enqueue_new (Queue ev sid) (Seq ev sid) (User ev sid t) t sid now lend
    lrand LotteryBand fp ip ttl r))"
proof -
  have p: "seq_persistent ev sid r" "0 \<le> seq_of ev sid r"
    using assms(2) by (auto simp: fifo_inv_def seq_persistent_def seq_of_def split: option.splits)
  let ?r' = "snd (enqueue_new (Queue ev sid) (Seq ev sid) (User ev sid t) t sid now lend
    lrand LotteryBand fp ip ttl r)"
  have s: "counters ?r' (Seq ev sid) = (if now < lend then counters r (Seq ev sid) else Some (seq_of ev sid r + 1, None))"
    using seq_incr [OF p(1)] by (simp add: enqueue_new_def Let_def redis_simps)
  then have s': "seq_of ev sid ?r' = (if now < lend then seq_of ev sid r else seq_of ev sid r + 1)"
    "seq_persistent ev sid ?r'"
    using p by (auto simp: seq_of_def seq_persistent_def)
  show ?thesis
    by (rule fifo_inv_step [OF assms(2,3), where t = t])
      (use assms(1,4-6) p seq_incr [OF p(1)] s' in \<open>auto simp: enqueue_new_def Let_def band_simps
         intro: option.pred_mono_strong\<close>)
qed

lemma del_user_fifo:
  "fifo_inv ev sid r \<Longrightarrow> lane_inv ev sid r \<Longrightarrow> fifo_inv ev sid (del_user r (User ev sid t))"
  by (rule fifo_inv_same_seq [where t = t]) (auto simp: band_simps)

lemma enqueue_fifo:
  assumes "slot_ok ev sid" "fifo_inv ev sid r" "lane_inv ev sid r" "0 < ttl" "0 \<le> lrand" "lrand < LotteryBand"
  shows "fifo_inv ev sid (snd (enqueue_lua (Queue ev sid) (Seq ev sid) (User ev sid t) t sid now lend
    lrand LotteryBand fp ip ttl r))"
proof (cases "state_of ev sid r t = None \<or> state_of ev sid r t = Some ''evicted''")
  case True
  then show ?thesis
    using enqueue_new_fifo [OF assms] del_user_inv [OF assms(3)]
      enqueue_new_fifo [OF assms(1) del_user_fifo [OF assms(2,3)] del_user_inv [OF assms(3)] assms(4-6)]
    by (auto simp: enqueue_lua_def Let_def state_of_def)
next
  case False
  then show ?thesis
    by (intro fifo_inv_same_seq [OF assms(2,3), where t = t])
      (use assms(1,4) in \<open>auto simp: enqueue_lua_def Let_def band_simps state_of_def split: option.splits\<close>)
qed

lemma heartbeat_fifo:
  assumes "slot_ok ev sid" "fifo_inv ev sid r" "lane_inv ev sid r" "0 < ttl"
  shows "fifo_inv ev sid (snd (heartbeat_lua (Queue ev sid) (User ev sid t) t now ttl r))"
  by (rule fifo_inv_same_seq [OF assms(2,3), where t = t])
    (use assms(1,4) in \<open>auto simp: heartbeat_lua_def Let_def band_simps split: option.splits\<close>)

lemma rechallenge_fifo:
  assumes "slot_ok ev sid" "fifo_inv ev sid r" "lane_inv ev sid r" "0 < ttl"
  shows "fifo_inv ev sid (snd (rechallenge_lua (Queue ev sid) (Queue ev (grey_of sid)) (Hold ev sid)
    (Score ev sid) (User ev sid t) t sid mx pass hold now ttl r))"
  by (rule fifo_inv_same_seq [OF assms(2,3), where t = t])
    (use assms(1,4) in \<open>auto simp: rechallenge_lua_def Let_def band_simps split: option.splits\<close>)

lemma admit_fifo:
  assumes "slot_ok ev sid" "fifo_inv ev sid r" "lane_inv ev sid r" "0 < ettl" "0 < uttl"
  shows "fifo_inv ev sid (snd (exec ev sid (Admit_op t jti now ettl uttl dwell beats) r))"
proof (cases "admissible ev sid r t now dwell beats")
  case True
  then have "snd (exec ev sid (Admit_op t jti now ettl uttl dwell beats) r) =
      admit_writes ev sid t jti now ettl uttl r"
    by (metis admit_granted [OF True assms(4)] snd_conv)
  moreover have "fifo_inv ev sid (admit_writes ev sid t jti now ettl uttl r)"
    by (rule fifo_inv_same_seq [OF assms(2,3), where t = t])
      (use True assms(1,4,5) in \<open>auto simp: admit_writes_def band_simps counters_incr_other
        admissible_def state_of_def split: option.splits\<close>)
  ultimately show ?thesis by simp
next
  case False
  from admit_refused [OF this] assms(2) show ?thesis by simp
qed

lemma redeem_fifo:
  assumes "slot_ok ev sid" "fifo_inv ev sid r" "lane_inv ev sid r"
  shows "fifo_inv ev sid (snd (redeem_lua (Entry ev sid jti) (User ev sid t) t now r))"
  by (rule fifo_inv_same_seq [OF assms(2,3), where t = t])
    (use assms(1) in \<open>auto simp: redeem_lua_def band_simps or_else_def no_user_def split: option.splits\<close>)

lemma move_fifo:
  assumes "slot_ok ev sid" "fifo_inv ev sid r" "lane_inv ev sid r" "0 < ttl"
  shows "fifo_inv ev sid (snd (move_shard_lua (Queue ev sid) (Queue ev (grey_of sid)) (Score ev sid)
    (User ev sid t) t (grey_of sid) score now ttl r))"
  by (rule fifo_inv_same_seq [OF assms(2,3), where t = t])
    (use assms(1,4) in \<open>auto simp: move_shard_lua_def Let_def band_simps split: option.splits\<close>)

lemma restore_fifo:
  assumes "slot_ok ev sid" "fifo_inv ev sid r" "lane_inv ev sid r" "0 < ttl"
  shows "fifo_inv ev sid (snd (restore_shard_lua (Queue ev sid) (Queue ev (grey_of sid)) (Hold ev sid)
    (User ev sid t) t sid now ttl r))"
  by (rule fifo_inv_same_seq [OF assms(2,3), where t = t])
    (use assms(1,4) in \<open>auto simp: restore_shard_lua_def Let_def band_simps split: option.splits\<close>)

lemma apply_hold_fifo:
  assumes "slot_ok ev sid" "fifo_inv ev sid r" "lane_inv ev sid r" "0 < ttl"
    "hget r (User ev sid t) u_state = Some st" "st \<noteq> ''blocked''"
  shows "fifo_inv ev sid (snd (apply_action_lua (Queue ev sid) (Hold ev sid) (Score ev sid) (User ev sid t)
      (Queue ev (grey_of sid)) t score ''hold'' now ttl r))" (is "fifo_inv _ _ ?r'")
proof (rule fifo_inv_same_seq [OF assms(2,3), where t = t])
  show "counters ?r' (Seq ev sid) = counters r (Seq ev sid)"
    using assms(5,6) by (auto simp: apply_action_lua_def Let_def redis_simps)
  assume z: "zwf (zsets r (Queue ev sid))" "zwf (zsets r (Queue ev (grey_of sid)))"
    "zwf (zsets r (Hold ev sid))" "rank_ok (seq_of ev sid r) (place_of ev sid r t)"
    "place_ok (place_of ev sid r t)"
  obtain u where u: "user_get r (User ev sid t) = Some u" "u_state u = Some st"
    using assms(5) by (auto simp: hget_Some)
  show "(\<forall>t'. t' \<noteq> t \<longrightarrow> place_of ev sid ?r' t' = place_of ev sid r t') \<and>
      rank_ok (seq_of ev sid r) (place_of ev sid ?r' t)"
  proof (cases "st = ''held''")
    case True
    with z u assms(1,4) show ?thesis
      by (simp add: apply_action_lua_def apply_rankOf_def Let_def band_simps)
  next
    case False
    with z u assms(1,4,6) show ?thesis
      by (cases "zscore (zsets r (Queue ev sid)) t";
          cases "zscore (zsets r (Queue ev (grey_of sid))) t"; cases "zscore (zsets r (Hold ev sid)) t")
        (simp_all add: apply_action_lua_def apply_rankOf_def zrem_count_def Let_def band_simps)
  qed
qed

lemma apply_fifo:
  assumes "slot_ok ev sid" "fifo_inv ev sid r" "lane_inv ev sid r" "0 < ttl"
  shows "fifo_inv ev sid (snd (apply_action_lua (Queue ev sid) (Hold ev sid) (Score ev sid) (User ev sid t)
      (Queue ev (grey_of sid)) t score action now ttl r))"
proof (cases "\<exists>st. hget r (User ev sid t) u_state = Some st \<and> st \<noteq> ''blocked'' \<and> action = ''hold''")
  case True
  then show ?thesis using apply_hold_fifo [OF assms] by blast
next
  case False
  then show ?thesis
    by (intro fifo_inv_same_seq [OF assms(2,3), where t = t])
      (use assms(1,4) in \<open>auto simp: apply_action_lua_def Let_def band_simps split: option.splits\<close>)
qed

lemma evict_fold_fifo:
  assumes "slot_ok ev sid" "0 < ettl"
  shows "fifo_inv ev sid (sw_store a) \<Longrightarrow> lane_inv ev sid (sw_store a) \<Longrightarrow>
    fifo_inv ev sid (sw_store (fold (evict_member (Queue ev sid) (UserPrefix ev sid) now stale grace ettl) ts a))"
proof (induction ts arbitrary: a)
  case (Cons t ts)
  have "fifo_inv ev sid (sw_store (evict_member (Queue ev sid) (UserPrefix ev sid) now stale grace ettl t a))"
    by (rule fifo_inv_same_seq [OF Cons.prems, where t = t])
      (use assms in \<open>auto simp: evict_member_def UserPrefix_User Let_def band_simps split: option.splits\<close>)
  with Cons assms show ?case by (simp add: evict_member_inv)
qed simp

lemma evict_fifo:
  assumes "slot_ok ev sid" "fifo_inv ev sid r" "lane_inv ev sid r" "0 < ettl"
  shows "fifo_inv ev sid (snd (evict_lua (Queue ev sid) (UserPrefix ev sid) now stale grace off lim ettl r))"
  using assms evict_fold_fifo [of ev sid ettl "\<lparr>sw_store = r, sw_marked = 0, sw_removed = 0, sw_ghosts = 0\<rparr>"]
  by (simp add: evict_lua_def Let_def)

lemma tick_fifo:
  assumes "fifo_inv ev sid r" "0 \<le> d"
  shows "fifo_inv ev sid (tick d r)"
proof -
  have "rank_ok (seq_of ev sid r) (place_of ev sid (tick d r) t)" for t
  proof -
    have r: "rank_ok (seq_of ev sid r) (place_of ev sid r t)" using assms by (simp add: fifo_inv_def)
    show ?thesis
    proof (cases "user_get (tick d r) (User ev sid t)")
      case None
      with r show ?thesis by (simp add: place_of_def rank_ok_def tick_def)
    next
      case (Some u)
      with r user_get_tick [OF assms(2) Some] show ?thesis
        by (simp add: place_of_def rank_ok_def tick_def)
    qed
  qed
  with assms(1) show ?thesis by (simp add: fifo_inv_def seq_of_def seq_persistent_def counters_after)
qed

lemma refill_fifo:
  assumes "fifo_inv ev sid r"
  shows "fifo_inv ev sid (snd (refill_budget_lua (Budget ev sid) (Queue ev sid) grant cap ttl r))"
  using assms
  by (auto simp: refill_budget_lua_def Let_def fifo_inv_def place_of_def redis_simps key_simps
      counters_set_other seq_of_def seq_persistent_def)

lemmas script_fifos = enqueue_fifo heartbeat_fifo rechallenge_fifo redeem_fifo move_fifo restore_fifo
  apply_fifo evict_fifo tick_fifo refill_fifo

lemma exec_fifo:
  assumes "slot_ok ev sid" "fifo_inv ev sid r" "lane_inv ev sid r" "op_ok ev sid r opn"
  shows "fifo_inv ev sid (snd (exec ev sid opn r))"
proof (cases "\<exists>t jti now ettl uttl dwell beats. opn = Admit_op t jti now ettl uttl dwell beats")
  case True
  with assms admit_fifo [OF assms(1-3)] show ?thesis by auto
next
  case False
  with assms show ?thesis by (cases opn) (simp_all add: script_fifos position_lua_def)
qed

lemma reachable_fifo_inv: "reachable ev sid r \<Longrightarrow> slot_ok ev sid \<Longrightarrow> fifo_inv ev sid r"
  by (induction rule: reachable.induct) (simp_all add: fifo_inv_empty exec_fifo reachable_lane_inv)

subsection \<open>What the bands mean for ranks\<close>

lemma queue_score_rank:
  assumes "lane_inv ev sid r" "zscore (zsets r (Queue ev sid)) t = Some s" "user_get r (User ev sid t) = Some u"
    "u_state u \<noteq> None"
  shows "u_orig_rank u = Some s"
  using lane_inv_place [OF assms(1), of t] assms(2-4) by (auto simp: place_of_def)

lemma band_bounds:
  assumes "fifo_inv ev sid r"
  shows "zscore (zsets r (Queue ev sid)) t = Some s \<Longrightarrow> s \<le> LotteryBand + seq_of ev sid r"
    "user_get r (User ev sid t) = Some u \<Longrightarrow> band_ok (seq_of ev sid r) (u_orig_rank u) (u_segment u)"
  using assms by (auto simp: fifo_inv_def rank_ok_def place_of_def elim!: allE [where x = t])

lemma lottery_before_fifo:
  assumes inv: "lane_inv ev sid r" "fifo_inv ev sid r"
    and a: "state_of ev sid r a \<noteq> None" "hget r (User ev sid a) u_segment = Some ''lottery''"
      "zrank (zsets r (Queue ev sid)) a = Some ra"
    and b: "state_of ev sid r b \<noteq> None" "hget r (User ev sid b) u_segment = Some ''fifo''"
      "zrank (zsets r (Queue ev sid)) b = Some rb"
  shows "ra < rb"
proof -
  have z: "zwf (zsets r (Queue ev sid))" using inv by (simp add: lane_inv_def zsets_ok_def)
  obtain sa sb where s: "zscore (zsets r (Queue ev sid)) a = Some sa" "zscore (zsets r (Queue ev sid)) b = Some sb"
    using zs.rank_Some_iff [OF z] a(3) b(3) by blast
  obtain ua ub where u: "user_get r (User ev sid a) = Some ua" "u_segment ua = Some ''lottery''" "u_state ua \<noteq> None"
    "user_get r (User ev sid b) = Some ub" "u_segment ub = Some ''fifo''" "u_state ub \<noteq> None"
    using a(1,2) b(1,2) by (fastforce simp: hget_Some state_of_def)
  have "sa < sb"
    using band_bounds(2) [OF inv(2) u(1)] band_bounds(2) [OF inv(2) u(4)] u
      queue_score_rank [OF inv(1) s(1) u(1)] queue_score_rank [OF inv(1) s(2) u(4)] by simp
  then have "(sa, a) < (sb, b)" by simp
  with zs.rank_mono [OF z s] a(3) b(3) show ?thesis by simp
qed

text \<open>A score above all others is the last rank.\<close>

lemma zrank_last:
  assumes "zwf z" "\<And>m' s'. zscore z m' = Some s' \<Longrightarrow> m' \<noteq> m \<Longrightarrow> s' < s"
  shows "zrank (zadd z s m) m = Some (zcard (zadd z s m) - 1)"
proof -
  have z: "zwf (zadd z s m)" "zscore (zadd z s m) m = Some s" using assms(1) by simp_all
  have "zs.ahead (zadd z s m) s m = dom (zscore (zadd z s m)) - {m}"
  proof (intro set_eqI iffI)
    fix x assume "x \<in> dom (zscore (zadd z s m)) - {m}"
    then obtain s' where "x \<noteq> m" "zscore z x = Some s'" using assms(1) by (auto split: if_splits)
    with assms(2) assms(1) show "x \<in> zs.ahead (zadd z s m) s m" by (simp add: zs.ahead_def dom_def)
  qed (use z(2) in \<open>auto simp: zs.ahead_def\<close>)
  then have "zrank (zadd z s m) m = Some (int (card (dom (zscore (zadd z s m)) - {m})))"
    using zs.rank_ahead [OF z] by simp
  also have "card (dom (zscore (zadd z s m)) - {m}) = card (dom (zscore (zadd z s m))) - 1"
    using z by (intro card_Diff_singleton) auto
  finally have rank: "zrank (zadd z s m) m = Some (int (card (dom (zscore (zadd z s m))) - 1))" .
  have "0 < card (dom (zscore (zadd z s m)))"
    using z(2) zs.finite_score [OF z(1)] by (auto simp: card_gt_0_iff simp del: dom_eq_empty_conv)
  with rank show ?thesis using zs.size_score [OF z(1)] by simp
qed

lemma zrank_others_kept:
  assumes z: "zwf z" and top: "\<And>m' s'. zscore z m' = Some s' \<Longrightarrow> m' \<noteq> m \<Longrightarrow> s' < s"
    and a: "zscore z a = Some sa" "a \<noteq> m"
  shows "the (zrank (zadd z s m) a) \<le> the (zrank z a)"
proof -
  have "zadd z s m = zadd (zrem z m) s m" by (simp add: zadd_def zrem_def)
  moreover have "zrank (zadd (zrem z m) s m) a = zrank (zrem z m) a"
    using z top [OF a] a by (intro zs.rank_add_behind [where s = sa]) simp_all
  ultimately show ?thesis using zs.rank_remove_le [OF z a(1)] a(2) by metis
qed

lemma enqueue_fifo_tail:
  assumes ok: "slot_ok ev sid" and inv: "lane_inv ev sid r" "fifo_inv ev sid r"
    and new: "state_of ev sid r t = None \<or> state_of ev sid r t = Some ''evicted''"
    and late: "\<not> now < lend" and ttl: "0 < ttl"
    and res_def: "res = exec ev sid (Enqueue_op t now lend lrand LotteryBand fp ip ttl) r"
  shows "fst res = Inr [LStr ''created'', LInt (zcard (zsets (snd res) (Queue ev sid)) - 1),
      LInt (zcard (zsets (snd res) (Queue ev sid))), LInt (LotteryBand + seq_of ev sid r + 1), LStr ''fifo'']"
    "zsets (snd res) (Queue ev sid) = zadd (zsets r (Queue ev sid)) (LotteryBand + seq_of ev sid r + 1) t"
proof -
  let ?s = "LotteryBand + seq_of ev sid r + 1"
  have sp: "seq_persistent ev sid r" "seq_persistent ev sid (del_user r (User ev sid t))"
    "seq_of ev sid (del_user r (User ev sid t)) = seq_of ev sid r"
    using inv(2) by (simp_all add: fifo_inv_def seq_persistent_def seq_of_def counters_after)
  from new have "\<exists>r0. seq_persistent ev sid r0 \<and> seq_of ev sid r0 = seq_of ev sid r \<and> zsets r0 = zsets r \<and>
      res = enqueue_new (Queue ev sid) (Seq ev sid) (User ev sid t) t sid now lend lrand LotteryBand fp ip ttl r0"
  proof
    assume "state_of ev sid r t = None"
    with sp show ?thesis
      by (intro exI [of _ r]) (simp add: res_def enqueue_lua_def Let_def state_of_def)
  next
    assume "state_of ev sid r t = Some ''evicted''"
    with sp show ?thesis
      by (intro exI [of _ "del_user r (User ev sid t)"])
        (simp add: res_def enqueue_lua_def Let_def state_of_def redis_simps)
  qed
  then obtain r0 where r0: "seq_persistent ev sid r0" "seq_of ev sid r0 = seq_of ev sid r" "zsets r0 = zsets r"
    "res = enqueue_new (Queue ev sid) (Seq ev sid) (User ev sid t) t sid now lend lrand LotteryBand fp ip ttl r0"
    by blast
  have z: "zwf (zsets r (Queue ev sid))" using inv by (simp add: lane_inv_def zsets_ok_def)
  have top: "s' < ?s" if "zscore (zsets r (Queue ev sid)) m' = Some s'" for m' s'
    using band_bounds(1) [OF inv(2) that] by simp
  have rank: "zrank (zadd (zsets r (Queue ev sid)) ?s t) t = Some (zcard (zadd (zsets r (Queue ev sid)) ?s t) - 1)"
    using top by (intro zrank_last [OF z])
  show "zsets (snd res) (Queue ev sid) = zadd (zsets r (Queue ev sid)) ?s t"
    using late r0 seq_incr [OF r0(1)] by (simp add: enqueue_new_def Let_def redis_simps add.assoc)
  with rank late r0 seq_incr [OF r0(1)]
  show "fst res = Inr [LStr ''created'', LInt (zcard (zsets (snd res) (Queue ev sid)) - 1),
      LInt (zcard (zsets (snd res) (Queue ev sid))), LInt ?s, LStr ''fifo'']"
    by (simp add: enqueue_new_def enqueue_snapshot_def rank_reply_def Let_def redis_simps add.assoc)
qed

section \<open>Entry tickets\<close>

definition ticket :: "string \<Rightarrow> string \<Rightarrow> redis \<Rightarrow> string \<Rightarrow> token option" where
  "ticket ev sid r jti = string_get r (Entry ev sid jti)"

fun issues :: "string \<Rightarrow> slot_op \<Rightarrow> bool" where
  "issues jti (Admit_op t j now ettl uttl dwell beats) \<longleftrightarrow> j = jti"
| "issues jti _ \<longleftrightarrow> False"

lemma string_evict_fold:
  "string_get (sw_store (fold (evict_member q p now stale grace ettl) ts a)) k = string_get (sw_store a) k"
proof (induction ts arbitrary: a)
  case (Cons t ts)
  have "string_get (sw_store (evict_member q p now stale grace ettl t a)) k = string_get (sw_store a) k"
    by (auto simp: evict_member_def Let_def redis_simps split: option.splits)
  with Cons show ?case by simp
qed simp

lemma string_evict: "string_get (snd (evict_lua q p now stale grace off lim ettl r)) k = string_get r k"
  by (simp add: evict_lua_def Let_def string_evict_fold)

lemma string_tick: "0 \<le> d \<Longrightarrow> string_get r k = None \<Longrightarrow> string_get (tick d r) k = None"
  by (auto simp: string_get_def tick_def live_def alive_def split: option.splits if_splits)

lemma ticket_stays_burned:
  assumes "ticket ev sid r jti = None" "op_ok ev sid r opn" "\<not> issues jti opn"
  shows "ticket ev sid (snd (exec ev sid opn r)) jti = None"
  using assms
  by (cases opn)
    (auto simp: ticket_def string_tick string_evict enqueue_lua_def enqueue_new_def position_lua_def
      heartbeat_lua_def rechallenge_lua_def redeem_lua_def action_script_defs refill_budget_lua_def
      admit_lua_def EntryPrefix_Entry Let_def redis_simps key_simps split: option.splits)

lemma run_ticket_burned:
  "ticket ev sid r jti = None \<Longrightarrow> run_ok ev sid ops r \<Longrightarrow> \<forall>opn \<in> set ops. \<not> issues jti opn \<Longrightarrow>
    ticket ev sid (run ev sid ops r) jti = None"
  by (induction ops arbitrary: r) (simp_all add: ticket_stays_burned)

end
