(* ===== verification/SlotProperties.thy ===== *)
theory SlotProperties
  imports Fairness
begin

text \<open>
  The properties of a slot, stated over the scripts and the runs of \<open>Lanes\<close>, \<open>SlotRuns\<close>
  and \<open>Fairness\<close>, with a concrete run on which each of them is instantiated.
\<close>

section \<open>Sweeps spare the living\<close>

definition sweep_spares :: "redis \<Rightarrow> key \<Rightarrow> millis \<Rightarrow> millis \<Rightarrow> bool" where
  "sweep_spares r userKey now stale \<longleftrightarrow>
    (case hget r userKey u_state of
       None \<Rightarrow> False
     | Some st \<Rightarrow>
         if st = ''waiting'' then (case hget r userKey u_last_seen of None \<Rightarrow> True | Some l \<Rightarrow> now - l \<le> stale)
         else if st = ''evicting'' then (case hget r userKey u_evict_at of None \<Rightarrow> True | Some e \<Rightarrow> now < e)
         else True)"

lemma evict_member_place_other:
  assumes "slot_ok ev sid" "lane_inv ev sid (sw_store a)" "t' \<noteq> t"
  shows "place_of ev sid (sw_store (evict_member (Queue ev sid) (UserPrefix ev sid) now stale grace ettl t a)) t' =
    place_of ev sid (sw_store a) t'"
proof -
  have "zwf (zsets (sw_store a) (Queue ev sid))" using assms(2) by (simp add: lane_inv_def zsets_ok_def)
  with assms(1,3) show ?thesis
    by (auto simp: evict_member_def UserPrefix_User Let_def place_of_def redis_simps key_simps
        split: option.splits)
qed

lemma evict_member_spared:
  "sweep_spares (sw_store a) (User ev sid t) now stale \<Longrightarrow>
    evict_member (Queue ev sid) (UserPrefix ev sid) now stale grace ettl t a = a"
  by (auto simp: evict_member_def UserPrefix_User Let_def sweep_spares_def split: option.splits if_splits)

lemma sweep_spares_place:
  assumes "place_of ev sid r' t = place_of ev sid r t"
  shows "sweep_spares r' (User ev sid t) now stale = sweep_spares r (User ev sid t) now stale"
proof -
  have u: "user_get r' (User ev sid t) = user_get r (User ev sid t)" using assms by (simp add: place_of_def)
  show ?thesis unfolding sweep_spares_def hget_def u ..
qed

lemma evict_fold_spared:
  assumes "slot_ok ev sid" "0 < ettl"
  shows "lane_inv ev sid (sw_store a) \<Longrightarrow> sweep_spares (sw_store a) (User ev sid t) now stale \<Longrightarrow>
    place_of ev sid (sw_store (fold (evict_member (Queue ev sid) (UserPrefix ev sid) now stale grace ettl) ts a)) t =
    place_of ev sid (sw_store a) t"
proof (induction ts arbitrary: a)
  case (Cons u ts)
  let ?a = "evict_member (Queue ev sid) (UserPrefix ev sid) now stale grace ettl u a"
  have p: "place_of ev sid (sw_store ?a) t = place_of ev sid (sw_store a) t"
    using evict_member_spared [OF Cons.prems(2)] evict_member_place_other [OF assms(1) Cons.prems(1)]
    by (cases "u = t") auto
  from Cons.IH [OF evict_member_inv [OF assms(1) Cons.prems(1) assms(2)]] Cons.prems(2)
  show ?case by (simp add: sweep_spares_place [OF p] p)
qed simp

section \<open>A round trip through the greylist\<close>

lemma zadd_zrem_id:
  assumes "zwf z" "zscore z m = Some s"
  shows "zadd (zrem z m) s m = z"
proof -
  have mem: "(s, m) \<in> set z" using assms by (simp add: zscore_mem)
  have "set (zrem z m) = set z - {(s, m)}"
  proof (intro set_eqI iffI)
    fix p assume "p \<in> set (zrem z m)"
    then show "p \<in> set z - {(s, m)}" by (auto simp: zrem_def)
  next
    fix p assume p: "p \<in> set z - {(s, m)}"
    then have "zscore z (snd p) = Some (fst p)" using assms(1) by (simp add: zscore_mem)
    with p assms(2) show "p \<in> set (zrem z m)" by (cases p) (auto simp: zrem_def)
  qed
  then have "set (zadd (zrem z m) s m) = set z"
    using mem by (auto simp: zadd_def zrem_def set_insort_key)
  moreover have "zwf (zadd (zrem z m) s m)" using assms by simp
  ultimately show ?thesis
    using assms(1) unfolding zwf_def by (intro sorted_distinct_set_unique) (auto simp: distinct_map)
qed

section \<open>A concrete run\<close>

text \<open>
  Token \<open>a\<close> enters during the lottery, \<open>b\<close> and \<open>c\<close> after it; the controller grants two
  places, \<open>a\<close> is admitted with ticket \<open>J\<close>, and \<open>b\<close> goes to the greylist.
\<close>

definition demo_ops :: "slot_op list" where
  "demo_ops =
    [Enqueue_op ''a'' 5 10 7 LotteryBand ''fa'' ''ip'' 1000,
     Enqueue_op ''b'' 20 10 3 LotteryBand ''fb'' ''ip'' 1000,
     Enqueue_op ''c'' 21 10 3 LotteryBand ''fc'' ''ip'' 1000]"

definition demo :: redis where
  "demo = run ''ev'' ''s0000'' demo_ops empty_redis"

definition demo_admit_ops :: "slot_op list" where
  "demo_admit_ops =
    [Refill_op 2 10 5000, Admit_op ''a'' ''J'' 40 60000 90000 0 0, Move_op ''b'' 70 41 1000]"

definition demo2 :: redis where
  "demo2 = run ''ev'' ''s0000'' demo_admit_ops demo"

lemma demo_slot: "slot_ok ''ev'' ''s0000''"
  by code_simp

lemma demo_run_ok: "run_ok ''ev'' ''s0000'' demo_ops empty_redis"
  by code_simp

lemma demo2_run_ok: "run_ok ''ev'' ''s0000'' demo_admit_ops demo"
  by code_simp

lemma demo_reachable: "reachable ''ev'' ''s0000'' demo" "reachable ''ev'' ''s0000'' demo2"
  using run_reachable [OF reachable.start demo_run_ok] run_reachable [OF _ demo2_run_ok]
  by (simp_all add: demo_def demo2_def)

section \<open>Properties\<close>

text \<open>
  C1. In every reachable store, a user whose hash is alive has a place in at most one of the
  three lanes, the lane belongs to the state field (\<open>waiting\<close>/\<open>evicting\<close> in the queue,
  \<open>greylist\<close> in the greylist queue, \<open>held\<close> in the hold set), and the score there is the
  rank the user was first given.
\<close>

theorem one_lane:
  assumes "slot_ok ev sid" "reachable ev sid r" "state_of ev sid r t = Some st"
  shows "(zscore (zsets r (Queue ev sid)) t = Some q \<longrightarrow>
      (st = ''waiting'' \<or> st = ''evicting'') \<and> hget r (User ev sid t) u_orig_rank = Some q \<and>
      zscore (zsets r (Queue ev (grey_of sid))) t = None \<and> zscore (zsets r (Hold ev sid)) t = None) \<and>
    (zscore (zsets r (Queue ev (grey_of sid))) t = Some g \<longrightarrow>
      st = ''greylist'' \<and> hget r (User ev sid t) u_orig_rank = Some g \<and>
      zscore (zsets r (Hold ev sid)) t = None) \<and>
    (zscore (zsets r (Hold ev sid)) t = Some h \<longrightarrow>
      st = ''held'' \<and> hget r (User ev sid t) u_orig_rank = Some h)"
proof -
  obtain u where u: "user_get r (User ev sid t) = Some u" "u_state u = Some st"
    using assms(3) by (auto simp: state_of_def hget_Some)
  from lane_inv_place [OF reachable_lane_inv [OF assms(2,1)], of t] u show ?thesis
    by (auto simp: place_of_def hget_def)
qed

theorem one_lane_witness:
  "state_of ''ev'' ''s0000'' demo2 ''b'' = Some ''greylist'' \<and>
    hget demo2 (User ''ev'' ''s0000'' ''b'') u_orig_rank = Some (LotteryBand + 1)"
proof -
  have s: "state_of ''ev'' ''s0000'' demo2 ''b'' = Some ''greylist''" by code_simp
  have g: "zscore (zsets demo2 (Queue ''ev'' (grey_of ''s0000''))) ''b'' = Some (LotteryBand + 1)" by code_simp
  from one_lane [OF demo_slot demo_reachable(2) s, of 0 "LotteryBand + 1" 0] s g show ?thesis by simp
qed

text \<open>
  C7. Every script execution refines the ladder: each user's state makes one step of the
  abstract state machine or stays, whatever the script, its arguments and the other users.
\<close>

theorem exec_refines_ladder:
  assumes "slot_ok ev sid" "reachable ev sid r" "op_ok ev sid r opn"
  shows "ladder (state_of ev sid r t) (state_of ev sid (snd (exec ev sid opn r)) t)"
  by (rule exec_ladder [OF reachable_lane_inv [OF assms(2,1)] assms(3)])

theorem exec_refines_ladder_witness:
  "state_of ''ev'' ''s0000'' demo ''a'' = Some ''waiting'' \<and>
    ladder (Some ''waiting'')
      (state_of ''ev'' ''s0000'' (snd (exec ''ev'' ''s0000'' (Apply_op ''a'' 80 ''hold'' 30 1000) demo)) ''a'')"
proof -
  have s: "state_of ''ev'' ''s0000'' demo ''a'' = Some ''waiting''" by code_simp
  have "op_ok ''ev'' ''s0000'' demo (Apply_op ''a'' 80 ''hold'' 30 1000)" by simp
  from exec_refines_ladder [OF demo_slot demo_reachable(1) this, of "''a''"] s show ?thesis by simp
qed

text \<open>
  A blocked user stays blocked: no script moves the user to another state (only the
  expiry of the hash ends it), and the user is in no lane.
\<close>

theorem blocked_terminal:
  assumes "slot_ok ev sid" "reachable ev sid r" "op_ok ev sid r opn" "state_of ev sid r t = Some ''blocked''"
  shows "(state_of ev sid (snd (exec ev sid opn r)) t = Some ''blocked'' \<or>
      state_of ev sid (snd (exec ev sid opn r)) t = None) \<and>
    zscore (zsets r (Queue ev sid)) t = None \<and> zscore (zsets r (Queue ev (grey_of sid))) t = None \<and>
    zscore (zsets r (Hold ev sid)) t = None"
proof -
  have inv: "lane_inv ev sid r" by (rule reachable_lane_inv [OF assms(2,1)])
  obtain u where u: "user_get r (User ev sid t) = Some u" "u_state u = Some ''blocked''"
    using assms(4) by (auto simp: state_of_def hget_Some)
  have "zscore (zsets r (Queue ev sid)) t = None \<and> zscore (zsets r (Queue ev (grey_of sid))) t = None \<and>
      zscore (zsets r (Hold ev sid)) t = None"
    using lane_inv_place [OF inv, of t] u by (auto simp: place_of_def)
  moreover have "ladder (Some ''blocked'') (state_of ev sid (snd (exec ev sid opn r)) t)"
    using exec_ladder [OF inv assms(3), of t] assms(4) by simp
  ultimately show ?thesis by (auto elim: ladder_blockedE)
qed

definition demo_blocked :: redis where
  "demo_blocked = snd (exec ''ev'' ''s0000'' (Apply_op ''c'' 99 ''block'' 50 1000) demo2)"

theorem blocked_terminal_witness:
  "state_of ''ev'' ''s0000'' demo_blocked ''c'' = Some ''blocked'' \<and>
    state_of ''ev'' ''s0000'' (snd (exec ''ev'' ''s0000'' (Restore_op ''c'' 60 1000) demo_blocked)) ''c''
      \<in> {Some ''blocked'', None}"
proof -
  have s: "state_of ''ev'' ''s0000'' demo_blocked ''c'' = Some ''blocked''" by code_simp
  have "op_ok ''ev'' ''s0000'' demo2 (Apply_op ''c'' 99 ''block'' 50 1000)" by simp
  then have "reachable ''ev'' ''s0000'' demo_blocked"
    unfolding demo_blocked_def by (rule reachable.step [OF demo_reachable(2)])
  moreover have "op_ok ''ev'' ''s0000'' demo_blocked (Restore_op ''c'' 60 1000)" by simp
  ultimately show ?thesis using blocked_terminal [OF demo_slot _ _ s] s by blast
qed

text \<open>
  C5. Whatever the interleaving of script calls, the places a slot hands out plus the budget
  left never exceed what the controller granted it, and the budget is never negative.
\<close>

theorem admissions_within_grants:
  assumes "run_ok ev sid ops empty_redis"
  shows "0 \<le> budget_of ev sid (run ev sid ops empty_redis) \<and>
    admissions ev sid ops empty_redis + budget_of ev sid (run ev sid ops empty_redis) \<le> grants ops"
  using run_budget [OF assms]
  by (simp add: budget_of_def empty_redis_def counter_get_def)

theorem admissions_within_grants_witness:
  "admissions ''ev'' ''s0000'' (demo_ops @ demo_admit_ops) empty_redis = 1 \<and>
    admissions ''ev'' ''s0000'' (demo_ops @ demo_admit_ops) empty_redis \<le> grants (demo_ops @ demo_admit_ops)"
proof -
  have ok: "run_ok ''ev'' ''s0000'' (demo_ops @ demo_admit_ops) empty_redis" by code_simp
  have "admissions ''ev'' ''s0000'' (demo_ops @ demo_admit_ops) empty_redis = 1" by code_simp
  with admissions_within_grants [OF ok] show ?thesis by linarith
qed

text \<open>
  C25. \<open>admit\<close> hands out a place exactly to a waiting user whose rank is below the budget and
  whose observation gates (dwell time and heartbeats since the observation clock started) are
  open: it then costs one unit of budget, leaves the queue, marks the user admitted and issues
  the entry ticket; in every other case the store is unchanged.
\<close>

theorem admit_exact:
  assumes "0 < ettl" "0 < uttl"
  shows "let res = exec ev sid (Admit_op t jti now ettl uttl dwell beats) r
    in if state_of ev sid r t = Some ''waiting'' \<and>
          (\<exists>rk. zrank (zsets r (Queue ev sid)) t = Some rk \<and> rk < budget_of ev sid r) \<and>
          gate_open r (User ev sid t) now dwell beats
       then (\<exists>w. fst res = Inr [LStr ''admitted'', LInt (the (zrank (zsets r (Queue ev sid)) t)),
                LInt (budget_of ev sid r - 1), LStr jti, LInt w]) \<and>
          budget_of ev sid (snd res) = budget_of ev sid r - 1 \<and>
          zsets (snd res) (Queue ev sid) = zrem (zsets r (Queue ev sid)) t \<and>
          state_of ev sid (snd res) t = Some ''admitted'' \<and>
          ticket ev sid (snd res) jti = Some t
       else snd res = r"
proof (cases "admissible ev sid r t now dwell beats")
  case True
  from admit_granted [OF True assms(1), of jti uttl] obtain rk w where
    rk: "zrank (zsets r (Queue ev sid)) t = Some rk" and
    ex: "exec ev sid (Admit_op t jti now ettl uttl dwell beats) r =
      (Inr [LStr ''admitted'', LInt rk, LInt (budget_of ev sid r - 1), LStr jti, LInt w],
       admit_writes ev sid t jti now ettl uttl r)" by blast
  have "zsets (admit_writes ev sid t jti now ettl uttl r) (Queue ev sid) = zrem (zsets r (Queue ev sid)) t"
    by (simp add: admit_writes_def redis_simps)
  with True rk assms show ?thesis
    by (simp add: ex Let_def admissible_def admit_writes_reads ticket_def del: exec.simps)
next
  case False
  from admit_refused [OF this] False show ?thesis
    by (auto simp: Let_def admissible_def simp del: exec.simps)
qed

definition demo_budget :: redis where
  "demo_budget = snd (exec ''ev'' ''s0000'' (Refill_op 2 10 5000) demo)"

theorem admit_exact_witness:
  "budget_of ''ev'' ''s0000'' demo_budget = 2 \<and>
    state_of ''ev'' ''s0000'' (snd (exec ''ev'' ''s0000'' (Admit_op ''a'' ''J'' 40 60000 90000 30 0) demo_budget)) ''a''
      = Some ''admitted'' \<and>
    snd (exec ''ev'' ''s0000'' (Admit_op ''a'' ''J'' 40 60000 90000 36 0) demo_budget) = demo_budget"
proof -
  have b: "budget_of ''ev'' ''s0000'' demo_budget = 2" by code_simp
  have s: "state_of ''ev'' ''s0000'' demo_budget ''a'' = Some ''waiting''" by code_simp
  have k: "zrank (zsets demo_budget (Queue ''ev'' ''s0000'')) ''a'' = Some 0" by code_simp
  have g: "gate_open demo_budget (User ''ev'' ''s0000'' ''a'') 40 30 0"
    "\<not> gate_open demo_budget (User ''ev'' ''s0000'' ''a'') 40 36 0" by code_simp+
  from admit_exact [of 60000 90000 "''ev''" "''s0000''" "''a''" "''J''" 40 30 0 demo_budget]
    admit_exact [of 60000 90000 "''ev''" "''s0000''" "''a''" "''J''" 40 36 0 demo_budget] b s k g
  show ?thesis by (simp add: Let_def del: exec.simps)
qed

text \<open>
  A repeated \<open>admit\<close> (a lost reply, a double click) returns the ticket issued first,
  whatever new ticket id it proposes, and changes nothing: no second unit of budget is spent.
\<close>

theorem admit_retry:
  assumes "0 < ettl" "0 < uttl" "fresh_admit ev sid r (Admit_op t jti now ettl uttl dwell beats)"
  shows "let r1 = snd (exec ev sid (Admit_op t jti now ettl uttl dwell beats) r)
    in exec ev sid (Admit_op t jti' now' ettl' uttl' dwell' beats') r1 =
      (Inr [LStr ''admitted'', LInt (- 1), LInt (budget_of ev sid r - 1), LStr jti, LInt (- 1)], r1)"
proof -
  have adm: "admissible ev sid r t now dwell beats" using assms by (simp only: admit_fresh_iff)
  then have ex: "snd (exec ev sid (Admit_op t jti now ettl uttl dwell beats) r) =
      admit_writes ev sid t jti now ettl uttl r"
    by (metis admit_granted [OF adm assms(1)] snd_conv)
  from admit_writes_reads [OF assms(1,2), of ev sid t jti now r] show ?thesis
    unfolding ex Let_def by (simp add: admit_lua_def state_of_def budget_of_def Let_def)
qed

theorem admit_retry_witness:
  "fresh_admit ''ev'' ''s0000'' demo_budget (Admit_op ''a'' ''J'' 40 60000 90000 0 0) \<and>
    fst (exec ''ev'' ''s0000'' (Admit_op ''a'' ''K'' 41 60000 90000 0 0)
      (snd (exec ''ev'' ''s0000'' (Admit_op ''a'' ''J'' 40 60000 90000 0 0) demo_budget)))
    = Inr [LStr ''admitted'', LInt (- 1), LInt 1, LStr ''J'', LInt (- 1)]"
proof -
  have f: "fresh_admit ''ev'' ''s0000'' demo_budget (Admit_op ''a'' ''J'' 40 60000 90000 0 0)" by code_simp
  have "budget_of ''ev'' ''s0000'' demo_budget = 2" by code_simp
  with admit_retry [OF _ _ f, of "''K''" 41 60000 90000 0 0] f show ?thesis
    by (simp add: Let_def del: exec.simps fresh_admit.simps)
qed

text \<open>
  C12. An entry ticket is burned at most once: after a redemption that answered \<open>burned\<close>, any
  sequence of script calls that does not issue the same ticket id again ends in a store where
  redeeming it, by anybody, answers \<open>missing\<close> and changes nothing.
\<close>

theorem ticket_burned_once:
  assumes "fst (exec ev sid (Redeem_op t jti now) r) = Inr [LStr ''burned'', LStr t]"
    "run_ok ev sid ops (snd (exec ev sid (Redeem_op t jti now) r))" "\<forall>opn \<in> set ops. \<not> issues jti opn"
  shows "let r' = run ev sid ops (snd (exec ev sid (Redeem_op t jti now) r))
    in exec ev sid (Redeem_op t' jti now') r' = (Inr [LStr ''missing'', LStr ''''], r')"
proof -
  have "ticket ev sid (snd (exec ev sid (Redeem_op t jti now) r)) jti = None"
    using assms(1) by (auto simp: ticket_def redeem_lua_def redis_simps split: option.splits if_splits)
  from run_ticket_burned [OF this assms(2,3)] show ?thesis
    by (simp add: Let_def ticket_def redeem_lua_def)
qed

theorem ticket_burned_once_witness:
  "fst (exec ''ev'' ''s0000'' (Redeem_op ''a'' ''J'' 50) demo2) = Inr [LStr ''burned'', LStr ''a''] \<and>
    fst (exec ''ev'' ''s0000'' (Redeem_op ''a'' ''J'' 52)
      (run ''ev'' ''s0000'' [Heartbeat_op ''c'' 51 1000] (snd (exec ''ev'' ''s0000'' (Redeem_op ''a'' ''J'' 50) demo2))))
    = Inr [LStr ''missing'', LStr '''']"
proof -
  have b: "fst (exec ''ev'' ''s0000'' (Redeem_op ''a'' ''J'' 50) demo2) = Inr [LStr ''burned'', LStr ''a'']"
    by code_simp
  from ticket_burned_once [OF b, of "[Heartbeat_op ''c'' 51 1000]" "''a''" 52] b show ?thesis
    by (simp add: Let_def del: exec.simps)
qed

text \<open>
  C26. A FIFO entrant goes to the tail: the reply says \<open>created\<close> with the last rank of the
  queue and a score above every score in it, and nobody who was in the queue moves back.
\<close>

theorem enqueue_fifo_is_last:
  assumes "slot_ok ev sid" "reachable ev sid r"
    and "state_of ev sid r t = None \<or> state_of ev sid r t = Some ''evicted''"
    and "lend \<le> now" "0 < ttl"
  shows "let res = exec ev sid (Enqueue_op t now lend lrand LotteryBand fp ip ttl) r;
      q = zsets r (Queue ev sid); q' = zsets (snd res) (Queue ev sid)
    in (\<exists>s. fst res = Inr [LStr ''created'', LInt (zcard q' - 1), LInt (zcard q'), LInt s, LStr ''fifo''] \<and>
          (\<forall>t' s'. t' \<noteq> t \<and> zscore q' t' = Some s' \<longrightarrow> s' < s)) \<and>
       (\<forall>t'. t' \<noteq> t \<and> zrank q t' \<noteq> None \<longrightarrow> the (zrank q' t') \<le> the (zrank q t'))"
proof -
  have inv: "lane_inv ev sid r" "fifo_inv ev sid r"
    using reachable_lane_inv reachable_fifo_inv assms(1,2) by auto
  have late: "\<not> now < lend" using assms(4) by simp
  let ?q = "zsets r (Queue ev sid)" and ?s = "LotteryBand + seq_of ev sid r + 1"
  have z: "zwf ?q" using inv by (simp add: lane_inv_def zsets_ok_def)
  have top: "s' < ?s" if "zscore ?q t' = Some s'" for t' s'
    using band_bounds(1) [OF inv(2) that] by simp
  have others: "the (zrank (zadd ?q ?s t) t') \<le> the (zrank ?q t')" if "t' \<noteq> t" "zrank ?q t' \<noteq> None" for t'
  proof -
    obtain sa where "zscore ?q t' = Some sa" using zs.rank_Some_iff [OF z] \<open>zrank ?q t' \<noteq> None\<close> by blast
    from zrank_others_kept [OF z top this \<open>t' \<noteq> t\<close>] show ?thesis by simp
  qed
  from enqueue_fifo_tail [OF assms(1) inv assms(3) late assms(5) refl, of lrand fp ip] z top others
  show ?thesis by (simp add: Let_def del: exec.simps)
qed

theorem enqueue_fifo_is_last_witness:
  "state_of ''ev'' ''s0000'' demo ''d'' = None \<and>
    (\<exists>s. fst (exec ''ev'' ''s0000'' (Enqueue_op ''d'' 22 10 3 LotteryBand ''f'' ''i'' 1000) demo) =
      Inr [LStr ''created'', LInt 3, LInt 4, LInt s, LStr ''fifo''])"
proof -
  have s: "state_of ''ev'' ''s0000'' demo ''d'' = None" by code_simp
  have c: "zcard (zsets (snd (exec ''ev'' ''s0000''
      (Enqueue_op ''d'' 22 10 3 LotteryBand ''f'' ''i'' 1000) demo)) (Queue ''ev'' ''s0000'')) = 4" by code_simp
  from enqueue_fifo_is_last [OF demo_slot demo_reachable(1), of "''d''" 10 22 1000 3 "''f''" "''i''"] s c
  show ?thesis by (auto simp: Let_def simp del: exec.simps)
qed

text \<open>
  C27. Whatever happened in between, a queued lottery entrant is ahead of every queued FIFO
  entrant: quarantine and restoration never carry anybody across the band.
\<close>

theorem lottery_ahead_of_fifo:
  assumes "slot_ok ev sid" "reachable ev sid r"
    and "state_of ev sid r a \<noteq> None" "hget r (User ev sid a) u_segment = Some ''lottery''"
      "zrank (zsets r (Queue ev sid)) a = Some ra"
    and "state_of ev sid r b \<noteq> None" "hget r (User ev sid b) u_segment = Some ''fifo''"
      "zrank (zsets r (Queue ev sid)) b = Some rb"
  shows "ra < rb"
  by (rule lottery_before_fifo [OF reachable_lane_inv reachable_fifo_inv]) (use assms in auto)

theorem lottery_ahead_of_fifo_witness:
  "zrank (zsets demo (Queue ''ev'' ''s0000'')) ''a'' = Some 0 \<and>
    zrank (zsets demo (Queue ''ev'' ''s0000'')) ''c'' = Some 2 \<and> (0::int) < 2"
proof -
  have a: "state_of ''ev'' ''s0000'' demo ''a'' \<noteq> None"
    "hget demo (User ''ev'' ''s0000'' ''a'') u_segment = Some ''lottery''"
    "zrank (zsets demo (Queue ''ev'' ''s0000'')) ''a'' = Some 0" by code_simp+
  have c: "state_of ''ev'' ''s0000'' demo ''c'' \<noteq> None"
    "hget demo (User ''ev'' ''s0000'' ''c'') u_segment = Some ''fifo''"
    "zrank (zsets demo (Queue ''ev'' ''s0000'')) ''c'' = Some 2" by code_simp+
  from lottery_ahead_of_fifo [OF demo_slot demo_reachable(1) a c] a c show ?thesis by simp
qed

text \<open>
  Enqueueing again buys nothing: for a user who is waiting or in the eviction grace
  period the call answers \<open>exists\<close> with the rank, score and segment the user already has,
  touches no lane and no counter, and only refreshes the last-seen time.
\<close>

theorem enqueue_again:
  assumes "slot_ok ev sid" "reachable ev sid r" "0 < ttl"
    and "user_get r (User ev sid t) = Some u" "u_state u = Some ''waiting'' \<or> u_state u = Some ''evicting''"
    and "zscore (zsets r (Queue ev sid)) t = Some s"
  shows "let res = exec ev sid (Enqueue_op t now lend lrand band fp ip ttl) r
    in fst res = Inr [LStr ''exists'', LInt (the (zrank (zsets r (Queue ev sid)) t)),
         LInt (zcard (zsets r (Queue ev sid))), LInt s, LStr (or_else (u_segment u) '''')] \<and>
       zsets (snd res) = zsets r \<and> counters (snd res) = counters r \<and>
       user_get (snd res) (User ev sid t) = Some (u\<lparr>u_last_seen := Some now\<rparr>)"
proof -
  have z: "zwf (zsets r (Queue ev sid))" and rk: "u_orig_rank u = Some s"
    using reachable_lane_inv [OF assms(2,1)] queue_score_rank [OF _ assms(6,4)] assms(5)
    by (auto simp: lane_inv_def zsets_ok_def)
  obtain k where "zrank (zsets r (Queue ev sid)) t = Some k" using zs.rank_Some_iff [OF z] assms(6) by blast
  with assms rk show ?thesis
    by (auto simp: Let_def enqueue_lua_def enqueue_snapshot_def rank_reply_def hget_def redis_simps)
qed

theorem enqueue_again_witness:
  "fst (exec ''ev'' ''s0000'' (Enqueue_op ''b'' 99 10 0 LotteryBand ''x'' ''y'' 1000) demo) =
    Inr [LStr ''exists'', LInt 1, LInt 3, LInt (LotteryBand + 1), LStr ''fifo'']"
proof -
  obtain u where u: "user_get demo (User ''ev'' ''s0000'' ''b'') = Some u"
    and h: "hget demo (User ''ev'' ''s0000'' ''b'') u_state = Some ''waiting''"
      "hget demo (User ''ev'' ''s0000'' ''b'') u_segment = Some ''fifo''"
  proof -
    have "hget demo (User ''ev'' ''s0000'' ''b'') u_state = Some ''waiting''"
      "hget demo (User ''ev'' ''s0000'' ''b'') u_segment = Some ''fifo''" by code_simp+
    with that show thesis by (auto simp: hget_Some)
  qed
  have s: "zscore (zsets demo (Queue ''ev'' ''s0000'')) ''b'' = Some (LotteryBand + 1)" by code_simp
  have k: "zrank (zsets demo (Queue ''ev'' ''s0000'')) ''b'' = Some 1"
    "zcard (zsets demo (Queue ''ev'' ''s0000'')) = 3" by code_simp+
  from enqueue_again [OF demo_slot demo_reachable(1) _ u _ s, of 1000 99 10 0 LotteryBand "''x''" "''y''"] h u k
  show ?thesis by (simp add: Let_def hget_def del: exec.simps)
qed

text \<open>
  C28. A sweep touches nobody who is alive: a waiting user seen within the stale period, and
  an evicting user whose grace has not run out, keep their place, their rank and their hash,
  whatever window of the queue the sweep covers.
\<close>

theorem sweep_spares_the_living:
  assumes "slot_ok ev sid" "reachable ev sid r" "0 < ettl"
    and "state_of ev sid r t = Some ''waiting'' \<and>
           (\<exists>l. hget r (User ev sid t) u_last_seen = Some l \<and> now - l \<le> stale) \<or>
         state_of ev sid r t = Some ''evicting'' \<and>
           (\<exists>e. hget r (User ev sid t) u_evict_at = Some e \<and> now < e)"
  shows "place_of ev sid (snd (exec ev sid (Sweep_op now stale grace off lim ettl) r)) t = place_of ev sid r t"
proof -
  have "sweep_spares r (User ev sid t) now stale"
    using assms(4) by (auto simp: sweep_spares_def state_of_def)
  with evict_fold_spared [OF assms(1,3), of "\<lparr>sw_store = r, sw_marked = 0, sw_removed = 0, sw_ghosts = 0\<rparr>"]
    reachable_lane_inv [OF assms(2,1)]
  show ?thesis by (simp add: evict_lua_def Let_def)
qed

theorem sweep_spares_the_living_witness:
  "place_of ''ev'' ''s0000'' (snd (exec ''ev'' ''s0000'' (Sweep_op 30 15 5 0 100 1000) demo)) ''b''
    = place_of ''ev'' ''s0000'' demo ''b''"
proof -
  have "state_of ''ev'' ''s0000'' demo ''b'' = Some ''waiting''"
    "hget demo (User ''ev'' ''s0000'' ''b'') u_last_seen = Some 20" by code_simp+
  with sweep_spares_the_living [OF demo_slot demo_reachable(1), of 1000 "''b''" 30 15 5 0 100]
  show ?thesis by simp
qed

text \<open>
  C11. Quarantine is reversible without loss: greylisting or holding a queued user and then
  restoring gives back exactly the queue there was, so the user and everybody else have the
  ranks they had.
\<close>

theorem quarantine_round_trip:
  assumes "slot_ok ev sid" "reachable ev sid r" "0 < ttl" "0 < ttl'"
    and "state_of ev sid r t = Some ''waiting''" "zscore (zsets r (Queue ev sid)) t = Some s"
    and "opn = Move_op t score now ttl \<or> opn = Apply_op t score ''hold'' now ttl"
  shows "zscore (zsets (snd (exec ev sid opn r)) (Queue ev sid)) t = None \<and>
    zsets (snd (exec ev sid (Restore_op t now' ttl') (snd (exec ev sid opn r)))) (Queue ev sid) =
      zsets r (Queue ev sid) \<and>
    state_of ev sid (snd (exec ev sid (Restore_op t now' ttl') (snd (exec ev sid opn r)))) t = Some ''waiting''"
proof -
  have inv: "lane_inv ev sid r" "fifo_inv ev sid r"
    using reachable_lane_inv reachable_fifo_inv assms(1,2) by auto
  obtain u where u: "user_get r (User ev sid t) = Some u" "u_state u = Some ''waiting''"
    using assms(5) by (auto simp: state_of_def hget_Some)
  have z: "zwf (zsets r (Queue ev sid))" using inv by (simp add: lane_inv_def zsets_ok_def)
  have rk: "u_orig_rank u = Some s" using queue_score_rank [OF inv(1) assms(6) u(1)] u by simp
  have s: "0 \<le> s" using band_bounds(2) [OF inv(2) u(1)] rk by simp
  from assms(7) show ?thesis
  proof
    assume "opn = Move_op t score now ttl"
    with assms(1,3,4,6) u z rk show ?thesis
      by (simp add: move_shard_lua_def restore_shard_lua_def Let_def user_simps zadd_zrem_id)
  next
    assume "opn = Apply_op t score ''hold'' now ttl"
    with assms(1,3,4,6) u z rk s show ?thesis
      by (simp add: apply_action_lua_def apply_rankOf_def zrem_count_def restore_shard_lua_def Let_def
          user_simps zadd_zrem_id)
  qed
qed

theorem quarantine_round_trip_witness:
  "zsets (snd (exec ''ev'' ''s0000'' (Restore_op ''b'' 50 1000)
      (snd (exec ''ev'' ''s0000'' (Move_op ''b'' 70 40 1000) demo)))) (Queue ''ev'' ''s0000'') =
    zsets demo (Queue ''ev'' ''s0000'')"
proof -
  have s: "state_of ''ev'' ''s0000'' demo ''b'' = Some ''waiting''" by code_simp
  have q: "zscore (zsets demo (Queue ''ev'' ''s0000'')) ''b'' = Some (LotteryBand + 1)" by code_simp
  from quarantine_round_trip [OF demo_slot demo_reachable(1) _ _ s q, of 1000 1000 "Move_op ''b'' 70 40 1000" 70 40 50]
  show ?thesis by (simp del: exec.simps)
qed

text \<open>
  Passing a re-challenge brings a greylisted user back to the first rank with a score of
  at most the pass score, and restarts the observation clock: until the dwell time has passed
  again, no admission is possible, however long the user had been waiting before.  Beyond
  the allowed number of attempts the user is held instead, with at least the hold score.
\<close>

theorem rechallenge_outcome:
  assumes "slot_ok ev sid" "reachable ev sid r" "0 < ttl"
    and "user_get r (User ev sid t) = Some u" "u_state u = Some ''greylist''" "u_orig_rank u = Some rk"
  shows "let res = exec ev sid (Rechallenge_op t mx pass hold now ttl) r; n = or_else (u_rc_count u) 0 + 1
    in if n \<le> mx
       then state_of ev sid (snd res) t = Some ''waiting'' \<and>
         zscore (zsets (snd res) (Queue ev sid)) t = Some rk \<and>
         (\<exists>sc \<le> pass. fst res = Inr [LStr ''restored'', LStr ''waiting'', LInt rk, LInt n, LInt sc]) \<and>
         (\<forall>now' dwell beats jti ettl uttl. 0 < dwell \<and> now' < now + dwell \<longrightarrow>
            snd (exec ev sid (Admit_op t jti now' ettl uttl dwell beats) (snd res)) = snd res)
       else state_of ev sid (snd res) t = Some ''held'' \<and>
         zscore (zsets (snd res) (Queue ev sid)) t = None \<and>
         zscore (zsets (snd res) (Hold ev sid)) t = Some rk \<and>
         (\<exists>sc \<ge> hold. fst res = Inr [LStr ''exhausted'', LStr ''held'', LInt rk, LInt n, LInt sc])"
proof -
  let ?res = "exec ev sid (Rechallenge_op t mx pass hold now ttl) r"
  have p: "place_ok (place_of ev sid r t)" "zwf (zsets r (Queue ev sid))" "zwf (zsets r (Hold ev sid))"
    using reachable_lane_inv [OF assms(2,1)] by (auto simp: lane_inv_def zsets_ok_def)
  then have q: "zscore (zsets r (Queue ev sid)) t = None" using assms(4,5) by (auto simp: place_of_def)
  show ?thesis
  proof (cases "or_else (u_rc_count u) 0 + 1 \<le> mx")
    case True
    have o: "observed_since (snd ?res) (User ev sid t) = Some now"
      using True assms by (simp add: observed_since_def rechallenge_lua_def Let_def user_simps)
    have "snd (exec ev sid (Admit_op t jti now' ettl uttl dwell beats) (snd ?res)) = snd ?res"
      if "0 < dwell" "now' < now + dwell" for now' dwell beats jti ettl uttl
      using that o by (intro admit_refused) (simp add: admissible_def gate_open_def)
    with True assms p q show ?thesis
      by (simp add: Let_def rechallenge_lua_def user_simps)
  next
    case False
    with assms p q show ?thesis by (simp add: Let_def rechallenge_lua_def user_simps)
  qed
qed

theorem rechallenge_outcome_witness:
  "state_of ''ev'' ''s0000'' (snd (exec ''ev'' ''s0000'' (Rechallenge_op ''b'' 2 20 80 60 1000) demo2)) ''b''
      = Some ''waiting'' \<and>
   state_of ''ev'' ''s0000'' (snd (exec ''ev'' ''s0000'' (Rechallenge_op ''b'' 0 20 80 60 1000) demo2)) ''b''
      = Some ''held''"
proof -
  have h: "hget demo2 (User ''ev'' ''s0000'' ''b'') u_state = Some ''greylist''"
    "hget demo2 (User ''ev'' ''s0000'' ''b'') u_orig_rank = Some (LotteryBand + 1)"
    "hget demo2 (User ''ev'' ''s0000'' ''b'') u_rc_count = None" by code_simp+
  then obtain u where u: "user_get demo2 (User ''ev'' ''s0000'' ''b'') = Some u"
    "u_state u = Some ''greylist''" "u_orig_rank u = Some (LotteryBand + 1)" "u_rc_count u = None"
    by (auto simp: hget_def split: option.splits)
  from rechallenge_outcome [OF demo_slot demo_reachable(2) _ u(1-3), of 1000 2 20 80 60]
    rechallenge_outcome [OF demo_slot demo_reachable(2) _ u(1-3), of 1000 0 20 80 60] u(4)
  show ?thesis by (simp add: Let_def del: exec.simps)
qed

text \<open>
  A hold on a user who is already admitted undoes the admission: \<open>apply\_action\<close> holds
  every state but \<open>held\<close> and \<open>blocked\<close>, and \<open>restore\_shard\<close> puts a held user back into
  the queue at the first rank, so one user can be admitted twice and own two live entry
  tickets.
\<close>

theorem hold_reopens_admission:
  "let ops = demo_ops @ [Refill_op 2 10 5000, Admit_op ''a'' ''J'' 40 60000 90000 0 0,
        Apply_op ''a'' 75 ''hold'' 41 90000, Restore_op ''a'' 42 90000,
        Admit_op ''a'' ''K'' 43 60000 90000 0 0];
      r = run ''ev'' ''s0000'' ops empty_redis
    in run_ok ''ev'' ''s0000'' ops empty_redis \<and>
       admissions ''ev'' ''s0000'' ops empty_redis = 2 \<and>
       ticket ''ev'' ''s0000'' r ''J'' = Some ''a'' \<and> ticket ''ev'' ''s0000'' r ''K'' = Some ''a''"
  by code_simp

end
