(* ===== verification/Float64.thy ===== *)
theory Float64
  imports Complex_Main Prelude
begin

text \<open>
  Go's \<open>float64\<close>: a value is the rational number it stands for, and every operation rounds
  the exact result to the nearest number with a 53-bit significand, ties to even
  (IEEE 754).  \<open>rnd\<close> is that rounding; it computes.  The exponent is not bounded: the
  quantities of the program (rates, weights, scores, seconds) stay far from overflow and
  from the subnormal range, and NaN and the infinities are no values of the type: a
  definition that could divide by zero says so where it does.

  The locale \<open>rounding\<close> states what the components rely on (monotone, odd, exact on small
  integers), proves the bounds they need once, and is interpreted on \<open>rnd\<close>.
\<close>

type_synonym float64 = rat

section \<open>Rounding\<close>

definition rne :: "rat \<Rightarrow> int" where
  "rne x =
    (let f = floor x; d = x - of_int f
     in if d < 1 / 2 then f else if d > 1 / 2 then f + 1 else if even f then f else f + 1)"

definition pow2 :: "int \<Rightarrow> rat" where
  "pow2 k = (if k \<ge> 0 then 2 ^ nat k else 1 / 2 ^ nat (- k))"

fun bits :: "int \<Rightarrow> int" where
  "bits n = (if n \<le> 0 then 0 else 1 + bits (n div 2))"

declare bits.simps [simp del]

definition exponent :: "rat \<Rightarrow> int" where
  "exponent x =
    (let (p, q) = quotient_of x; k = bits p - bits q in if pow2 k \<le> x then k else k - 1)"

definition rnd :: "rat \<Rightarrow> float64" where
  "rnd x =
    (if x = 0 then 0
     else let s = pow2 (52 - exponent \<bar>x\<bar>) in of_int (rne (x * s)) / s)"

subsection \<open>Powers of two and the exponent\<close>

lemma pow2_pos [simp]: "0 < pow2 k"
  by (simp add: pow2_def)

lemma pow2_nonneg [simp]: "0 \<le> pow2 k"
  by (simp add: less_imp_le)

lemma pow2_nz [simp]: "pow2 k \<noteq> 0"
  using pow2_pos [of k] by linarith

lemma pow2_powi: "pow2 k = power_int 2 k"
  unfolding pow2_def power_int_def inverse_eq_divide power_one_over ..

lemma pow2_add: "pow2 (a + b) = pow2 a * pow2 b"
  by (simp add: pow2_powi power_int_add)

lemma pow2_diff: "pow2 (a - b) = pow2 a / pow2 b"
  by (simp add: pow2_powi power_int_diff)

lemma pow2_mono: "a \<le> b \<Longrightarrow> pow2 a \<le> pow2 b"
  by (simp add: pow2_powi power_int_increasing)

lemma pow2_less: "a < b \<Longrightarrow> pow2 a < pow2 b"
  by (simp add: pow2_powi power_int_strict_increasing)

lemma pow2_0 [simp]: "pow2 0 = 1"
  by (simp add: pow2_def)

lemma pow2_nat: "0 \<le> k \<Longrightarrow> pow2 k = of_int (2 ^ nat k)"
  by (simp add: pow2_def)

lemma bits_nonneg: "0 \<le> bits n"
  by (induction n rule: bits.induct) (subst bits.simps, simp)

lemma bits_bounds: "0 < n \<Longrightarrow> 2 ^ nat (bits n - 1) \<le> n \<and> n < 2 ^ nat (bits n)"
proof (induction n rule: bits.induct)
  case (1 n)
  show ?case
  proof (cases "n = 1")
    case True
    then show ?thesis by (simp add: bits.simps)
  next
    case False
    with "1.prems" have h: "0 < n div 2" by simp
    from "1.IH" h "1.prems" have ih: "2 ^ nat (bits (n div 2) - 1) \<le> n div 2" "n div 2 < 2 ^ nat (bits (n div 2))"
      by auto
    have pos: "0 < bits (n div 2)" using h bits_nonneg [of "n div 2 div 2"] by (subst bits.simps) simp
    have b: "bits n = 1 + bits (n div 2)" using "1.prems" by (subst bits.simps) simp
    have e: "nat (bits n - 1) = Suc (nat (bits (n div 2) - 1))" "nat (bits n) = Suc (nat (bits (n div 2)))"
      using b pos by simp_all
    show ?thesis unfolding e power_Suc using ih by linarith
  qed
qed

lemma bits_pow2:
  assumes "0 < n"
  shows "pow2 (bits n - 1) \<le> of_int n" "of_int n < pow2 (bits n)"
proof -
  have "0 < bits n" using assms bits_nonneg [of "n div 2"] by (subst bits.simps) simp
  moreover from bits_bounds [OF assms]
  have "of_int (2 ^ nat (bits n - 1)) \<le> (of_int n :: rat)" "(of_int n :: rat) < of_int (2 ^ nat (bits n))"
    by (simp_all only: of_int_le_iff of_int_less_iff)
  ultimately show "pow2 (bits n - 1) \<le> of_int n" "of_int n < pow2 (bits n)"
    by (simp_all add: pow2_nat)
qed

lemma exponent_bounds:
  assumes "0 < x"
  shows "pow2 (exponent x) \<le> x" "x < pow2 (exponent x + 1)"
proof -
  obtain p q where pq: "quotient_of x = (p, q)" by (cases "quotient_of x")
  then have x: "x = of_int p / of_int q" and q: "0 < q"
    by (simp_all add: quotient_of_div quotient_of_denom_pos)
  with assms have p: "0 < p" by (simp add: zero_less_divide_iff)
  let ?k = "bits p - bits q"
  have qb: "pow2 (bits q - 1) \<le> of_int q" "of_int q < pow2 (bits q)" using q by (rule bits_pow2)+
  have pb: "pow2 (bits p - 1) \<le> of_int p" "of_int p < pow2 (bits p)" using p by (rule bits_pow2)+
  have "pow2 (?k - 1) * of_int q \<le> pow2 (?k - 1) * pow2 (bits q)"
    using qb(2) by (intro mult_left_mono) auto
  also have "\<dots> = pow2 (bits p - 1)" by (simp flip: pow2_add)
  also have "\<dots> \<le> of_int p" by (rule pb)
  finally have lo: "pow2 (?k - 1) \<le> x" using q by (simp add: x pos_le_divide_eq)
  have "of_int p < pow2 (bits p)" by (rule pb)
  also have "\<dots> = pow2 (?k + 1) * pow2 (bits q - 1)" by (simp flip: pow2_add)
  also have "\<dots> \<le> pow2 (?k + 1) * of_int q" using qb(1) by (intro mult_left_mono) (auto simp: less_imp_le)
  finally have hi: "x < pow2 (?k + 1)" using q by (simp add: x pos_divide_less_eq)
  show "pow2 (exponent x) \<le> x" "x < pow2 (exponent x + 1)"
    using lo hi by (auto simp: exponent_def pq Let_def)
qed

lemma exponent_mono:
  assumes "0 < x" "x \<le> y"
  shows "exponent x \<le> exponent y"
proof (rule ccontr)
  assume "\<not> exponent x \<le> exponent y"
  then have "pow2 (exponent y + 1) \<le> pow2 (exponent x)" by (intro pow2_mono) simp
  with exponent_bounds [of x] exponent_bounds [of y] assms show False by linarith
qed

lemma exponent_le:
  assumes "0 < x" "x < pow2 k"
  shows "exponent x < k"
proof (rule ccontr)
  assume "\<not> exponent x < k"
  then have "pow2 k \<le> pow2 (exponent x)" by (intro pow2_mono) simp
  with exponent_bounds(1) [OF assms(1)] assms(2) show False by linarith
qed

subsection \<open>Round half to even\<close>

lemma rne_bounds: "of_int (rne x) \<le> x + 1 / 2" "x - 1 / 2 \<le> of_int (rne x)"
proof -
  have f: "of_int \<lfloor>x\<rfloor> \<le> x" "x < of_int \<lfloor>x\<rfloor> + 1" by linarith+
  show "of_int (rne x) \<le> x + 1 / 2" "x - 1 / 2 \<le> of_int (rne x)"
    unfolding rne_def Let_def using f by (simp_all split: if_split) linarith+
qed

lemma rne_of_int [simp]: "rne (of_int n) = n"
  by (simp add: rne_def)

lemma rne_mono:
  assumes "x \<le> y"
  shows "rne x \<le> rne y"
proof (cases "\<lfloor>x\<rfloor> = \<lfloor>y\<rfloor>")
  case True
  with assms show ?thesis by (auto simp: rne_def Let_def)
next
  case False
  with assms have fl: "\<lfloor>x\<rfloor> + 1 \<le> \<lfloor>y\<rfloor>" by (metis add1_zle_eq floor_mono le_less)
  have "rne x \<le> \<lfloor>x\<rfloor> + 1" "\<lfloor>y\<rfloor> \<le> rne y" by (auto simp: rne_def Let_def)
  with fl show ?thesis by linarith
qed

lemma rne_le_int: "x \<le> of_int n \<Longrightarrow> rne x \<le> n"
  using rne_mono [of x "of_int n"] by simp

lemma rne_ge_int: "of_int n \<le> x \<Longrightarrow> n \<le> rne x"
  using rne_mono [of "of_int n" x] by simp

lemma rne_minus: "rne (- x) = - rne x"
proof (cases "of_int \<lfloor>x\<rfloor> = x")
  case True
  then have "- x = of_int (- \<lfloor>x\<rfloor>)" by (metis of_int_minus)
  then have "rne (- x) = - \<lfloor>x\<rfloor>" by (metis rne_of_int)
  moreover have "rne x = \<lfloor>x\<rfloor>" using True by (metis rne_of_int)
  ultimately show ?thesis by simp
next
  case False
  have "of_int \<lfloor>x\<rfloor> < x" by (rule le_neq_trans [OF of_int_floor_le False])
  then have "\<lfloor>- x\<rfloor> = - \<lfloor>x\<rfloor> - 1" by (subst floor_eq_iff) (simp, linarith)
  then show ?thesis by (auto simp: rne_def Let_def)
qed

subsection \<open>Properties of the rounding\<close>

lemma rnd_0 [simp]: "rnd 0 = 0" by (simp add: rnd_def)

lemma rnd_minus: "rnd (- x) = - rnd x"
  by (simp add: rnd_def Let_def rne_minus)

lemma rnd_pos:
  "0 < x \<Longrightarrow> rnd x = of_int (rne (x * pow2 (52 - exponent x))) / pow2 (52 - exponent x)"
  by (simp add: rnd_def Let_def)

lemma rnd_binade:
  assumes "0 < x"
  shows "pow2 (exponent x) \<le> rnd x" "rnd x \<le> pow2 (exponent x + 1)"
proof -
  let ?s = "pow2 (52 - exponent x)"
  have "pow2 52 = pow2 (exponent x) * ?s" "pow2 53 = pow2 (exponent x + 1) * ?s"
    by (simp_all flip: pow2_add)
  then have b: "pow2 52 \<le> x * ?s" "x * ?s \<le> pow2 53"
    using exponent_bounds [OF assms] by (auto intro!: mult_right_mono simp: less_imp_le)
  have "of_int (2 ^ 52) \<le> x * ?s" "x * ?s \<le> of_int (2 ^ 53)"
    using b pow2_nat [of 52] pow2_nat [of 53] by simp_all
  then have "2 ^ 52 \<le> rne (x * ?s)" "rne (x * ?s) \<le> 2 ^ 53" by (auto intro: rne_ge_int rne_le_int)
  then have i: "of_int (2 ^ 52) \<le> (of_int (rne (x * ?s)) :: rat)" "of_int (rne (x * ?s)) \<le> (of_int (2 ^ 53) :: rat)"
    by (simp_all only: of_int_le_iff)
  have "pow2 (exponent x) = of_int (2 ^ 52) / ?s" "pow2 (exponent x + 1) = of_int (2 ^ 53) / ?s"
    using pow2_nat [of 52] pow2_nat [of 53] pow2_diff [of 52 "52 - exponent x"] pow2_diff [of 53 "52 - exponent x"]
    by (simp_all add: add.commute)
  with i show "pow2 (exponent x) \<le> rnd x" "rnd x \<le> pow2 (exponent x + 1)"
    unfolding rnd_pos [OF assms] by (simp_all only: divide_right_mono less_imp_le [OF pow2_pos])
qed

lemma rnd_nonneg: "0 \<le> x \<Longrightarrow> 0 \<le> rnd x"
  using rnd_binade(1) [of x] pow2_pos [of "exponent x"] by (cases "x = 0") (simp, linarith)

lemma rnd_mono_pos:
  assumes "0 < x" "x \<le> y"
  shows "rnd x \<le> rnd y"
proof (cases "exponent x = exponent y")
  case True
  have "x * pow2 (52 - exponent x) \<le> y * pow2 (52 - exponent x)"
    using assms(2) by (intro mult_right_mono) (auto simp: less_imp_le)
  then have "(of_int (rne (x * pow2 (52 - exponent x))) :: rat) \<le> of_int (rne (y * pow2 (52 - exponent x)))"
    by (simp only: of_int_le_iff rne_mono)
  with assms True show ?thesis
    by (simp add: rnd_pos divide_right_mono less_imp_le)
next
  case False
  with exponent_mono [OF assms] have "pow2 (exponent x + 1) \<le> pow2 (exponent y)" by (intro pow2_mono) simp
  with rnd_binade [of x] rnd_binade [of y] assms show ?thesis by linarith
qed

lemma rnd_mono: "x \<le> y \<Longrightarrow> rnd x \<le> rnd y"
proof -
  assume le: "x \<le> y"
  consider "0 < x" | "x \<le> 0" "0 \<le> y" | "y < 0" by linarith
  then show ?thesis
  proof cases
    case 1
    from rnd_mono_pos [OF this le] show ?thesis .
  next
    case 2
    with rnd_nonneg [of "- x"] rnd_nonneg [of y] show ?thesis by (simp add: rnd_minus)
  next
    case 3
    with rnd_mono_pos [of "- y" "- x"] le show ?thesis by (simp add: rnd_minus)
  qed
qed

text \<open>Numbers with a significand of at most 53 bits are not rounded.\<close>

lemma rnd_exact:
  assumes "\<bar>m\<bar> \<le> 2 ^ 53"
  shows "rnd (of_int m * pow2 k) = of_int m * pow2 k"
proof -
  have pos: "rnd (of_int m * pow2 k) = of_int m * pow2 k" if m: "0 < m" "m \<le> 2 ^ 53" for m
  proof -
    let ?x = "of_int m * pow2 k"
    have x: "0 < ?x" using m by simp
    have e: "exponent ?x \<le> 52 + k \<or> m = 2 ^ 53"
    proof (cases "m = 2 ^ 53")
      case False
      with m have "m < 2 ^ 53" by simp
      then have "(of_int m :: rat) < of_int (2 ^ 53)" by (simp only: of_int_less_iff)
      then have "?x < pow2 53 * pow2 k" using pow2_nat [of 53] by simp
      then have "?x < pow2 (53 + k)" by (simp add: pow2_add)
      from exponent_le [OF x this] show ?thesis by simp
    qed simp
    show ?thesis
    proof (cases "m = 2 ^ 53")
      case True
      then have xp: "?x = pow2 (53 + k)" using pow2_nat [of 53] by (simp add: pow2_add)
      have le: "53 + k \<le> exponent ?x"
      proof (rule ccontr)
        assume "\<not> 53 + k \<le> exponent ?x"
        then have "pow2 (exponent ?x + 1) \<le> pow2 (53 + k)" by (intro pow2_mono) simp
        with exponent_bounds(2) [OF x] xp show False by simp
      qed
      have "exponent ?x = 53 + k"
      proof (rule ccontr)
        assume "exponent ?x \<noteq> 53 + k"
        with le have "pow2 (53 + k) < pow2 (exponent ?x)" by (intro pow2_less) simp
        with exponent_bounds(1) [OF x] xp show False by simp
      qed
      then have s: "?x * pow2 (52 - exponent ?x) = of_int (2 ^ 52)"
        using pow2_nat [of 52] xp by (simp flip: pow2_add)
      show ?thesis unfolding rnd_pos [OF x] s rne_of_int
        by (simp only: s [symmetric] nonzero_mult_div_cancel_right pow2_nz not_False_eq_True)
    next
      case False
      with e have "0 \<le> k + (52 - exponent ?x)" by simp
      then have "?x * pow2 (52 - exponent ?x) = of_int (m * 2 ^ nat (k + (52 - exponent ?x)))"
        using pow2_nat [of "k + (52 - exponent ?x)"] by (simp add: mult.assoc flip: pow2_add)
      then have "of_int (rne (?x * pow2 (52 - exponent ?x))) = ?x * pow2 (52 - exponent ?x)"
        by (metis rne_of_int)
      then show ?thesis unfolding rnd_pos [OF x] by simp
    qed
  qed
  consider "m = 0" | "0 < m" | "m < 0" by linarith
  then show ?thesis
  proof cases
    case 3
    with pos [of "- m"] assms show ?thesis by (simp add: rnd_minus)
  qed (use pos assms in auto)
qed

lemma rnd_of_int: "\<bar>n\<bar> \<le> 2 ^ 53 \<Longrightarrow> rnd (of_int n) = of_int n"
  using rnd_exact [of n 0] by simp

subsection \<open>Relative error\<close>

lemma rnd_rel:
  assumes "0 \<le> x"
  shows "rnd x \<le> x * (1 + 1 / 2 ^ 53)" "x * (1 - 1 / 2 ^ 53) \<le> rnd x"
proof -
  have "rnd x \<le> x * (1 + 1 / 2 ^ 53) \<and> x * (1 - 1 / 2 ^ 53) \<le> rnd x" if x: "0 < x"
  proof -
    let ?s = "pow2 (52 - exponent x)" and ?r = "of_int (rne (x * pow2 (52 - exponent x))) :: rat"
    have "pow2 52 = pow2 (exponent x) * ?s" by (simp flip: pow2_add)
    also have "\<dots> \<le> x * ?s" using exponent_bounds(1) [OF x] by (intro mult_right_mono) auto
    finally have "1 / 2 \<le> x * ?s * (1 / 2 ^ 53)" using pow2_nat [of 52] by simp
    with rne_bounds [of "x * ?s"] have "?r \<le> x * ?s + x * ?s * (1 / 2 ^ 53)" "x * ?s - x * ?s * (1 / 2 ^ 53) \<le> ?r"
      by linarith+
    then have "?r \<le> x * (1 + 1 / 2 ^ 53) * ?s" "x * (1 - 1 / 2 ^ 53) * ?s \<le> ?r"
      by (simp_all add: algebra_simps)
    then show ?thesis
      unfolding rnd_pos [OF x] by (simp add: pos_divide_le_eq pos_le_divide_eq)
  qed
  with assms show "rnd x \<le> x * (1 + 1 / 2 ^ 53)" "x * (1 - 1 / 2 ^ 53) \<le> rnd x"
    by (cases "x = 0"; simp)+
qed

subsection \<open>The interface\<close>

locale rounding =
  fixes round_to :: "rat \<Rightarrow> rat"
  assumes mono: "x \<le> y \<Longrightarrow> round_to x \<le> round_to y"
    and exact_int: "\<bar>n\<bar> \<le> 2 ^ 53 \<Longrightarrow> round_to (of_int n) = of_int n"
    and odd: "round_to (- x) = - round_to x"
begin

lemma zero: "round_to 0 = 0"
  using exact_int [of 0] by simp

lemma one: "round_to 1 = 1"
  using exact_int [of 1] by simp

lemma nonneg: "0 \<le> x \<Longrightarrow> 0 \<le> round_to x"
  using mono [of 0 x] zero by simp

lemma nonpos: "x \<le> 0 \<Longrightarrow> round_to x \<le> 0"
  using mono [of x 0] zero by simp

lemma le_int: "x \<le> of_int n \<Longrightarrow> \<bar>n\<bar> \<le> 2 ^ 53 \<Longrightarrow> round_to x \<le> of_int n"
  using mono [of x "of_int n"] exact_int by simp

lemma ge_int: "of_int n \<le> x \<Longrightarrow> \<bar>n\<bar> \<le> 2 ^ 53 \<Longrightarrow> of_int n \<le> round_to x"
  using mono [of "of_int n" x] exact_int by simp

lemma le_one: "x \<le> 1 \<Longrightarrow> round_to x \<le> 1"
  using mono [of x 1] one by simp

lemma ge_one: "1 \<le> x \<Longrightarrow> 1 \<le> round_to x"
  using mono [of 1 x] one by simp

lemma mult_le_one:
  assumes "0 \<le> a" "a \<le> 1" "0 \<le> b" "b \<le> 1"
  shows "0 \<le> round_to (a * b) \<and> round_to (a * b) \<le> 1"
  using assms by (simp add: nonneg le_one mult_le_one)

lemma div_le_one:
  assumes "0 \<le> a" "a \<le> b" "0 < b"
  shows "0 \<le> round_to (a / b) \<and> round_to (a / b) \<le> 1"
  using assms by (simp add: nonneg le_one)

lemma abs_le_int: "\<bar>x\<bar> \<le> of_int n \<Longrightarrow> \<bar>n\<bar> \<le> 2 ^ 53 \<Longrightarrow> \<bar>round_to x\<bar> \<le> of_int n"
  using le_int [of x n] ge_int [of "- n" x] by (simp add: abs_le_iff)

end

interpretation fp: rounding rnd
  by unfold_locales (simp_all add: rnd_mono rnd_of_int rnd_minus)

section \<open>Operations\<close>

definition fadd :: "float64 \<Rightarrow> float64 \<Rightarrow> float64" where "fadd a b = rnd (a + b)"
definition fsub :: "float64 \<Rightarrow> float64 \<Rightarrow> float64" where "fsub a b = rnd (a - b)"
definition fmul :: "float64 \<Rightarrow> float64 \<Rightarrow> float64" where "fmul a b = rnd (a * b)"
definition fdiv :: "float64 \<Rightarrow> float64 \<Rightarrow> float64" where "fdiv a b = rnd (a / b)"

text \<open>\<open>float64(n)\<close> and \<open>int64(x)\<close> (which truncates towards zero), and the functions of
  package \<open>math\<close> the program calls.\<close>

definition float_of :: "int \<Rightarrow> float64" where "float_of n = rnd (of_int n)"

definition int64_of :: "float64 \<Rightarrow> int" where
  "int64_of x = (if 0 \<le> x then \<lfloor>x\<rfloor> else \<lceil>x\<rceil>)"

definition math_Floor :: "float64 \<Rightarrow> float64" where "math_Floor x = of_int \<lfloor>x\<rfloor>"

text \<open>\<open>math.Round\<close>: half away from zero.\<close>

definition math_Round :: "float64 \<Rightarrow> float64" where
  "math_Round x = (if 0 \<le> x then of_int \<lfloor>x + 1 / 2\<rfloor> else of_int \<lceil>x - 1 / 2\<rceil>)"

text \<open>
  \<open>math.Sqrt\<close> is correctly rounded.  The number is scaled by a power of four until its
  integer part has at least 110 bits; the integer root then has at least 55, and one more
  (sticky) bit records whether it was exact, which is enough to round correctly.
\<close>

fun isqrt :: "int \<Rightarrow> int" where
  "isqrt n = (if n \<le> 0 then 0
    else let r = 2 * isqrt (n div 4) in if (r + 1) * (r + 1) \<le> n then r + 1 else r)"

declare isqrt.simps [simp del]

definition math_Sqrt :: "float64 \<Rightarrow> float64" where
  "math_Sqrt x =
    (if x \<le> 0 then 0
     else let j = max 0 (56 - exponent x div 2);
              y = x * pow2 (2 * j);
              n = \<lfloor>y\<rfloor>;
              r = isqrt n
          in if of_int (r * r) = y then rnd (of_int r / pow2 j)
             else rnd (of_int (2 * r + 1) / pow2 (j + 1)))"

lemma isqrt_bounds: "0 \<le> n \<Longrightarrow> 0 \<le> isqrt n \<and> isqrt n * isqrt n \<le> n \<and> n < (isqrt n + 1) * (isqrt n + 1)"
proof (induction n rule: isqrt.induct)
  case (1 n)
  show ?case
  proof (cases "n = 0")
    case True
    then show ?thesis by (simp add: isqrt.simps)
  next
    case False
    let ?q = "isqrt (n div 4)"
    from "1.IH" "1.prems" False have ih: "0 \<le> ?q" "?q * ?q \<le> n div 4" "n div 4 < (?q + 1) * (?q + 1)" by auto
    then have b: "4 * (?q * ?q) \<le> n" "n < 4 * ((?q + 1) * (?q + 1))" by linarith+
    have e: "isqrt n = (if (2 * ?q + 1) * (2 * ?q + 1) \<le> n then 2 * ?q + 1 else 2 * ?q)"
      using "1.prems" False by (subst isqrt.simps) (simp add: Let_def)
    show ?thesis using b ih(1) by (simp add: e algebra_simps)
  qed
qed

lemma math_Sqrt_nonneg: "0 \<le> math_Sqrt x"
proof (cases "x \<le> 0")
  case False
  then have "0 \<le> \<lfloor>x * pow2 (2 * max 0 (56 - exponent x div 2))\<rfloor>" by simp
  from isqrt_bounds [OF this] show ?thesis
    by (auto simp: math_Sqrt_def Let_def intro!: fp.nonneg)
qed (simp add: math_Sqrt_def)

lemma int64_of_nonneg: "0 \<le> x \<Longrightarrow> 0 \<le> int64_of x"
  by (simp add: int64_of_def)

lemma int64_of_mono: "x \<le> y \<Longrightarrow> int64_of x \<le> int64_of y"
proof -
  assume le: "x \<le> y"
  have "\<lceil>x\<rceil> \<le> \<lfloor>y\<rfloor>" if "x < 0" "0 \<le> y"
  proof -
    have "\<lceil>x\<rceil> \<le> 0" "0 \<le> \<lfloor>y\<rfloor>" using that by simp_all
    then show ?thesis by linarith
  qed
  with le show ?thesis by (auto simp: int64_of_def floor_mono ceiling_mono)
qed

lemma int64_of_le: "x \<le> of_int n \<Longrightarrow> int64_of x \<le> n"
  using int64_of_mono [of x "of_int n"] by (auto simp: int64_of_def split: if_splits)

lemma int64_of_ge: "of_int n \<le> x \<Longrightarrow> n \<le> int64_of x"
  using int64_of_mono [of "of_int n" x] by (auto simp: int64_of_def split: if_splits)

lemma math_Round_bounds:
  assumes "of_int a \<le> x" "x \<le> of_int b"
  shows "of_int a \<le> math_Round x" "math_Round x \<le> of_int b"
proof -
  have "a \<le> \<lfloor>x + 1 / 2\<rfloor>" "\<lfloor>x + 1 / 2\<rfloor> \<le> b" "a \<le> \<lceil>x - 1 / 2\<rceil>" "\<lceil>x - 1 / 2\<rceil> \<le> b"
    using assms by linarith+
  then show "of_int a \<le> math_Round x" "math_Round x \<le> of_int b"
    by (simp_all add: math_Round_def)
qed

lemmas float_ops = fadd_def fsub_def fmul_def fdiv_def float_of_def

end
