(* ===== verification/QueueStore.thy ===== *)
theory QueueStore
  imports SlotRuns Float64
begin

text \<open>
  The Go side of the waiting queue (\<open>src/internal/queue/queue.go\<close>,
  \<open>src/internal/queue/sweeper.go\<close>): validation, the calls of the scripts with the keys and
  arguments the code passes, the decoding of replies, the shard index, the waiting-time
  estimates and the sweeper's cursor.

  Each method takes what its environment decides: \<open>net\<close> and \<open>link\<close> say what the network
  does to its round trips, \<open>clk i\<close> is the \<open>i\<close>-th reading of the store's clock in the call,
  and the random bytes of \<open>crypto/rand\<close> are an argument (\<open>None\<close> when reading them fails).
\<close>

section \<open>Errors, configuration, results\<close>

datatype queue_error =
    ErrEmptyToken | ErrInvalidToken | ErrInvalidEvent | ErrSweepBatch | ErrUnexpectedReply
  | ErrRand | ErrShardID shard_error | ErrRedis redis_error

record QConfig =
  qc_EventID :: string
  qc_OpenAt :: "gotime option"
  qc_LotteryWindow :: duration
  qc_UserTTL :: duration
  qc_HeartbeatInterval :: duration
  qc_MissedHeartbeats :: int
  qc_EvictGrace :: duration
  qc_EvictedRetain :: duration
  qc_SweepBatch :: int

record Store =
  st_cfg :: QConfig
  st_registered :: "string \<rightharpoonup> gotime"

definition maxIDLen :: nat where "maxIDLen = 128"

definition id_char :: "char \<Rightarrow> bool" where
  "id_char c \<longleftrightarrow> (CHR ''a'' \<le> c \<and> c \<le> CHR ''z'') \<or> (CHR ''A'' \<le> c \<and> c \<le> CHR ''Z'') \<or>
    (CHR ''0'' \<le> c \<and> c \<le> CHR ''9'') \<or> c = CHR ''-'' \<or> c = CHR ''_'' \<or> c = CHR ''.''"

definition validID :: "string \<Rightarrow> bool" where
  "validID s \<longleftrightarrow> \<not> (s = [] \<or> length s > maxIDLen) \<and> list_all id_char s"

definition NewStore_queue :: "QConfig \<Rightarrow> queue_error + Store" where
  "NewStore_queue cfg =
    (if \<not> validID (qc_EventID cfg) then Inl ErrInvalidEvent
     else if qc_SweepBatch cfg \<le> 0 then Inl ErrSweepBatch
     else Inr \<lparr>st_cfg = cfg, st_registered = Map.empty\<rparr>)"

definition check :: "string \<Rightarrow> token \<Rightarrow> queue_error option" where
  "check shardID tokenID =
    (if tokenID = [] then Some ErrEmptyToken
     else if \<not> validID tokenID then Some ErrInvalidToken
     else map_option ErrShardID (Validate shardID))"

definition milliOrZero :: "gotime option \<Rightarrow> millis" where
  "milliOrZero t = (case t of None \<Rightarrow> 0 | Some t \<Rightarrow> UnixMilli t)"

definition fromMilli :: "millis \<Rightarrow> gotime option" where
  "fromMilli ms = (if ms < 0 then None else Some (ms * 1000000))"

definition LotteryEnd :: "Store \<Rightarrow> gotime option" where
  "LotteryEnd s = (case qc_OpenAt (st_cfg s) of None \<Rightarrow> None
     | Some t \<Rightarrow> Some (t + qc_LotteryWindow (st_cfg s)))"

definition StaleAfter :: "Store \<Rightarrow> duration" where
  "StaleAfter s = qc_HeartbeatInterval (st_cfg s) * qc_MissedHeartbeats (st_cfg s)"

definition lotteryRank :: "string option \<Rightarrow> queue_error + int" where
  "lotteryRank b = (case b of None \<Rightarrow> Inl ErrRand
     | Some b \<Rightarrow> Inr (uint (be_uint64 b mod of_int LotteryBand)))"

section \<open>Decoding replies\<close>

definition reply :: "lval list \<Rightarrow> nat \<Rightarrow> queue_error + lval list" where
  "reply v want = (if length v \<noteq> want then Inl ErrUnexpectedReply else Inr v)"

text \<open>
  \<open>fmt.Sscan\<close> into an \<open>int64\<close>: leading space, a sign, an optional base prefix, the digits of
  the base and underscores as far as they go, then \<open>strconv.ParseInt\<close> with base 0.
\<close>

definition is_space :: "char \<Rightarrow> bool" where
  "is_space c \<longleftrightarrow> of_char c \<in> {9, 10, 11, 12, 13, 32 :: nat}"

definition hex_val :: "char \<Rightarrow> nat" where
  "hex_val c = (let n = of_char c in
    if 48 \<le> n \<and> n \<le> 57 then n - 48
    else if 97 \<le> n \<and> n \<le> 102 then n - 87
    else if 65 \<le> n \<and> n \<le> 70 then n - 55 else 99)"

fun underscores_ok :: "bool \<Rightarrow> string \<Rightarrow> bool" where
  "underscores_ok after_digit [] = True"
| "underscores_ok after_digit (c # cs) =
    (if c = CHR ''_'' then after_digit \<and> cs \<noteq> [] \<and> hd cs \<noteq> CHR ''_'' \<and> underscores_ok False cs
     else underscores_ok True cs)"

definition scan_base :: "string \<Rightarrow> nat \<times> bool \<times> string" where
  "scan_base s =
    (case s of
       c # d # t \<Rightarrow>
         if c = CHR ''0'' then
           (if d = CHR ''b'' \<or> d = CHR ''B'' then (2, True, t)
            else if d = CHR ''o'' \<or> d = CHR ''O'' then (8, True, t)
            else if d = CHR ''x'' \<or> d = CHR ''X'' then (16, True, t)
            else (8, False, s))
         else (10, False, s)
     | _ \<Rightarrow> (10, False, s))"

definition Sscan_int64 :: "string \<Rightarrow> int option" where
  "Sscan_int64 s0 =
    (let s = dropWhile is_space s0;
         neg = (s \<noteq> [] \<and> hd s = CHR ''-'');
         s = (if s \<noteq> [] \<and> (hd s = CHR ''-'' \<or> hd s = CHR ''+'') then tl s else s);
         (base, prefixed, t) = scan_base s;
         tok = takeWhile (\<lambda>c. c = CHR ''_'' \<or> hex_val c < base) t;
         v = foldl (\<lambda>acc c. if c = CHR ''_'' then acc else acc * base + hex_val c) 0 tok;
         n = (if neg then - int v else int v)
     in if filter (\<lambda>c. c \<noteq> CHR ''_'') tok = [] \<or> \<not> underscores_ok prefixed tok then None
        else if - (2 ^ 63) \<le> n \<and> n < 2 ^ 63 then Some n else None)"

definition asInt64 :: "lval \<Rightarrow> int" where
  "asInt64 v = (case v of LInt n \<Rightarrow> n | LStr t \<Rightarrow> or_else (Sscan_int64 t) (- 1))"

definition asString :: "lval \<Rightarrow> string" where
  "asString v = (case v of LStr s \<Rightarrow> s | LInt _ \<Rightarrow> '''')"

text \<open>The scripts are loaded once; a digest is identified by the file it is the digest of.\<close>

definition NewScript :: "string \<Rightarrow> script \<Rightarrow> Script" where
  "NewScript name body = \<lparr>script_name = name, script_sha = name, script_body = body\<rparr>"

definition call :: "net \<Rightarrow> string \<Rightarrow> nat \<Rightarrow> script \<Rightarrow> redis \<Rightarrow> (queue_error + lval list) \<times> redis" where
  "call n name want body r =
    (case Run n (NewScript name body) r of
       (Inl e, r') \<Rightarrow> (Inl (ErrRedis e), r')
     | (Inr v, r') \<Rightarrow> (reply v want, r'))"

section \<open>The shard index\<close>

definition reregisterAfter :: duration where "reregisterAfter = 60 * 1000000000"

definition SAdd :: "link \<Rightarrow> key \<Rightarrow> string \<Rightarrow> redis \<Rightarrow> bool \<times> redis" where
  "SAdd l k m r =
    (let r' = r\<lparr>sets := (sets r)(k := insert m (sets r k))\<rparr>
     in case l of Delivered \<Rightarrow> (True, r') | RequestLost \<Rightarrow> (False, r) | ReplyLost \<Rightarrow> (False, r'))"

definition registerShard :: "link \<Rightarrow> (nat \<Rightarrow> gotime) \<Rightarrow> string \<Rightarrow> Store \<times> redis \<Rightarrow>
    queue_error option \<times> Store \<times> redis" where
  "registerShard l clk shardID sr =
    (case sr of (s, r) \<Rightarrow>
       if (case st_registered s shardID of None \<Rightarrow> False | Some t \<Rightarrow> clk 0 - t < reregisterAfter)
       then (None, s, r)
       else case SAdd l (Shards (qc_EventID (st_cfg s))) shardID r of
              (False, r') \<Rightarrow> (Some (ErrRedis Network), s, r')
            | (True, r') \<Rightarrow>
                (None, s\<lparr>st_registered := (st_registered s)(shardID \<mapsto> clk 1)\<rparr>, r'))"

definition Shards_list :: "link \<Rightarrow> Store \<Rightarrow> redis \<Rightarrow> queue_error + string list" where
  "Shards_list l s r =
    (if l \<noteq> Delivered then Inl (ErrRedis Network)
     else Inr (filter (\<lambda>m. Validate m = None) (sorted_list_of_set (sets r (Shards (qc_EventID (st_cfg s)))))))"

definition Sizes :: "link \<Rightarrow> Store \<Rightarrow> string list \<Rightarrow> redis \<Rightarrow> queue_error + int list" where
  "Sizes l s shards r =
    (if shards = [] then Inr []
     else if l \<noteq> Delivered then Inl (ErrRedis Network)
     else Inr (map (\<lambda>sh. zcard (zsets r (Queue (qc_EventID (st_cfg s)) sh))) shards))"

definition TotalWaiting :: "link \<Rightarrow> link \<Rightarrow> Store \<Rightarrow> redis \<Rightarrow> queue_error + int" where
  "TotalWaiting l1 l2 s r =
    (case Shards_list l1 s r of Inl e \<Rightarrow> Inl e
     | Inr shards \<Rightarrow> (case Sizes l2 s shards r of Inl e \<Rightarrow> Inl e
         | Inr sizes \<Rightarrow> Inr (sum_list sizes)))"

section \<open>Enqueue\<close>

record EnqueueRequest =
  er_Shard :: string
  er_TokenID :: token
  er_FPHash :: string
  er_IPPrefix :: string

record Ticket =
  tk_Status :: string
  tk_Shard :: string
  tk_Rank :: int
  tk_Size :: int
  tk_Score :: int
  tk_Segment :: string

definition Queued :: "Ticket \<Rightarrow> bool" where
  "Queued t \<longleftrightarrow> tk_Status t = ''created'' \<or> tk_Status t = ''exists''"

definition Enqueue :: "net \<Rightarrow> link \<Rightarrow> string option \<Rightarrow> (nat \<Rightarrow> gotime) \<Rightarrow> EnqueueRequest \<Rightarrow>
    Store \<times> redis \<Rightarrow> (queue_error + Ticket) \<times> Store \<times> redis" where
  "Enqueue n l rand clk req sr =
    (case check (er_Shard req) (er_TokenID req) of
       Some e \<Rightarrow> (Inl e, sr)
     | None \<Rightarrow>
         (case registerShard l clk (er_Shard req) sr of
            (Some e, sr') \<Rightarrow> (Inl e, sr')
          | (None, s, r) \<Rightarrow>
              (case lotteryRank rand of
                 Inl e \<Rightarrow> (Inl e, s, r)
               | Inr lot \<Rightarrow>
                   let ev = qc_EventID (st_cfg s); sh = er_Shard req; t = er_TokenID req
                   in case call n ''enqueue.lua'' 5
                        (enqueue_lua (Queue ev sh) (Seq ev sh) (User ev sh t) t sh
                           (UnixMilli (clk 2)) (milliOrZero (LotteryEnd s)) lot LotteryBand
                           (er_FPHash req) (er_IPPrefix req) (Milliseconds (qc_UserTTL (st_cfg s)))) r of
                      (Inl e, r') \<Rightarrow> (Inl e, s, r')
                    | (Inr vals, r') \<Rightarrow>
                        (Inr \<lparr>tk_Status = asString (vals ! 0), tk_Shard = sh,
                              tk_Rank = asInt64 (vals ! 1), tk_Size = asInt64 (vals ! 2),
                              tk_Score = asInt64 (vals ! 3), tk_Segment = asString (vals ! 4)\<rparr>, s, r'))))"

section \<open>Position and the waiting-time estimate\<close>

record Snapshot =
  sn_Status :: string
  sn_Shard :: string
  sn_Rank :: int
  sn_Size :: int
  sn_HoldRank :: int
  sn_HoldSize :: int
  sn_OrigRank :: int
  sn_Segment :: string
  sn_JoinedAt :: "gotime option"
  sn_LastSeen :: "gotime option"
  sn_BotScore :: int
  sn_Rechallenges :: int
  sn_ObserveFrom :: "gotime option"

definition ObservedFrom :: "Snapshot \<Rightarrow> gotime option" where
  "ObservedFrom s = (case sn_ObserveFrom s of None \<Rightarrow> sn_JoinedAt s | Some t \<Rightarrow> Some t)"

definition Ahead :: "Snapshot \<Rightarrow> int" where
  "Ahead s = (if sn_Rank s < 0 then 0 else sn_Rank s)"

definition Minute :: duration where "Minute = 60 * 1000000000"

definition EstimateWait :: "Snapshot \<Rightarrow> float64 \<Rightarrow> duration" where
  "EstimateWait s shardAdmitPerMin =
    (if sn_Rank s < 0 \<or> shardAdmitPerMin \<le> 0 then 0
     else let minutes = fdiv (float_of (sn_Rank s + 1)) shardAdmitPerMin
          in int64_of (fmul minutes (float_of Minute)))"

record Gates =
  g_AdmitOpensAt :: "gotime option"
  g_MinDwell :: duration

definition EstimateWaitAt :: "Snapshot \<Rightarrow> gotime \<Rightarrow> float64 \<Rightarrow> Gates \<Rightarrow> duration" where
  "EstimateWaitAt s now shardAdmitPerMin g =
    (let wait = EstimateWait s shardAdmitPerMin
     in if wait = 0 then 0
        else let wait = (case g_AdmitOpensAt g of
                           None \<Rightarrow> wait
                         | Some opens \<Rightarrow> let left = opens - now in if left > 0 then wait + left else wait)
             in case ObservedFrom s of
                  None \<Rightarrow> wait
                | Some from \<Rightarrow>
                    if g_MinDwell g > 0 then
                      let left = g_MinDwell g - (now - from) in if left > wait then left else wait
                    else wait)"

definition Position :: "net \<Rightarrow> string \<Rightarrow> token \<Rightarrow> Store \<times> redis \<Rightarrow> (queue_error + Snapshot) \<times> Store \<times> redis" where
  "Position n shardID tokenID sr =
    (case check shardID tokenID of
       Some e \<Rightarrow> (Inl e, sr)
     | None \<Rightarrow>
         (case sr of (s, r) \<Rightarrow>
            let ev = qc_EventID (st_cfg s)
            in case call n ''position.lua'' 12
                 (position_lua (Queue ev shardID) (Hold ev shardID) (User ev shardID tokenID) tokenID) r of
               (Inl e, r') \<Rightarrow> (Inl e, s, r')
             | (Inr vals, r') \<Rightarrow>
                 (Inr \<lparr>sn_Status = asString (vals ! 0), sn_Shard = shardID,
                       sn_Rank = asInt64 (vals ! 1), sn_Size = asInt64 (vals ! 2),
                       sn_HoldRank = asInt64 (vals ! 3), sn_HoldSize = asInt64 (vals ! 4),
                       sn_OrigRank = asInt64 (vals ! 5), sn_Segment = asString (vals ! 6),
                       sn_JoinedAt = fromMilli (asInt64 (vals ! 7)),
                       sn_LastSeen = fromMilli (asInt64 (vals ! 8)),
                       sn_BotScore = asInt64 (vals ! 9), sn_Rechallenges = asInt64 (vals ! 10),
                       sn_ObserveFrom = fromMilli (asInt64 (vals ! 11))\<rparr>, s, r')))"

section \<open>Heartbeat, re-challenge and sweep\<close>

record Beat =
  bt_Status :: string
  bt_Interval :: duration
  bt_Count :: int
  bt_Rank :: int
  bt_Revived :: bool

definition Heartbeat :: "net \<Rightarrow> gotime \<Rightarrow> string \<Rightarrow> token \<Rightarrow> Store \<times> redis \<Rightarrow>
    (queue_error + Beat) \<times> Store \<times> redis" where
  "Heartbeat n now shardID tokenID sr =
    (case check shardID tokenID of
       Some e \<Rightarrow> (Inl e, sr)
     | None \<Rightarrow>
         (case sr of (s, r) \<Rightarrow>
            let ev = qc_EventID (st_cfg s)
            in case call n ''heartbeat.lua'' 5
                 (heartbeat_lua (Queue ev shardID) (User ev shardID tokenID) tokenID (UnixMilli now)
                    (Milliseconds (qc_UserTTL (st_cfg s)))) r of
               (Inl e, r') \<Rightarrow> (Inl e, s, r')
             | (Inr vals, r') \<Rightarrow>
                 let d = asInt64 (vals ! 1)
                 in (Inr \<lparr>bt_Status = asString (vals ! 0),
                          bt_Interval = (if d \<ge> 0 then d * 1000000 else 0),
                          bt_Count = asInt64 (vals ! 2), bt_Rank = asInt64 (vals ! 3),
                          bt_Revived = (asInt64 (vals ! 4) = 1)\<rparr>, s, r')))"

record RechallengeRequest =
  rq_Shard :: string
  rq_TokenID :: token
  rq_MaxAttempts :: int
  rq_PassScore :: int
  rq_HoldScore :: int

record RechallengeResult =
  rr_Outcome :: string
  rr_Status :: string
  rr_Rank :: int
  rr_Attempts :: int
  rr_Score :: int

definition Rechallenge :: "net \<Rightarrow> gotime \<Rightarrow> RechallengeRequest \<Rightarrow> Store \<times> redis \<Rightarrow>
    (queue_error + RechallengeResult) \<times> Store \<times> redis" where
  "Rechallenge n now req sr =
    (case check (rq_Shard req) (rq_TokenID req) of
       Some e \<Rightarrow> (Inl e, sr)
     | None \<Rightarrow>
         (case Origin (rq_Shard req) of
            Inl e \<Rightarrow> (Inl (ErrShardID e), sr)
          | Inr origin \<Rightarrow>
              (case Greylist (rq_Shard req) of
                 Inl e \<Rightarrow> (Inl (ErrShardID e), sr)
               | Inr grey \<Rightarrow>
                   (case sr of (s, r) \<Rightarrow>
                      let ev = qc_EventID (st_cfg s); t = rq_TokenID req
                      in case call n ''rechallenge.lua'' 5
                           (rechallenge_lua (Queue ev origin) (Queue ev grey) (Hold ev origin)
                              (Score ev origin) (User ev origin t) t origin (rq_MaxAttempts req)
                              (rq_PassScore req) (rq_HoldScore req) (UnixMilli now)
                              (Milliseconds (qc_UserTTL (st_cfg s)))) r of
                         (Inl e, r') \<Rightarrow> (Inl e, s, r')
                       | (Inr vals, r') \<Rightarrow>
                           (Inr \<lparr>rr_Outcome = asString (vals ! 0), rr_Status = asString (vals ! 1),
                                 rr_Rank = asInt64 (vals ! 2), rr_Attempts = asInt64 (vals ! 3),
                                 rr_Score = asInt64 (vals ! 4)\<rparr>, s, r')))))"

record SweepResult =
  sr_Scanned :: int
  sr_Marked :: int
  sr_Removed :: int
  sr_Ghosts :: int
  sr_NextOffset :: int
  sr_Size :: int

definition Sweep :: "net \<Rightarrow> gotime \<Rightarrow> string \<Rightarrow> int \<Rightarrow> Store \<times> redis \<Rightarrow>
    (queue_error + SweepResult) \<times> Store \<times> redis" where
  "Sweep n now shardID offset sr =
    (case Validate shardID of
       Some e \<Rightarrow> (Inl (ErrShardID e), sr)
     | None \<Rightarrow>
         (case sr of (s, r) \<Rightarrow>
            let ev = qc_EventID (st_cfg s)
            in case call n ''evict.lua'' 6
                 (evict_lua (Queue ev shardID) (UserPrefix ev shardID) (UnixMilli now)
                    (Milliseconds (StaleAfter s)) (Milliseconds (qc_EvictGrace (st_cfg s))) offset
                    (qc_SweepBatch (st_cfg s)) (Milliseconds (qc_EvictedRetain (st_cfg s)))) r of
               (Inl e, r') \<Rightarrow> (Inl e, s, r')
             | (Inr vals, r') \<Rightarrow>
                 (Inr \<lparr>sr_Scanned = asInt64 (vals ! 0), sr_Marked = asInt64 (vals ! 1),
                       sr_Removed = asInt64 (vals ! 2), sr_Ghosts = asInt64 (vals ! 3),
                       sr_NextOffset = asInt64 (vals ! 4), sr_Size = asInt64 (vals ! 5)\<rparr>, s, r')))"

section \<open>The sweeper\<close>

record Sweeper =
  sw_every :: duration
  sw_cursor :: "string \<rightharpoonup> int"

definition NewSweeper :: "QConfig \<Rightarrow> Sweeper" where
  "NewSweeper cfg = \<lparr>sw_every = qc_HeartbeatInterval cfg, sw_cursor = Map.empty\<rparr>"

fun sweep_shards :: "(string \<Rightarrow> net) \<Rightarrow> (string \<Rightarrow> gotime) \<Rightarrow> string list \<Rightarrow> Sweeper \<times> Store \<times> redis \<Rightarrow>
    Sweeper \<times> Store \<times> redis" where
  "sweep_shards n clk [] w = w"
| "sweep_shards n clk (sh # shs) (sw, sr) =
    (case Sweep (n sh) (clk sh) sh (or_else (sw_cursor sw sh) 0) sr of
       (Inl _, sr') \<Rightarrow> sweep_shards n clk shs (sw, sr')
     | (Inr res, sr') \<Rightarrow>
         sweep_shards n clk shs (sw\<lparr>sw_cursor := (sw_cursor sw)(sh \<mapsto> sr_NextOffset res)\<rparr>, sr'))"

definition Sweeper_once :: "link \<Rightarrow> (string \<Rightarrow> net) \<Rightarrow> (string \<Rightarrow> gotime) \<Rightarrow> Sweeper \<times> Store \<times> redis \<Rightarrow>
    Sweeper \<times> Store \<times> redis" where
  "Sweeper_once l n clk w =
    (case w of (sw, s, r) \<Rightarrow>
       (case Shards_list l s r of
          Inl _ \<Rightarrow> w
        | Inr shards \<Rightarrow> sweep_shards n clk shards w))"

section \<open>Facts about the client\<close>

lemma id_char_plain: "id_char c \<Longrightarrow> c \<noteq> CHR ''{'' \<and> c \<noteq> CHR ''}'' \<and> c \<noteq> CHR '':''"
  by (auto simp: id_char_def less_eq_char_def)

lemma validID_plain: "validID s \<Longrightarrow> plain s"
  using id_char_plain by (auto simp: validID_def plain_def list_all_iff)

definition good_net :: net where
  "good_net = \<lparr>link1 = Delivered, link_load = Delivered, link2 = Delivered\<rparr>"

lemma call_loaded:
  assumes "name \<in> loaded r"
  shows "link1 n = Delivered \<Longrightarrow> fst (body r) = Inr v \<Longrightarrow> call n name want body r = (reply v want, snd (body r))"
    "link1 n = ReplyLost \<Longrightarrow> call n name want body r = (Inl (ErrRedis Network), snd (body r))"
  using assms
  by (cases "body r"; cases "fst (body r)";
      simp add: call_def Run_def EvalSha_def evalsha_server_def NewScript_def isNoScript_def)+

lemma lotteryRank_bounds: "lotteryRank b = Inr lot \<Longrightarrow> 0 \<le> lot \<and> lot < LotteryBand"
  by (auto simp: lotteryRank_def LotteryBand_def uint_mod split: option.splits)

lemma registerShard_frame:
  "registerShard l clk sh (s, r) = (e, s', r') \<Longrightarrow>
    st_cfg s' = st_cfg s \<and> (\<exists>S. r' = r\<lparr>sets := S\<rparr>)"
  by (cases l) (auto simp: registerShard_def SAdd_def Let_def intro: exI [of _ "sets r"] split: if_splits)

lemma float_of_mono: "a \<le> b \<Longrightarrow> float_of a \<le> float_of b"
  by (simp add: float_of_def fp.mono)

lemma float_of_nonneg: "0 \<le> a \<Longrightarrow> 0 \<le> float_of a"
  by (simp add: float_of_def fp.nonneg)

lemma EstimateWait_nonneg: "0 \<le> EstimateWait s rate"
  by (auto simp: EstimateWait_def Let_def fdiv_def fmul_def
      intro!: int64_of_nonneg fp.nonneg mult_nonneg_nonneg divide_nonneg_pos float_of_nonneg)
    (simp add: Minute_def)

lemma EstimateWait_mono:
  assumes "0 \<le> sn_Rank s" "sn_Rank s \<le> sn_Rank s'" "0 < rate'" "rate' \<le> rate"
  shows "EstimateWait s rate \<le> EstimateWait s' rate'"
proof -
  have "float_of (sn_Rank s + 1) / rate \<le> float_of (sn_Rank s' + 1) / rate'"
    using assms by (intro frac_le float_of_mono float_of_nonneg) auto
  then have "fdiv (float_of (sn_Rank s + 1)) rate \<le> fdiv (float_of (sn_Rank s' + 1)) rate'"
    unfolding fdiv_def by (rule fp.mono)
  then have "fmul (fdiv (float_of (sn_Rank s + 1)) rate) (float_of Minute) \<le>
      fmul (fdiv (float_of (sn_Rank s' + 1)) rate') (float_of Minute)"
    unfolding fmul_def by (intro fp.mono mult_right_mono float_of_nonneg) (simp_all add: Minute_def)
  with assms show ?thesis by (simp add: EstimateWait_def Let_def int64_of_mono)
qed

lemma enqueue_created:
  assumes "hget r userKey u_state = None" "0 < ttl"
  obtains sc seg r2 where
    "enqueue_lua q sq userKey t sh now lend lrand band fp ip ttl r =
      (Inr [LStr ''created'', LInt (rank_reply (zsets r2 q) t), LInt (zcard (zsets r2 q)), LInt sc, LStr seg], r2)"
    "hget r2 userKey u_state = Some ''waiting''" "hget r2 userKey u_orig_rank = Some sc"
    "hget r2 userKey u_segment = Some seg" "loaded r2 = loaded r"
proof -
  let ?r2 = "snd (enqueue_new q sq userKey t sh now lend lrand band fp ip ttl r)"
  have l: "loaded ?r2 = loaded r"
    by (auto simp: enqueue_new_def Let_def hset_def pexpire_def ZADD_def incr_by_def del_user_def
        split: option.splits)
  show thesis
  proof (cases "now < lend")
    case True
    show ?thesis
      by (rule that [where ?r2.0 = ?r2 and sc = lrand and seg = "''lottery''"])
        (use assms True l in \<open>simp_all add: enqueue_lua_def enqueue_new_def enqueue_snapshot_def
           Let_def hget_def redis_simps\<close>)
  next
    case False
    show ?thesis
      by (rule that [where ?r2.0 = ?r2 and sc = "band + fst (incr_by r sq 1)" and seg = "''fifo''"])
        (use assms False l in \<open>simp_all add: enqueue_lua_def enqueue_new_def enqueue_snapshot_def
           Let_def hget_def redis_simps\<close>)
  qed
qed

lemma enqueue_exists:
  assumes "hget r userKey u_state = Some ''waiting''" "hget r userKey u_orig_rank = Some sc"
    "hget r userKey u_segment = Some seg"
  shows "fst (enqueue_lua q sq userKey t sh now lend lrand band fp ip ttl r) =
    Inr [LStr ''exists'', LInt (rank_reply (zsets r q) t), LInt (zcard (zsets r q)), LInt sc, LStr seg]"
  using assms by (simp add: enqueue_lua_def enqueue_snapshot_def Let_def redis_simps)

lemma registerShard_delivered:
  obtains s' S where "registerShard Delivered clk sh (s, r) = (None, s', r\<lparr>sets := S\<rparr>)" "st_cfg s' = st_cfg s"
proof -
  obtain e s' r' where reg: "registerShard Delivered clk sh (s, r) = (e, s', r')"
    by (cases "registerShard Delivered clk sh (s, r)")
  moreover have "e = None" using reg by (auto simp: registerShard_def SAdd_def Let_def split: if_splits)
  ultimately show thesis using registerShard_frame [OF reg] that by metis
qed

section \<open>Properties\<close>

text \<open>
  No aliasing between users: with identifiers that pass validation, the keys of two user
  hashes are equal only for the same event, the same slot and the same token, and the keys
  one script receives all carry the hash tag of the slot, so Redis Cluster runs it on one node.
\<close>

theorem keys_identify_users:
  assumes "validID ev" "validID ev'" "Validate s = None" "Validate s' = None"
  shows "(User ev s t = User ev' s' t' \<longleftrightarrow> ev = ev' \<and> slotOf s = slotOf s' \<and> t = t') \<and>
    (\<forall>k \<in> {Queue ev s, Hold ev s, Seq ev s, Budget ev s, Score ev s, User ev s t, Entry ev s j}.
       hash_tag k = ev @ '':'' @ slotOf s) \<and>
    (\<forall>g. Greylist s = Inr g \<longrightarrow> hash_tag (Queue ev g) = ev @ '':'' @ slotOf s)"
proof -
  have p: "plain ev" "plain ev'" "plain s" "plain s'" using assms validID_plain by auto
  have g: "hash_tag (Queue ev g) = ev @ '':'' @ slotOf s" if "Greylist s = Inr g" for g
  proof -
    obtain g' where "Greylist s = Inr g'" "Validate g' = None" "slotOf g' = slotOf s"
      using Origin_Greylist [OF assms(3)] by metis
    with that p show ?thesis by (simp add: Queue_def hash_tag_shardKey prefix_defs)
  qed
  have "hash_tag (User ev s t) = ev @ '':'' @ slotOf s" "hash_tag (Entry ev s j) = ev @ '':'' @ slotOf s"
    using hash_tag_tagged [of prefixUser ev s t] hash_tag_tagged [of prefixEntry ev s j] p
    by (simp_all add: User_def Entry_def prefix_defs)
  with p g User_inj [OF p] show ?thesis
    by (simp add: Queue_def Hold_def Seq_def Budget_def Score_def hash_tag_shardKey prefix_defs)
qed

theorem keys_identify_users_witness:
  "User ''ev-1'' ''s0001'' ''tok.a'' \<noteq> User ''ev-1'' ''s0011'' ''tok.a'' \<and>
    hash_tag (Budget ''ev-1'' ''s0001'') = ''ev-1:s0001''"
proof -
  have v: "validID ''ev-1''" "Validate ''s0001'' = None" "Validate ''s0011'' = None" by code_simp+
  have s: "slotOf ''s0001'' = ''s0001''" "slotOf ''s0011'' = ''s0011''" by code_simp+
  from keys_identify_users [OF v(1) v(1) v(2) v(3), of "''tok.a''" "''tok.a''" "[]"] s
  show ?thesis by simp
qed

text \<open>
  C29. A retry after a lost reply is safe end to end: when the reply of the first \<open>Enqueue\<close> is
  lost, the caller sees a network error, and its next call gets \<open>exists\<close> with exactly the rank,
  the score and the segment that the lost reply held, whatever random number and clock the
  retry has.
\<close>

theorem Enqueue_retry:
  assumes "check (er_Shard req) (er_TokenID req) = None"
    "user_get r (User (qc_EventID (st_cfg s)) (er_Shard req) (er_TokenID req)) = None"
    "1000000 \<le> qc_UserTTL (st_cfg s)" "''enqueue.lua'' \<in> loaded r" "link1 lost = ReplyLost"
  shows "let (out, sr1) = Enqueue lost Delivered (Some b) clk req (s, r);
      (out', _) = Enqueue good_net Delivered (Some b) clk req (s, r);
      (out2, _) = Enqueue good_net Delivered (Some b2) clk2 req sr1
    in out = Inl (ErrRedis Network) \<and>
       (\<exists>t t2. out' = Inr t \<and> out2 = Inr t2 \<and> tk_Status t = ''created'' \<and> tk_Status t2 = ''exists'' \<and>
          tk_Score t2 = tk_Score t \<and> tk_Segment t2 = tk_Segment t \<and> tk_Rank t2 = tk_Rank t)"
proof -
  let ?ev = "qc_EventID (st_cfg s)" and ?sh = "er_Shard req" and ?t = "er_TokenID req"
  let ?q = "Queue ?ev ?sh" and ?u = "User ?ev ?sh ?t" and ?ttl = "Milliseconds (qc_UserTTL (st_cfg s))"
  let ?body = "\<lambda>c s lot. enqueue_lua ?q (Seq ?ev ?sh) ?u ?t ?sh (UnixMilli (c 2)) (milliOrZero (LotteryEnd s))
    lot LotteryBand (er_FPHash req) (er_IPPrefix req) ?ttl"
  obtain lot lot2 where lot: "lotteryRank (Some b) = Inr lot" "lotteryRank (Some b2) = Inr lot2"
    by (auto simp: lotteryRank_def)
  have ttl: "0 < ?ttl"
    using Milliseconds_mono [of 1000000 "qc_UserTTL (st_cfg s)"] assms(3) Milliseconds_scale [of 1] by simp
  obtain s1 S where reg: "registerShard Delivered clk ?sh (s, r) = (None, s1, r\<lparr>sets := S\<rparr>)"
    "st_cfg s1 = st_cfg s" by (rule registerShard_delivered)
  let ?r1 = "r\<lparr>sets := S\<rparr>"
  have no: "hget ?r1 ?u u_state = None" using assms(2) by (simp add: hget_def user_get_def)
  obtain sc seg r2 where e: "?body clk s1 lot ?r1 =
      (Inr [LStr ''created'', LInt (rank_reply (zsets r2 ?q) ?t), LInt (zcard (zsets r2 ?q)), LInt sc, LStr seg], r2)"
    and h: "hget r2 ?u u_state = Some ''waiting''" "hget r2 ?u u_orig_rank = Some sc"
      "hget r2 ?u u_segment = Some seg" "loaded r2 = loaded ?r1"
    by (rule enqueue_created [OF no ttl, of ?q "Seq ?ev ?sh" ?t ?sh "UnixMilli (clk 2)"
        "milliOrZero (LotteryEnd s1)" lot LotteryBand "er_FPHash req" "er_IPPrefix req"])
  obtain s2 S2 where reg2: "registerShard Delivered clk2 ?sh (s1, r2) = (None, s2, r2\<lparr>sets := S2\<rparr>)"
    "st_cfg s2 = st_cfg s1" by (rule registerShard_delivered)
  let ?r3 = "r2\<lparr>sets := S2\<rparr>"
  have e2: "fst (?body clk2 s2 lot2 ?r3) = Inr [LStr ''exists'', LInt (rank_reply (zsets r2 ?q) ?t),
      LInt (zcard (zsets r2 ?q)), LInt sc, LStr seg]"
    using h enqueue_exists [of ?r3 ?u sc seg] by (simp add: hget_def user_get_def)
  have g: "link1 good_net = Delivered" by (simp add: good_net_def)
  have ld: "''enqueue.lua'' \<in> loaded ?r1" "''enqueue.lua'' \<in> loaded ?r3" using assms(4) h(4) by simp_all
  have e1: "fst (?body clk s1 lot ?r1) = Inr [LStr ''created'', LInt (rank_reply (zsets r2 ?q) ?t),
      LInt (zcard (zsets r2 ?q)), LInt sc, LStr seg]" by (simp only: e fst_conv)
  note calls = call_loaded(2) [OF ld(1) assms(5), of 5 "?body clk s1 lot"]
    call_loaded(1) [OF ld(1) g, of "?body clk s1 lot" _ 5, OF e1]
    call_loaded(1) [OF ld(2) g, of "?body clk2 s2 lot2" _ 5, OF e2]
  have "Enqueue lost Delivered (Some b) clk req (s, r) = (Inl (ErrRedis Network), s1, r2)"
    unfolding Enqueue_def assms(1) option.case reg(1) prod.case lot sum.case Let_def reg(2) calls(1) e snd_conv ..
  moreover have "fst (Enqueue good_net Delivered (Some b) clk req (s, r)) =
      Inr \<lparr>tk_Status = ''created'', tk_Shard = ?sh, tk_Rank = rank_reply (zsets r2 ?q) ?t,
        tk_Size = zcard (zsets r2 ?q), tk_Score = sc, tk_Segment = seg\<rparr>"
    unfolding Enqueue_def assms(1) option.case reg(1) prod.case lot sum.case Let_def reg(2) calls(2)
    by (simp add: reply_def asString_def asInt64_def)
  moreover have "fst (Enqueue good_net Delivered (Some b2) clk2 req (s1, r2)) =
      Inr \<lparr>tk_Status = ''exists'', tk_Shard = ?sh, tk_Rank = rank_reply (zsets r2 ?q) ?t,
        tk_Size = zcard (zsets r2 ?q), tk_Score = sc, tk_Segment = seg\<rparr>"
    unfolding Enqueue_def assms(1) option.case reg2(1) prod.case lot sum.case Let_def reg2(2) reg(2) calls(3)
    by (simp add: reply_def asString_def asInt64_def)
  ultimately show ?thesis by (auto simp: Let_def split: prod.splits)
qed

definition demo_cfg :: QConfig where
  "demo_cfg = \<lparr>qc_EventID = ''ev'', qc_OpenAt = None, qc_LotteryWindow = 0,
    qc_UserTTL = 1000000000000, qc_HeartbeatInterval = 5000000000, qc_MissedHeartbeats = 3,
    qc_EvictGrace = 30000000000, qc_EvictedRetain = 600000000000, qc_SweepBatch = 1\<rparr>"

definition demo_store :: Store where
  "demo_store = \<lparr>st_cfg = demo_cfg, st_registered = Map.empty\<rparr>"

definition demo_request :: "token \<Rightarrow> EnqueueRequest" where
  "demo_request t = \<lparr>er_Shard = ''s0000'', er_TokenID = t, er_FPHash = ''fp'', er_IPPrefix = ''10.0.0.0/24''\<rparr>"

definition lossy :: net where
  "lossy = \<lparr>link1 = ReplyLost, link_load = Delivered, link2 = Delivered\<rparr>"

theorem Enqueue_retry_witness:
  "\<exists>t2. fst (Enqueue good_net Delivered (Some ''87654321'') (\<lambda>_. 9000000)
      (demo_request ''tok'')
      (snd (Enqueue lossy Delivered (Some ''12345678'') (\<lambda>_. 5000000) (demo_request ''tok'')
        (demo_store, empty_redis\<lparr>loaded := {''enqueue.lua''}\<rparr>)))) = Inr t2 \<and> tk_Status t2 = ''exists''"
proof -
  have c: "check (er_Shard (demo_request ''tok'')) (er_TokenID (demo_request ''tok'')) = None" by code_simp
  from Enqueue_retry [OF c, of "empty_redis\<lparr>loaded := {''enqueue.lua''}\<rparr>" demo_store lossy "''12345678''"
      "\<lambda>_. 5000000" "''87654321''" "\<lambda>_. 9000000"]
  show ?thesis
    by (auto simp: Let_def lossy_def user_get_def empty_redis_def demo_store_def demo_cfg_def split: prod.splits)
qed

lemma EvalSha_once:
  "case EvalSha l sc (r\<lparr>loaded := L\<rparr>) of
      (Inl e, r') \<Rightarrow> (\<exists>L. r' = r\<lparr>loaded := L\<rparr> \<or> r' = snd (script_body sc (r\<lparr>loaded := L\<rparr>)))
    | (Inr v, r') \<Rightarrow> (\<exists>L. script_body sc (r\<lparr>loaded := L\<rparr>) = (Inr v, r'))"
  by (cases "script_body sc (r\<lparr>loaded := L\<rparr>)"; cases "fst (script_body sc (r\<lparr>loaded := L\<rparr>))"; cases l)
    (auto simp: EvalSha_def evalsha_server_def intro!: exI [of _ L])

lemma EvalSha_NoScript: "EvalSha l sc r = (Inl NoScript, r') \<Longrightarrow> r' = r"
  by (cases l) (auto simp: EvalSha_def evalsha_server_def split: if_splits prod.splits sum.splits)

lemma Run_once:
  "case Run n sc r of
      (Inl e, r') \<Rightarrow> (\<exists>L. r' = r\<lparr>loaded := L\<rparr> \<or> r' = snd (script_body sc (r\<lparr>loaded := L\<rparr>)))
    | (Inr v, r') \<Rightarrow> (\<exists>L. script_body sc (r\<lparr>loaded := L\<rparr>) = (Inr v, r'))"
proof (cases "fst (EvalSha (link1 n) sc r) = Inl NoScript")
  case True
  then have e: "EvalSha (link1 n) sc r = (Inl NoScript, r)"
    using EvalSha_NoScript by (cases "EvalSha (link1 n) sc r") auto
  show ?thesis
    using EvalSha_once [where l = "link2 n" and sc = sc and r = r and L = "insert (script_sha sc) (loaded r)"]
    by (cases "link_load n")
      (auto simp: Run_def e isNoScript_def ScriptLoad_def Let_def intro: exI [of _ "loaded r"])
next
  case False
  then show ?thesis
    using EvalSha_once [where l = "link1 n" and sc = sc and r = r and L = "loaded r"]
    by (cases "EvalSha (link1 n) sc r"; cases "fst (EvalSha (link1 n) sc r)")
      (auto simp: Run_def isNoScript_def)
qed

lemma Run_connected:
  "Run good_net sc r = (case script_body sc (r\<lparr>loaded := insert (script_sha sc) (loaded r)\<rparr>) of
     (Inl e, r') \<Rightarrow> (Inl (ScriptError e), r') | (Inr v, r') \<Rightarrow> (Inr v, r'))"
proof (cases "script_sha sc \<in> loaded r")
  case True
  then have "r\<lparr>loaded := insert (script_sha sc) (loaded r)\<rparr> = r" by (simp add: insert_absorb)
  with True show ?thesis
    by (cases "script_body sc r"; cases "fst (script_body sc r)")
      (auto simp: Run_def good_net_def EvalSha_def evalsha_server_def isNoScript_def)
next
  case False
  let ?r2 = "r\<lparr>loaded := insert (script_sha sc) (loaded r)\<rparr>"
  from False show ?thesis
    by (cases "script_body sc ?r2"; cases "fst (script_body sc ?r2)")
      (auto simp: Run_def good_net_def EvalSha_def evalsha_server_def isNoScript_def ScriptLoad_def Let_def)
qed

lemma call_once:
  assumes "call n name want body r = (Inr vals, r')"
  obtains L where "body (r\<lparr>loaded := L\<rparr>) = (Inr vals, r')" "length vals = want"
  using assms Run_once [where n = n and sc = "NewScript name body" and r = r]
  by (auto simp: call_def NewScript_def reply_def split: prod.splits sum.splits if_splits)

text \<open>
  \<open>Run\<close> executes a script at most once: whatever the network does to the calls, the
  store afterwards is the one before or the one after a single execution of the script body
  (up to the script cache), and a reply without error is the reply of exactly one execution.
  When nothing is lost, the reply arrives, also from a server that has lost its script cache.
\<close>

theorem Run_at_most_once:
  "(case Run n sc r of
      (Inl e, r') \<Rightarrow> (\<exists>L. r' = r\<lparr>loaded := L\<rparr> \<or> r' = snd (script_body sc (r\<lparr>loaded := L\<rparr>)))
    | (Inr v, r') \<Rightarrow> (\<exists>L. script_body sc (r\<lparr>loaded := L\<rparr>) = (Inr v, r'))) \<and>
    (n = good_net \<longrightarrow>
       fst (Run n sc r) = (case fst (script_body sc (r\<lparr>loaded := insert (script_sha sc) (loaded r)\<rparr>)) of
         Inl e \<Rightarrow> Inl (ScriptError e) | Inr v \<Rightarrow> Inr v))"
  using Run_once [where n = n and sc = sc and r = r] Run_connected [where sc = sc and r = r]
  by (auto split: prod.splits sum.splits)

definition demo_script :: Script where
  "demo_script = NewScript ''redeem.lua'' (redeem_lua ''entry:x'' ''user:x'' ''a'' 5)"

theorem Run_at_most_once_witness:
  "fst (Run good_net demo_script empty_redis) = Inr [LStr ''missing'', LStr '''']"
  using Run_at_most_once [where n = good_net and sc = demo_script and r = empty_redis]
  by (simp add: demo_script_def NewScript_def redeem_lua_def string_get_def empty_redis_def)

text \<open>
  The waiting time shown is never shorter than what the gates still demand, and it is
  monotone: one place further back or a lower admission rate never shortens it, in spite of
  the rounding of floating-point division.
\<close>

theorem EstimateWaitAt_honest:
  assumes "0 \<le> sn_Rank s" "0 < EstimateWait s rate"
  shows "EstimateWait s rate \<le> EstimateWaitAt s now rate g \<and>
    (\<forall>t. g_AdmitOpensAt g = Some t \<longrightarrow> t - now + EstimateWait s rate \<le> EstimateWaitAt s now rate g) \<and>
    (\<forall>t. 0 < g_MinDwell g \<and> ObservedFrom s = Some t \<longrightarrow> g_MinDwell g - (now - t) \<le> EstimateWaitAt s now rate g) \<and>
    (\<forall>s' rate'. sn_Rank s \<le> sn_Rank s' \<and> 0 < rate' \<and> rate' \<le> rate \<longrightarrow> EstimateWait s rate \<le> EstimateWait s' rate')"
  using assms(2) EstimateWait_mono [OF assms(1)]
  by (auto simp: EstimateWaitAt_def Let_def split: option.splits)

definition demo_snapshot :: Snapshot where
  "demo_snapshot = \<lparr>sn_Status = ''waiting'', sn_Shard = ''s0000'', sn_Rank = 9, sn_Size = 20,
    sn_HoldRank = - 1, sn_HoldSize = 0, sn_OrigRank = 12, sn_Segment = ''fifo'',
    sn_JoinedAt = Some 0, sn_LastSeen = Some 0, sn_BotScore = 0, sn_Rechallenges = 0,
    sn_ObserveFrom = None\<rparr>"

theorem EstimateWaitAt_honest_witness:
  "EstimateWait demo_snapshot 60 = 10000000000 \<and>
    10000000000 \<le> EstimateWaitAt demo_snapshot 5000000000 60
      \<lparr>g_AdmitOpensAt = None, g_MinDwell = 20000000000\<rparr>"
proof -
  have w: "EstimateWait demo_snapshot 60 = 10000000000" by code_simp
  from EstimateWaitAt_honest [of demo_snapshot 60 5000000000 "\<lparr>g_AdmitOpensAt = None, g_MinDwell = 20000000000\<rparr>"] w
  show ?thesis by (simp add: demo_snapshot_def)
qed

text \<open>
  A lap of the sweeper can miss users: the cursor moves on by the number of members
  scanned, although removals shift the ranks of those behind.  Here a ghost is removed by the
  first of two sweeps, and the second ends the lap without ever having looked at \<open>b\<close>, who is
  as stale as \<open>c\<close>.
\<close>

theorem sweep_lap_misses_a_user:
  "let r0 = snd (exec ''ev'' ''s0000'' (Tick 10)
              (run ''ev'' ''s0000'' [Enqueue_op ''a'' 1 0 0 LotteryBand ''f'' ''i'' 10,
                Enqueue_op ''b'' 1 0 0 LotteryBand ''f'' ''i'' 1000000,
                Enqueue_op ''c'' 1 0 0 LotteryBand ''f'' ''i'' 1000000] empty_redis));
      (res1, w1) = Sweep good_net 40000000000 ''s0000'' 0 (demo_store, r0);
      next1 = (case res1 of Inr x \<Rightarrow> sr_NextOffset x);
      (res2, w2) = Sweep good_net 40000000000 ''s0000'' next1 w1;
      next2 = (case res2 of Inr x \<Rightarrow> sr_NextOffset x);
      r2 = snd w2
    in next1 = 1 \<and> next2 = 0 \<and>
       zmembers (zsets r2 (Queue ''ev'' ''s0000'')) = {''b'', ''c''} \<and>
       hget r2 (User ''ev'' ''s0000'' ''c'') u_state = Some ''evicting'' \<and>
       hget r2 (User ''ev'' ''s0000'' ''b'') u_state = Some ''waiting''"
  by code_simp

end
