(* ===== verification/AdmissionStore.thy ===== *)
theory AdmissionStore
  imports QueueStore
begin

text \<open>
  The Go side of admission control, store and circuit breaker
  (\<open>src/internal/admission/admission.go\<close>, \<open>src/internal/admission/breaker.go\<close>): refilling a
  shard's budget, admitting, burning an entry ticket; the breaker as a state machine over the
  successes and failures it is told, and the health check that feeds it.
\<close>

section \<open>The store\<close>

datatype admission_error =
    ErrAdmissionEvent | ErrAdmissionToken | ErrAdmissionReply | ErrAdmissionShard shard_error
  | ErrAdmissionRedis redis_error | ErrAdmissionQueue queue_error

record AConfig =
  ac_EventID :: string
  ac_RatePerMin :: int
  ac_Interval :: duration
  ac_AfterLottery :: bool
  ac_OpenAt :: "gotime option"
  ac_LotteryWindow :: duration
  ac_MinDwell :: duration
  ac_MinBeats :: int
  ac_MaxBudgetPerShard :: int
  ac_BackpressureMin :: float64
  ac_BreakerFailures :: int
  ac_BreakerCooldown :: duration
  ac_EntryTTL :: duration
  ac_UserTTL :: duration

definition budgetTTLFactor :: int where "budgetTTLFactor = 4"

definition NewStore :: "AConfig \<Rightarrow> admission_error + AConfig" where
  "NewStore cfg = (if ac_EventID cfg = '''' then Inl ErrAdmissionEvent else Inr cfg)"

text \<open>The package's own decoders: a number must be a number.\<close>

definition admission_asInt64 :: "lval \<Rightarrow> int" where
  "admission_asInt64 v = (case v of LInt n \<Rightarrow> n | LStr _ \<Rightarrow> - 1)"

definition admission_reply :: "lval list \<Rightarrow> nat \<Rightarrow> admission_error + lval list" where
  "admission_reply v want = (if length v \<noteq> want then Inl ErrAdmissionReply else Inr v)"

definition admission_call :: "net \<Rightarrow> string \<Rightarrow> nat \<Rightarrow> script \<Rightarrow> redis \<Rightarrow>
    (admission_error + lval list) \<times> redis" where
  "admission_call n name want body r =
    (case Run n (NewScript name body) r of
       (Inl e, r') \<Rightarrow> (Inl (ErrAdmissionRedis e), r')
     | (Inr v, r') \<Rightarrow> (admission_reply v want, r'))"

record Budget_state =
  bg_Shard :: string
  bg_Budget :: int
  bg_Waiting :: int

definition Refill :: "net \<Rightarrow> AConfig \<Rightarrow> string \<Rightarrow> int \<Rightarrow> redis \<Rightarrow> (admission_error + Budget_state) \<times> redis" where
  "Refill n s shardID grant r =
    (case Validate shardID of
       Some e \<Rightarrow> (Inl (ErrAdmissionShard e), r)
     | None \<Rightarrow>
         let ev = ac_EventID s
         in case admission_call n ''refill_budget.lua'' 2
              (refill_budget_lua (Budget ev shardID) (Queue ev shardID) grant (ac_MaxBudgetPerShard s)
                 (Milliseconds (ac_Interval s * budgetTTLFactor))) r of
            (Inl e, r') \<Rightarrow> (Inl e, r')
          | (Inr vals, r') \<Rightarrow>
              (Inr \<lparr>bg_Shard = shardID, bg_Budget = admission_asInt64 (vals ! 0),
                    bg_Waiting = admission_asInt64 (vals ! 1)\<rparr>, r'))"

record Result =
  rs_Status :: string
  rs_Rank :: int
  rs_Budget :: int
  rs_JTI :: string
  rs_Waited :: duration

definition Admit :: "net \<Rightarrow> gotime \<Rightarrow> AConfig \<Rightarrow> string \<Rightarrow> token \<Rightarrow> string \<Rightarrow> redis \<Rightarrow>
    (admission_error + Result) \<times> redis" where
  "Admit n now s shardID tokenID jti r =
    (if tokenID = '''' \<or> jti = '''' then (Inl ErrAdmissionToken, r)
     else case Validate shardID of
       Some e \<Rightarrow> (Inl (ErrAdmissionShard e), r)
     | None \<Rightarrow>
         let ev = ac_EventID s
         in case admission_call n ''admit.lua'' 5
              (admit_lua (Queue ev shardID) (Budget ev shardID) (User ev shardID tokenID) tokenID jti
                 (UnixMilli now) (EntryPrefix ev shardID) (Milliseconds (ac_EntryTTL s))
                 (Milliseconds (ac_UserTTL s)) (Milliseconds (ac_MinDwell s)) (ac_MinBeats s)) r of
            (Inl e, r') \<Rightarrow> (Inl e, r')
          | (Inr vals, r') \<Rightarrow>
              let ms = admission_asInt64 (vals ! 4)
              in (Inr \<lparr>rs_Status = asString (vals ! 0), rs_Rank = admission_asInt64 (vals ! 1),
                       rs_Budget = admission_asInt64 (vals ! 2), rs_JTI = asString (vals ! 3),
                       rs_Waited = (if ms \<ge> 0 then ms * 1000000 else 0)\<rparr>, r'))"

definition Burn :: "net \<Rightarrow> gotime \<Rightarrow> AConfig \<Rightarrow> string \<Rightarrow> string \<Rightarrow> token \<Rightarrow> redis \<Rightarrow>
    (admission_error + string) \<times> redis" where
  "Burn n now s shardID jti tokenID r =
    (if tokenID = '''' \<or> jti = '''' then (Inl ErrAdmissionToken, r)
     else case Validate shardID of
       Some e \<Rightarrow> (Inl (ErrAdmissionShard e), r)
     | None \<Rightarrow>
         let ev = ac_EventID s
         in case admission_call n ''redeem.lua'' 2
              (redeem_lua (Entry ev shardID jti) (User ev shardID tokenID) tokenID (UnixMilli now)) r of
            (Inl e, r') \<Rightarrow> (Inl e, r')
          | (Inr vals, r') \<Rightarrow> (Inr (asString (vals ! 0)), r'))"

section \<open>The circuit breaker\<close>

datatype BreakerState = BreakerClosed | BreakerOpen | BreakerHalfOpen

record Breaker =
  b_state :: BreakerState
  b_failures :: int
  b_threshold :: int
  b_cooldown :: duration
  b_openedAt :: gotime

text \<open>Go's zero time, year 1, in nanoseconds since the Unix epoch.\<close>

definition zero_time :: gotime where "zero_time = - 62135596800 * 1000000000"

definition NewBreaker :: "int \<Rightarrow> duration \<Rightarrow> Breaker" where
  "NewBreaker threshold cooldown =
    \<lparr>b_state = BreakerClosed, b_failures = 0, b_threshold = (if threshold \<le> 0 then 1 else threshold),
     b_cooldown = cooldown, b_openedAt = zero_time\<rparr>"

definition State :: "gotime \<Rightarrow> Breaker \<Rightarrow> BreakerState \<times> Breaker" where
  "State now b =
    (let b' = (if b_state b = BreakerOpen \<and> now - b_openedAt b \<ge> b_cooldown b
               then b\<lparr>b_state := BreakerHalfOpen\<rparr> else b)
     in (b_state b', b'))"

definition Success :: "Breaker \<Rightarrow> Breaker" where
  "Success b = b\<lparr>b_failures := 0, b_state := BreakerClosed\<rparr>"

definition Failure :: "gotime \<Rightarrow> Breaker \<Rightarrow> Breaker" where
  "Failure now b =
    (let b' = b\<lparr>b_failures := b_failures b + 1\<rparr>
     in if b_state b' = BreakerHalfOpen \<or> b_failures b' \<ge> b_threshold b'
        then b'\<lparr>b_state := BreakerOpen, b_openedAt := now\<rparr> else b')"

text \<open>
  The health check: what the HTTP client reports (an error, or a status) and how long it took.
\<close>

datatype HealthChecker = NoopHealth | HTTPHealth string duration

datatype http_outcome = DoError duration | HTTPStatus int duration

definition NewHTTPHealth :: "string \<Rightarrow> duration \<Rightarrow> HealthChecker" where
  "NewHTTPHealth url timeout = (if url = '''' then NoopHealth else HTTPHealth url timeout)"

definition Health_Check :: "HealthChecker \<Rightarrow> http_outcome \<Rightarrow> duration \<times> bool" where
  "Health_Check h out =
    (case h of
       NoopHealth \<Rightarrow> (0, True)
     | HTTPHealth url timeout \<Rightarrow>
         (case out of
            DoError d \<Rightarrow> (d, False)
          | HTTPStatus code d \<Rightarrow> (d, code < 500)))"

subsection \<open>The breaker as a state machine\<close>

text \<open>What happens to a breaker, in order: its state is read, or a check is reported.\<close>

datatype breaker_event = ReadState gotime | Succeeded | Failed gotime

fun breaker_step :: "breaker_event \<Rightarrow> Breaker \<Rightarrow> Breaker" where
  "breaker_step (ReadState now) b = snd (State now b)"
| "breaker_step Succeeded b = Success b"
| "breaker_step (Failed now) b = Failure now b"

definition breaker_run :: "breaker_event list \<Rightarrow> Breaker \<Rightarrow> Breaker" where
  "breaker_run es b = fold breaker_step es b"

text \<open>Failures since the last success, most recent event last.\<close>

fun trailing_failures :: "breaker_event list \<Rightarrow> int" where
  "trailing_failures [] = 0"
| "trailing_failures (Failed t # es) =
    (if list_all (\<lambda>e. e \<noteq> Succeeded) es then 1 + trailing_failures es else trailing_failures es)"
| "trailing_failures (e # es) = trailing_failures es"

definition breaker_inv :: "Breaker \<Rightarrow> bool" where
  "breaker_inv b \<longleftrightarrow> 0 < b_threshold b \<and> 0 \<le> b_failures b \<and>
    (b_state b = BreakerClosed \<longleftrightarrow> b_failures b < b_threshold b)"

lemma breaker_inv_New: "breaker_inv (NewBreaker threshold cooldown)"
  by (simp add: breaker_inv_def NewBreaker_def)

lemma breaker_inv_step: "breaker_inv b \<Longrightarrow> breaker_inv (breaker_step e b)"
  by (cases e; cases "b_state b")
    (auto simp: breaker_inv_def State_def Success_def Failure_def Let_def)

lemma breaker_run_snoc: "breaker_run (es @ [e]) b = breaker_step e (breaker_run es b)"
  by (simp add: breaker_run_def)

lemma breaker_run_inv: "breaker_inv b \<Longrightarrow> breaker_inv (breaker_run es b)"
  by (induction es rule: rev_induct) (simp_all add: breaker_run_def breaker_inv_step)

lemma trailing_snoc:
  "trailing_failures (es @ [Failed t]) = trailing_failures es + 1"
  "trailing_failures (es @ [Succeeded]) = 0"
  "trailing_failures (es @ [ReadState t]) = trailing_failures es"
  by (induction es rule: trailing_failures.induct) auto

lemma breaker_failures:
  "b_failures (breaker_run es (NewBreaker th cd)) = trailing_failures es \<and>
   b_threshold (breaker_run es (NewBreaker th cd)) = (if th \<le> 0 then 1 else th) \<and>
   b_cooldown (breaker_run es (NewBreaker th cd)) = cd"
proof (induction es rule: rev_induct)
  case Nil
  then show ?case by (simp add: breaker_run_def NewBreaker_def)
next
  case (snoc e es)
  then show ?case
    by (cases e) (auto simp: breaker_run_snoc trailing_snoc State_def Success_def Failure_def Let_def)
qed

end
