(* ===== verification/Controller.thy ===== *)
theory Controller
  imports AdmissionStore
begin

text \<open>
  The admission controller (\<open>src/internal/admission/controller.go\<close>): from the health of the
  shop to a throttle factor, from the factor to the number of people of this cycle, from that
  number to the budgets of the shards, by the largest-remainder method.

  The controller's breaker is threaded through; \<open>clk i\<close> is the \<open>i\<close>-th reading of the
  breaker's clock.  Floating-point operations round as \<open>Float64\<close> says.
\<close>

section \<open>How much\<close>

text \<open>\<open>time.Duration.Minutes\<close> adds the whole minutes and the rest as floats.\<close>

definition Minutes :: "duration \<Rightarrow> float64" where
  "Minutes d = fadd (float_of (quot d Minute)) (fdiv (float_of (d - quot d Minute * Minute)) (60 * 10 ^ 9))"

definition perCycle :: "AConfig \<Rightarrow> float64 \<Rightarrow> int" where
  "perCycle cfg factor =
    (let perMin = fmul (float_of (ac_RatePerMin cfg)) factor;
         n = fmul perMin (Minutes (ac_Interval cfg))
     in if n \<le> 0 then 0 else int64_of (math_Round n))"

definition gateRemaining :: "AConfig \<Rightarrow> gotime \<Rightarrow> duration \<times> bool" where
  "gateRemaining cfg now =
    (case ac_OpenAt cfg of
       None \<Rightarrow> (0, False)
     | Some open_at \<Rightarrow>
         if \<not> ac_AfterLottery cfg then (0, False)
         else let remaining = open_at + ac_LotteryWindow cfg - now
              in if remaining > 0 then (remaining, True) else (0, False))"

definition healthBudget :: "HealthChecker \<Rightarrow> duration" where
  "healthBudget h = (case h of NoopHealth \<Rightarrow> 0 | HTTPHealth url timeout \<Rightarrow> timeout)"

definition latencyFactor :: "AConfig \<Rightarrow> HealthChecker \<Rightarrow> duration \<Rightarrow> float64" where
  "latencyFactor cfg h latency =
    (let budget = healthBudget h
     in if budget \<le> 0 then 1
        else let half = quot budget 2
             in if latency \<le> half then 1
                else if latency \<ge> budget then ac_BackpressureMin cfg
                else let ratio = fdiv (float_of (latency - half)) (float_of (budget - half))
                     in fsub 1 (fmul ratio (fsub 1 (ac_BackpressureMin cfg))))"

definition pressure :: "AConfig \<Rightarrow> HealthChecker \<Rightarrow> http_outcome \<Rightarrow> (nat \<Rightarrow> gotime) \<Rightarrow> Breaker \<Rightarrow>
    float64 \<times> Breaker" where
  "pressure cfg h out clk b =
    (let (state, b0) = State (clk 0) b
     in if state = BreakerOpen then (0, b0)
        else case Health_Check h out of
               (latency, False) \<Rightarrow>
                 let b1 = Failure (clk 1) b0;
                     b2 = snd (State (clk 2) b1);
                     (state3, b3) = State (clk 3) b2
                 in if state3 = BreakerOpen then (0, b3) else (ac_BackpressureMin cfg, b3)
             | (latency, True) \<Rightarrow>
                 let b1 = Success b0
                 in if state = BreakerHalfOpen then (ac_BackpressureMin cfg, b1)
                    else (latencyFactor cfg h latency, b1))"

section \<open>To whom\<close>

definition weights :: "string list \<Rightarrow> int list \<Rightarrow> float64 list" where
  "weights shards waiting =
    map (\<lambda>(sh, n). if IsGreylist sh then 0 else float_of n) (zip shards waiting)"

text \<open>
  \<open>apportion\<close>: the shares of the positive weights are truncated, and what is left goes one by
  one to the largest remainders, ties in the order of the shards, round and round if needed.
\<close>

fun fsum_pos :: "float64 \<Rightarrow> float64 list \<Rightarrow> float64" where
  "fsum_pos acc [] = acc"
| "fsum_pos acc (v # vs) = fsum_pos (if v > 0 then fadd acc v else acc) vs"

definition share :: "int \<Rightarrow> float64 \<Rightarrow> float64 \<Rightarrow> float64" where
  "share tot wsum v = fdiv (fmul (float_of tot) v) wsum"

definition floor_share :: "int \<Rightarrow> float64 \<Rightarrow> float64 \<Rightarrow> int" where
  "floor_share tot wsum v = (if v \<le> 0 then 0 else int64_of (share tot wsum v))"

definition floors :: "int \<Rightarrow> float64 \<Rightarrow> float64 list \<Rightarrow> int list" where
  "floors tot wsum w = map (floor_share tot wsum) w"

definition remainder_of :: "int \<Rightarrow> float64 \<Rightarrow> nat \<times> float64 \<Rightarrow> nat \<times> float64" where
  "remainder_of tot wsum p =
    (let exact = share tot wsum (snd p) in (fst p, fsub exact (float_of (int64_of exact))))"

definition remainders :: "int \<Rightarrow> float64 \<Rightarrow> float64 list \<Rightarrow> (nat \<times> float64) list" where
  "remainders tot wsum w =
    map (remainder_of tot wsum) (filter (\<lambda>(i, v). \<not> v \<le> 0) (zip [0..<length w] w))"

function distribute :: "(nat \<times> float64) list \<Rightarrow> nat \<Rightarrow> int \<Rightarrow> int \<Rightarrow> int list \<Rightarrow> int list" where
  "distribute rems i tot assigned out =
    (if assigned < tot \<and> length rems > 0 then
       let j = fst (rems ! (i mod length rems))
       in distribute rems (i + 1) tot (assigned + 1) (out[j := out ! j + 1])
     else out)"
  by pat_completeness auto
termination by (relation "measure (\<lambda>(rems, i, tot, assigned, out). nat (tot - assigned))") auto

declare distribute.simps [simp del]

definition apportion :: "int \<Rightarrow> float64 list \<Rightarrow> int list" where
  "apportion tot w =
    (if tot \<le> 0 \<or> w = [] then map (\<lambda>_. 0) w
     else let wsum = fsum_pos 0 w
          in if wsum \<le> 0 then map (\<lambda>_. 0) w
             else let out = floors tot wsum w;
                      rems = sort_key (\<lambda>p. - snd p) (remainders tot wsum w)
                  in distribute rems 0 tot (sum_list out) out)"

section \<open>One cycle\<close>

record CycleReport =
  cr_Shards :: int
  cr_Waiting :: int
  cr_Granted :: int
  cr_Factor :: float64
  cr_Breaker :: "BreakerState option"
  cr_Budgets :: "Budget_state list"
  cr_SkipEmpty :: int
  cr_Gated :: bool

definition empty_report :: CycleReport where
  "empty_report = \<lparr>cr_Shards = 0, cr_Waiting = 0, cr_Granted = 0, cr_Factor = 0, cr_Breaker = None,
    cr_Budgets = [], cr_SkipEmpty = 0, cr_Gated = False\<rparr>"

fun refill_shards :: "(string \<Rightarrow> net) \<Rightarrow> AConfig \<Rightarrow> (string \<times> int \<times> int) list \<Rightarrow>
    CycleReport \<times> redis \<Rightarrow> CycleReport \<times> redis" where
  "refill_shards n s [] w = w"
| "refill_shards n s ((sh, waiting, grant) # rest) (rep, r) =
    (let rep = rep\<lparr>cr_Waiting := cr_Waiting rep + waiting\<rparr>
     in if waiting = 0 \<and> grant = 0 then
          refill_shards n s rest (rep\<lparr>cr_SkipEmpty := cr_SkipEmpty rep + 1\<rparr>, r)
        else case Refill (n sh) s sh grant r of
               (Inl _, r') \<Rightarrow> refill_shards n s rest (rep, r')
             | (Inr b, r') \<Rightarrow>
                 refill_shards n s rest
                   (rep\<lparr>cr_Granted := cr_Granted rep + grant, cr_Budgets := cr_Budgets rep @ [b]\<rparr>, r'))"

text \<open>
  The shard source is the queue store.  \<open>now\<close> is the controller's clock, \<open>clk\<close> the breaker's,
  \<open>l1\<close>, \<open>l2\<close> and \<open>n\<close> what the network does to the reads and to each refill.  The elapsed time
  of the report is not modelled.
\<close>

definition Cycle :: "gotime \<Rightarrow> (nat \<Rightarrow> gotime) \<Rightarrow> http_outcome \<Rightarrow> link \<Rightarrow> link \<Rightarrow> (string \<Rightarrow> net) \<Rightarrow>
    AConfig \<Rightarrow> HealthChecker \<Rightarrow> Store \<Rightarrow> Breaker \<times> redis \<Rightarrow>
    ((admission_error + CycleReport) \<times> Breaker \<times> redis)" where
  "Cycle now clk out l1 l2 n cfg h q br =
    (case br of (b, r) \<Rightarrow>
       if snd (gateRemaining cfg now) then
         let (st, b') = State (clk 0) b
         in (Inr (empty_report\<lparr>cr_Gated := True, cr_Breaker := Some st\<rparr>), b', r)
       else
         let (factor, b1) = pressure cfg h out clk b;
             (st, b2) = State (clk 4) b1;
             rep = empty_report\<lparr>cr_Factor := factor, cr_Breaker := Some st\<rparr>
         in case Shards_list l1 q r of
              Inl e \<Rightarrow> (Inl (ErrAdmissionQueue e), b2, r)
            | Inr shards \<Rightarrow>
                let rep = rep\<lparr>cr_Shards := int (length shards)\<rparr>
                in if shards = [] then (Inr rep, b2, r)
                   else case Sizes l2 q shards r of
                          Inl e \<Rightarrow> (Inl (ErrAdmissionQueue e), b2, r)
                        | Inr waiting \<Rightarrow>
                            let tot = perCycle cfg factor;
                                grants = apportion tot (weights shards waiting)
                            in (case refill_shards n cfg (zip shards (zip waiting grants)) (rep, r) of
                                  (rep', r') \<Rightarrow> (Inr rep', b2, r')))"

section \<open>The largest-remainder method gives out everything\<close>

lemma distribute_length [simp]: "length (distribute rems i tot assigned out) = length out"
proof (induction rems i tot assigned out rule: distribute.induct)
  case (1 rems i tot assigned out)
  then show ?case by (subst distribute.simps) (simp add: Let_def)
qed

lemma sum_list_bump: "j < length out \<Longrightarrow> sum_list (out[j := out ! j + 1]) = sum_list out + (1::int)"
  by (induction out arbitrary: j) (auto split: nat.split)

lemma distribute_sum:
  assumes "rems \<noteq> []"
  shows "assigned = sum_list out \<Longrightarrow> \<forall>p \<in> set rems. fst p < length out \<Longrightarrow>
    sum_list (distribute rems i tot assigned out) = max tot assigned"
  using assms
proof (induction rems i tot assigned out rule: distribute.induct)
  case (1 rems i tot assigned out)
  show ?case
  proof (cases "assigned < tot")
    case True
    let ?j = "fst (rems ! (i mod length rems))"
    have mem: "rems ! (i mod length rems) \<in> set rems" using "1.prems"(3) by (intro nth_mem) simp
    then have "?j < length out" using "1.prems"(2) by blast
    then have "sum_list (out[?j := out ! ?j + 1]) = assigned + 1"
      using "1.prems"(1) by (simp add: sum_list_bump)
    with "1.IH" True "1.prems" show ?thesis
      by (subst distribute.simps) (simp add: Let_def max_def)
  next
    case False
    with "1.prems" show ?thesis by (subst distribute.simps) simp
  qed
qed

lemma distribute_ge:
  "k < length out \<Longrightarrow> out ! k \<le> distribute rems i tot assigned out ! k"
proof (induction rems i tot assigned out rule: distribute.induct)
  case (1 rems i tot assigned out)
  show ?case
  proof (cases "assigned < tot \<and> length rems > 0")
    case True
    let ?j = "fst (rems ! (i mod length rems))"
    have "out ! k \<le> out[?j := out ! ?j + 1] ! k" using "1.prems" by (cases "?j = k") auto
    also have "\<dots> \<le> distribute rems (i + 1) tot (assigned + 1) (out[?j := out ! ?j + 1]) ! k"
      using "1.IH" True "1.prems" by simp
    finally show ?thesis using True by (subst distribute.simps) (simp add: Let_def)
  next
    case False
    then show ?thesis by (subst distribute.simps) (simp only: if_False order_refl)
  qed
qed

lemma distribute_outside:
  "k < length out \<Longrightarrow> k \<notin> fst ` set rems \<Longrightarrow> distribute rems i tot assigned out ! k = out ! k"
proof (induction rems i tot assigned out rule: distribute.induct)
  case (1 rems i tot assigned out)
  show ?case
  proof (cases "assigned < tot \<and> length rems > 0")
    case True
    let ?p = "rems ! (i mod length rems)"
    have "?p \<in> set rems" using True by (intro nth_mem) simp
    with "1.prems"(2) have "fst ?p \<noteq> k" by blast
    with "1.IH" True "1.prems" show ?thesis by (subst distribute.simps) (simp add: Let_def)
  next
    case False
    then show ?thesis by (subst distribute.simps) (simp only: if_False)
  qed
qed

text \<open>Waiting numbers are exact as floats, and so is their sum.\<close>

definition counts_ok :: "int list \<Rightarrow> bool" where
  "counts_ok ns \<longleftrightarrow> list_all (\<lambda>n. 0 \<le> n) ns \<and> sum_list ns \<le> 2 ^ 53"

lemma counts_elem: "counts_ok ns \<Longrightarrow> n \<in> set ns \<Longrightarrow> 0 \<le> n \<and> n \<le> 2 ^ 53"
proof -
  assume ok: "counts_ok ns" and n: "n \<in> set ns"
  have "\<And>x. x \<in> set ns \<Longrightarrow> 0 \<le> x" using ok by (simp add: counts_ok_def list_all_iff)
  with n have "n \<le> sum_list ns" by (intro member_le_sum_list) auto
  with ok n show ?thesis by (auto simp: counts_ok_def list_all_iff)
qed

lemma fsum_pos_ints:
  assumes "0 \<le> a" "list_all (\<lambda>n. 0 \<le> n) ns" "a + sum_list ns \<le> 2 ^ 53"
  shows "fsum_pos (of_int a) (map of_int ns) = of_int (a + sum_list ns)"
  using assms
proof (induction ns arbitrary: a)
  case (Cons n ns)
  have rest: "0 \<le> sum_list ns" using Cons.prems(2) by (intro sum_list_nonneg) (auto simp: list_all_iff)
  have "fadd (of_int a) (of_int n) = of_int (a + n)"
    using rnd_of_int [of "a + n"] Cons.prems rest by (simp add: fadd_def)
  with Cons.IH [of "a + n"] Cons.prems show ?case by (cases "n = 0") (auto simp: add.assoc)
qed simp

lemma share_bounds:
  assumes "0 \<le> T" "T \<le> 2 ^ 50" "0 \<le> n" "n \<le> S" "0 < S"
  shows "0 \<le> share T (of_int S) (of_int n)"
    "share T (of_int S) (of_int n) \<le> of_int T * of_int n / of_int S * ((1 + 1 / 2 ^ 53) * (1 + 1 / 2 ^ 53))"
proof -
  have T: "float_of T = of_int T" using assms by (simp add: float_of_def rnd_of_int)
  let ?p = "of_int T * of_int n :: rat"
  have p: "0 \<le> ?p" using assms by simp
  have m: "0 \<le> rnd ?p" "rnd ?p \<le> ?p * (1 + 1 / 2 ^ 53)" using p rnd_rel(1) fp.nonneg by auto
  have d: "0 \<le> rnd ?p / of_int S" using m assms by simp
  show "0 \<le> share T (of_int S) (of_int n)"
    using d by (simp add: share_def fmul_def fdiv_def T fp.nonneg)
  have "share T (of_int S) (of_int n) \<le> rnd ?p / of_int S * (1 + 1 / 2 ^ 53)"
    using rnd_rel(1) [OF d] by (simp add: share_def fmul_def fdiv_def T)
  also have "\<dots> \<le> ?p * (1 + 1 / 2 ^ 53) / of_int S * (1 + 1 / 2 ^ 53)"
    using m(2) assms by (intro mult_right_mono divide_right_mono) auto
  finally show "share T (of_int S) (of_int n) \<le> of_int T * of_int n / of_int S * ((1 + 1 / 2 ^ 53) * (1 + 1 / 2 ^ 53))"
    by (simp add: mult.assoc)
qed

lemma sum_scaled: "(\<Sum>n\<leftarrow>ns. a * of_int n / b * u) = (\<Sum>n\<leftarrow>ns. of_int n) * (a / b * u)" for a :: rat
  by (induction ns) (simp_all add: algebra_simps add_divide_distrib)

lemma sum_of_ints: "(\<Sum>n\<leftarrow>ns. of_int n) = (of_int (sum_list ns) :: rat)"
  by (induction ns) simp_all

lemma floors_sum:
  assumes "0 \<le> T" "T \<le> 2 ^ 50" "counts_ok ns" "sum_list ns = S" "0 < S"
  shows "sum_list (floors T (of_int S) (map of_int ns)) \<le> T"
proof -
  have el: "0 \<le> n \<and> n \<le> S" if "n \<in> set ns" for n
    using counts_elem [OF assms(3) that] member_le_sum_list [of n ns] assms(3,4) that
    by (auto simp: counts_ok_def list_all_iff)
  let ?u = "(1 + 1 / 2 ^ 53) * (1 + 1 / 2 ^ 53) :: rat"
  have "of_int (sum_list (floors T (of_int S) (map of_int ns))) \<le> (\<Sum>n\<leftarrow>ns. of_int T * of_int n / of_int S * ?u)"
    using el
  proof (induction ns)
    case (Cons n ns)
    have "of_int (if (of_int n :: rat) \<le> 0 then 0 else int64_of (share T (of_int S) (of_int n))) \<le>
        of_int T * of_int n / of_int S * ?u"
    proof (cases "n = 0")
      case False
      have b: "0 \<le> n" "n \<le> S" using Cons.prems by auto
      have "of_int (int64_of (share T (of_int S) (of_int n))) \<le> share T (of_int S) (of_int n)"
        using share_bounds(1) [OF assms(1,2) b assms(5)] by (simp add: int64_of_def)
      with share_bounds(2) [OF assms(1,2) b assms(5)] False b show ?thesis by simp
    qed simp
    with Cons show ?case by (simp add: floors_def floor_share_def)
  qed (simp add: floors_def)
  also have "\<dots> = (\<Sum>n\<leftarrow>ns. of_int n) * (of_int T / of_int S * ?u)"
    by (rule sum_scaled)
  also have "(\<Sum>n\<leftarrow>ns. of_int n) = (of_int S :: rat)"
    using sum_of_ints [of ns] assms(4) by simp
  also have "of_int S * (of_int T / of_int S * ?u) = of_int T * ?u" using assms(5) by simp
  also have "\<dots> < of_int T + 1"
  proof -
    have "(of_int T :: rat) \<le> of_int (2 ^ 50)" using assms(2) by (simp only: of_int_le_iff)
    then show ?thesis by (simp add: field_simps)
  qed
  finally have "(of_int (sum_list (floors T (of_int S) (map of_int ns))) :: rat) < of_int (T + 1)" by simp
  then show ?thesis by (simp only: of_int_less_iff)
qed

lemma remainders_index:
  "p \<in> set (remainders T S w) \<Longrightarrow> fst p < length w \<and> 0 < w ! fst p"
  by (auto simp: remainders_def remainder_of_def Let_def set_zip)

lemma remainders_nonempty:
  assumes "v \<in> set w" "0 < v"
  shows "remainders T S w \<noteq> []"
proof -
  obtain i where "i < length w" "w ! i = v" using assms(1) by (auto simp: in_set_conv_nth)
  then have "(i, v) \<in> set (zip [0..<length w] w)"
    using nth_mem [of i "zip [0..<length w] w"] by simp
  with assms(2) have "filter (\<lambda>(i, v). \<not> v \<le> 0) (zip [0..<length w] w) \<noteq> []"
    unfolding filter_empty_conv by (metis case_prodI not_le)
  then show ?thesis unfolding remainders_def by (simp only: map_is_Nil_conv not_False_eq_True)
qed

lemma length_floors [simp]: "length (floors T S w) = length w"
  by (simp add: floors_def)

lemma apportion_counts:
  assumes "0 \<le> T" "T \<le> 2 ^ 50" "counts_ok ns" "0 < sum_list ns"
  shows "length (apportion T (map of_int ns)) = length ns"
    "sum_list (apportion T (map of_int ns)) = T"
    "i < length ns \<Longrightarrow> ns ! i = 0 \<Longrightarrow> apportion T (map of_int ns) ! i = 0"
    "i < length ns \<Longrightarrow> int64_of (share T (of_int (sum_list ns)) (of_int (ns ! i))) \<le> apportion T (map of_int ns) ! i"
    "i < length ns \<Longrightarrow> 0 \<le> apportion T (map of_int ns) ! i"
proof -
  let ?w = "map of_int ns :: float64 list" and ?S = "sum_list ns"
  let ?out = "floors T (of_int ?S) ?w" and ?rems = "sort_key (\<lambda>p. - snd p) (remainders T (of_int ?S) ?w)"
  have pos: "\<And>n. n \<in> set ns \<Longrightarrow> 0 \<le> n \<and> n \<le> ?S"
    using counts_elem [OF assms(3)] member_le_sum_list [of _ ns] assms(3)
    by (auto simp: counts_ok_def list_all_iff)
  have sum: "fsum_pos 0 ?w = of_int ?S"
    using fsum_pos_ints [of 0 ns] assms(3) by (simp add: counts_ok_def)
  have ne: "ns \<noteq> []" using assms(4) by auto
  have eq: "T = 0 \<or> apportion T ?w = distribute ?rems 0 T (sum_list ?out) ?out"
    using assms(1,4) ne by (auto simp: apportion_def sum Let_def)
  have zero: "apportion T ?w = map (\<lambda>_. 0) ns" if "T = 0" using that by (simp add: apportion_def comp_def)
  show "length (apportion T ?w) = length ns" using eq zero by (metis distribute_length length_floors length_map)
  have "\<exists>n \<in> set ns. 0 < n"
    using assms(4) sum_list_nonpos [of ns] by (meson not_le)
  then obtain n where "n \<in> set ns" "0 < n" by blast
  then have "remainders T (of_int ?S) ?w \<noteq> []" by (intro remainders_nonempty [of "of_int n"]) auto
  then have rems: "?rems \<noteq> []" by (metis set_empty set_sort)
  have idx: "\<forall>p \<in> set ?rems. fst p < length ?out" using remainders_index by fastforce
  have fl: "?out ! i = int64_of (share T (of_int ?S) (of_int (ns ! i)))" if "i < length ns" for i
    using that pos [of "ns ! i"] nth_mem [OF that] by (auto simp: floors_def floor_share_def share_def fmul_def fdiv_def int64_of_def)
  show "sum_list (apportion T ?w) = T"
  proof (cases "T = 0")
    case True
    show ?thesis unfolding zero [OF True] using True by (simp add: map_replicate_const sum_list_replicate)
  next
    case False
    with eq distribute_sum [OF rems refl idx] floors_sum [OF assms(1-3) refl assms(4)] show ?thesis by simp
  qed
  show "int64_of (share T (of_int ?S) (of_int (ns ! i))) \<le> apportion T ?w ! i" if "i < length ns"
    using eq
  proof
    assume "T = 0"
    then show ?thesis using that zero by (simp add: share_def fmul_def fdiv_def float_of_def int64_of_def)
  next
    assume "apportion T ?w = distribute ?rems 0 T (sum_list ?out) ?out"
    with distribute_ge [of i ?out ?rems 0 T "sum_list ?out"] fl [OF that] that show ?thesis by simp
  qed
  moreover have "0 \<le> int64_of (share T (of_int ?S) (of_int (ns ! i)))" if "i < length ns"
    using share_bounds(1) [OF assms(1,2) _ _ assms(4)] pos [OF nth_mem [OF that]] by (intro int64_of_nonneg) simp
  ultimately show "0 \<le> apportion T ?w ! i" if "i < length ns" using that by fastforce
  show "apportion T ?w ! i = 0" if "i < length ns" "ns ! i = 0"
    using eq
  proof
    assume "T = 0"
    then show ?thesis using that zero by simp
  next
    assume e: "apportion T ?w = distribute ?rems 0 T (sum_list ?out) ?out"
    have "i \<notin> fst ` set ?rems" using remainders_index that by fastforce
    from distribute_outside [OF _ this] that fl [OF that(1)] show ?thesis
      by (simp add: e share_def fmul_def fdiv_def int64_of_def)
  qed
qed

section \<open>The throttle factor\<close>

lemma latencyFactor_bounds:
  assumes "0 \<le> ac_BackpressureMin cfg" "ac_BackpressureMin cfg \<le> 1"
  shows "0 \<le> latencyFactor cfg h latency \<and> latencyFactor cfg h latency \<le> 1"
proof -
  let ?m = "ac_BackpressureMin cfg" and ?b = "healthBudget h"
  let ?half = "quot ?b 2" and ?ratio = "fdiv (float_of (latency - quot (healthBudget h) 2)) (float_of (healthBudget h - quot (healthBudget h) 2))"
  show ?thesis
  proof (cases "0 < ?b \<and> ?half < latency \<and> latency < ?b")
    case True
    have "0 \<le> float_of (latency - ?half)" "float_of (latency - ?half) \<le> float_of (?b - ?half)"
      using True by (simp_all add: float_of_nonneg float_of_mono)
    then have r: "0 \<le> ?ratio \<and> ?ratio \<le> 1"
      using fp.div_le_one [of "float_of (latency - ?half)" "float_of (?b - ?half)"]
      by (cases "float_of (?b - ?half) = 0") (auto simp: fdiv_def fp.zero)
    have d: "0 \<le> fsub 1 ?m \<and> fsub 1 ?m \<le> 1"
      using assms by (simp add: fsub_def fp.nonneg fp.le_one)
    then have p: "0 \<le> fmul ?ratio (fsub 1 ?m) \<and> fmul ?ratio (fsub 1 ?m) \<le> 1"
      using r fp.mult_le_one unfolding fmul_def by blast
    then have "0 \<le> fsub 1 (fmul ?ratio (fsub 1 ?m)) \<and> fsub 1 (fmul ?ratio (fsub 1 ?m)) \<le> 1"
      by (simp add: fsub_def fp.nonneg fp.le_one)
    with True show ?thesis by (simp add: latencyFactor_def Let_def)
  next
    case False
    with assms show ?thesis by (auto simp: latencyFactor_def Let_def)
  qed
qed

lemma pressure_bounds:
  assumes "0 \<le> ac_BackpressureMin cfg" "ac_BackpressureMin cfg \<le> 1"
  shows "0 \<le> fst (pressure cfg h out clk b) \<and> fst (pressure cfg h out clk b) \<le> 1"
  using assms latencyFactor_bounds [OF assms]
  by (auto simp: pressure_def Let_def split: prod.split bool.split)

lemma perCycle_mono:
  assumes "0 \<le> ac_RatePerMin cfg" "0 \<le> ac_Interval cfg" "f \<le> f'"
  shows "perCycle cfg f \<le> perCycle cfg f'"
proof -
  have m: "0 \<le> Minutes (ac_Interval cfg)"
  proof -
    have q: "quot (ac_Interval cfg) Minute = ac_Interval cfg div Minute"
      using assms(2) by (cases "ac_Interval cfg = 0") (simp_all add: quot_def Minute_def)
    have "0 \<le> ac_Interval cfg - ac_Interval cfg div Minute * Minute"
      using assms(2) by (simp add: minus_div_mult_eq_mod Minute_def)
    then show ?thesis
      using assms(2) unfolding Minutes_def fadd_def fdiv_def q
      by (intro fp.nonneg add_nonneg_nonneg float_of_nonneg fp.nonneg divide_nonneg_nonneg)
        (simp_all add: pos_imp_zdiv_nonneg_iff Minute_def)
  qed
  have "fmul (float_of (ac_RatePerMin cfg)) f \<le> fmul (float_of (ac_RatePerMin cfg)) f'"
    using assms unfolding fmul_def by (intro fp.mono mult_left_mono float_of_nonneg)
  then have n: "fmul (fmul (float_of (ac_RatePerMin cfg)) f) (Minutes (ac_Interval cfg)) \<le>
      fmul (fmul (float_of (ac_RatePerMin cfg)) f') (Minutes (ac_Interval cfg))"
    using m unfolding fmul_def [of _ "Minutes (ac_Interval cfg)"] by (intro fp.mono mult_right_mono)
  have r: "math_Round x \<le> math_Round y" if "0 < x" "x \<le> y" for x y
    using that by (simp add: math_Round_def floor_mono)
  have "0 \<le> math_Round x" if "0 \<le> x" for x using that by (simp add: math_Round_def)
  with n r show ?thesis
    by (auto simp: perCycle_def Let_def not_le intro!: int64_of_mono int64_of_nonneg)
qed

lemma perCycle_0 [simp]: "perCycle cfg 0 = 0"
  by (simp add: perCycle_def fmul_def fp.zero Let_def)

lemma perCycle_nonneg: "0 \<le> perCycle cfg f"
  by (auto simp: perCycle_def Let_def math_Round_def intro!: int64_of_nonneg)

section \<open>A cycle hands out no more than its total\<close>

lemma refill_shards_granted:
  assumes "\<forall>(sh, waiting, grant) \<in> set work. 0 \<le> grant"
  shows "cr_Granted (fst (refill_shards n s work (rep, r))) \<le> cr_Granted rep + sum_list (map (\<lambda>w. snd (snd w)) work)"
  using assms
proof (induction work arbitrary: rep r)
  case (Cons w work)
  obtain sh waiting grant where w: "w = (sh, waiting, grant)" by (cases w)
  with Cons.prems have g: "0 \<le> grant" "\<forall>(sh, waiting, grant) \<in> set work. 0 \<le> grant" by auto
  show ?case
  proof (cases "Refill (n sh) s sh grant r")
    case (Pair res r')
    have IH: "cr_Granted (fst (refill_shards n s work (rp, r1))) \<le> cr_Granted rp + sum_list (map (\<lambda>w. snd (snd w)) work)"
      for rp r1 by (rule Cons.IH [OF g(2)])
    show ?thesis
      using g(1) IH [of "rep\<lparr>cr_Waiting := cr_Waiting rep + waiting, cr_SkipEmpty := cr_SkipEmpty rep + 1\<rparr>" r]
        IH [of "rep\<lparr>cr_Waiting := cr_Waiting rep + waiting\<rparr>" r']
        IH [of "rep\<lparr>cr_Waiting := cr_Waiting rep + waiting, cr_Granted := cr_Granted rep + grant,
          cr_Budgets := cr_Budgets rep @ [b]\<rparr>" r' for b]
      by (cases res) (auto simp: w Let_def Pair add.assoc intro: order_trans)
  qed
qed simp

lemma sum_take_le: "\<forall>g \<in> set gs. 0 \<le> g \<Longrightarrow> sum_list (take k gs) \<le> sum_list (gs :: int list)"
proof -
  assume "\<forall>g \<in> set gs. 0 \<le> g"
  then have "0 \<le> sum_list (drop k gs)" by (intro sum_list_nonneg) (auto dest: in_set_dropD)
  moreover have "sum_list gs = sum_list (take k gs) + sum_list (drop k gs)"
    by (metis append_take_drop_id sum_list_append)
  ultimately show ?thesis by simp
qed

definition masked :: "string list \<Rightarrow> int list \<Rightarrow> int list" where
  "masked shards waiting = map (\<lambda>(sh, n). if IsGreylist sh then 0 else n) (zip shards waiting)"

lemma weights_masked:
  assumes "counts_ok (masked shards waiting)"
  shows "weights shards waiting = map of_int (masked shards waiting)"
proof -
  have "float_of n = of_int n" if "(sh, n) \<in> set (zip shards waiting)" "\<not> IsGreylist sh" for sh n
  proof -
    have "n \<in> set (masked shards waiting)" using that by (force simp: masked_def)
    with counts_elem [OF assms] show ?thesis by (simp add: float_of_def rnd_of_int)
  qed
  then show ?thesis by (auto simp: weights_def masked_def)
qed

lemma apportion_sum_le:
  assumes "0 \<le> T" "T \<le> 2 ^ 50" "counts_ok ns"
  shows "sum_list (apportion T (map of_int ns)) \<le> T \<and> (\<forall>g \<in> set (apportion T (map of_int ns)). 0 \<le> g) \<and>
    length (apportion T (map of_int ns)) = length ns"
proof (cases "0 < sum_list ns")
  case True
  from apportion_counts [OF assms this] show ?thesis by (auto simp: in_set_conv_nth)
next
  case False
  then have "fsum_pos 0 (map of_int ns) \<le> (0 :: rat)"
    using fsum_pos_ints [of 0 ns] assms(3) by (simp add: counts_ok_def)
  then have "apportion T (map of_int ns) = map (\<lambda>_. 0) (map of_int ns :: float64 list)"
    by (simp add: apportion_def Let_def)
  with assms(1) show ?thesis by (auto simp: map_replicate_const sum_list_replicate)
qed

section \<open>Properties\<close>

text \<open>
  C9. The largest-remainder method loses nothing and invents nothing, in spite of
  floating-point shares: with up to 2^53 people waiting and up to 2^50 places, the grants sum
  to exactly the total, none is negative, a shard without weight (an empty one, or a greylist
  shard) gets nothing, and every shard gets at least the integer part of its share.
\<close>

theorem apportion_exact:
  assumes "0 \<le> T" "T \<le> 2 ^ 50" "counts_ok ns" "0 < sum_list ns"
  shows "let gs = apportion T (map of_int ns)
    in length gs = length ns \<and> sum_list gs = T \<and> (\<forall>g \<in> set gs. 0 \<le> g) \<and>
       (\<forall>i < length ns. (ns ! i = 0 \<longrightarrow> gs ! i = 0) \<and>
          int64_of (share T (of_int (sum_list ns)) (of_int (ns ! i))) \<le> gs ! i)"
  using apportion_counts [OF assms] by (auto simp: Let_def in_set_conv_nth)

theorem apportion_exact_witness:
  "apportion 10 (map of_int [1, 0, 1, 1]) = [4, 0, 3, 3] \<and>
    sum_list (apportion 10 (map of_int [1, 0, 1, 1])) = 10"
proof -
  have "counts_ok [1, 0, 1, 1]" by code_simp
  from apportion_exact [of 10, OF _ _ this]
  have "sum_list (apportion 10 (map of_int [1, 0, 1, 1])) = 10"
    unfolding Let_def by (simp del: list.map)
  moreover have "apportion 10 (map of_int [1, 0, 1, 1]) = [4, 0, 3, 3]" by code_simp
  ultimately show ?thesis by simp
qed

text \<open>
  C30. The circuit breaker, over any sequence of health reports and state reads: it is closed
  exactly while fewer than the threshold of failures have followed the last success, and when
  it is not closed, the clock of the cooldown runs from the last failure.
\<close>

theorem breaker_follows_failures:
  "let b = breaker_run es (NewBreaker threshold cooldown)
    in (b_state b = BreakerClosed \<longleftrightarrow> trailing_failures es < max 1 threshold) \<and>
      (b_state b \<noteq> BreakerClosed \<longrightarrow>
        (\<exists>pre t post. es = pre @ Failed t # post \<and> list_all (\<lambda>e. \<exists>now. e = ReadState now) post \<and>
          b_openedAt b = t \<and>
          (\<forall>now. fst (State now b) = BreakerOpen \<longrightarrow> now - t < cooldown)))"
proof -
  define b where "b es = breaker_run es (NewBreaker threshold cooldown)" for es
  have inv: "breaker_inv (b es)" for es unfolding b_def by (rule breaker_run_inv [OF breaker_inv_New])
  have f: "b_failures (b es) = trailing_failures es" "b_threshold (b es) = max 1 threshold"
    "b_cooldown (b es) = cooldown" for es
    using breaker_failures [of es threshold cooldown] by (auto simp: b_def)
  have 1: "b_state (b es) = BreakerClosed \<longleftrightarrow> trailing_failures es < max 1 threshold" for es
    using inv [of es] f by (simp add: breaker_inv_def)
  have 2: "b_state (b es) \<noteq> BreakerClosed \<longrightarrow>
      (\<exists>pre t post. es = pre @ Failed t # post \<and> list_all (\<lambda>e. \<exists>now. e = ReadState now) post \<and>
         b_openedAt (b es) = t)"
  proof (induction es rule: rev_induct)
    case Nil
    then show ?case by (simp add: b_def breaker_run_def NewBreaker_def)
  next
    case (snoc e es)
    show ?case
    proof (cases e)
      case (ReadState now)
      have same: "b_openedAt (b (es @ [e])) = b_openedAt (b es)"
        "b_state (b (es @ [e])) = BreakerClosed \<longleftrightarrow> b_state (b es) = BreakerClosed"
        by (auto simp: b_def breaker_run_snoc ReadState State_def Let_def)
      show ?thesis
      proof
        assume "b_state (b (es @ [e])) \<noteq> BreakerClosed"
        with same snoc.IH obtain pre t post where "es = pre @ Failed t # post"
          "list_all (\<lambda>e. \<exists>now. e = ReadState now) post" "b_openedAt (b es) = t" by blast
        with same ReadState show "\<exists>pre t post. es @ [e] = pre @ Failed t # post \<and>
            list_all (\<lambda>e. \<exists>now. e = ReadState now) post \<and> b_openedAt (b (es @ [e])) = t"
          by (intro exI [of _ pre] exI [of _ t] exI [of _ "post @ [e]"]) simp
      qed
    next
      case Succeeded
      then show ?thesis by (simp add: b_def breaker_run_snoc Success_def)
    next
      case (Failed t)
      have "b_state (b (es @ [e])) \<noteq> BreakerClosed \<Longrightarrow> b_openedAt (b (es @ [e])) = t"
        using inv [of es] by (auto simp: b_def breaker_run_snoc Failed Failure_def Let_def breaker_inv_def split: if_splits)
      then show ?thesis using Failed by (intro impI exI [of _ es] exI [of _ t] exI [of _ "[]"]) simp
    qed
  qed
  have 3: "now - b_openedAt (b es) < cooldown" if "fst (State now (b es)) = BreakerOpen" for now
    using that f(3) [of es] by (auto simp: State_def Let_def split: if_splits)
  show ?thesis
    unfolding Let_def b_def [symmetric]
  proof (intro conjI impI)
    show "b_state (b es) = BreakerClosed \<longleftrightarrow> trailing_failures es < max 1 threshold" by (rule 1)
    assume "b_state (b es) \<noteq> BreakerClosed"
    with 2 obtain pre t post where d: "es = pre @ Failed t # post"
      "list_all (\<lambda>e. \<exists>now. e = ReadState now) post" "b_openedAt (b es) = t" by blast
    show "\<exists>pre t post. es = pre @ Failed t # post \<and> list_all (\<lambda>e. \<exists>now. e = ReadState now) post \<and>
        b_openedAt (b es) = t \<and> (\<forall>now. fst (State now (b es)) = BreakerOpen \<longrightarrow> now - t < cooldown)"
      using d 3 by (intro exI [of _ pre] exI [of _ t] exI [of _ post] conjI allI impI) simp_all
  qed
qed

theorem breaker_follows_failures_witness:
  "b_state (breaker_run [Failed 1, Succeeded, Failed 5, Failed 7] (NewBreaker 2 10)) \<noteq> BreakerClosed \<and>
    b_openedAt (breaker_run [Failed 1, Succeeded, Failed 5, Failed 7] (NewBreaker 2 10)) = 7"
proof -
  have s: "b_state (breaker_run [Failed 1, Succeeded, Failed 5, Failed 7] (NewBreaker 2 10)) \<noteq> BreakerClosed"
    by code_simp
  obtain pre t post where d: "[Failed 1, Succeeded, Failed 5, Failed 7] = pre @ Failed t # post"
    "list_all (\<lambda>e. \<exists>now. e = ReadState now) post"
    "b_openedAt (breaker_run [Failed 1, Succeeded, Failed 5, Failed 7] (NewBreaker 2 10)) = t"
    using breaker_follows_failures [where es = "[Failed 1, Succeeded, Failed 5, Failed 7]" and threshold = 2
        and cooldown = 10] s unfolding Let_def by blast
  have "t = 7" using d(1,2) by (auto simp: Cons_eq_append_conv)
  with s d(3) show ?thesis by simp
qed

text \<open>
  Backpressure: the throttle factor is always between 0 and 1, whatever the latency and
  the rounding; while the breaker is open and cooling down it is 0 and the shop is not asked
  at all; and no cycle grants more than the configured rate allows for one interval.
\<close>

theorem backpressure_bounds:
  assumes "0 \<le> ac_BackpressureMin cfg" "ac_BackpressureMin cfg \<le> 1" "0 \<le> ac_RatePerMin cfg"
    "0 \<le> ac_Interval cfg"
  shows "0 \<le> fst (pressure cfg h out clk b) \<and> fst (pressure cfg h out clk b) \<le> 1 \<and>
    perCycle cfg (fst (pressure cfg h out clk b)) \<le> perCycle cfg 1 \<and>
    (b_state b = BreakerOpen \<and> clk 0 - b_openedAt b < b_cooldown b \<longrightarrow>
       pressure cfg h out clk b = (0, b))"
  using pressure_bounds [OF assms(1,2), of h out clk b]
    perCycle_mono [OF assms(3,4), of "fst (pressure cfg h out clk b)" 1]
  by (auto simp: pressure_def State_def Let_def)

definition demo_acfg :: AConfig where
  "demo_acfg = \<lparr>ac_EventID = ''ev'', ac_RatePerMin = 600, ac_Interval = 5000000000,
    ac_AfterLottery = False, ac_OpenAt = None, ac_LotteryWindow = 0, ac_MinDwell = 0, ac_MinBeats = 0,
    ac_MaxBudgetPerShard = 100, ac_BackpressureMin = 1 / 4, ac_BreakerFailures = 3,
    ac_BreakerCooldown = 30000000000, ac_EntryTTL = 60000000000, ac_UserTTL = 90000000000\<rparr>"

theorem backpressure_bounds_witness:
  "fst (pressure demo_acfg (HTTPHealth ''http://shop'' 2000000000) (HTTPStatus 200 1500000000)
      (\<lambda>_. 0) (NewBreaker 3 30000000000)) = 5 / 8 \<and>
    perCycle demo_acfg (5 / 8) \<le> perCycle demo_acfg 1 \<and> perCycle demo_acfg 1 = 50"
proof -
  have f: "fst (pressure demo_acfg (HTTPHealth ''http://shop'' 2000000000) (HTTPStatus 200 1500000000)
      (\<lambda>_. 0) (NewBreaker 3 30000000000)) = 5 / 8" by code_simp
  have "perCycle demo_acfg 1 = 50" by code_simp
  moreover note backpressure_bounds [of demo_acfg "HTTPHealth ''http://shop'' 2000000000" "HTTPStatus 200 1500000000"
      "\<lambda>_. 0" "NewBreaker 3 30000000000"] f
  moreover have "ac_BackpressureMin demo_acfg = 1 / 4" "ac_RatePerMin demo_acfg = 600" "ac_Interval demo_acfg = 5000000000"
    by (simp_all add: demo_acfg_def)
  ultimately show ?thesis by simp
qed

text \<open>
  One controller cycle: before the lottery gate opens nothing is granted and the store is
  untouched; otherwise the grants of the cycle never exceed the total its throttle factor
  allows, whatever refills fail on the way.
\<close>

theorem Cycle_within_total:
  assumes "Cycle now clk out l1 l2 n cfg h q (b, r) = (Inr rep, b', r')"
    and "perCycle cfg (cr_Factor rep) \<le> 2 ^ 50"
    and "\<And>shards sizes. Shards_list l1 q r = Inr shards \<Longrightarrow> Sizes l2 q shards r = Inr sizes \<Longrightarrow>
      counts_ok (masked shards sizes)"
  shows "(snd (gateRemaining cfg now) \<longrightarrow> cr_Gated rep \<and> r' = r \<and> cr_Granted rep = 0) \<and>
    (\<not> snd (gateRemaining cfg now) \<longrightarrow> cr_Factor rep = fst (pressure cfg h out clk b) \<and>
       cr_Granted rep \<le> perCycle cfg (cr_Factor rep))"
proof (cases "snd (gateRemaining cfg now)")
  case True
  with assms(1) show ?thesis by (auto simp: Cycle_def empty_report_def split: prod.splits)
next
  case False
  obtain factor b1 where p: "pressure cfg h out clk b = (factor, b1)" by (cases "pressure cfg h out clk b")
  obtain st b2 where s: "State (clk 4) b1 = (st, b2)" by (cases "State (clk 4) b1")
  let ?rep = "empty_report\<lparr>cr_Factor := factor, cr_Breaker := Some st\<rparr>"
  from assms(1) False p s obtain shards where sh: "Shards_list l1 q r = Inr shards"
    by (auto simp: Cycle_def split: sum.splits)
  have fac: "cr_Factor (fst (refill_shards n cfg work (rp, r0))) = cr_Factor rp" for work rp r0
    by (induction work arbitrary: rp r0) (auto simp: Let_def split: sum.splits prod.splits)
  show ?thesis
  proof (cases "shards = []")
    case True
    with assms(1) False p s sh perCycle_nonneg show ?thesis
      by (auto simp: Cycle_def empty_report_def)
  next
    case ne: False
    from assms(1) False p s sh ne obtain sizes where sz: "Sizes l2 q shards r = Inr sizes"
      by (auto simp: Cycle_def split: sum.splits)
    let ?T = "perCycle cfg factor" and ?ns = "masked shards sizes"
    let ?gs = "apportion ?T (map of_int ?ns)" and ?rep1 = "?rep\<lparr>cr_Shards := int (length shards)\<rparr>"
    let ?work = "zip shards (zip sizes ?gs)"
    have ok: "counts_ok ?ns" by (rule assms(3) [OF sh sz])
    have res: "refill_shards n cfg ?work (?rep1, r) = (rep, r')"
      using assms(1) False p s sh sz ne by (simp add: Cycle_def Let_def weights_masked [OF ok] split: prod.splits)
    have f: "cr_Factor rep = factor" using fac [of ?work ?rep1 r] res by (simp add: empty_report_def)
    have a: "sum_list ?gs \<le> ?T" "\<forall>g \<in> set ?gs. 0 \<le> g" "length ?gs = length ?ns"
      using apportion_sum_le [OF perCycle_nonneg _ ok, of cfg factor] assms(2) f by auto
    have "cr_Granted rep \<le> cr_Granted ?rep1 + sum_list (map (\<lambda>w. snd (snd w)) ?work)"
      using refill_shards_granted [of ?work n cfg ?rep1 r] a(2) res
      by (auto dest!: set_zip_rightD)
    also have "map (\<lambda>w. snd (snd w)) ?work = take (length ?work) ?gs"
      by (rule nth_equalityI) auto
    also have "sum_list \<dots> \<le> sum_list ?gs"
      by (rule sum_take_le [OF a(2)])
    finally show ?thesis using False p f a(1) by (simp add: empty_report_def)
  qed
qed

definition demo_index :: "redis \<Rightarrow> redis" where
  "demo_index r = r\<lparr>sets := (\<lambda>_. {''s0000''})\<rparr>"

definition demo_waiting :: redis where
  "demo_waiting = demo_index (run ''ev'' ''s0000''
    [Enqueue_op ''a'' 1 0 0 LotteryBand ''f'' ''i'' 1000000, Enqueue_op ''b'' 2 0 0 LotteryBand ''f'' ''i'' 1000000]
    empty_redis)"

definition demo_cycle :: "Breaker \<Rightarrow> redis \<Rightarrow> (admission_error + CycleReport) \<times> Breaker \<times> redis" where
  "demo_cycle b r = Cycle 0 (\<lambda>_. 0) (HTTPStatus 200 0) Delivered Delivered (\<lambda>_. good_net) demo_acfg
    NoopHealth demo_store (b, r)"

theorem Cycle_within_total_witness:
  "\<exists>rep b' r'. demo_cycle (NewBreaker 3 30000000000) demo_waiting = (Inr rep, b', r') \<and>
    cr_Granted rep \<le> perCycle demo_acfg 1"
proof -
  let ?c = "demo_cycle (NewBreaker 3 30000000000) demo_waiting"
  have ok: "case fst ?c of Inl e \<Rightarrow> False | Inr rep \<Rightarrow> cr_Factor rep = 1" by code_simp
  then obtain rep b' r' where c: "?c = (Inr rep, b', r')" "cr_Factor rep = 1"
    by (cases ?c; cases "fst ?c") auto
  have g: "\<not> snd (gateRemaining demo_acfg 0)" by code_simp
  have p: "perCycle demo_acfg 1 \<le> 2 ^ 50" by code_simp
  have sh: "Shards_list Delivered demo_store demo_waiting = Inr [''s0000'']" by code_simp
  have sz: "Sizes Delivered demo_store [''s0000''] demo_waiting = Inr [2]" by code_simp
  have k: "counts_ok (masked [''s0000''] [2])" by code_simp
  have h: "counts_ok (masked shards sizes)" if "Shards_list Delivered demo_store demo_waiting = Inr shards"
      "Sizes Delivered demo_store shards demo_waiting = Inr sizes" for shards sizes
    using that sh sz k by simp
  have "perCycle demo_acfg (cr_Factor rep) \<le> 2 ^ 50" using p c(2) by simp
  from Cycle_within_total [OF c(1) [unfolded demo_cycle_def] this h] g c show ?thesis by auto
qed

text \<open>
  An open breaker does not stop admissions by itself: the cycle grants 0, but
  \<open>refill_budget\<close> with a grant of 0 keeps the budget that is left and renews its lifetime, so
  a user is still admitted while the breaker is open, after the lifetime of the last real
  grant has passed.
\<close>

theorem open_breaker_renews_budget:
  "let b = \<lparr>b_state = BreakerOpen, b_failures = 3, b_threshold = 3, b_cooldown = 30000000000, b_openedAt = 0\<rparr>;
      granted = snd (snd (demo_cycle (NewBreaker 3 30000000000) demo_waiting));
      (rep, b', r1) = demo_cycle b (tick 15000 granted);
      without = snd (Admit good_net 1000000 demo_acfg ''s0000'' ''a'' ''J'' (tick 30000 granted));
      admitted = snd (Admit good_net 1000000 demo_acfg ''s0000'' ''a'' ''J'' (tick 15000 r1))
    in b' = b \<and> (case rep of Inr x \<Rightarrow> cr_Factor x = 0 \<and> cr_Granted x = 0) \<and>
       state_of ''ev'' ''s0000'' without ''a'' = Some ''waiting'' \<and>
       state_of ''ev'' ''s0000'' admitted ''a'' = Some ''admitted''"
  by code_simp

end
