(* ===== verification/Config.thy ===== *)
theory Config
  imports Float64
begin

text \<open>
  The configuration of the services: the sections of \<open>internal/config/config.go\<close> as records
  (durations in nanoseconds, an unset opening time as \<open>None\<close>), the defaults, the secrets of
  \<open>internal/config/secret.go\<close>, the accessors of the environment loader, the redaction of
  the effective environment, and the validation that every service passes before it starts.
  A failed check of \<open>Validate\<close> is represented by the setting its message is about.
\<close>

section \<open>Secrets\<close>

datatype Secret = Secret_of (secret_b: string)

definition redactedMark :: string where "redactedMark = ''[REDACTED]''"

datatype secret_error = ErrEmptySecret | ErrNotHex

definition NewSecret :: "string \<Rightarrow> Secret" where "NewSecret b = Secret_of b"

definition hex_val :: "char \<Rightarrow> int option" where
  "hex_val c =
    (if CHR ''0'' \<le> c \<and> c \<le> CHR ''9'' then Some (of_char c - 48)
     else if CHR ''a'' \<le> c \<and> c \<le> CHR ''f'' then Some (of_char c - 87)
     else if CHR ''A'' \<le> c \<and> c \<le> CHR ''F'' then Some (of_char c - 55)
     else None)"

fun hex_DecodeString :: "string \<Rightarrow> string option" where
  "hex_DecodeString [] = Some []"
| "hex_DecodeString [c] = None"
| "hex_DecodeString (c # d # s) =
    (case (hex_val c, hex_val d, hex_DecodeString s) of
       (Some h, Some l, Some b) \<Rightarrow> Some (char_of (16 * h + l) # b)
     | _ \<Rightarrow> None)"

definition ParseSecretHex :: "string \<Rightarrow> secret_error + Secret" where
  "ParseSecretHex s =
    (if s = '''' then Inl ErrEmptySecret
     else case hex_DecodeString s of None \<Rightarrow> Inl ErrNotHex | Some b \<Rightarrow> Inr (Secret_of b))"

definition Bytes :: "Secret \<Rightarrow> string" where "Bytes s = secret_b s"
definition Len :: "Secret \<Rightarrow> nat" where "Len s = length (secret_b s)"
definition IsZero :: "Secret \<Rightarrow> bool" where "IsZero s \<longleftrightarrow> length (secret_b s) = 0"

text \<open>The ways a value leaves the process: a format verb, Go syntax, a log attribute, text, JSON.\<close>

datatype sink = Verb char | GoString | LogValue | MarshalText | MarshalJSON

fun print_secret :: "sink \<Rightarrow> Secret \<Rightarrow> string" where
  "print_secret (Verb v) s = redactedMark"
| "print_secret GoString s = redactedMark"
| "print_secret LogValue s = redactedMark"
| "print_secret MarshalText s = redactedMark"
| "print_secret MarshalJSON s = [CHR 0x22] @ redactedMark @ [CHR 0x22]"

section \<open>The sections of the configuration\<close>

record Service_cfg =
  sv_Name :: string
  sv_HTTPAddr :: string
  sv_LogLevel :: string
  sv_MetricsPath :: string
  sv_ShutdownTimeout :: duration

record Redis_cfg =
  rs_Addrs :: "string list"
  rs_Password :: Secret
  rs_DB :: int
  rs_Cluster :: bool
  rs_PoolSize :: int

record Postgres_cfg =
  pg_DSN :: Secret
  pg_Enabled :: bool
  pg_MaxConns :: int

record Kafka_cfg =
  kf_Brokers :: "string list"
  kf_Topic :: string
  kf_GroupID :: string
  kf_Enabled :: bool

record Event_cfg =
  ev_ID :: string
  ev_Salt :: Secret
  ev_OpenAt :: "gotime option"
  ev_ShardSize :: int
  ev_ShardCount :: int
  ev_MaxShardCount :: int
  ev_LotteryWindow :: duration

record Queue_cfg =
  qu_HeartbeatInterval :: duration
  qu_MissedHeartbeats :: int
  qu_EvictGrace :: duration
  qu_StatusPollHint :: duration
  qu_SSEKeepalive :: duration
  qu_SweepBatch :: int
  qu_EvictedRetain :: duration

record Admission_cfg =
  am_RatePerMin :: int
  am_Interval :: duration
  am_AfterLottery :: bool
  am_MinDwell :: duration
  am_MinBeats :: int
  am_MaxBudgetPerShard :: int
  am_BackpressureMin :: float64
  am_BreakerFailures :: int
  am_BreakerCooldown :: duration
  am_ShopHealthURL :: string
  am_ShopHealthTimeout :: duration

record Challenge_cfg =
  cl_TTL :: duration
  cl_BaseDifficulty :: int
  cl_MaxDifficulty :: int
  cl_NonceBytes :: int
  cl_HMACKey :: Secret
  cl_CaptchaEnabled :: bool

record Token_cfg =
  tc_SigningKey :: Secret
  tc_Issuer :: string
  tc_QueueTTL :: duration
  tc_EntryTTL :: duration
  tc_IPv4PrefixBits :: int
  tc_IPv6PrefixBits :: int
  tc_SecureCookie :: bool

record Weights =
  wt_Heartbeat :: float64
  wt_Correlation :: float64
  wt_Fingerprint :: float64
  wt_IPPrefix :: float64
  wt_PoW :: float64

record BotScore_cfg =
  bs_Greylist :: int
  bs_Hold :: int
  bs_Block :: int
  bs_Window :: duration
  bs_FlushEvery :: duration
  bs_MinSamples :: int
  bs_Decay :: float64
  bs_Weights :: Weights
  bs_HeartbeatCVFloor :: float64
  bs_SignalZSpan :: float64
  bs_SyncBin :: duration
  bs_FPGroupCap :: int
  bs_IPGroupCap :: int
  bs_RobustBaseline :: bool
  bs_MinSignalsToBlock :: int
  bs_SignalMinContrib :: float64
  bs_SuspicionTTL :: duration
  bs_GreylistDifficulty :: int
  bs_RechallengePassScore :: int
  bs_RechallengeMaxAttempts :: int

record Config =
  cf_Service :: Service_cfg
  cf_Redis :: Redis_cfg
  cf_Postgres :: Postgres_cfg
  cf_Kafka :: Kafka_cfg
  cf_Event :: Event_cfg
  cf_Queue :: Queue_cfg
  cf_Admission :: Admission_cfg
  cf_Challenge :: Challenge_cfg
  cf_Token :: Token_cfg
  cf_BotScore :: BotScore_cfg
  cf_fromEnv :: "string \<rightharpoonup> string"

definition Sum_weights :: "Weights \<Rightarrow> float64" where
  "Sum_weights w =
    fadd (fadd (fadd (fadd (wt_Heartbeat w) (wt_Correlation w)) (wt_Fingerprint w)) (wt_IPPrefix w))
      (wt_PoW w)"


section \<open>Defaults\<close>

abbreviation ms :: "int \<Rightarrow> duration" where "ms n \<equiv> n * 1000000"
abbreviation seconds :: "int \<Rightarrow> duration" where "seconds n \<equiv> n * 1000000000"
abbreviation minutes :: "int \<Rightarrow> duration" where "minutes n \<equiv> n * 60000000000"

definition default_Service :: "string \<Rightarrow> string \<Rightarrow> Service_cfg" where
  "default_Service name addr = \<lparr>sv_Name = name, sv_HTTPAddr = addr, sv_LogLevel = ''info'',
    sv_MetricsPath = ''/internal/metrics'', sv_ShutdownTimeout = seconds 15\<rparr>"

definition default_Redis :: "Secret \<Rightarrow> Redis_cfg" where
  "default_Redis pw = \<lparr>rs_Addrs = [''127.0.0.1:6379''], rs_Password = pw, rs_DB = 0,
    rs_Cluster = False, rs_PoolSize = 64\<rparr>"

definition default_Postgres :: "Secret \<Rightarrow> Postgres_cfg" where
  "default_Postgres dsn = \<lparr>pg_DSN = dsn, pg_Enabled = True, pg_MaxConns = 8\<rparr>"

definition default_Kafka :: Kafka_cfg where
  "default_Kafka = \<lparr>kf_Brokers = [''127.0.0.1:9092''], kf_Topic = ''shardgate.telemetry'',
    kf_GroupID = ''shardgate-scorer'', kf_Enabled = True\<rparr>"

definition default_Event :: "Secret \<Rightarrow> Event_cfg" where
  "default_Event salt = \<lparr>ev_ID = ''demo'', ev_Salt = salt, ev_OpenAt = None, ev_ShardSize = 1000,
    ev_ShardCount = 16, ev_MaxShardCount = 4096, ev_LotteryWindow = minutes 2\<rparr>"

definition default_Queue :: Queue_cfg where
  "default_Queue = \<lparr>qu_HeartbeatInterval = seconds 5, qu_MissedHeartbeats = 3,
    qu_EvictGrace = seconds 30, qu_StatusPollHint = seconds 5, qu_SSEKeepalive = seconds 15,
    qu_SweepBatch = 256, qu_EvictedRetain = minutes 10\<rparr>"

definition default_Admission :: Admission_cfg where
  "default_Admission = \<lparr>am_RatePerMin = 3000, am_Interval = seconds 5, am_AfterLottery = False,
    am_MinDwell = 0, am_MinBeats = 0, am_MaxBudgetPerShard = 500, am_BackpressureMin = rnd (1 / 10),
    am_BreakerFailures = 5, am_BreakerCooldown = seconds 30, am_ShopHealthURL = '''',
    am_ShopHealthTimeout = seconds 2\<rparr>"

definition default_Challenge :: "Secret \<Rightarrow> Challenge_cfg" where
  "default_Challenge hkey = \<lparr>cl_TTL = minutes 2, cl_BaseDifficulty = 16, cl_MaxDifficulty = 26,
    cl_NonceBytes = 16, cl_HMACKey = hkey, cl_CaptchaEnabled = False\<rparr>"

definition default_Token :: "Secret \<Rightarrow> Token_cfg" where
  "default_Token skey = \<lparr>tc_SigningKey = skey, tc_Issuer = ''shardgate'', tc_QueueTTL = minutes 120,
    tc_EntryTTL = minutes 5, tc_IPv4PrefixBits = 24, tc_IPv6PrefixBits = 48, tc_SecureCookie = True\<rparr>"

definition default_Weights :: Weights where
  "default_Weights = \<lparr>wt_Heartbeat = rnd (25 / 100), wt_Correlation = rnd (20 / 100),
    wt_Fingerprint = rnd (25 / 100), wt_IPPrefix = rnd (15 / 100), wt_PoW = rnd (15 / 100)\<rparr>"

definition default_BotScore :: BotScore_cfg where
  "default_BotScore = \<lparr>bs_Greylist = 40, bs_Hold = 70, bs_Block = 90, bs_Window = seconds 60,
    bs_FlushEvery = seconds 5, bs_MinSamples = 5, bs_Decay = rnd (9 / 10),
    bs_Weights = default_Weights, bs_HeartbeatCVFloor = rnd (2 / 100), bs_SignalZSpan = 3,
    bs_SyncBin = ms 250, bs_FPGroupCap = 5, bs_IPGroupCap = 8, bs_RobustBaseline = True,
    bs_MinSignalsToBlock = 2, bs_SignalMinContrib = rnd (2 / 10), bs_SuspicionTTL = minutes 30,
    bs_GreylistDifficulty = 4, bs_RechallengePassScore = 35, bs_RechallengeMaxAttempts = 2\<rparr>"

section \<open>The environment loader\<close>

definition utf8_spaces :: "string list" where
  "utf8_spaces = map (\<lambda>n. [char_of n]) [9, 10, 11, 12, 13, 32 :: int] @ map (map char_of)
     ([[0xC2, 0x85], [0xC2, 0xA0], [0xE1, 0x9A, 0x80], [0xE2, 0x80, 0xA8], [0xE2, 0x80, 0xA9],
       [0xE2, 0x80, 0xAF], [0xE2, 0x81, 0x9F], [0xE3, 0x80, 0x80]]
      @ map (\<lambda>i. [0xE2, 0x80, 0x80 + i]) [0, 1, 2, 3, 4, 5, 6, 7, 8, 9, 10 :: int])"

function trim_left :: "string list \<Rightarrow> string \<Rightarrow> string" where
  "trim_left sps s =
    (case find (\<lambda>p. p \<noteq> [] \<and> take (length p) s = p) sps of
       None \<Rightarrow> s
     | Some p \<Rightarrow> trim_left sps (drop (length p) s))"
  by pat_completeness auto

termination
proof (relation "measure (\<lambda>(sps, s). length s)")
  fix sps p and s :: string
  assume "find (\<lambda>p. p \<noteq> [] \<and> take (length p) s = p) sps = Some p"
  then have "p \<noteq> []" "take (length p) s = p" by (auto simp: find_Some_iff)
  then show "((sps, drop (length p) s), (sps, s)) \<in> measure (\<lambda>(sps, s). length s)"
    by (cases s; cases p) auto
qed simp

declare trim_left.simps [simp del]

definition TrimSpace :: "string \<Rightarrow> string" where
  "TrimSpace s = rev (trim_left (map rev utf8_spaces) (rev (trim_left utf8_spaces s)))"

fun Split_comma :: "string \<Rightarrow> string list" where
  "Split_comma [] = [[]]"
| "Split_comma (c # s) =
    (if c = CHR '','' then [] # Split_comma s
     else case Split_comma s of p # ps \<Rightarrow> (c # p) # ps | [] \<Rightarrow> [[c]])"

definition ParseBool :: "string \<Rightarrow> bool option" where
  "ParseBool s =
    (if s \<in> {''1'', ''t'', ''T'', ''TRUE'', ''true'', ''True''} then Some True
     else if s \<in> {''0'', ''f'', ''F'', ''FALSE'', ''false'', ''False''} then Some False
     else None)"

record loader =
  ld_lookup :: "string \<rightharpoonup> string"
  ld_errs :: "(string \<times> string) list"
  ld_fromEnv :: "string \<rightharpoonup> string"

definition envPrefix :: string where "envPrefix = ''SG_''"

definition raw :: "string \<Rightarrow> loader \<Rightarrow> string option \<times> loader" where
  "raw k l =
    (case ld_lookup l (envPrefix @ k) of
       None \<Rightarrow> (None, l)
     | Some v \<Rightarrow>
         let v = TrimSpace v
         in if v = '''' then (None, l)
            else (Some v, l\<lparr>ld_fromEnv := (ld_fromEnv l)(envPrefix @ k \<mapsto> v)\<rparr>))"

definition fail :: "string \<Rightarrow> string \<Rightarrow> loader \<Rightarrow> loader" where
  "fail k why l = l\<lparr>ld_errs := ld_errs l @ [(envPrefix @ k, why)]\<rparr>"

definition str :: "string \<Rightarrow> string \<Rightarrow> loader \<Rightarrow> string \<times> loader" where
  "str k def l = (case raw k l of (Some v, l') \<Rightarrow> (v, l') | (None, l') \<Rightarrow> (def, l'))"

definition list_val :: "string \<Rightarrow> string list \<Rightarrow> loader \<Rightarrow> string list \<times> loader" where
  "list_val k def l =
    (case raw k l of
       (None, l') \<Rightarrow> (def, l')
     | (Some v, l') \<Rightarrow>
         let out = filter (\<lambda>p. p \<noteq> '''') (map TrimSpace (Split_comma v))
         in (if out = [] then def else out, l'))"

definition intVal :: "string \<Rightarrow> int \<Rightarrow> loader \<Rightarrow> int \<times> loader" where
  "intVal k def l =
    (case raw k l of
       (None, l') \<Rightarrow> (def, l')
     | (Some v, l') \<Rightarrow>
         (case Atoi v of None \<Rightarrow> (def, fail k ''not an integer'' l') | Some n \<Rightarrow> (n, l')))"

definition boolVal :: "string \<Rightarrow> bool \<Rightarrow> loader \<Rightarrow> bool \<times> loader" where
  "boolVal k def l =
    (case raw k l of
       (None, l') \<Rightarrow> (def, l')
     | (Some v, l') \<Rightarrow>
         (case ParseBool v of None \<Rightarrow> (def, fail k ''not a boolean'' l') | Some b \<Rightarrow> (b, l')))"

definition secretHex :: "string \<Rightarrow> loader \<Rightarrow> Secret \<times> loader" where
  "secretHex k l =
    (case raw k l of
       (None, l') \<Rightarrow> (Secret_of [], l')
     | (Some v, l') \<Rightarrow>
         (case ParseSecretHex v of
            Inl ErrEmptySecret \<Rightarrow> (Secret_of [], fail k ''secret is empty'' l')
          | Inl ErrNotHex \<Rightarrow> (Secret_of [], fail k ''secret is not valid hex'' l')
          | Inr s \<Rightarrow> (s, l')))"

definition secretRaw :: "string \<Rightarrow> loader \<Rightarrow> Secret \<times> loader" where
  "secretRaw k l =
    (case raw k l of (None, l') \<Rightarrow> (Secret_of [], l') | (Some v, l') \<Rightarrow> (NewSecret v, l'))"


section \<open>The effective environment\<close>

fun Contains :: "string \<Rightarrow> string \<Rightarrow> bool" where
  "Contains [] part \<longleftrightarrow> part = []"
| "Contains (c # s) part \<longleftrightarrow> take (length part) (c # s) = part \<or> Contains s part"

definition secretKeyParts :: "string list" where
  "secretKeyParts = [''SALT'', ''KEY'', ''PASSWORD'', ''SECRET'', ''DSN'', ''TOKEN'']"

definition EffectiveEnv :: "(string \<rightharpoonup> string) \<Rightarrow> (string \<rightharpoonup> string)" where
  "EffectiveEnv env =
    (\<lambda>k. case env k of
       None \<Rightarrow> None
     | Some v \<Rightarrow> Some (if list_ex (Contains k) secretKeyParts then ''<redacted>'' else v))"

section \<open>Validation\<close>

definition scoreMax :: int where "scoreMax = 100"
definition weightEpsilon :: rat where "weightEpsilon = 1 / 1000000"
definition maxSupportedDifficulty :: int where "maxSupportedDifficulty = 32"
definition minNonceBytes :: int where "minNonceBytes = 8"

definition failed :: "(bool \<times> string) list \<Rightarrow> string list" where
  "failed checks = map snd (filter (\<lambda>(ok, _). \<not> ok) checks)"

definition checks_infra :: "Config \<Rightarrow> (bool \<times> string) list" where
  "checks_infra c = [
     (ev_ID (cf_Event c) \<noteq> '''', ''EVENT_ID''),
     (ev_ShardSize (cf_Event c) > 0, ''SHARD_SIZE''),
     (ev_ShardCount (cf_Event c) > 0, ''SHARD_COUNT''),
     (ev_ShardCount (cf_Event c) \<le> ev_MaxShardCount (cf_Event c), ''MAX_SHARD_COUNT''),
     (ev_LotteryWindow (cf_Event c) \<ge> 0, ''LOTTERY_WINDOW''),
     (rs_Addrs (cf_Redis c) \<noteq> [], ''REDIS_ADDRS''),
     (rs_PoolSize (cf_Redis c) > 0, ''REDIS_POOL_SIZE''),
     (qu_HeartbeatInterval (cf_Queue c) > 0, ''HEARTBEAT_INTERVAL''),
     (qu_MissedHeartbeats (cf_Queue c) > 0, ''MISSED_HEARTBEATS''),
     (qu_EvictGrace (cf_Queue c) \<ge> 0, ''EVICT_GRACE''),
     (qu_SweepBatch (cf_Queue c) > 0, ''SWEEP_BATCH''),
     (qu_EvictedRetain (cf_Queue c) > 0, ''EVICTED_RETAIN'')]"

definition checks_admission :: "Config \<Rightarrow> (bool \<times> string) list" where
  "checks_admission c = [
     (am_RatePerMin (cf_Admission c) > 0, ''ADMIT_RATE_PER_MIN''),
     (am_Interval (cf_Admission c) > 0, ''ADMIT_INTERVAL''),
     (\<not> am_AfterLottery (cf_Admission c) \<or> ev_OpenAt (cf_Event c) \<noteq> None, ''ADMIT_AFTER_LOTTERY''),
     (am_MinDwell (cf_Admission c) \<ge> 0, ''ADMIT_MIN_DWELL''),
     (am_MinBeats (cf_Admission c) \<ge> 0, ''ADMIT_MIN_BEATS''),
     (am_MinDwell (cf_Admission c) < tc_QueueTTL (cf_Token c), ''ADMIT_MIN_DWELL''),
     (am_MaxBudgetPerShard (cf_Admission c) > 0, ''MAX_BUDGET_PER_SHARD''),
     (am_BackpressureMin (cf_Admission c) > 0 \<and> am_BackpressureMin (cf_Admission c) \<le> 1,
        ''BACKPRESSURE_MIN''),
     (cl_BaseDifficulty (cf_Challenge c) > 0, ''POW_BASE_DIFFICULTY''),
     (cl_MaxDifficulty (cf_Challenge c) \<ge> cl_BaseDifficulty (cf_Challenge c), ''POW_MAX_DIFFICULTY''),
     (cl_MaxDifficulty (cf_Challenge c) \<le> maxSupportedDifficulty, ''POW_MAX_DIFFICULTY''),
     (cl_NonceBytes (cf_Challenge c) \<ge> minNonceBytes, ''POW_NONCE_BYTES''),
     (cl_TTL (cf_Challenge c) > 0, ''CHALLENGE_TTL''),
     (tc_QueueTTL (cf_Token c) > 0, ''QUEUE_TOKEN_TTL''),
     (tc_EntryTTL (cf_Token c) > 0, ''ENTRY_TOKEN_TTL''),
     (tc_IPv4PrefixBits (cf_Token c) > 0 \<and> tc_IPv4PrefixBits (cf_Token c) \<le> 32, ''IPV4_PREFIX_BITS''),
     (tc_IPv6PrefixBits (cf_Token c) > 0 \<and> tc_IPv6PrefixBits (cf_Token c) \<le> 128, ''IPV6_PREFIX_BITS'')]"

definition checks_botscore :: "BotScore_cfg \<Rightarrow> (bool \<times> string) list" where
  "checks_botscore b = [
     (0 < bs_Greylist b \<and> bs_Greylist b < bs_Hold b \<and> bs_Hold b < bs_Block b \<and> bs_Block b \<le> scoreMax,
        ''SCORE thresholds''),
     (bs_Window b > 0, ''SCORE_WINDOW''),
     (bs_MinSamples b > 0, ''SCORE_MIN_SAMPLES''),
     (bs_SignalZSpan b > 0, ''SIGNAL_Z_SPAN''),
     (bs_SyncBin b > 0, ''SYNC_BIN''),
     (bs_FPGroupCap b > 1, ''FP_GROUP_CAP''),
     (bs_IPGroupCap b > 1, ''IP_GROUP_CAP''),
     (bs_SuspicionTTL b > 0, ''SUSPICION_TTL''),
     (bs_GreylistDifficulty b \<ge> 0, ''GREYLIST_DIFFICULTY_BUMP''),
     (bs_RechallengePassScore b \<ge> 0 \<and> bs_RechallengePassScore b < bs_Greylist b,
        ''RECHALLENGE_PASS_SCORE''),
     (bs_RechallengeMaxAttempts b \<ge> 1, ''RECHALLENGE_MAX_ATTEMPTS''),
     (bs_MinSignalsToBlock b \<ge> 2, ''SCORE_MIN_SIGNALS_TO_BLOCK''),
     (bs_SignalMinContrib b > 0 \<and> bs_SignalMinContrib b \<le> 1, ''SIGNAL_MIN_CONTRIB''),
     (bs_Decay b > 0 \<and> bs_Decay b \<le> 1, ''SCORE_DECAY''),
     (let s = Sum_weights (bs_Weights b)
      in \<not> (s < rnd (1 - weightEpsilon) \<or> s > rnd (1 + weightEpsilon)), ''botscore weights'')]"

definition Validate_config :: "Config \<Rightarrow> string list" where
  "Validate_config c = failed (checks_infra c @ checks_admission c @ checks_botscore (cf_BotScore c))"

definition RequireSecrets :: "Config \<Rightarrow> string list \<Rightarrow> string list" where
  "RequireSecrets c names = concat (map (\<lambda>n.
     if n = ''event_salt'' then
       (if IsZero (ev_Salt (cf_Event c)) then [''SG_EVENT_SALT is required''] else [])
     else if n = ''token_signing_key'' then
       (if IsZero (tc_SigningKey (cf_Token c)) then [''SG_TOKEN_SIGNING_KEY is required''] else [])
     else if n = ''challenge_hmac_key'' then
       (if IsZero (cl_HMACKey (cf_Challenge c)) then [''SG_CHALLENGE_HMAC_KEY is required''] else [])
     else if n = ''postgres_dsn'' then
       (if pg_Enabled (cf_Postgres c) \<and> IsZero (pg_DSN (cf_Postgres c))
        then [''SG_POSTGRES_DSN is required''] else [])
     else [''unknown secret requirement '' @ n]) names)"

section \<open>Facts\<close>

lemma failed_Nil_iff [simp]: "failed cs = [] \<longleftrightarrow> list_all fst cs"
  by (induction cs) (auto simp: failed_def)

lemma failed_append [simp]: "failed (a @ b) = failed a @ failed b"
  by (simp add: failed_def)

lemma Validate_parts:
  "Validate_config c = [] \<longleftrightarrow>
     list_all fst (checks_infra c) \<and> list_all fst (checks_admission c) \<and>
     list_all fst (checks_botscore (cf_BotScore c))"
  by (simp add: Validate_config_def)

text \<open>What the scorer, the challenges and the admission control may assume of a validated configuration.\<close>

definition scoring_ok :: "BotScore_cfg \<Rightarrow> bool" where
  "scoring_ok b \<longleftrightarrow>
     0 < bs_Greylist b \<and> bs_Greylist b < bs_Hold b \<and> bs_Hold b < bs_Block b \<and> bs_Block b \<le> 100 \<and>
     0 < bs_MinSamples b \<and> 0 < bs_SignalZSpan b \<and> 1 < bs_FPGroupCap b \<and> 1 < bs_IPGroupCap b \<and>
     0 \<le> bs_GreylistDifficulty b \<and> 0 \<le> bs_RechallengePassScore b \<and>
     bs_RechallengePassScore b < bs_Greylist b \<and> 1 \<le> bs_RechallengeMaxAttempts b \<and>
     2 \<le> bs_MinSignalsToBlock b \<and> 0 < bs_SignalMinContrib b \<and> bs_SignalMinContrib b \<le> 1 \<and>
     0 < bs_Decay b \<and> bs_Decay b \<le> 1"

definition challenge_ok :: "Challenge_cfg \<Rightarrow> bool" where
  "challenge_ok cl \<longleftrightarrow> 0 < cl_BaseDifficulty cl \<and> cl_BaseDifficulty cl \<le> cl_MaxDifficulty cl \<and>
     cl_MaxDifficulty cl \<le> 32 \<and> 8 \<le> cl_NonceBytes cl \<and> 0 < cl_TTL cl"

lemma Validate_scoring: "Validate_config c = [] \<Longrightarrow> scoring_ok (cf_BotScore c)"
  by (simp add: Validate_parts checks_botscore_def scoring_ok_def scoreMax_def)

lemma Validate_challenge: "Validate_config c = [] \<Longrightarrow> challenge_ok (cf_Challenge c)"
  by (simp add: Validate_parts checks_admission_def challenge_ok_def maxSupportedDifficulty_def
    minNonceBytes_def)

lemma raw_lookup [simp]: "ld_lookup (snd (raw k l)) = ld_lookup l"
  by (simp add: raw_def Let_def split: option.split)

text \<open>A loader that has read the variables \<open>ks\<close>, in order.\<close>

definition new_loader :: "(string \<rightharpoonup> string) \<Rightarrow> loader" where
  "new_loader env = \<lparr>ld_lookup = env, ld_errs = [], ld_fromEnv = Map.empty\<rparr>"

definition read_all :: "string list \<Rightarrow> loader \<Rightarrow> loader" where
  "read_all ks l = fold (\<lambda>k l. snd (raw k l)) ks l"

definition trimmed :: "(string \<rightharpoonup> string) \<Rightarrow> (string \<rightharpoonup> string)" where
  "trimmed env k =
    (case env k of None \<Rightarrow> None | Some v \<Rightarrow> if TrimSpace v = '''' then None else Some (TrimSpace v))"

lemma raw_fromEnv:
  "ld_fromEnv (snd (raw k l)) =
    (case trimmed (ld_lookup l) (envPrefix @ k) of
       None \<Rightarrow> ld_fromEnv l | Some v \<Rightarrow> (ld_fromEnv l)(envPrefix @ k \<mapsto> v))"
  by (simp add: raw_def trimmed_def Let_def split: option.split)

lemma read_all_fromEnv:
  "ld_fromEnv (read_all ks l) k =
    (if k \<in> (@) envPrefix ` set ks \<and> trimmed (ld_lookup l) k \<noteq> None
     then trimmed (ld_lookup l) k else ld_fromEnv l k)"
  unfolding read_all_def
  by (induction ks arbitrary: l) (auto simp: raw_fromEnv split: option.splits)

lemma new_loader_simps [simp]:
  "ld_lookup (new_loader env) = env" "ld_fromEnv (new_loader env) = Map.empty"
  by (simp_all add: new_loader_def)

section \<open>Properties\<close>

text \<open>
  Printing the effective environment leaks no secret: two environments that agree
  (after trimming) on every variable whose name does not mark it as secret, and set the same
  secret variables, print the same effective environment, whatever variables were read.  The
  five variables the program reads as secrets are all marked by their names.
\<close>

theorem EffectiveEnv_noninterference:
  assumes "\<And>k. \<not> list_ex (Contains k) secretKeyParts \<Longrightarrow> trimmed env1 k = trimmed env2 k"
    and "\<And>k. trimmed env1 k = None \<longleftrightarrow> trimmed env2 k = None"
  shows "EffectiveEnv (ld_fromEnv (read_all ks (new_loader env1))) =
         EffectiveEnv (ld_fromEnv (read_all ks (new_loader env2))) \<and>
         list_all (\<lambda>k. list_ex (Contains (envPrefix @ k)) secretKeyParts)
           [''EVENT_SALT'', ''TOKEN_SIGNING_KEY'', ''CHALLENGE_HMAC_KEY'', ''REDIS_PASSWORD'', ''POSTGRES_DSN'']"
proof -
  have "EffectiveEnv (ld_fromEnv (read_all ks (new_loader env1))) k =
        EffectiveEnv (ld_fromEnv (read_all ks (new_loader env2))) k" for k
    using assms(1) [of k] assms(2) [of k]
    by (auto simp: EffectiveEnv_def read_all_fromEnv split: option.split)
  moreover have "list_all (\<lambda>k. list_ex (Contains (envPrefix @ k)) secretKeyParts)
    [''EVENT_SALT'', ''TOKEN_SIGNING_KEY'', ''CHALLENGE_HMAC_KEY'', ''REDIS_PASSWORD'', ''POSTGRES_DSN'']"
    by code_simp
  ultimately show ?thesis by (blast intro: ext)
qed

definition demo_env :: "string \<Rightarrow> (string \<rightharpoonup> string)" where
  "demo_env salt = [''SG_EVENT_ID'' \<mapsto> '' concert '', ''SG_EVENT_SALT'' \<mapsto> salt]"

theorem EffectiveEnv_noninterference_witness:
  "EffectiveEnv (ld_fromEnv (read_all [''EVENT_ID'', ''EVENT_SALT''] (new_loader (demo_env ''aabb'')))) =
   EffectiveEnv (ld_fromEnv (read_all [''EVENT_ID'', ''EVENT_SALT''] (new_loader (demo_env ''ccdd''))))"
proof -
  have salt: "list_ex (Contains ''SG_EVENT_SALT'') secretKeyParts" by code_simp
  have t: "TrimSpace ''aabb'' = ''aabb''" "TrimSpace ''ccdd'' = ''ccdd''" by code_simp+
  have a: "trimmed (demo_env ''aabb'') k = trimmed (demo_env ''ccdd'') k"
    if "\<not> list_ex (Contains k) secretKeyParts" for k
    using that salt by (auto simp: trimmed_def demo_env_def)
  have b: "trimmed (demo_env ''aabb'') k = None \<longleftrightarrow> trimmed (demo_env ''ccdd'') k = None" for k
    by (auto simp: trimmed_def demo_env_def t)
  show ?thesis using EffectiveEnv_noninterference [OF a b] by blast
qed

definition default_config :: "Secret \<Rightarrow> Config" where
  "default_config key = \<lparr>cf_Service = default_Service ''gate'' '':8080'', cf_Redis = default_Redis key,
    cf_Postgres = default_Postgres key, cf_Kafka = default_Kafka, cf_Event = default_Event key,
    cf_Queue = default_Queue, cf_Admission = default_Admission, cf_Challenge = default_Challenge key,
    cf_Token = default_Token key, cf_BotScore = default_BotScore, cf_fromEnv = Map.empty\<rparr>"

lemma Validate_default: "Validate_config (default_config (Secret_of ''k'')) = []"
  by code_simp

end
