(* ===== verification/Telemetry.thy ===== *)
theory Telemetry
  imports Float64 "HOL-Library.Sublist"
begin

text \<open>
  The behavioural signals of \<open>internal/telemetry\<close>: the event, the producer that buffers
  and batches events without ever making a request wait, and the consumer loop of the
  scorer.  The Kafka client is a parameter: a write is a function from the batch handed over
  to the messages that land on the topic.  A payload is identified with the event it encodes.
\<close>

section \<open>Events\<close>

type_synonym Kind = string

definition KindHeartbeat :: Kind where "KindHeartbeat = ''heartbeat''"
definition KindEnter :: Kind where "KindEnter = ''enter''"
definition KindChallenge :: Kind where "KindChallenge = ''challenge''"
definition KindAdmit :: Kind where "KindAdmit = ''admit''"
definition KindRechallenge :: Kind where "KindRechallenge = ''rechallenge''"

record Event =
  e_Kind :: Kind
  e_EventID :: string
  e_Shard :: string
  e_TokenID :: token
  e_At :: gotime
  e_FPHash :: string
  e_IPPrefix :: string
  e_IntervalMS :: int
  e_SolveMS :: int
  e_Difficulty :: int
  e_PointerEntropy :: float64
  e_Visible :: bool
  e_WaitedMS :: int

definition Valid :: "Event \<Rightarrow> bool" where
  "Valid e \<longleftrightarrow> e_Kind e \<noteq> '''' \<and> e_EventID e \<noteq> '''' \<and> e_Shard e \<noteq> '''' \<and> e_TokenID e \<noteq> ''''"

section \<open>The producer\<close>

definition bufferSize :: nat where "bufferSize = 8192"
definition batchSize :: nat where "batchSize = 256"

record Message =
  km_Key :: string
  km_Value :: Event
  km_Time :: gotime

record Producer =
  pr_ch :: "Event list"
  pr_closed :: bool
  pr_batch :: "Message list"
  pr_topic :: "Message list" \<comment> \<open>what has landed on the topic\<close>

definition NewProducer :: Producer where
  "NewProducer = \<lparr>pr_ch = [], pr_closed = False, pr_batch = [], pr_topic = []\<rparr>"

definition encode :: "Event \<Rightarrow> Message" where
  "encode e = \<lparr>km_Key = e_Shard e, km_Value = e, km_Time = e_At e\<rparr>"

text \<open>A send on the closed channel panics (\<open>None\<close>); a send on the full one takes the default branch.\<close>

definition Publish :: "Event \<Rightarrow> Producer \<Rightarrow> Producer option" where
  "Publish e p =
    (if \<not> Valid e then Some p
     else if pr_closed p then None
     else if length (pr_ch p) < bufferSize then Some (p\<lparr>pr_ch := pr_ch p @ [e]\<rparr>)
     else Some p)"

definition flush :: "(Message list \<Rightarrow> Message list) \<Rightarrow> Producer \<Rightarrow> Producer" where
  "flush write p =
    (if pr_batch p = [] then p
     else p\<lparr>pr_topic := pr_topic p @ write (pr_batch p), pr_batch := []\<rparr>)"

text \<open>One turn of the loop on a received event.\<close>

definition loop_receive :: "(Message list \<Rightarrow> Message list) \<Rightarrow> Producer \<Rightarrow> Producer" where
  "loop_receive write p =
    (case pr_ch p of
       [] \<Rightarrow> (if pr_closed p then flush write p else p)
     | e # es \<Rightarrow>
         let p1 = p\<lparr>pr_ch := es, pr_batch := pr_batch p @ [encode e]\<rparr>
         in if length (pr_batch p1) \<ge> batchSize then flush write p1 else p1)"

definition Close :: "Producer \<Rightarrow> Producer" where
  "Close p = p\<lparr>pr_closed := True\<rparr>"

datatype step = Pub Event | Receive "Message list \<Rightarrow> Message list"
  | Ticker "Message list \<Rightarrow> Message list" | CloseP

fun producer_step :: "step \<Rightarrow> Producer \<Rightarrow> Producer option" where
  "producer_step (Pub e) p = Publish e p"
| "producer_step (Receive w) p = Some (loop_receive w p)"
| "producer_step (Ticker w) p = Some (flush w p)"
| "producer_step CloseP p = Some (Close p)"

fun producer_run :: "step list \<Rightarrow> Producer \<Rightarrow> Producer option" where
  "producer_run [] p = Some p"
| "producer_run (s # ss) p =
    (case producer_step s p of None \<Rightarrow> None | Some p' \<Rightarrow> producer_run ss p')"

section \<open>The consumer\<close>

datatype read = Msg "Event option" | ReadError | EndOfStream

definition Decode :: "Event option \<Rightarrow> Event option" where
  "Decode payload = (case payload of None \<Rightarrow> None | Some e \<Rightarrow> if Valid e then Some e else None)"

fun Consume :: "(Event \<Rightarrow> 's \<Rightarrow> 's) \<Rightarrow> read list \<Rightarrow> 's \<Rightarrow> 's" where
  "Consume handle [] s = s"
| "Consume handle (EndOfStream # rs) s = s"
| "Consume handle (ReadError # rs) s = Consume handle rs s"
| "Consume handle (Msg v # rs) s =
    (case Decode v of
       None \<Rightarrow> Consume handle rs s
     | Some e \<Rightarrow> Consume handle rs (handle e s))"

section \<open>Facts\<close>

text \<open>The events published by a run, and the writers it was given.\<close>

fun published :: "step list \<Rightarrow> Event list" where
  "published [] = []"
| "published (Pub e # ss) = (if Valid e then e # published ss else published ss)"
| "published (s # ss) = published ss"

fun writers :: "step list \<Rightarrow> (Message list \<Rightarrow> Message list) list" where
  "writers [] = []"
| "writers (Receive w # ss) = w # writers ss"
| "writers (Ticker w # ss) = w # writers ss"
| "writers (s # ss) = writers ss"

definition in_flight :: "Producer \<Rightarrow> Message list" where
  "in_flight p = pr_topic p @ pr_batch p @ map encode (pr_ch p)"

definition lossless :: "(Message list \<Rightarrow> Message list) \<Rightarrow> bool" where
  "lossless w \<longleftrightarrow> (\<forall>b. w b = b)"

definition drops_only :: "(Message list \<Rightarrow> Message list) \<Rightarrow> bool" where
  "drops_only w \<longleftrightarrow> (\<forall>b. subseq (w b) b)"

lemma flush_in_flight: "drops_only w \<Longrightarrow> subseq (in_flight (flush w p)) (in_flight p)"
  by (auto simp: flush_def in_flight_def drops_only_def intro!: list_emb_append_mono)

lemma receive_in_flight: "drops_only w \<Longrightarrow> subseq (in_flight (loop_receive w p)) (in_flight p)"
proof (cases "pr_ch p")
  case (Cons e es)
  assume w: "drops_only w"
  let ?p1 = "p\<lparr>pr_ch := es, pr_batch := pr_batch p @ [encode e]\<rparr>"
  have "in_flight ?p1 = in_flight p" by (simp add: in_flight_def Cons)
  with flush_in_flight [OF w, of ?p1] show ?thesis
    by (simp add: loop_receive_def Cons Let_def)
qed (auto simp: loop_receive_def intro: flush_in_flight)

lemma step_in_flight:
  assumes "producer_step s p = Some p'" "\<forall>w \<in> set (writers [s]). drops_only w"
  shows "subseq (in_flight p') (in_flight p @ map encode (published [s]))"
proof (cases s)
  case (Pub e)
  with assms show ?thesis by (auto simp: Publish_def in_flight_def split: if_splits)
next
  case (Receive w)
  with assms show ?thesis by (auto intro: receive_in_flight)
next
  case (Ticker w)
  with assms show ?thesis by (auto intro: flush_in_flight)
next
  case CloseP
  with assms show ?thesis by (auto simp: Close_def in_flight_def)
qed

lemma published_Cons: "published (s # ss) = published [s] @ published ss"
  by (cases s) auto

lemma writers_Cons: "writers (s # ss) = writers [s] @ writers ss"
  by (cases s) auto

lemma run_in_flight:
  assumes "producer_run ss p = Some p'" "\<forall>w \<in> set (writers ss). drops_only w"
  shows "subseq (in_flight p') (in_flight p @ map encode (published ss))"
  using assms
proof (induction ss arbitrary: p)
  case (Cons s ss)
  from Cons.prems(1) obtain q where q: "producer_step s p = Some q" "producer_run ss q = Some p'"
    by (auto split: option.splits)
  have w: "\<forall>w \<in> set (writers [s]). drops_only w" "\<forall>w \<in> set (writers ss). drops_only w"
    using Cons.prems(2) by (simp_all add: writers_Cons [of s ss])
  have "subseq (in_flight p') (in_flight q @ map encode (published ss))"
    using q(2) w(2) by (rule Cons.IH)
  also have "subseq \<dots> ((in_flight p @ map encode (published [s])) @ map encode (published ss))"
    using step_in_flight [OF q(1) w(1)] by (rule list_emb_append_mono) simp
  finally show ?case by (simp add: published_Cons [of s ss])
qed simp

lemma subseq_set: "subseq xs ys \<Longrightarrow> set xs \<subseteq> set ys"
  by (induction rule: list_emb.induct) auto

lemma Consume_fold: "EndOfStream \<notin> set rs \<Longrightarrow>
  Consume handle rs s = fold handle (List.map_filter (\<lambda>r. case r of Msg v \<Rightarrow> Decode v | _ \<Rightarrow> None) rs) s"
proof (induction handle rs s rule: Consume.induct)
  case (4 handle v rs s)
  then show ?case by (cases "Decode v") (auto simp: List.map_filter_simps)
qed (auto simp: List.map_filter_simps)


section \<open>Properties\<close>

lemma producer_bounds:
  assumes "producer_run ss p = Some p'" "length (pr_ch p) \<le> bufferSize" "length (pr_batch p) < batchSize"
  shows "length (pr_ch p') \<le> bufferSize \<and> length (pr_batch p') < batchSize"
  using assms
proof (induction ss arbitrary: p)
  case (Cons s ss)
  from Cons.prems(1) obtain q where q: "producer_step s p = Some q" "producer_run ss q = Some p'"
    by (auto split: option.splits)
  have "length (pr_ch q) \<le> bufferSize \<and> length (pr_batch q) < batchSize"
    using q(1) Cons.prems(2,3)
    by (cases s)
      (auto simp: Publish_def loop_receive_def flush_def Close_def Let_def batchSize_def
        split: if_splits list.splits)
  then show ?case using Cons.IH [OF q(2)] by blast
qed simp

text \<open>
  Telemetry cannot hold anybody up and cannot garble: in any run of publishes, loop
  turns, ticks and closes from a fresh producer, what has landed on the topic is, in order, a
  subsequence of the valid events published, each under the key of its own shard, provided a
  Kafka write can lose messages but not reorder or invent them; the batch stays within its
  size and the buffer within its capacity.
\<close>

theorem telemetry_order:
  assumes "producer_run ss NewProducer = Some p"
    and "\<And>w. w \<in> set (writers ss) \<Longrightarrow> drops_only w"
  shows "subseq (map km_Value (pr_topic p)) (published ss) \<and>
    (\<forall>m. m \<in> set (pr_topic p) \<longrightarrow> km_Key m = e_Shard (km_Value m) \<and> Valid (km_Value m)) \<and>
    length (pr_batch p) < batchSize \<and> length (pr_ch p) \<le> bufferSize"
proof -
  have "subseq (pr_topic p) (in_flight p)"
    unfolding in_flight_def by (rule list_emb_prefix) simp
  also have "subseq (in_flight p) (map encode (published ss))"
    using run_in_flight [OF assms(1)] assms(2) by (simp add: in_flight_def NewProducer_def)
  finally have s: "subseq (pr_topic p) (map encode (published ss))" .
  then have "subseq (map km_Value (pr_topic p)) (map km_Value (map encode (published ss)))"
    by (rule subseq_map)
  then have order: "subseq (map km_Value (pr_topic p)) (published ss)"
    by (simp add: encode_def comp_def)
  have "Valid e" if "e \<in> set (published ss)" for e
    using that by (induction ss rule: published.induct) (auto split: if_splits)
  moreover have "set (pr_topic p) \<subseteq> set (map encode (published ss))"
    using s by (rule subseq_set)
  ultimately have keys: "km_Key m = e_Shard (km_Value m) \<and> Valid (km_Value m)"
    if "m \<in> set (pr_topic p)" for m
    using that by (auto simp: encode_def)
  have "length (pr_ch p) \<le> bufferSize \<and> length (pr_batch p) < batchSize"
    by (rule producer_bounds [OF assms(1)]) (simp_all add: NewProducer_def batchSize_def)
  with order keys show ?thesis by blast
qed

definition demo_event :: "Kind \<Rightarrow> token \<Rightarrow> gotime \<Rightarrow> Event" where
  "demo_event k t seen = \<lparr>e_Kind = k, e_EventID = ''ev'', e_Shard = ''s0000'', e_TokenID = t, e_At = seen,
    e_FPHash = ''fp'', e_IPPrefix = ''10.0.0.0/24'', e_IntervalMS = 5000, e_SolveMS = 0,
    e_Difficulty = 0, e_PointerEntropy = 0, e_Visible = True, e_WaitedMS = 0\<rparr>"

theorem telemetry_order_witness:
  "\<exists>p. producer_run [Pub (demo_event KindEnter ''a'' 1), Pub (demo_event KindHeartbeat ''b'' 2),
      Receive (\<lambda>_. []), Receive (\<lambda>_. []), Ticker (\<lambda>b. b)] NewProducer = Some p \<and>
    pr_topic p \<noteq> [] \<and>
    subseq (map km_Value (pr_topic p)) [demo_event KindEnter ''a'' 1, demo_event KindHeartbeat ''b'' 2]"
proof -
  let ?ss = "[Pub (demo_event KindEnter ''a'' 1), Pub (demo_event KindHeartbeat ''b'' 2),
      Receive (\<lambda>_. []), Receive (\<lambda>_. []), Ticker (\<lambda>b. b)]"
  have v: "Valid (demo_event KindEnter ''a'' 1)" "Valid (demo_event KindHeartbeat ''b'' 2)"
    by code_simp+
  then obtain p where p: "producer_run ?ss NewProducer = Some p" "pr_topic p \<noteq> []"
    by (auto simp: Publish_def NewProducer_def bufferSize_def batchSize_def loop_receive_def Let_def flush_def)
  have "drops_only w" if "w \<in> set (writers ?ss)" for w
    using that by (auto simp: drops_only_def)
  from telemetry_order [OF p(1) this] p v show ?thesis by (intro exI [of _ p]) simp
qed

end
