(* ===== verification/BotWindow.thy ===== *)
theory BotWindow
  imports Config Telemetry "HOL-Library.AList" "HOL-Library.Multiset"
begin

text \<open>
  The observation windows of the scorer, \<open>internal/botscore/window.go\<close>.  Go maps are
  association lists; the order in which a map is iterated is not specified by Go, so the
  snapshot takes it as an argument that may be any rearrangement.
\<close>

definition maxSamplesPerToken :: nat where "maxSamplesPerToken = 64"

record observation =
  ob_tokenID :: token
  ob_fpHash :: string
  ob_ipPrefix :: string
  ob_intervals :: "float64 list"
  ob_beats :: "int list"
  ob_powCost :: float64
  ob_hasPoW :: bool
  ob_lastSeen :: gotime

definition new_observation :: "token \<Rightarrow> observation" where
  "new_observation t = \<lparr>ob_tokenID = t, ob_fpHash = '''', ob_ipPrefix = '''', ob_intervals = [],
    ob_beats = [], ob_powCost = 0, ob_hasPoW = False, ob_lastSeen = 0\<rparr>"

definition appendCapped :: "'a list \<Rightarrow> 'a \<Rightarrow> 'a list" where
  "appendCapped s v = (if length s \<ge> maxSamplesPerToken then tl s @ [v] else s @ [v])"

fun double_up :: "nat \<Rightarrow> float64 \<Rightarrow> float64" where
  "double_up 0 v = v"
| "double_up (Suc n) v = double_up n (fmul v 2)"

definition exp2 :: "int \<Rightarrow> float64" where "exp2 n = double_up (nat n) 1"

definition add :: "Event \<Rightarrow> observation \<Rightarrow> observation" where
  "add e o0 =
    (let o1 = o0\<lparr>ob_lastSeen := e_At e\<rparr>;
         o2 = (if e_FPHash e \<noteq> '''' then o1\<lparr>ob_fpHash := e_FPHash e\<rparr> else o1);
         o3 = (if e_IPPrefix e \<noteq> '''' then o2\<lparr>ob_ipPrefix := e_IPPrefix e\<rparr> else o2)
     in if e_Kind e = KindHeartbeat then
          (let o4 = (if e_IntervalMS e > 0
                     then o3\<lparr>ob_intervals := appendCapped (ob_intervals o3) (float_of (e_IntervalMS e))\<rparr>
                     else o3)
           in o4\<lparr>ob_beats := appendCapped (ob_beats o4) (UnixMilli (e_At e))\<rparr>)
        else if e_Kind e = KindChallenge then
          (if e_SolveMS e > 0 \<and> e_Difficulty e > 0
           then o3\<lparr>ob_powCost := fdiv (float_of (e_SolveMS e)) (exp2 (e_Difficulty e)), ob_hasPoW := True\<rparr>
           else o3)
        else o3)"

definition samples :: "observation \<Rightarrow> int" where
  "samples ob = int (length (ob_beats ob)) + int (length (ob_intervals ob))"

type_synonym shardWindow = "(token \<times> observation) list"

definition observe :: "Event \<Rightarrow> shardWindow \<Rightarrow> shardWindow" where
  "observe e w =
    (let o0 = or_else (map_of w (e_TokenID e)) (new_observation (e_TokenID e))
     in AList.update (e_TokenID e) (add e o0) w)"

definition expire :: "gotime \<Rightarrow> shardWindow \<Rightarrow> shardWindow" where
  "expire before w = filter (\<lambda>(t, ob). \<not> ob_lastSeen ob < before) w"

type_synonym windows = "(string \<times> shardWindow) list"

definition windows_observe :: "Event \<Rightarrow> windows \<Rightarrow> windows" where
  "windows_observe e ws =
    (let w = or_else (map_of ws (e_Shard e)) [] in AList.update (e_Shard e) (observe e w) ws)"

text \<open>The orders Go iterates its maps in.\<close>

record iteration =
  it_shards :: "windows \<Rightarrow> windows"
  it_tokens :: "shardWindow \<Rightarrow> shardWindow"

definition expired :: "gotime \<Rightarrow> windows \<Rightarrow> windows" where
  "expired before ws = filter (\<lambda>(_, w). w \<noteq> []) (map (\<lambda>(sh, w). (sh, expire before w)) ws)"

definition snapshot :: "iteration \<Rightarrow> gotime \<Rightarrow> windows \<Rightarrow> (string \<times> observation list) list \<times> windows" where
  "snapshot it before ws =
    (let ws' = expired before ws
     in (map (\<lambda>(sh, w). (sh, map snd (it_tokens it w))) (it_shards it ws'), ws'))"

section \<open>The invariant of the windows\<close>

definition observation_ok :: "observation \<Rightarrow> bool" where
  "observation_ok ob \<longleftrightarrow>
     length (ob_intervals ob) \<le> maxSamplesPerToken \<and> length (ob_beats ob) \<le> maxSamplesPerToken \<and>
     list_all (\<lambda>x. 0 < x) (ob_intervals ob) \<and> 0 \<le> ob_powCost ob"

definition window_ok :: "shardWindow \<Rightarrow> bool" where
  "window_ok w \<longleftrightarrow> distinct (map fst w) \<and> (\<forall>(t, ob) \<in> set w. ob_tokenID ob = t \<and> observation_ok ob)"

definition windows_ok :: "windows \<Rightarrow> bool" where
  "windows_ok ws \<longleftrightarrow> distinct (map fst ws) \<and> (\<forall>(_, w) \<in> set ws. window_ok w)"

definition fair :: "iteration \<Rightarrow> bool" where
  "fair it \<longleftrightarrow> (\<forall>w. mset (it_tokens it w) = mset w) \<and> (\<forall>ws. mset (it_shards it ws) = mset ws)"

lemma update_member: "p \<in> set (AList.update k v al) \<Longrightarrow> p = (k, v) \<or> p \<in> set al"
  by (induction al) (auto split: if_splits)

lemma fair_set: "fair it \<Longrightarrow> set (it_tokens it w) = set w" "fair it \<Longrightarrow> set (it_shards it ws) = set ws"
  unfolding fair_def by (metis mset_eq_setD)+

lemma length_appendCapped: "length s \<le> maxSamplesPerToken \<Longrightarrow> length (appendCapped s v) \<le> maxSamplesPerToken"
  by (simp add: appendCapped_def maxSamplesPerToken_def)

lemma set_appendCapped: "set (appendCapped s v) \<subseteq> insert v (set s)"
  by (cases s) (auto simp: appendCapped_def)

lemma appendCapped_all: "list_all P s \<Longrightarrow> P v \<Longrightarrow> list_all P (appendCapped s v)"
  using set_appendCapped [of s v] by (auto simp: list_all_iff)

lemma float_of_pos: "0 < n \<Longrightarrow> 0 < float_of n"
  using fp.ge_one [of "of_int n :: rat"] by (simp add: float_of_def)

lemma double_up_ge: "1 \<le> v \<Longrightarrow> 1 \<le> double_up n v"
proof (induction n arbitrary: v)
  case (Suc n)
  from Suc.prems have "1 \<le> fmul v 2" unfolding fmul_def by (intro fp.ge_one) simp
  then show ?case by (simp add: Suc.IH)
qed simp

lemma new_observation_ok [simp]: "observation_ok (new_observation t)" "ob_tokenID (new_observation t) = t"
  by (simp_all add: new_observation_def observation_ok_def)

lemma add_tokenID [simp]: "ob_tokenID (add e ob) = ob_tokenID ob"
  by (simp add: add_def Let_def)

lemma add_lastSeen [simp]: "ob_lastSeen (add e ob) = e_At e"
  by (simp add: add_def Let_def)

lemma add_ok: "observation_ok ob \<Longrightarrow> observation_ok (add e ob)"
proof -
  assume ok: "observation_ok ob"
  have "0 \<le> fdiv (float_of (e_SolveMS e)) (exp2 (e_Difficulty e))" if "0 < e_SolveMS e"
    using float_of_pos [OF that] double_up_ge [of 1]
    unfolding fdiv_def exp2_def by (intro fp.nonneg divide_nonneg_nonneg) (auto intro: order_trans [of 0 1])
  with ok show ?thesis
    by (auto simp: add_def Let_def observation_ok_def length_appendCapped
      intro!: appendCapped_all float_of_pos)
qed

lemma observe_ok: "window_ok w \<Longrightarrow> window_ok (observe e w)"
proof -
  assume ok: "window_ok w"
  let ?o = "or_else (map_of w (e_TokenID e)) (new_observation (e_TokenID e))"
  have "ob_tokenID ?o = e_TokenID e \<and> observation_ok ?o"
    using ok by (cases "map_of w (e_TokenID e)") (auto simp: window_ok_def dest: map_of_SomeD)
  then have "ob_tokenID (add e ?o) = e_TokenID e \<and> observation_ok (add e ?o)" by (simp add: add_ok)
  then show ?thesis
    using ok unfolding window_ok_def observe_def Let_def
    by (auto simp: distinct_update dest!: update_member)
qed

lemma expire_ok: "window_ok w \<Longrightarrow> window_ok (expire before w)"
  by (auto simp: window_ok_def expire_def distinct_map inj_on_def intro: distinct_filter)

lemma windows_observe_ok: "windows_ok ws \<Longrightarrow> windows_ok (windows_observe e ws)"
proof -
  assume ok: "windows_ok ws"
  have "window_ok (or_else (map_of ws (e_Shard e)) [])"
    using ok by (cases "map_of ws (e_Shard e)") (auto simp: windows_ok_def window_ok_def dest: map_of_SomeD)
  then have "window_ok (observe e (or_else (map_of ws (e_Shard e)) []))" by (rule observe_ok)
  then show ?thesis
    using ok unfolding windows_ok_def windows_observe_def Let_def
    by (auto simp: distinct_update dest!: update_member)
qed

lemma expired_ok: "windows_ok ws \<Longrightarrow> windows_ok (expired before ws)"
  by (auto simp: windows_ok_def expired_def distinct_map inj_on_def comp_def case_prod_beta
    intro!: distinct_filter intro: expire_ok)

lemma snapshot_members:
  assumes "fair it" "windows_ok ws" "(sh, obs) \<in> set (fst (snapshot it before ws))" "ob \<in> set obs"
  shows "observation_ok ob \<and> before \<le> ob_lastSeen ob"
proof -
  from assms(1,3) obtain w where w: "(sh, w) \<in> set (expired before ws)" "obs = map snd (it_tokens it w)"
    by (auto simp: snapshot_def Let_def fair_set)
  then have "ob \<in> snd ` set w"
    using assms(1,4) by (simp add: fair_set)
  moreover from w(1) obtain w0 where w0: "(sh, w0) \<in> set ws" "w = expire before w0"
    by (auto simp: expired_def)
  moreover have "window_ok w0" using assms(2) w0(1) by (auto simp: windows_ok_def)
  ultimately show ?thesis by (auto simp: window_ok_def expire_def)
qed

end
