(* ===== verification/BotSignals.thy ===== *)
theory BotSignals
  imports BotWindow
begin

text \<open>
  The five signals of \<open>internal/botscore/signals.go\<close>: the summary of a shard's
  observations and, against it, the partial scores of one token.
\<close>

section \<open>Robust and plain averages\<close>

definition clamp01 :: "float64 \<Rightarrow> float64" where
  "clamp01 v = (if v < 0 then 0 else if v > 1 then 1 else v)"

definition sq_dev :: "float64 \<Rightarrow> float64 \<Rightarrow> float64" where
  "sq_dev mean x = (let d = fsub x mean in fmul d d)"

fun fsum :: "float64 \<Rightarrow> float64 list \<Rightarrow> float64" where
  "fsum acc [] = acc"
| "fsum acc (x # xs) = fsum (fadd acc x) xs"

definition meanStd :: "float64 list \<Rightarrow> float64 \<times> float64" where
  "meanStd xs =
    (if xs = [] then (0, 0)
     else let mean = fdiv (fsum 0 xs) (float_of (int (length xs)))
          in if length xs < 2 then (mean, 0)
             else (mean, math_Sqrt (fdiv (fsum 0 (map (sq_dev mean) xs)) (float_of (int (length xs) - 1)))))"

definition medianOf :: "float64 list \<Rightarrow> float64" where
  "medianOf xs =
    (let ys = sort xs; n = length ys
     in if n = 0 then 0
        else if n mod 2 = 1 then ys ! (n div 2)
        else fdiv (fadd (ys ! (n div 2 - 1)) (ys ! (n div 2))) 2)"

definition abs_dev :: "float64 \<Rightarrow> float64 \<Rightarrow> float64" where
  "abs_dev mid x = \<bar>fsub x mid\<bar>"

definition medianMAD :: "float64 list \<Rightarrow> float64 \<times> float64" where
  "medianMAD xs =
    (if xs = [] then (0, 0)
     else let mid = medianOf xs
          in if length xs < 2 then (mid, 0)
             else (mid, fmul (rnd (14826 / 10000)) (medianOf (map (abs_dev mid) xs))))"

definition center :: "float64 list \<Rightarrow> BotScore_cfg \<Rightarrow> float64 \<times> float64" where
  "center xs cfg = (if \<not> bs_RobustBaseline cfg then meanStd xs else medianMAD xs)"

definition coefficientOfVariation :: "float64 list \<Rightarrow> float64 option" where
  "coefficientOfVariation xs =
    (if length xs < 2 then None
     else case meanStd xs of (mean, std) \<Rightarrow> if mean \<le> 0 then None else Some (fdiv std mean))"

section \<open>The summary of a shard\<close>

datatype Signal = SignalHeartbeat | SignalCorrelation | SignalFingerprint | SignalIPPrefix | SignalPoW

type_synonym Signals = "(Signal \<times> float64) list"

record shardStats =
  ss_tokens :: int
  ss_cvMean :: float64
  ss_cvStd :: float64
  ss_powMean :: float64
  ss_powStd :: float64
  ss_fpGroups :: "(string \<times> int) list"
  ss_ipGroups :: "(string \<times> int) list"
  ss_binCounts :: "(int \<times> int) list"
  ss_binTotal :: int

definition count_of :: "('k \<times> int) list \<Rightarrow> 'k \<Rightarrow> int" where
  "count_of m k = or_else (map_of m k) 0"

definition incr :: "'k \<Rightarrow> ('k \<times> int) list \<Rightarrow> ('k \<times> int) list" where
  "incr k m = AList.update k (count_of m k + 1) m"

text \<open>The distinct bins of one token, in the order of their first beat.\<close>

fun token_bins :: "int \<Rightarrow> int list \<Rightarrow> int list \<Rightarrow> int list" where
  "token_bins binMS seen [] = []"
| "token_bins binMS seen (b # bs) =
    (let bin = quot b binMS
     in if bin \<in> set seen then token_bins binMS seen bs
        else bin # token_bins binMS (bin # seen) bs)"

definition group_counts :: "string list \<Rightarrow> (string \<times> int) list" where
  "group_counts ks = fold incr (filter (\<lambda>k. k \<noteq> '''') ks) []"

definition analyze_stats :: "observation list \<Rightarrow> BotScore_cfg \<Rightarrow> shardStats" where
  "analyze_stats obs cfg =
    (let binMS = Milliseconds (bs_SyncBin cfg);
         bins = concat (map (token_bins binMS [] \<circ> ob_beats) obs);
         cvs = List.map_filter (coefficientOfVariation \<circ> ob_intervals) obs;
         pows = map ob_powCost (filter ob_hasPoW obs)
     in \<lparr>ss_tokens = int (length obs),
         ss_cvMean = fst (center cvs cfg), ss_cvStd = snd (center cvs cfg),
         ss_powMean = fst (center pows cfg), ss_powStd = snd (center pows cfg),
         ss_fpGroups = group_counts (map ob_fpHash obs),
         ss_ipGroups = group_counts (map ob_ipPrefix obs),
         ss_binCounts = fold incr bins [], ss_binTotal = int (length bins)\<rparr>)"

text \<open>The division by a bin of zero milliseconds panics as soon as a token has a beat.\<close>

definition analyze :: "observation list \<Rightarrow> BotScore_cfg \<Rightarrow> shardStats option" where
  "analyze obs cfg =
    (if Milliseconds (bs_SyncBin cfg) = 0 \<and> list_ex (\<lambda>ob. ob_beats ob \<noteq> []) obs then None
     else Some (analyze_stats obs cfg))"

section \<open>The signals of a token\<close>

definition below :: "float64 \<Rightarrow> float64 \<Rightarrow> float64 \<Rightarrow> float64 \<Rightarrow> float64" where
  "below mid scale x zspan = clamp01 (fdiv (fdiv (fsub mid x) scale) zspan)"

definition heartbeatSignal :: "observation \<Rightarrow> shardStats \<Rightarrow> BotScore_cfg \<Rightarrow> float64 option" where
  "heartbeatSignal ob st cfg =
    (case coefficientOfVariation (ob_intervals ob) of
       None \<Rightarrow> None
     | Some cv \<Rightarrow>
         let absolute = (if cv < bs_HeartbeatCVFloor cfg then fsub 1 (fdiv cv (bs_HeartbeatCVFloor cfg)) else 0);
             relative = (if ss_cvStd st > 0
                         then below (ss_cvMean st) (ss_cvStd st) cv (bs_SignalZSpan cfg) else 0)
         in Some (max absolute relative))"

definition excess :: "shardStats \<Rightarrow> float64 \<Rightarrow> int \<Rightarrow> float64" where
  "excess st expected bin =
    clamp01 (fdiv (fsub (float_of (count_of (ss_binCounts st) bin)) expected)
                  (fsub (float_of (ss_tokens st)) expected))"

definition correlationSignal :: "observation \<Rightarrow> shardStats \<Rightarrow> BotScore_cfg \<Rightarrow> float64 option" where
  "correlationSignal ob st cfg =
    (if ob_beats ob = [] \<or> ss_tokens st < 2 \<or> ss_binTotal st = 0 then None
     else let expected = fdiv (float_of (ss_binTotal st)) (float_of (int (length (ss_binCounts st))));
              bins = token_bins (Milliseconds (bs_SyncBin cfg)) [] (ob_beats ob);
              headroom = fsub (float_of (ss_tokens st)) expected;
              counted = (if headroom \<le> 0 then [] else bins)
          in if counted = [] then None
             else Some (fdiv (fsum 0 (map (excess st expected) counted)) (float_of (int (length counted)))))"

definition groupSignal :: "int \<Rightarrow> int \<Rightarrow> bool \<Rightarrow> float64 option" where
  "groupSignal n cap present =
    (if \<not> present \<or> n \<le> 1 \<or> cap \<le> 1 then (if present \<and> n > 0 then Some 0 else None)
     else Some (clamp01 (fdiv (float_of (n - 1)) (float_of (cap - 1)))))"

definition powSignal :: "observation \<Rightarrow> shardStats \<Rightarrow> BotScore_cfg \<Rightarrow> float64 option" where
  "powSignal ob st cfg =
    (if \<not> ob_hasPoW ob \<or> ss_powStd st \<le> 0 then None
     else Some (below (ss_powMean st) (ss_powStd st) (ob_powCost ob) (bs_SignalZSpan cfg)))"

definition evaluate :: "observation \<Rightarrow> shardStats \<Rightarrow> BotScore_cfg \<Rightarrow> Signals" where
  "evaluate ob st cfg =
    List.map_filter (\<lambda>(name, v). map_option (Pair name) v)
      [(SignalHeartbeat, heartbeatSignal ob st cfg),
       (SignalCorrelation, correlationSignal ob st cfg),
       (SignalFingerprint,
          groupSignal (count_of (ss_fpGroups st) (ob_fpHash ob)) (bs_FPGroupCap cfg) (ob_fpHash ob \<noteq> '''')),
       (SignalIPPrefix,
          groupSignal (count_of (ss_ipGroups st) (ob_ipPrefix ob)) (bs_IPGroupCap cfg) (ob_ipPrefix ob \<noteq> '''')),
       (SignalPoW, powSignal ob st cfg)]"

section \<open>Bounds\<close>

lemma clamp01_bounds [simp]: "0 \<le> clamp01 v" "clamp01 v \<le> 1"
  by (simp_all add: clamp01_def)

lemma fsum_nonneg: "0 \<le> acc \<Longrightarrow> \<forall>x \<in> set xs. 0 \<le> x \<Longrightarrow> 0 \<le> fsum acc xs"
  by (induction acc xs rule: fsum.induct) (auto simp: fadd_def fp.nonneg)

lemma fsum_le:
  "acc \<le> of_int k \<Longrightarrow> 0 \<le> k \<Longrightarrow> \<forall>x \<in> set xs. x \<le> 1 \<Longrightarrow> k + int (length xs) \<le> 2 ^ 53 \<Longrightarrow>
   fsum acc xs \<le> of_int (k + int (length xs))"
proof (induction acc xs arbitrary: k rule: fsum.induct)
  case (2 acc x xs)
  have "fadd acc x \<le> of_int (k + 1)"
    unfolding fadd_def using "2.prems" by (intro fp.le_int) auto
  from "2.IH" [OF this] "2.prems" show ?case by (simp add: ac_simps)
qed simp

lemma meanStd_nonneg: "0 \<le> snd (meanStd xs)"
  by (simp add: meanStd_def Let_def math_Sqrt_nonneg)

lemma coefficientOfVariation_nonneg: "coefficientOfVariation xs = Some cv \<Longrightarrow> 0 \<le> cv"
  using meanStd_nonneg [of xs]
  by (auto simp: coefficientOfVariation_def fdiv_def split: if_splits prod.splits intro!: fp.nonneg)

lemma below_bounds [simp]: "0 \<le> below m s x z" "below m s x z \<le> 1"
  by (simp_all add: below_def)

lemma excess_bounds [simp]: "0 \<le> excess st e b" "excess st e b \<le> 1"
  by (simp_all add: excess_def)

lemma heartbeatSignal_unit: "heartbeatSignal ob st cfg = Some v \<Longrightarrow> 0 \<le> v \<and> v \<le> 1"
proof -
  assume "heartbeatSignal ob st cfg = Some v"
  then obtain cv where cv: "coefficientOfVariation (ob_intervals ob) = Some cv"
    and v: "v = max (if cv < bs_HeartbeatCVFloor cfg then fsub 1 (fdiv cv (bs_HeartbeatCVFloor cfg)) else 0)
      (if ss_cvStd st > 0 then below (ss_cvMean st) (ss_cvStd st) cv (bs_SignalZSpan cfg) else 0)"
    by (auto simp: heartbeatSignal_def Let_def split: option.splits)
  have "fsub 1 (fdiv cv f) \<le> 1" if "cv < f" for f
    unfolding fsub_def fdiv_def using that coefficientOfVariation_nonneg [OF cv]
    by (intro fp.le_one) (simp add: fp.nonneg)
  then show ?thesis using v by (auto simp: le_max_iff_disj)
qed

lemma token_bins_length: "length (token_bins m seen bs) \<le> length bs"
  by (induction m seen bs rule: token_bins.induct) (auto simp: Let_def)

lemma correlationSignal_unit:
  assumes "correlationSignal ob st cfg = Some v" "length (ob_beats ob) \<le> maxSamplesPerToken"
  shows "0 \<le> v \<and> v \<le> 1"
proof -
  obtain e bins where v: "v = fdiv (fsum 0 (map (excess st e) bins)) (float_of (int (length bins)))"
    and b: "bins \<noteq> []" "length bins \<le> length (ob_beats ob)"
    using assms(1) token_bins_length by (auto simp: correlationSignal_def Let_def split: if_splits)
  let ?n = "int (length bins)"
  have n: "?n \<le> 2 ^ 53" "1 \<le> ?n"
    using b assms(2) by (auto simp: maxSamplesPerToken_def Suc_le_eq)
  then have f: "float_of ?n = of_int ?n" unfolding float_of_def by (intro rnd_of_int) simp
  have "fsum 0 (map (excess st e) bins) \<le> of_int ?n"
    using fsum_le [of 0 0 "map (excess st e) bins"] n by simp
  moreover have "0 \<le> fsum 0 (map (excess st e) bins)" by (rule fsum_nonneg) auto
  ultimately show ?thesis
    unfolding v fdiv_def f using n by (auto intro!: fp.nonneg fp.le_one simp: divide_le_eq)
qed

lemma groupSignal_unit: "groupSignal g c p = Some v \<Longrightarrow> 0 \<le> v \<and> v \<le> 1"
  by (auto simp: groupSignal_def split: if_splits)

lemma powSignal_unit: "powSignal ob st cfg = Some v \<Longrightarrow> 0 \<le> v \<and> v \<le> 1"
  by (auto simp: powSignal_def split: if_splits)

definition signals_ok :: "Signals \<Rightarrow> bool" where
  "signals_ok sig \<longleftrightarrow> distinct (map fst sig) \<and> (\<forall>v \<in> snd ` set sig. 0 \<le> v \<and> v \<le> 1)"

lemma set_map_filter: "set (List.map_filter f xs) = {y. \<exists>x \<in> set xs. f x = Some y}"
  by (induction xs) (auto simp: List.map_filter_simps split: option.splits)

lemma map_filter_fst_distinct:
  "distinct (map fst xs) \<Longrightarrow>
   distinct (map fst (List.map_filter (\<lambda>(name, v). map_option (Pair name) v) xs))"
  by (induction xs) (auto simp: List.map_filter_simps set_map_filter image_iff split: option.splits)

lemma evaluate_ok: "observation_ok ob \<Longrightarrow> signals_ok (evaluate ob st cfg)"
  unfolding signals_ok_def
proof
  assume ok: "observation_ok ob"
  show "distinct (map fst (evaluate ob st cfg))"
    unfolding evaluate_def by (rule map_filter_fst_distinct) simp
  show "\<forall>v \<in> snd ` set (evaluate ob st cfg). 0 \<le> v \<and> v \<le> 1"
    unfolding evaluate_def set_map_filter
    using heartbeatSignal_unit [of ob st cfg] correlationSignal_unit [of ob st cfg] ok
      groupSignal_unit powSignal_unit [of ob st cfg]
    by (auto simp: observation_ok_def)
qed

end
