(* ===== verification/BotRobust.thy ===== *)
theory BotRobust
  imports BotSignals
begin

text \<open>
  The robust baseline of the relative signals: the median and the scaled median deviation
  cannot be moved out of the range of the honest samples by an attacker who owns less than
  half of them.
\<close>

section \<open>Numbers a float64 holds exactly\<close>

definition is_float :: "rat \<Rightarrow> bool" where
  "is_float x \<longleftrightarrow> (\<exists>m k. \<bar>m\<bar> \<le> 2 ^ 53 \<and> x = of_int m * pow2 k)"

lemma is_float_exact: "is_float x \<Longrightarrow> rnd x = x"
  by (auto simp: is_float_def rnd_exact)

lemma is_float_double: "is_float x \<Longrightarrow> is_float (2 * x)"
proof -
  assume "is_float x"
  then obtain m k where "\<bar>m\<bar> \<le> 2 ^ 53" "x = of_int m * pow2 k" by (auto simp: is_float_def)
  moreover have "pow2 (k + 1) = 2 * pow2 k" by (simp add: pow2_add) (simp add: pow2_def)
  ultimately show ?thesis by (intro is_float_def [THEN iffD2] exI [of _ m] exI [of _ "k + 1"]) simp
qed

lemma is_float_0 [simp]: "is_float 0"
  by (auto simp: is_float_def intro: exI [of _ 0])

lemma is_float_rnd: "is_float (rnd x)"
proof (cases "x = 0")
  case False
  let ?e = "exponent \<bar>x\<bar>" and ?s = "pow2 (52 - exponent \<bar>x\<bar>)"
  let ?m = "rne (x * ?s)"
  have "\<bar>x\<bar> < pow2 (?e + 1)" using exponent_bounds [of "\<bar>x\<bar>"] False by simp
  then have "\<bar>x\<bar> * ?s < pow2 (?e + 1) * ?s" by (rule mult_strict_right_mono) simp
  also have "\<dots> = pow2 53" by (simp flip: pow2_add)
  finally have "\<bar>x * ?s\<bar> \<le> of_int (2 ^ 53)" by (simp add: abs_mult pow2_def)
  then have "?m \<le> 2 ^ 53" "- (2 ^ 53) \<le> ?m"
    by (intro rne_le_int rne_ge_int; simp)+
  moreover have "rnd x = of_int ?m * pow2 (?e - 52)"
    using False pow2_diff [of 0 "52 - ?e"] by (simp add: rnd_def Let_def)
  ultimately show ?thesis unfolding is_float_def by (intro exI [of _ ?m] exI [of _ "?e - 52"]) simp
qed simp

section \<open>The median of a list with a majority in a range\<close>

definition between :: "rat \<Rightarrow> rat \<Rightarrow> rat \<Rightarrow> bool" where
  "between lo hi x \<longleftrightarrow> lo \<le> x \<and> x \<le> hi"

definition majority :: "('a \<Rightarrow> bool) \<Rightarrow> 'a list \<Rightarrow> bool" where
  "majority P xs \<longleftrightarrow> length xs < 2 * length (filter P xs)"

lemma low_nth:
  assumes "sorted ys" "i < length ys" "ys ! i < lo"
  shows "length (filter (between lo hi) ys) \<le> length ys - Suc i"
proof -
  have "x \<le> ys ! i" if "x \<in> set (take (Suc i) ys)" for x
    using that assms(1,2) by (auto simp: in_set_conv_nth sorted_nth_mono)
  then have "filter (between lo hi) (take (Suc i) ys) = []"
    using assms(3) by (fastforce simp: filter_empty_conv between_def)
  then have "filter (between lo hi) ys = filter (between lo hi) (drop (Suc i) ys)"
    by (metis append_Nil append_take_drop_id filter_append)
  then show ?thesis by (metis length_drop length_filter_le)
qed

lemma high_nth:
  assumes "sorted ys" "i < length ys" "hi < ys ! i"
  shows "length (filter (between lo hi) ys) \<le> i"
proof -
  have "ys ! i \<le> x" if "x \<in> set (drop i ys)" for x
    using that assms(1,2) by (auto simp: in_set_conv_nth sorted_nth_mono)
  then have "filter (between lo hi) (drop i ys) = []"
    using assms(3) by (fastforce simp: filter_empty_conv between_def)
  then have "filter (between lo hi) ys = filter (between lo hi) (take i ys)"
    by (metis append_Nil2 append_take_drop_id filter_append)
  then show ?thesis by (metis length_filter_le length_take min.cobounded2 order_trans)
qed

lemma half_mean:
  assumes "between lo hi a" "between lo hi b" "is_float lo" "is_float hi"
  shows "between lo hi (fdiv (fadd a b) 2)"
proof -
  have "rnd (2 * lo) \<le> fadd a b" "fadd a b \<le> rnd (2 * hi)"
    unfolding fadd_def using assms(1,2) by (auto simp: between_def intro!: rnd_mono)
  then have "2 * lo \<le> fadd a b" "fadd a b \<le> 2 * hi"
    using is_float_exact [OF is_float_double] assms(3,4) by simp_all
  then have "rnd lo \<le> fdiv (fadd a b) 2" "fdiv (fadd a b) 2 \<le> rnd hi"
    unfolding fdiv_def by (auto intro!: rnd_mono)
  then show ?thesis using is_float_exact assms(3,4) by (simp add: between_def)
qed

lemma medianOf_within:
  assumes "majority (between lo hi) xs" "is_float lo" "is_float hi"
  shows "between lo hi (medianOf xs)"
proof -
  let ?ys = "sort xs" and ?n = "length xs"
  have "mset (filter (between lo hi) ?ys) = mset (filter (between lo hi) xs)" by simp
  then have m: "?n < 2 * length (filter (between lo hi) ?ys)"
    using assms(1) by (metis majority_def size_mset)
  have n: "0 < ?n" using assms(1) by (cases xs) (simp_all add: majority_def)
  have mid: "between lo hi (?ys ! (?n div 2))"
    using low_nth [of ?ys "?n div 2" lo hi] high_nth [of ?ys "?n div 2" hi lo] m n
    by (fastforce simp: between_def not_le)
  have left: "between lo hi (?ys ! (?n div 2 - 1))" if "?n mod 2 \<noteq> 1"
  proof -
    from that n have "2 * (?n div 2) = ?n" "0 < ?n div 2" by presburger+
    then show ?thesis
      using low_nth [of ?ys "?n div 2 - 1" lo hi] high_nth [of ?ys "?n div 2 - 1" hi lo] m n
      by (fastforce simp: between_def not_le)
  qed
  have "?ys \<noteq> []" using n by (metis length_greater_0_conv length_sort)
  then show ?thesis
    using mid left half_mean [OF left mid assms(2,3)] by (auto simp: medianOf_def Let_def)
qed

text \<open>
  C32. The robust baseline holds against a minority: whatever an attacker who owns less than
  half of the samples of a shard feeds in, the centre stays within the range of the honest
  samples, and the scale is at most 1.4826 times the width of that range (each operation
  rounded); so the z-scores of a token are measured against the honest population.
\<close>

theorem robust_baseline:
  assumes "bs_RobustBaseline cfg" "majority (between lo hi) xs" "is_float lo" "is_float hi"
    "center xs cfg = (mid, scale)"
  shows "lo \<le> mid \<and> mid \<le> hi \<and> 0 \<le> scale \<and> scale \<le> fmul (rnd (14826 / 10000)) (fsub hi lo)"
proof -
  have ne: "xs \<noteq> []" using assms(2) by (auto simp: majority_def)
  then have mid: "mid = medianOf xs" and scale: "scale = (if length xs < 2 then 0
      else fmul (rnd (14826 / 10000)) (medianOf (map (abs_dev mid) xs)))"
    using assms(1,5) by (auto simp: center_def medianMAD_def Let_def split: if_splits)
  have c: "lo \<le> mid" "mid \<le> hi"
    using medianOf_within [OF assms(2-4)] by (simp_all add: mid between_def)
  have k: "0 \<le> rnd (14826 / 10000)" by (rule fp.nonneg) simp
  have w: "0 \<le> fsub hi lo" using c unfolding fsub_def by (intro fp.nonneg) simp
  have dev: "between 0 (fsub hi lo) (abs_dev mid x)" if "between lo hi x" for x
  proof -
    have "rnd (x - mid) \<le> rnd (hi - lo)" "rnd (- (x - mid)) \<le> rnd (hi - lo)"
      using that c by (auto simp: between_def intro!: rnd_mono)
    then show ?thesis by (simp only: rnd_minus) (simp add: between_def abs_dev_def fsub_def)
  qed
  have "length (filter (between lo hi) xs) \<le> length (filter (between 0 (fsub hi lo)) (map (abs_dev mid) xs))"
    using dev by (induction xs) (auto simp: le_SucI)
  then have "majority (between 0 (fsub hi lo)) (map (abs_dev mid) xs)"
    using assms(2) by (simp add: majority_def)
  from medianOf_within [OF this] have "between 0 (fsub hi lo) (medianOf (map (abs_dev mid) xs))"
    by (simp add: is_float_rnd fsub_def)
  with k w c show ?thesis
    unfolding scale fmul_def by (auto simp: between_def intro!: fp.nonneg rnd_mono mult_left_mono)
qed

theorem robust_baseline_witness:
  "fst (center [4900, 5000, 5100, 0, 0] default_BotScore) \<le> 5100"
proof -
  have "is_float (of_int n)" if "\<bar>n\<bar> \<le> 2 ^ 53" for n
    using that unfolding is_float_def by (intro exI [of _ n] exI [of _ 0]) simp
  from this [of 4900] this [of 5100] have "is_float 4900" "is_float 5100" by simp_all
  moreover have "majority (between 4900 5100) [4900, 5000, 5100, 0, 0]"
    by (simp add: majority_def between_def)
  moreover have "bs_RobustBaseline default_BotScore" by (simp add: default_BotScore_def)
  ultimately show ?thesis using robust_baseline by (metis prod.collapse)
qed

end
