(* ===== verification/Sweeping.thy ===== *)
theory Sweeping
  imports SlotRuns QueueStore
begin

text \<open>
  What repeated sweeps of one shard achieve (\<open>Sweep\<close> of \<open>src/internal/queue/queue.go\<close> over
  \<open>src/scripts/lua/evict.lua\<close>, as \<open>src/internal/queue/sweeper.go\<close> calls it): every sweep starts
  at the cursor the last one answered.  While nobody joins or leaves, a lap takes as many sweeps
  as there are batches, and reaches everybody.
\<close>

section \<open>The sweeps of one shard\<close>

text \<open>
  \<open>sweeps s sh n now r r' cur\<close>: the \<open>i\<close>-th sweep finds the store \<open>r i\<close>, starts at \<open>cur i\<close>,
  leaves \<open>r' i\<close> and succeeds; what others do to the store between the sweeps is open.
\<close>

definition sweeps :: "Store \<Rightarrow> string \<Rightarrow> (nat \<Rightarrow> net) \<Rightarrow> (nat \<Rightarrow> gotime) \<Rightarrow> (nat \<Rightarrow> redis) \<Rightarrow> (nat \<Rightarrow> redis) \<Rightarrow>
    (nat \<Rightarrow> int) \<Rightarrow> bool" where
  "sweeps s sh n now r r' cur \<longleftrightarrow> cur 0 = 0 \<and>
     (\<forall>i. \<exists>res. Sweep (n i) (now i) sh (cur i) (s, r i) = (Inr res, s, r' i) \<and> cur (Suc i) = sr_NextOffset res)"

abbreviation line_of :: "Store \<Rightarrow> string \<Rightarrow> redis \<Rightarrow> zset" where
  "line_of s sh r \<equiv> zsets r (Queue (qc_EventID (st_cfg s)) sh)"

text \<open>One sweep is one run of the script.\<close>

lemma Sweep_runs:
  assumes "Sweep n now sh off (s, r) = (Inr res, s', r')"
  obtains L where "evict_lua (Queue (qc_EventID (st_cfg s)) sh) (UserPrefix (qc_EventID (st_cfg s)) sh)
      (UnixMilli now) (Milliseconds (StaleAfter s)) (Milliseconds (qc_EvictGrace (st_cfg s))) off
      (qc_SweepBatch (st_cfg s)) (Milliseconds (qc_EvictedRetain (st_cfg s))) (r\<lparr>loaded := L\<rparr>) =
    (Inr [LInt (sr_Scanned res), LInt (sr_Marked res), LInt (sr_Removed res), LInt (sr_Ghosts res),
       LInt (sr_NextOffset res), LInt (sr_Size res)], r')"
proof -
  let ?body = "evict_lua (Queue (qc_EventID (st_cfg s)) sh) (UserPrefix (qc_EventID (st_cfg s)) sh)
      (UnixMilli now) (Milliseconds (StaleAfter s)) (Milliseconds (qc_EvictGrace (st_cfg s))) off
      (qc_SweepBatch (st_cfg s)) (Milliseconds (qc_EvictedRetain (st_cfg s)))"
  from assms obtain vals where v: "call n ''evict.lua'' 6 ?body r = (Inr vals, r')"
    "res = \<lparr>sr_Scanned = asInt64 (vals ! 0), sr_Marked = asInt64 (vals ! 1), sr_Removed = asInt64 (vals ! 2),
       sr_Ghosts = asInt64 (vals ! 3), sr_NextOffset = asInt64 (vals ! 4), sr_Size = asInt64 (vals ! 5)\<rparr>"
    by (auto simp: Sweep_def Let_def split: option.splits prod.splits sum.splits)
  obtain L where L: "?body (r\<lparr>loaded := L\<rparr>) = (Inr vals, r')" by (rule call_once [OF v(1)])
  then show thesis
    by (intro that [of L]) (auto simp: v(2) evict_lua_def Let_def asInt64_def split: if_splits)
qed

lemma zrange_batch:
  assumes "0 \<le> a" "a < zcard z" "0 < b"
  shows "zrange z a (a + b - 1) = map snd (take (nat b) (drop (nat a) z))"
  using assms by (auto simp: zrange_def Let_def zcard_def max_def min_def intro!: arg_cong [where f = "map snd"])

lemma batch_length:
  assumes "0 \<le> a" "a < zcard z" "0 < b"
  shows "a + int (length (zrange z a (a + b - 1))) = min (a + b) (zcard z)"
  using assms by (simp add: zrange_batch) (simp add: zcard_def)

text \<open>The members a sweep of a quiet line looks at, and where the next one starts.\<close>

lemma Sweep_batch:
  assumes "Sweep n now sh off (s, r) = (Inr res, s', r')" "line_of s sh r = z" "0 \<le> off" "off < zcard z"
    "0 < qc_SweepBatch (st_cfg s)"
  shows "sr_NextOffset res =
      (if off + qc_SweepBatch (st_cfg s) < zcard z then off + qc_SweepBatch (st_cfg s) else 0)" (is ?next)
    and "\<exists>L. r' = sw_store (fold (evict_member (Queue (qc_EventID (st_cfg s)) sh) (UserPrefix (qc_EventID (st_cfg s)) sh)
        (UnixMilli now) (Milliseconds (StaleAfter s)) (Milliseconds (qc_EvictGrace (st_cfg s)))
        (Milliseconds (qc_EvictedRetain (st_cfg s))))
        (map snd (take (nat (qc_SweepBatch (st_cfg s))) (drop (nat off) z)))
        \<lparr>sw_store = r\<lparr>loaded := L\<rparr>, sw_marked = 0, sw_removed = 0, sw_ghosts = 0\<rparr>)" (is ?store)
proof -
  obtain L where e: "evict_lua (Queue (qc_EventID (st_cfg s)) sh) (UserPrefix (qc_EventID (st_cfg s)) sh)
      (UnixMilli now) (Milliseconds (StaleAfter s)) (Milliseconds (qc_EvictGrace (st_cfg s))) off
      (qc_SweepBatch (st_cfg s)) (Milliseconds (qc_EvictedRetain (st_cfg s))) (r\<lparr>loaded := L\<rparr>) =
    (Inr [LInt (sr_Scanned res), LInt (sr_Marked res), LInt (sr_Removed res), LInt (sr_Ghosts res),
       LInt (sr_NextOffset res), LInt (sr_Size res)], r')"
    by (rule Sweep_runs [OF assms(1)])
  from e assms(2-5) show ?next
    using batch_length [OF assms(3,4,5)] by (auto simp: evict_lua_def Let_def min_def split: if_splits)
  from e assms(2-5) show ?store
    using zrange_batch [OF assms(3,4,5)] by (auto simp: evict_lua_def Let_def split: if_splits)
qed

lemma sweeps_cursor:
  assumes "sweeps s sh n now r r' cur" "\<And>i. int i * qc_SweepBatch (st_cfg s) < zcard z \<Longrightarrow> line_of s sh (r i) = z"
    "0 < qc_SweepBatch (st_cfg s)" "int i * qc_SweepBatch (st_cfg s) < zcard z"
  shows "cur i = int i * qc_SweepBatch (st_cfg s)"
  using assms(4)
proof (induction i)
  case 0
  then show ?case using assms(1) by (simp add: sweeps_def)
next
  case (Suc i)
  let ?b = "qc_SweepBatch (st_cfg s)"
  have lt: "int i * ?b + ?b < zcard z" using Suc.prems by (simp add: algebra_simps)
  then have here: "int i * ?b < zcard z" using assms(3) by linarith
  obtain res where res: "Sweep (n i) (now i) sh (cur i) (s, r i) = (Inr res, s, r' i)" "cur (Suc i) = sr_NextOffset res"
    using assms(1) unfolding sweeps_def by blast
  have c: "cur i = int i * ?b" by (rule Suc.IH [OF here])
  show ?case
    using Sweep_batch(1) [OF res(1) assms(2) [OF here] _ _ assms(3)] here lt assms(3)
    by (simp add: res(2) c algebra_simps)
qed

lemma zrank_nth: "zrank z t = Some k \<Longrightarrow> 0 \<le> k \<and> k < zcard z \<and> snd (z ! nat k) = t"
  using nth_length_takeWhile [of "\<lambda>p. snd p \<noteq> t" z]
  by (auto simp: zrank_def zcard_def Let_def split: if_splits)

text \<open>The number of sweeps of a lap: the line divided into batches.\<close>

definition lap :: "Store \<Rightarrow> zset \<Rightarrow> nat" where
  "lap s z = nat ((zcard z + qc_SweepBatch (st_cfg s) - 1) div qc_SweepBatch (st_cfg s))"

lemma lap_bounds:
  assumes "0 < qc_SweepBatch (st_cfg s)" "i < lap s z"
  shows "int i * qc_SweepBatch (st_cfg s) < zcard z"
proof -
  let ?b = "qc_SweepBatch (st_cfg s)"
  have "int i + 1 \<le> (zcard z + ?b - 1) div ?b" using assms by (simp add: lap_def)
  then have "(int i + 1) * ?b \<le> (zcard z + ?b - 1) div ?b * ?b" using assms(1) by (intro mult_right_mono) auto
  moreover have "(zcard z + ?b - 1) div ?b * ?b \<le> zcard z + ?b - 1"
    using div_mult_mod_eq [of "zcard z + ?b - 1" ?b] pos_mod_sign [OF assms(1), of "zcard z + ?b - 1"] by linarith
  ultimately show ?thesis by (simp add: algebra_simps)
qed

lemma lap_last:
  assumes "0 < qc_SweepBatch (st_cfg s)"
  shows "zcard z \<le> int (lap s z) * qc_SweepBatch (st_cfg s)"
proof -
  let ?b = "qc_SweepBatch (st_cfg s)"
  have "0 \<le> (zcard z + ?b - 1) div ?b" using assms by (simp add: pos_imp_zdiv_nonneg_iff zcard_def)
  then have "int (lap s z) = (zcard z + ?b - 1) div ?b" by (simp add: lap_def)
  then have e: "int (lap s z) * ?b = (zcard z + ?b - 1) div ?b * ?b" by (rule arg_cong)
  show ?thesis
    unfolding e using div_mult_mod_eq [of "zcard z + ?b - 1" ?b] pos_mod_bound [OF assms, of "zcard z + ?b - 1"] by linarith
qed

lemma lap_positive: "0 < qc_SweepBatch (st_cfg s) \<Longrightarrow> z \<noteq> [] \<Longrightarrow> 0 < lap s z"
  using lap_last [of s z] by (cases "lap s z") (auto simp: zcard_def)

text \<open>
  C38. A lap ends: while the line does not change, the cursor is back at the front after as many
  sweeps as the line has batches, and not before.
\<close>

theorem sweep_lap_ends:
  assumes "sweeps s sh n now r r' cur" "0 < qc_SweepBatch (st_cfg s)" "z \<noteq> []"
    "\<And>i. i < lap s z \<Longrightarrow> line_of s sh (r i) = z"
  shows "0 < lap s z \<and> cur (lap s z) = 0 \<and> (\<forall>i. 0 < i \<longrightarrow> i < lap s z \<longrightarrow> cur i \<noteq> 0)"
proof -
  let ?b = "qc_SweepBatch (st_cfg s)"
  have below: "int i * ?b < zcard z \<longleftrightarrow> i < lap s z" for i
  proof
    assume "int i * ?b < zcard z"
    with lap_last [OF assms(2), of z] have "int i * ?b < int (lap s z) * ?b" by linarith
    with assms(2) show "i < lap s z" by (simp add: mult_less_cancel_right)
  qed (rule lap_bounds [OF assms(2)])
  have cur: "cur i = int i * ?b" if "i < lap s z" for i
    by (rule sweeps_cursor [OF assms(1) _ assms(2)]) (use assms(4) below that in blast)+
  have pos: "0 < lap s z" by (rule lap_positive [OF assms(2,3)])
  then obtain m where m: "lap s z = Suc m" by (cases "lap s z") auto
  obtain res where res: "Sweep (n m) (now m) sh (cur m) (s, r m) = (Inr res, s, r' m)" "cur (Suc m) = sr_NextOffset res"
    using assms(1) unfolding sweeps_def by blast
  have "cur (Suc m) = 0"
    using Sweep_batch(1) [OF res(1) assms(4) [of m] _ _ assms(2)] cur [of m] below [of m] below [of "Suc m"] m assms(2)
    by (simp add: res(2) algebra_simps split: if_splits)
  with pos cur assms(2) m show ?thesis by auto
qed

text \<open>A sweep that looks at a stale waiting user starts the user's grace period.\<close>

lemma evict_marks:
  assumes "distinct ts" "t \<in> set ts" "hget r (User ev sh t) u_state = Some ''waiting''"
    "hget r (User ev sh t) u_last_seen = Some l" "now - l > stale"
  shows "hget (sw_store (fold (evict_member (Queue ev sh) (UserPrefix ev sh) now stale grace ettl) ts
      \<lparr>sw_store = r, sw_marked = mk, sw_removed = rm, sw_ghosts = gh\<rparr>)) (User ev sh t) u_state = Some ''evicting''"
proof -
  let ?f = "evict_member (Queue ev sh) (UserPrefix ev sh) now stale grace ettl"
  let ?a = "\<lparr>sw_store = r, sw_marked = mk, sw_removed = rm, sw_ghosts = gh\<rparr>"
  obtain pre post where ts: "ts = pre @ t # post" "t \<notin> set pre" "t \<notin> set post"
    using assms(1,2) by (auto dest: split_list)
  let ?a1 = "fold ?f pre ?a"
  have u: "user_get (sw_store ?a1) (User ev sh t) = user_get r (User ev sh t)"
    using evict_fold_other [OF ts(2), of ev sh now stale grace ettl ?a] by simp
  then have h: "hget (sw_store ?a1) (User ev sh t) f = hget r (User ev sh t) f" for f by (simp add: hget_def)
  have "hget (sw_store (?f t ?a1)) (User ev sh t) u_state = Some ''evicting''"
    using assms(3-5) by (simp add: evict_member_def UserPrefix_User Let_def h) (simp add: hget_def redis_simps)
  with evict_fold_other [OF ts(3), of ev sh now stale grace ettl "?f t ?a1"] ts(1) show ?thesis
    by (simp add: hget_def)
qed

text \<open>
  C14. A lap reaches everybody: while the line does not change, a user who is waiting and has been
  silent for longer than the stale period when the sweep of its batch runs is in the grace
  period after that sweep, whatever place it has, and the sweep is one of the lap.
\<close>

theorem sweep_reaches_everyone:
  assumes "sweeps s sh n now r r' cur" "0 < qc_SweepBatch (st_cfg s)" "zwf z"
    "\<And>i. i < lap s z \<Longrightarrow> line_of s sh (r i) = z"
    "zrank z t = Some k" "j = nat (k div qc_SweepBatch (st_cfg s))"
    "hget (r j) (User (qc_EventID (st_cfg s)) sh t) u_state = Some ''waiting''"
    "hget (r j) (User (qc_EventID (st_cfg s)) sh t) u_last_seen = Some l"
    "UnixMilli (now j) - l > Milliseconds (StaleAfter s)"
  shows "j < lap s z \<and> hget (r' j) (User (qc_EventID (st_cfg s)) sh t) u_state = Some ''evicting''"
proof -
  let ?b = "qc_SweepBatch (st_cfg s)"
  have k: "0 \<le> k" "k < zcard z" "snd (z ! nat k) = t" using zrank_nth [OF assms(5)] by auto
  have j: "int j = k div ?b" using assms(2,6) k(1) by (simp add: pos_imp_zdiv_nonneg_iff)
  have jb: "int j * ?b \<le> k" "k < int j * ?b + ?b"
    unfolding j using div_mult_mod_eq [of k ?b] pos_mod_sign [OF assms(2), of k] pos_mod_bound [OF assms(2), of k] by linarith+
  have off: "int j * ?b < zcard z" using jb(1) k(2) by linarith
  have below: "i < lap s z" if "int i * ?b < zcard z" for i
  proof -
    from that lap_last [OF assms(2), of z] have "int i * ?b < int (lap s z) * ?b" by linarith
    with assms(2) show ?thesis by (simp add: mult_less_cancel_right)
  qed
  have cur: "cur j = int j * ?b" by (rule sweeps_cursor [OF assms(1) _ assms(2) off]) (use assms(4) below in blast)
  obtain res where res: "Sweep (n j) (now j) sh (cur j) (s, r j) = (Inr res, s, r' j)"
    using assms(1) unfolding sweeps_def by blast
  let ?ts = "map snd (take (nat ?b) (drop (nat (cur j)) z))"
  obtain L where st: "r' j = sw_store (fold (evict_member (Queue (qc_EventID (st_cfg s)) sh) (UserPrefix (qc_EventID (st_cfg s)) sh)
        (UnixMilli (now j)) (Milliseconds (StaleAfter s)) (Milliseconds (qc_EvictGrace (st_cfg s)))
        (Milliseconds (qc_EvictedRetain (st_cfg s)))) ?ts
        \<lparr>sw_store = (r j)\<lparr>loaded := L\<rparr>, sw_marked = 0, sw_removed = 0, sw_ghosts = 0\<rparr>)"
    using Sweep_batch(2) [OF res assms(4) [OF below [OF off]] _ _ assms(2)] off assms(2) by (auto simp: cur)
  have d: "distinct ?ts" using assms(3) by (simp add: zwf_def take_map [symmetric] drop_map [symmetric])
  have m: "t \<in> set ?ts"
  proof -
    have "z ! nat k = take (nat ?b) (drop (nat (cur j)) z) ! (nat k - nat (cur j))"
      using jb k assms(2) by (simp add: cur zcard_def nat_less_iff)
    moreover have "nat k - nat (cur j) < length (take (nat ?b) (drop (nat (cur j)) z))"
      using jb k assms(2) by (simp add: cur zcard_def) linarith
    ultimately have "z ! nat k \<in> set (take (nat ?b) (drop (nat (cur j)) z))" by (metis nth_mem)
    with k(3) show ?thesis by force
  qed
  have h: "user_get ((r j)\<lparr>loaded := L\<rparr>) key = user_get (r j) key" for key by (simp add: user_get_def live_def)
  have "hget (r' j) (User (qc_EventID (st_cfg s)) sh t) u_state = Some ''evicting''"
    unfolding st by (rule evict_marks [OF d m]) (use assms(7-9) in \<open>simp_all add: hget_def h\<close>)
  with below [OF off] show ?thesis by blast
qed

section \<open>A concrete lap\<close>

definition demo_quiet :: redis where
  "demo_quiet = run ''ev'' ''s0000'' [Enqueue_op ''b'' 1 0 0 LotteryBand ''f'' ''i'' 1000000,
     Enqueue_op ''c'' 1 0 0 LotteryBand ''f'' ''i'' 1000000] empty_redis"

abbreviation "demo_sweep off \<equiv> Sweep good_net 40000000000 ''s0000'' off (demo_store, demo_quiet)"

lemma demo_sweep_next:
  "case fst (demo_sweep 0) of Inl _ \<Rightarrow> False | Inr res \<Rightarrow> sr_NextOffset res = 1"
  "case fst (demo_sweep 1) of Inl _ \<Rightarrow> False | Inr res \<Rightarrow> sr_NextOffset res = 0"
  by code_simp+

lemma Sweep_store: "fst (snd (Sweep n now sh off (s, r))) = s"
  by (auto simp: Sweep_def Let_def split: option.splits prod.splits sum.splits)

lemma demo_sweeps:
  "sweeps demo_store ''s0000'' (\<lambda>_. good_net) (\<lambda>_. 40000000000) (\<lambda>_. demo_quiet)
     (\<lambda>i. snd (snd (demo_sweep (int i mod 2)))) (\<lambda>i. int i mod 2)"
proof -
  have "\<exists>res. demo_sweep (int i mod 2) = (Inr res, demo_store, snd (snd (demo_sweep (int i mod 2)))) \<and>
    int (Suc i) mod 2 = sr_NextOffset res" for i
  proof -
    have m: "int i mod 2 = (if even i then 0 else 1)" by presburger
    obtain res where res: "fst (demo_sweep (int i mod 2)) = Inr res"
      "sr_NextOffset res = (if even i then 1 else 0)"
      using demo_sweep_next m by (cases "even i") (auto split: sum.splits)
    moreover have "int (Suc i) mod 2 = (if even i then 1 else 0)" by presburger
    ultimately show ?thesis using Sweep_store [of good_net 40000000000 "''s0000''" "int i mod 2" demo_store demo_quiet]
      by (intro exI [of _ res]) (auto simp: prod_eq_iff)
  qed
  then show ?thesis by (simp add: sweeps_def)
qed

lemma demo_line_of:
  "line_of demo_store ''s0000'' demo_quiet = [(LotteryBand + 1, ''b''), (LotteryBand + 2, ''c'')]"
  by code_simp

lemma demo_batch: "qc_SweepBatch (st_cfg demo_store) = 1"
  by (simp add: demo_store_def demo_cfg_def)

lemma demo_lap: "lap demo_store [(LotteryBand + 1, ''b''), (LotteryBand + 2, ''c'')] = 2"
  by (simp add: lap_def demo_batch zcard_def)

theorem sweep_lap_ends_witness:
  "lap demo_store [(LotteryBand + 1, ''b''), (LotteryBand + 2, ''c'')] = 2 \<and> int 2 mod 2 = 0"
  using sweep_lap_ends [OF demo_sweeps, of "[(LotteryBand + 1, ''b''), (LotteryBand + 2, ''c'')]"] demo_line_of
  by (simp add: demo_lap demo_batch)

theorem sweep_reaches_everyone_witness:
  "hget (snd (snd (demo_sweep 1))) (User ''ev'' ''s0000'' ''c'') u_state = Some ''evicting''"
proof -
  let ?z = "[(LotteryBand + 1, ''b''), (LotteryBand + 2, ''c'')]"
  have ev: "qc_EventID (st_cfg demo_store) = ''ev''" by (simp add: demo_store_def demo_cfg_def)
  have "zwf ?z" "zrank ?z ''c'' = Some 1" by code_simp+
  moreover have "hget demo_quiet (User ''ev'' ''s0000'' ''c'') u_state = Some ''waiting''"
    "hget demo_quiet (User ''ev'' ''s0000'' ''c'') u_last_seen = Some 1"
    "UnixMilli 40000000000 - 1 > Milliseconds (StaleAfter demo_store)" by code_simp+
  ultimately show ?thesis
    using sweep_reaches_everyone [OF demo_sweeps, of ?z "''c''" 1 1 1] demo_line_of by (simp add: demo_batch ev)
qed

end
