(* ===== verification/BotScorer.thy ===== *)
theory BotScorer
  imports BotSignals
begin

text \<open>
  The scorer, \<open>internal/botscore/scorer.go\<close>: weighing the signals of a token, smoothing
  the score over the windows, and choosing the rung of the action ladder.  Its clock, and the
  order in which it meets the entries of Go maps, are arguments.
\<close>

datatype Action = ActionObserve | ActionGreylist | ActionHold | ActionBlock | ActionRestore

record Decision =
  dc_Shard :: string
  dc_TokenID :: token
  dc_Score :: float64
  dc_Action :: Action
  dc_Signals :: Signals
  dc_Contributing :: int
  dc_CappedFrom :: "Action option"

record Scorer =
  sc_cfg :: BotScore_cfg
  sc_win :: windows
  sc_scores :: "token \<rightharpoonup> float64"
  sc_states :: "token \<rightharpoonup> Action"

definition NewScorer :: "BotScore_cfg \<Rightarrow> Scorer" where
  "NewScorer cfg = \<lparr>sc_cfg = cfg, sc_win = [], sc_scores = Map.empty, sc_states = Map.empty\<rparr>"

definition score_of :: "Scorer \<Rightarrow> token \<Rightarrow> float64" where
  "score_of s t = or_else (sc_scores s t) 0"

text \<open>A missing key of a Go map reads as the zero value.\<close>

definition Clamp :: "token \<Rightarrow> Scorer \<Rightarrow> Scorer" where
  "Clamp t s =
    (let limit = float_of (bs_RechallengePassScore (sc_cfg s));
         s1 = (if score_of s t > limit then s\<lparr>sc_scores := (sc_scores s)(t \<mapsto> limit)\<rparr> else s)
     in s1\<lparr>sc_states := (sc_states s1)(t := None)\<rparr>)"

definition Observe :: "Event \<Rightarrow> Scorer \<Rightarrow> Scorer" where
  "Observe e s =
    (if \<not> Valid e then s
     else if e_Kind e = KindRechallenge then Clamp (e_TokenID e) s
     else s\<lparr>sc_win := windows_observe e (sc_win s)\<rparr>)"

definition Forget :: "token \<Rightarrow> Scorer \<Rightarrow> Scorer" where
  "Forget t s = s\<lparr>sc_scores := (sc_scores s)(t := None), sc_states := (sc_states s)(t := None)\<rparr>"

fun weight :: "Weights \<Rightarrow> Signal \<Rightarrow> float64" where
  "weight w SignalHeartbeat = wt_Heartbeat w"
| "weight w SignalCorrelation = wt_Correlation w"
| "weight w SignalFingerprint = wt_Fingerprint w"
| "weight w SignalIPPrefix = wt_IPPrefix w"
| "weight w SignalPoW = wt_PoW w"

fun combine_loop :: "BotScore_cfg \<Rightarrow> Signals \<Rightarrow> float64 \<Rightarrow> int \<Rightarrow> float64 \<times> int" where
  "combine_loop cfg [] score contributing = (score, contributing)"
| "combine_loop cfg ((name, v) # sig) score contributing =
    combine_loop cfg sig (fadd score (fmul (weight (bs_Weights cfg) name) v))
      (if v \<ge> bs_SignalMinContrib cfg then contributing + 1 else contributing)"

definition combine :: "BotScore_cfg \<Rightarrow> Signals \<Rightarrow> float64 \<times> int" where
  "combine cfg sig =
    (case combine_loop cfg sig 0 0 of (score, contributing) \<Rightarrow> (fmul (clamp01 score) 100, contributing))"

definition smooth :: "float64 \<Rightarrow> float64 \<Rightarrow> float64 \<Rightarrow> float64" where
  "smooth decay prev v = fadd (fmul prev decay) (fmul v (fsub 1 decay))"

definition accumulate :: "token \<Rightarrow> float64 \<Rightarrow> Scorer \<Rightarrow> float64 \<times> Scorer" where
  "accumulate t v s =
    (let score = smooth (bs_Decay (sc_cfg s)) (score_of s t) v
     in (score, s\<lparr>sc_scores := (sc_scores s)(t \<mapsto> score)\<rparr>))"

definition next_rung :: "BotScore_cfg \<Rightarrow> Action option \<Rightarrow> float64 \<Rightarrow> int \<Rightarrow> Action \<times> Action option" where
  "next_rung cfg prev score contributing =
    (if score \<ge> float_of (bs_Block cfg) then
       (if contributing < bs_MinSignalsToBlock cfg then (ActionHold, Some ActionBlock)
        else (ActionBlock, None))
     else if score \<ge> float_of (bs_Hold cfg) then (ActionHold, None)
     else if score \<ge> float_of (bs_Greylist cfg) then (ActionGreylist, None)
     else if prev = Some ActionGreylist \<or> prev = Some ActionHold then (ActionRestore, None)
     else (ActionObserve, None))"

definition action :: "token \<Rightarrow> float64 \<Rightarrow> int \<Rightarrow> Scorer \<Rightarrow> (Action \<times> Action option) \<times> Scorer" where
  "action t score contributing s =
    (let (next_action, capped) = next_rung (sc_cfg s) (sc_states s t) score contributing;
         states = (if next_action = ActionRestore then (sc_states s)(t := None)
                   else if next_action \<noteq> ActionObserve then (sc_states s)(t \<mapsto> next_action)
                   else sc_states s)
     in ((next_action, capped), s\<lparr>sc_states := states\<rparr>))"

definition decide :: "(Signals \<Rightarrow> Signals) \<Rightarrow> string \<Rightarrow> observation \<Rightarrow> shardStats \<Rightarrow> Scorer \<Rightarrow>
    Decision \<times> Scorer" where
  "decide ord shard ob st s =
    (let signals = evaluate ob st (sc_cfg s);
         (v, contributing) = combine (sc_cfg s) (ord signals);
         (score, s1) = accumulate (ob_tokenID ob) v s;
         ((next_action, capped), s2) = action (ob_tokenID ob) score contributing s1
     in (\<lparr>dc_Shard = shard, dc_TokenID = ob_tokenID ob, dc_Score = score, dc_Action = next_action,
          dc_Signals = signals, dc_Contributing = contributing, dc_CappedFrom = capped\<rparr>, s2))"

fun decide_tokens :: "(Signals \<Rightarrow> Signals) \<Rightarrow> string \<Rightarrow> shardStats \<Rightarrow> observation list \<Rightarrow> Scorer \<Rightarrow>
    Decision list \<times> Scorer" where
  "decide_tokens ord shard st [] s = ([], s)"
| "decide_tokens ord shard st (ob # obs) s =
    (if samples ob < bs_MinSamples (sc_cfg s) then decide_tokens ord shard st obs s
     else let (d, s1) = decide ord shard ob st s; (ds, s2) = decide_tokens ord shard st obs s1
          in (d # ds, s2))"

fun decide_shards :: "(Signals \<Rightarrow> Signals) \<Rightarrow> (string \<times> observation list) list \<Rightarrow> Scorer \<Rightarrow>
    (Decision list \<times> Scorer) option" where
  "decide_shards ord [] s = Some ([], s)"
| "decide_shards ord ((shard, obs) # rest) s =
    (case analyze obs (sc_cfg s) of
       None \<Rightarrow> None
     | Some st \<Rightarrow>
         let (ds, s1) = decide_tokens ord shard st obs s
         in (case decide_shards ord rest s1 of
               None \<Rightarrow> None
             | Some (ds', s2) \<Rightarrow> Some (ds @ ds', s2)))"

text \<open>One flush at time \<open>now\<close>; \<open>None\<close> is a panic.\<close>

definition Flush :: "iteration \<Rightarrow> (Signals \<Rightarrow> Signals) \<Rightarrow> gotime \<Rightarrow> Scorer \<Rightarrow>
    (Decision list \<times> Scorer) option" where
  "Flush it ord now s =
    (let (shards, win) = snapshot it (now - bs_Window (sc_cfg s)) (sc_win s)
     in (case decide_shards ord shards (s\<lparr>sc_win := win\<rparr>) of
           None \<Rightarrow> None
         | Some (ds, s') \<Rightarrow> Some (sort_key (\<lambda>d. (dc_Shard d, dc_TokenID d)) ds, s')))"

section \<open>Runs\<close>

datatype scorer_op = Observe_op Event | Flush_op iteration "Signals \<Rightarrow> Signals" gotime

text \<open>The decisions of a run, in the order they were made, and the final state.\<close>

fun scorer_run :: "scorer_op list \<Rightarrow> Scorer \<Rightarrow> (Decision list \<times> Scorer) option" where
  "scorer_run [] s = Some ([], s)"
| "scorer_run (Observe_op e # ops) s = scorer_run ops (Observe e s)"
| "scorer_run (Flush_op it ord now # ops) s =
    (case Flush it ord now s of
       None \<Rightarrow> None
     | Some (ds, s1) \<Rightarrow>
         (case scorer_run ops s1 of None \<Rightarrow> None | Some (ds', s2) \<Rightarrow> Some (ds @ ds', s2)))"

fun op_fair :: "scorer_op \<Rightarrow> bool" where
  "op_fair (Observe_op e) \<longleftrightarrow> True"
| "op_fair (Flush_op it ord now) \<longleftrightarrow> fair it \<and> (\<forall>sig. mset (ord sig) = mset sig)"


section \<open>One decision\<close>

lemma score_of_NewScorer [simp]: "score_of (NewScorer cfg) t = 0"
  by (simp add: score_of_def NewScorer_def)

lemma score_of_win [simp]: "score_of (s\<lparr>sc_win := w\<rparr>) t = score_of s t"
  by (simp add: score_of_def)

lemma Clamp_cfg [simp]: "sc_cfg (Clamp t s) = sc_cfg s" "sc_win (Clamp t s) = sc_win s"
  by (simp_all add: Clamp_def Let_def)

lemma score_of_Clamp:
  "score_of (Clamp t s) u =
    (if u = t then min (score_of s t) (float_of (bs_RechallengePassScore (sc_cfg s))) else score_of s u)"
  by (auto simp: Clamp_def Let_def score_of_def)

lemma Observe_cfg [simp]: "sc_cfg (Observe e s) = sc_cfg s"
  by (simp add: Observe_def)

lemma combine_loop_contributing:
  "snd (combine_loop cfg sig score c) = c + int (length (filter (\<lambda>(_, v). bs_SignalMinContrib cfg \<le> v) sig))"
  by (induction cfg sig score c rule: combine_loop.induct) auto

lemma combine_contributing:
  assumes "mset sig' = mset sig"
  shows "snd (combine cfg sig') = int (length (filter (\<lambda>(_, v). bs_SignalMinContrib cfg \<le> v) sig))"
proof -
  have "length (filter P sig') = length (filter P sig)" for P
    using assms by (metis mset_filter size_mset)
  then show ?thesis
    by (simp add: combine_def combine_loop_contributing case_prod_beta)
qed

lemma combine_bounds: "0 \<le> fst (combine cfg sig)" "fst (combine cfg sig) \<le> 100"
proof -
  have "0 \<le> rnd (clamp01 x * 100) \<and> rnd (clamp01 x * 100) \<le> of_int 100" for x
    by (intro conjI fp.nonneg fp.le_int) simp_all
  then show "0 \<le> fst (combine cfg sig)" "fst (combine cfg sig) \<le> 100"
    by (simp_all add: combine_def case_prod_beta fmul_def)
qed

lemma decide_facts:
  assumes "decide ord shard ob st s = (d, s')"
  shows "dc_TokenID d = ob_tokenID ob" "dc_Shard d = shard" "dc_Signals d = evaluate ob st (sc_cfg s)"
    "dc_Score d = smooth (bs_Decay (sc_cfg s)) (score_of s (ob_tokenID ob)) (fst (combine (sc_cfg s) (ord (dc_Signals d))))"
    "dc_Contributing d = snd (combine (sc_cfg s) (ord (dc_Signals d)))"
    "(dc_Action d, dc_CappedFrom d) =
       next_rung (sc_cfg s) (sc_states s (ob_tokenID ob)) (dc_Score d) (dc_Contributing d)"
    "score_of s' u = (if u = ob_tokenID ob then dc_Score d else score_of s u)"
    "sc_cfg s' = sc_cfg s" "sc_win s' = sc_win s"
  using assms
  by (auto simp: decide_def Let_def accumulate_def action_def score_of_def split: prod.splits)

section \<open>What a flush decides\<close>

definition due :: "BotScore_cfg \<Rightarrow> observation \<Rightarrow> bool" where
  "due cfg ob \<longleftrightarrow> bs_MinSamples cfg \<le> samples ob"

lemma decide_tokens_due:
  assumes "decide_tokens ord shard st obs s = (ds, s')"
  shows "map (\<lambda>d. (dc_Shard d, dc_TokenID d)) ds =
      map (\<lambda>ob. (shard, ob_tokenID ob)) (filter (due (sc_cfg s)) obs) \<and> sc_cfg s' = sc_cfg s"
  using assms
proof (induction obs arbitrary: ds s)
  case (Cons ob obs)
  show ?case
  proof (cases "samples ob < bs_MinSamples (sc_cfg s)")
    case True
    with Cons show ?thesis by (simp add: due_def)
  next
    case False
    obtain d s1 where d: "decide ord shard ob st s = (d, s1)" by force
    obtain ds2 where ds: "decide_tokens ord shard st obs s1 = (ds2, s')" "ds = d # ds2"
      using Cons.prems(1) False d by (auto simp: Let_def split: prod.splits)
    with Cons.IH [OF ds(1)] decide_facts(1,2,8) [OF d] False show ?thesis by (simp add: due_def)
  qed
qed simp

lemma decide_shards_due:
  assumes "Milliseconds (bs_SyncBin (sc_cfg s)) \<noteq> 0"
  shows "\<exists>ds s'. decide_shards ord shs s = Some (ds, s') \<and>
    map (\<lambda>d. (dc_Shard d, dc_TokenID d)) ds =
      concat (map (\<lambda>(shard, obs). map (\<lambda>ob. (shard, ob_tokenID ob)) (filter (due (sc_cfg s)) obs)) shs)"
  using assms
proof (induction shs arbitrary: s)
  case (Cons sho shs)
  obtain sh obs where sho: "sho = (sh, obs)" by force
  obtain st where st: "analyze obs (sc_cfg s) = Some st"
    using Cons.prems by (auto simp: analyze_def)
  obtain ds1 s1 where t: "decide_tokens ord sh st obs s = (ds1, s1)" by force
  from Cons.IH [of s1] decide_tokens_due [OF t] Cons.prems
  obtain ds2 s2 where "decide_shards ord shs s1 = Some (ds2, s2)"
    "map (\<lambda>d. (dc_Shard d, dc_TokenID d)) ds2 =
      concat (map (\<lambda>(shard, obs). map (\<lambda>ob. (shard, ob_tokenID ob)) (filter (due (sc_cfg s)) obs)) shs)"
    by auto
  with sho st t decide_tokens_due [OF t] show ?case by simp
qed simp

text \<open>The tokens a flush is to judge: seen within the window, with enough samples.\<close>

definition to_judge :: "gotime \<Rightarrow> Scorer \<Rightarrow> (string \<times> token) set" where
  "to_judge now s = {(sh, t). \<exists>w ob. (sh, w) \<in> set (sc_win s) \<and> (t, ob) \<in> set w \<and>
     now - bs_Window (sc_cfg s) \<le> ob_lastSeen ob \<and> due (sc_cfg s) ob}"

lemma fair_distinct:
  assumes "fair it"
  shows "distinct (map fst (it_tokens it w)) \<longleftrightarrow> distinct (map fst w)"
    "distinct (map fst (it_shards it ws)) \<longleftrightarrow> distinct (map fst ws)"
proof -
  have "mset (map fst (it_tokens it w)) = mset (map fst w)" "mset (map fst (it_shards it ws)) = mset (map fst ws)"
    using assms by (simp_all add: fair_def)
  then show "distinct (map fst (it_tokens it w)) \<longleftrightarrow> distinct (map fst w)"
    "distinct (map fst (it_shards it ws)) \<longleftrightarrow> distinct (map fst ws)"
    by (blast dest: mset_eq_imp_distinct_iff)+
qed

lemma judged_set:
  assumes "fair it" "windows_ok ws"
  shows "set (concat (map (\<lambda>(sh, obs). map (\<lambda>ob. (sh, ob_tokenID ob)) (filter (due cfg) obs))
           (fst (snapshot it before ws)))) =
    {(sh, t). \<exists>w ob. (sh, w) \<in> set ws \<and> (t, ob) \<in> set w \<and> before \<le> ob_lastSeen ob \<and> due cfg ob}"
proof (intro set_eqI iffI)
  have name: "ob_tokenID ob = t" if "(sh, w) \<in> set ws" "(t, ob) \<in> set w" for sh w t ob
    using assms(2) that by (fastforce simp: windows_ok_def window_ok_def)
  fix p
  let ?L = "set (concat (map (\<lambda>(sh, obs). map (\<lambda>ob. (sh, ob_tokenID ob)) (filter (due cfg) obs))
    (fst (snapshot it before ws))))"
  let ?R = "{(sh, t). \<exists>w ob. (sh, w) \<in> set ws \<and> (t, ob) \<in> set w \<and> before \<le> ob_lastSeen ob \<and> due cfg ob}"
  {
    assume "p \<in> ?L"
    then obtain sh w t ob where "(sh, w) \<in> set (expired before ws)" "(t, ob) \<in> set w" "due cfg ob"
      "p = (sh, ob_tokenID ob)"
      by (auto simp: snapshot_def Let_def fair_set [OF assms(1)])
    then show "p \<in> ?R"
      using name by (fastforce simp: expired_def expire_def)
  next
    assume "p \<in> ?R"
    then obtain sh t w ob where p: "p = (sh, t)" "(sh, w) \<in> set ws" "(t, ob) \<in> set w"
      "before \<le> ob_lastSeen ob" "due cfg ob" by auto
    then have t: "ob_tokenID ob = t" using name by blast
    have e: "(t, ob) \<in> set (expire before w)" using p by (auto simp: expire_def)
    then have x: "(sh, expire before w) \<in> set (it_shards it (expired before ws))"
      using p(2) by (force simp: expired_def fair_set [OF assms(1)])
    have "ob \<in> set (filter (due cfg) (map snd (it_tokens it (expire before w))))"
      using e p(5) by (force simp: fair_set [OF assms(1)])
    with x t p(1) show "p \<in> ?L" by (force simp: snapshot_def Let_def)
  }
qed

lemma judged_distinct:
  assumes "fair it" "windows_ok ws"
  shows "distinct (concat (map (\<lambda>(sh, obs). map (\<lambda>ob. (sh, ob_tokenID ob)) (filter P obs))
           (fst (snapshot it before ws))))"
proof -
  let ?row = "\<lambda>(sh, w). map (\<lambda>ob. (sh, ob_tokenID ob)) (filter P (map snd (it_tokens it w)))"
  have "distinct (map fst (expired before ws))"
    using expired_ok [OF assms(2)] by (simp add: windows_ok_def)
  then have d: "distinct (map fst (it_shards it (expired before ws)))"
    by (simp add: fair_distinct [OF assms(1)])
  have rows: "distinct (?row p)" if "p \<in> set (expired before ws)" for p
  proof -
    obtain sh w where p: "p = (sh, w)" by force
    have ok: "window_ok w" using expired_ok [OF assms(2)] that p by (auto simp: windows_ok_def)
    then have "distinct (map fst (it_tokens it w))"
      by (simp add: fair_distinct [OF assms(1)] window_ok_def)
    moreover have "map fst (it_tokens it w) = map ob_tokenID (map snd (it_tokens it w))"
      using ok by (auto simp: window_ok_def fair_set [OF assms(1)])
    ultimately have "distinct (map ob_tokenID (map snd (it_tokens it w)))" by simp
    then have "distinct (map ob_tokenID (filter P (map snd (it_tokens it w))))"
      by (rule distinct_map_filter)
    then show ?thesis by (simp add: p distinct_map inj_on_def)
  qed
  have "distinct (concat (map ?row qs))"
    if "distinct (map fst qs)" "\<forall>p \<in> set qs. distinct (?row p)" for qs
    using that by (induction qs) (auto simp: image_iff)
  from this [OF d] rows have "distinct (concat (map ?row (it_shards it (expired before ws))))"
    by (simp only: fair_set [OF assms(1)]) blast
  then show ?thesis by (simp add: snapshot_def Let_def comp_def case_prod_beta')
qed

lemma flush_judges:
  assumes "fair it" "windows_ok (sc_win s)" "Milliseconds (bs_SyncBin (sc_cfg s)) \<noteq> 0"
  shows "\<exists>ds s'. Flush it ord now s = Some (ds, s') \<and>
    sorted (map (\<lambda>d. (dc_Shard d, dc_TokenID d)) ds) \<and>
    distinct (map (\<lambda>d. (dc_Shard d, dc_TokenID d)) ds) \<and>
    set (map (\<lambda>d. (dc_Shard d, dc_TokenID d)) ds) = to_judge now s"
proof -
  let ?key = "\<lambda>d. (dc_Shard d, dc_TokenID d)" and ?before = "now - bs_Window (sc_cfg s)"
  obtain shs win where sn: "snapshot it ?before (sc_win s) = (shs, win)" by force
  obtain ds s' where ds: "decide_shards ord shs (s\<lparr>sc_win := win\<rparr>) = Some (ds, s')"
    and k: "map ?key ds = concat (map (\<lambda>(shard, obs). map (\<lambda>ob. (shard, ob_tokenID ob)) (filter (due (sc_cfg s)) obs)) shs)"
    using decide_shards_due [of "s\<lparr>sc_win := win\<rparr>" ord shs] assms(3) by auto
  have F: "Flush it ord now s = Some (sort_key ?key ds, s')"
    by (simp add: Flush_def sn ds)
  have shs: "shs = fst (snapshot it ?before (sc_win s))" by (simp add: sn)
  have d: "distinct (map ?key ds)" unfolding k shs by (rule judged_distinct [OF assms(1,2)])
  have e: "set (map ?key ds) = to_judge now s"
    unfolding k shs judged_set [OF assms(1,2)] to_judge_def ..
  have m: "mset (map ?key (sort_key ?key ds)) = mset (map ?key ds)" by simp
  show ?thesis
    unfolding F using d e mset_eq_imp_distinct_iff [OF m] mset_eq_setD [OF m] by simp
qed

section \<open>Invariants over the history of decisions\<close>

text \<open>
  What a run of the scorer preserves is stated over its state and the decisions made so far.
  A client proves what one decision and one clamp do; the rest of a run (recording events,
  expiring windows, meeting shards and tokens in any order, sorting the result) is here.
\<close>

locale scorer_history =
  fixes cfg :: BotScore_cfg
    and I :: "Decision multiset \<Rightarrow> Scorer \<Rightarrow> bool"
  assumes windows: "I H s \<Longrightarrow> I H (s\<lparr>sc_win := w\<rparr>)"
    and clamp: "I H s \<Longrightarrow> sc_cfg s = cfg \<Longrightarrow> I H (Clamp t s)"
    and decided: "I H s \<Longrightarrow> sc_cfg s = cfg \<Longrightarrow> observation_ok ob \<Longrightarrow> bs_MinSamples cfg \<le> samples ob \<Longrightarrow>
      (\<And>sig. mset (ord sig) = mset sig) \<Longrightarrow> decide ord shard ob st s = (d, s') \<Longrightarrow> I (add_mset d H) s'"
begin

lemma tokens:
  assumes "decide_tokens ord shard st obs s = (ds, s')" "I H s" "sc_cfg s = cfg"
    "\<And>ob. ob \<in> set obs \<Longrightarrow> observation_ok ob" "\<And>sig. mset (ord sig) = mset sig"
  shows "I (H + mset ds) s' \<and> sc_cfg s' = cfg \<and> sc_win s' = sc_win s"
  using assms(1-4)
proof (induction obs arbitrary: ds s H)
  case (Cons ob obs)
  show ?case
  proof (cases "samples ob < bs_MinSamples (sc_cfg s)")
    case True
    with Cons show ?thesis by auto
  next
    case False
    obtain d s1 where d: "decide ord shard ob st s = (d, s1)" by force
    obtain ds2 where ds: "decide_tokens ord shard st obs s1 = (ds2, s')" "ds = d # ds2"
      using Cons.prems(1) False d by (auto simp: Let_def split: prod.splits)
    have "I (add_mset d H) s1"
      using decided [OF Cons.prems(2,3) _ _ assms(5) d] Cons.prems(3,4) False by auto
    with Cons.IH [OF ds(1), of "add_mset d H"] Cons.prems(3,4) decide_facts(8,9) [OF d] ds(2)
    show ?thesis by simp
  qed
qed simp

lemma shards:
  assumes "decide_shards ord shs s = Some (ds, s')" "I H s" "sc_cfg s = cfg"
    "\<And>sh obs ob. (sh, obs) \<in> set shs \<Longrightarrow> ob \<in> set obs \<Longrightarrow> observation_ok ob"
    "\<And>sig. mset (ord sig) = mset sig"
  shows "I (H + mset ds) s' \<and> sc_cfg s' = cfg \<and> sc_win s' = sc_win s"
  using assms(1-4)
proof (induction shs arbitrary: ds s H)
  case (Cons sho shs)
  obtain sh obs where sho: "sho = (sh, obs)" by force
  obtain st where st: "analyze obs (sc_cfg s) = Some st"
    using Cons.prems(1) sho by (auto split: option.splits)
  obtain ds1 s1 where t: "decide_tokens ord sh st obs s = (ds1, s1)" by force
  obtain ds2 where ds: "decide_shards ord shs s1 = Some (ds2, s')" "ds = ds1 @ ds2"
    using Cons.prems(1) sho st t by (auto simp: Let_def split: option.splits)
  have 1: "I (H + mset ds1) s1 \<and> sc_cfg s1 = cfg \<and> sc_win s1 = sc_win s"
    using tokens [OF t Cons.prems(2,3)] Cons.prems(4) sho assms(5) by auto
  then have "I (H + mset ds1 + mset ds2) s' \<and> sc_cfg s' = cfg \<and> sc_win s' = sc_win s1"
    using Cons.IH [OF ds(1), of "H + mset ds1"] Cons.prems(4) by auto
  with 1 ds(2) show ?case by (simp add: ac_simps)
qed simp

lemma flush:
  assumes "Flush it ord now s = Some (ds, s')" "I H s" "sc_cfg s = cfg" "windows_ok (sc_win s)"
    "fair it" "\<And>sig. mset (ord sig) = mset sig"
  shows "I (H + mset ds) s' \<and> sc_cfg s' = cfg \<and> windows_ok (sc_win s')"
proof -
  obtain shs win where sn: "snapshot it (now - bs_Window (sc_cfg s)) (sc_win s) = (shs, win)" by force
  then obtain ds0 where d: "decide_shards ord shs (s\<lparr>sc_win := win\<rparr>) = Some (ds0, s')"
    and ds: "mset ds = mset ds0"
    using assms(1) by (auto simp: Flush_def split: option.splits)
  have obs: "observation_ok ob" if "(sh, obs) \<in> set shs" "ob \<in> set obs" for sh obs ob
    using snapshot_members [OF assms(5,4), of sh obs] that sn by (metis fst_conv)
  have "windows_ok win"
    using sn expired_ok [OF assms(4)] by (auto simp: snapshot_def Let_def)
  with shards [OF d windows [OF assms(2)] _ obs assms(6)] assms(3) ds show ?thesis by simp
qed

lemma run:
  assumes "scorer_run ops s = Some (ds, s')" "I H s" "sc_cfg s = cfg" "windows_ok (sc_win s)"
    "list_all op_fair ops"
  shows "I (H + mset ds) s' \<and> sc_cfg s' = cfg \<and> windows_ok (sc_win s')"
  using assms
proof (induction ops s arbitrary: ds H rule: scorer_run.induct)
  case (2 e ops s)
  have "I H (Observe e s) \<and> windows_ok (sc_win (Observe e s))"
    using "2.prems" windows clamp by (auto simp: Observe_def windows_observe_ok)
  with "2.IH" [of ds H] "2.prems" show ?case by simp
next
  case (3 it ord now ops s)
  obtain ds1 s1 where f: "Flush it ord now s = Some (ds1, s1)"
    using "3.prems"(1) by (auto split: option.splits)
  then obtain ds2 where r: "scorer_run ops s1 = Some (ds2, s')" "ds = ds1 @ ds2"
    using "3.prems"(1) by (auto split: option.splits)
  have "I (H + mset ds1) s1 \<and> sc_cfg s1 = cfg \<and> windows_ok (sc_win s1)"
    using flush [OF f "3.prems"(2-4)] "3.prems"(5) by simp
  then have "I (H + mset ds1 + mset ds2) s' \<and> sc_cfg s' = cfg \<and> windows_ok (sc_win s')"
    using "3.IH" [OF f refl r(1), of "H + mset ds1"] "3.prems"(5) by simp
  with r(2) show ?case by (simp add: ac_simps)
qed simp

lemma from_start:
  assumes "scorer_run ops (NewScorer cfg) = Some (ds, s')" "I {#} (NewScorer cfg)" "list_all op_fair ops"
  shows "I (mset ds) s'" and "sc_cfg s' = cfg" and "windows_ok (sc_win s')"
  using run [OF assms(1,2) _ _ assms(3)] by (simp_all add: NewScorer_def windows_ok_def)

end

section \<open>Smoothing\<close>

lemma fsub_one: "0 \<le> d \<Longrightarrow> d \<le> 1 \<Longrightarrow> 0 \<le> fsub 1 d \<and> fsub 1 d \<le> 1"
  unfolding fsub_def by (intro conjI fp.nonneg fp.le_one) simp_all

lemma smooth_mono:
  assumes "0 \<le> decay" "decay \<le> 1" "p \<le> p'" "v \<le> v'"
  shows "smooth decay p v \<le> smooth decay p' v'"
  unfolding smooth_def fadd_def fmul_def using assms fsub_one [OF assms(1,2)]
  by (intro fp.mono add_mono mult_right_mono) simp_all

lemma smooth_nonneg: "0 \<le> decay \<Longrightarrow> decay \<le> 1 \<Longrightarrow> 0 \<le> p \<Longrightarrow> 0 \<le> v \<Longrightarrow> 0 \<le> smooth decay p v"
  unfolding smooth_def fadd_def fmul_def using fsub_one [of decay]
  by (intro fp.nonneg add_nonneg_nonneg) (simp_all add: fp.nonneg)

section \<open>Any configuration: range and consensus\<close>

text \<open>A full score decays to at most a full score; the default factor 0.9 does.\<close>

definition steady :: "BotScore_cfg \<Rightarrow> bool" where
  "steady cfg \<longleftrightarrow> 0 \<le> bs_Decay cfg \<and> bs_Decay cfg \<le> 1 \<and> smooth (bs_Decay cfg) 100 100 \<le> 100 \<and>
     0 \<le> bs_RechallengePassScore cfg"

definition range_inv :: "BotScore_cfg \<Rightarrow> Decision multiset \<Rightarrow> Scorer \<Rightarrow> bool" where
  "range_inv cfg H s \<longleftrightarrow>
     (steady cfg \<longrightarrow> (\<forall>t. 0 \<le> score_of s t \<and> score_of s t \<le> 100) \<and>
        (\<forall>d \<in># H. 0 \<le> dc_Score d \<and> dc_Score d \<le> 100))"

lemma decide_range:
  assumes "steady (sc_cfg s)" "\<And>t. 0 \<le> score_of s t \<and> score_of s t \<le> 100"
    "decide ord shard ob st s = (d, s')"
  shows "0 \<le> dc_Score d \<and> dc_Score d \<le> 100"
proof -
  let ?v = "fst (combine (sc_cfg s) (ord (dc_Signals d)))"
  have "smooth (bs_Decay (sc_cfg s)) (score_of s (ob_tokenID ob)) ?v \<le> smooth (bs_Decay (sc_cfg s)) 100 100"
    using assms(1,2) combine_bounds by (intro smooth_mono) (simp_all add: steady_def)
  moreover have "0 \<le> smooth (bs_Decay (sc_cfg s)) (score_of s (ob_tokenID ob)) ?v"
    using assms(1,2) combine_bounds by (intro smooth_nonneg) (simp_all add: steady_def)
  ultimately show ?thesis
    using assms(1) by (simp add: decide_facts(4) [OF assms(3)] steady_def)
qed

interpretation in_range: scorer_history cfg "range_inv cfg" for cfg
proof
  fix H s w assume "range_inv cfg H s"
  then show "range_inv cfg H (s\<lparr>sc_win := w\<rparr>)" by (simp add: range_inv_def)
next
  fix H s t assume "range_inv cfg H s" "sc_cfg s = cfg"
  moreover have "0 \<le> float_of (bs_RechallengePassScore cfg)" if "steady cfg"
    using that by (simp add: steady_def float_of_def fp.nonneg)
  ultimately show "range_inv cfg H (Clamp t s)"
    by (auto simp: range_inv_def score_of_Clamp min_le_iff_disj)
next
  fix H s ob ord shard st d s'
  assume I: "range_inv cfg H s" and c: "sc_cfg s = cfg"
    and d: "decide ord shard ob st s = (d, s')"
  show "range_inv cfg (add_mset d H) s'"
    unfolding range_inv_def
  proof (intro impI)
    assume st: "steady cfg"
    with I have "\<And>t. 0 \<le> score_of s t \<and> score_of s t \<le> 100" by (simp add: range_inv_def)
    with decide_range [OF _ _ d] st c have "0 \<le> dc_Score d \<and> dc_Score d \<le> 100" by simp
    with I st show "(\<forall>t. 0 \<le> score_of s' t \<and> score_of s' t \<le> 100) \<and>
      (\<forall>d \<in># add_mset d H. 0 \<le> dc_Score d \<and> dc_Score d \<le> 100)"
      by (simp add: range_inv_def decide_facts(7) [OF d])
  qed
qed

definition pointing :: "BotScore_cfg \<Rightarrow> Signals \<Rightarrow> Signal set" where
  "pointing cfg sig = {name. \<exists>v. (name, v) \<in> set sig \<and> bs_SignalMinContrib cfg \<le> v}"

definition justified :: "BotScore_cfg \<Rightarrow> Decision \<Rightarrow> bool" where
  "justified cfg d \<longleftrightarrow>
     signals_ok (dc_Signals d) \<and> dc_Contributing d = int (card (pointing cfg (dc_Signals d))) \<and>
     (\<exists>prev. (dc_Action d, dc_CappedFrom d) = next_rung cfg prev (dc_Score d) (dc_Contributing d))"

lemma pointing_card:
  assumes "distinct (map fst sig)"
  shows "card (pointing cfg sig) = length (filter (\<lambda>(_, v). bs_SignalMinContrib cfg \<le> v) sig)"
proof -
  let ?f = "filter (\<lambda>(_, v). bs_SignalMinContrib cfg \<le> v) sig"
  have "pointing cfg sig = set (map fst ?f)" by (force simp: pointing_def)
  moreover have "distinct (map fst ?f)" using assms by (rule distinct_map_filter)
  ultimately show ?thesis by (metis distinct_card length_map)
qed

interpretation justly: scorer_history cfg "\<lambda>H s. \<forall>d \<in># H. justified cfg d" for cfg
proof
  fix H s ob shard st d s' and ord :: "Signals \<Rightarrow> Signals"
  assume I: "\<forall>d \<in># H. justified cfg d" and c: "sc_cfg s = cfg" and ob: "observation_ok ob"
    and ord: "\<And>sig. mset (ord sig) = mset sig" and d: "decide ord shard ob st s = (d, s')"
  have ok: "signals_ok (dc_Signals d)" using evaluate_ok [OF ob] decide_facts(3) [OF d] by simp
  then have "dc_Contributing d = int (card (pointing cfg (dc_Signals d)))"
    using pointing_card combine_contributing [OF ord] decide_facts(5) [OF d] c by (simp add: signals_ok_def)
  with ok decide_facts(6) [OF d] c have "justified cfg d" by (auto simp: justified_def)
  with I show "\<forall>d \<in># add_mset d H. justified cfg d" by simp
qed


section \<open>The default configuration: how far a score can climb\<close>

definition climb :: "nat \<Rightarrow> float64" where
  "climb n = ((\<lambda>x. smooth (bs_Decay default_BotScore) x 100) ^^ n) 0"

lemma default_decay_value: "bs_Decay default_BotScore = 8106479329266893 / 9007199254740992"
  "fsub 1 (8106479329266893 / 9007199254740992) = 900719925474099 / 9007199254740992"
proof -
  have "rnd (9 / 10) = 8106479329266893 / 9007199254740992" by code_simp
  then show "bs_Decay default_BotScore = 8106479329266893 / 9007199254740992"
    by (simp add: default_BotScore_def)
qed code_simp

lemma default_decay: "0 \<le> bs_Decay default_BotScore" "bs_Decay default_BotScore \<le> 1"
  by (simp_all add: default_decay_value)

text \<open>
  In exact arithmetic a score that starts at nothing is at most \<open>100 * (1 - 0.9 ^ n)\<close> after
  \<open>n\<close> windows; rounding adds less than the slack in the bound below.
\<close>

lemma smooth_default_le:
  assumes "0 \<le> x" "0 \<le> v"
  shows "smooth (bs_Decay default_BotScore) x v \<le> 90001 / 100000 * x + 10008 / 100000 * v"
proof -
  let ?u = "1 + 1 / 2 ^ 53 :: rat" and ?d = "8106479329266893 / 9007199254740992 :: rat"
    and ?e = "900719925474099 / 9007199254740992 :: rat"
  have "rnd (x * ?d) \<le> (x * ?d) * ?u" "rnd (v * ?e) \<le> (v * ?e) * ?u"
    using assms by (intro rnd_rel; simp)+
  then have a: "rnd (x * ?d) + rnd (v * ?e) \<le> (x * ?d + v * ?e) * ?u"
    by (simp add: distrib_right)
  have "rnd (rnd (x * ?d) + rnd (v * ?e)) \<le> (rnd (x * ?d) + rnd (v * ?e)) * ?u"
    using assms by (intro rnd_rel add_nonneg_nonneg fp.nonneg mult_nonneg_nonneg) simp_all
  also have "\<dots> \<le> (x * ?d + v * ?e) * ?u * ?u"
    using a by (intro mult_right_mono) simp_all
  also have "\<dots> \<le> 90001 / 100000 * x + 10008 / 100000 * v"
    using assms by (simp add: algebra_simps)
  finally show ?thesis by (simp add: smooth_def fadd_def fmul_def default_decay_value)
qed

lemma climb_nonneg: "0 \<le> climb n"
  by (induction n) (auto simp: climb_def intro!: smooth_nonneg default_decay)

lemma climb_le: "climb n \<le> 1001 / 10 * (1 - (90001 / 100000) ^ n)"
proof (induction n)
  case (Suc n)
  have "climb (Suc n) \<le> 90001 / 100000 * climb n + 10008 / 1000"
    using smooth_default_le [OF climb_nonneg [of n], of 100] by (simp add: climb_def)
  with Suc show ?case by (simp add: algebra_simps)
qed (simp add: climb_def)

lemma climb_21: "n \<le> 21 \<Longrightarrow> climb n < 90"
proof -
  assume "n \<le> 21"
  then have "(90001 / 100000 :: rat) ^ 21 \<le> (90001 / 100000) ^ n" by (intro power_decreasing) simp_all
  then have "1001 / 10 * (1 - (90001 / 100000) ^ n) \<le> 1001 / 10 * (1 - (90001 / 100000 :: rat) ^ 21)"
    by (intro mult_left_mono diff_left_mono) simp_all
  also have "\<dots> < 90" by (simp add: power_divide)
  finally show ?thesis using climb_le [of n] by (rule le_less_trans [rotated])
qed

lemma default_steady: "steady default_BotScore"
proof -
  have "smooth (8106479329266893 / 9007199254740992) 100 100 \<le> 100" by code_simp
  then show ?thesis by (simp add: steady_def default_decay_value) (simp add: default_BotScore_def)
qed

lemma default_thresholds:
  "bs_Block default_BotScore = 90" "bs_Hold default_BotScore = 70" "bs_Greylist default_BotScore = 40"
  "bs_RechallengePassScore default_BotScore = 35" "bs_MinSignalsToBlock default_BotScore = 2"
  by (simp_all add: default_BotScore_def)

lemma float_of_small: "\<bar>n\<bar> \<le> 2 ^ 53 \<Longrightarrow> float_of n = of_int n"
  by (simp add: float_of_def rnd_of_int)

definition decisions_on :: "token \<Rightarrow> Decision multiset \<Rightarrow> nat" where
  "decisions_on t H = size (filter_mset (\<lambda>d. dc_TokenID d = t) H)"

definition patience :: "Decision multiset \<Rightarrow> Scorer \<Rightarrow> bool" where
  "patience H s \<longleftrightarrow> (\<forall>t. score_of s t \<le> climb (decisions_on t H)) \<and>
     (\<forall>d \<in># H. dc_Action d = ActionBlock \<longrightarrow> 22 \<le> decisions_on (dc_TokenID d) H)"

lemma block_score:
  assumes "decide ord shard ob st s = (d, s')" "dc_Action d = ActionBlock"
  shows "float_of (bs_Block (sc_cfg s)) \<le> dc_Score d"
  using decide_facts(6) [OF assms(1)] assms(2) by (auto simp: next_rung_def split: if_splits)

interpretation patient: scorer_history default_BotScore patience
proof
  fix H s t assume "patience H s" "sc_cfg s = default_BotScore"
  then show "patience H (Clamp t s)" by (auto simp: patience_def score_of_Clamp min_le_iff_disj)
next
  fix H s ob ord shard st d s'
  assume I: "patience H s" and c: "sc_cfg s = default_BotScore"
    and d: "decide ord shard ob st s = (d, s')"
  let ?t = "ob_tokenID ob" and ?H = "add_mset d H"
  have t: "dc_TokenID d = ?t" by (rule decide_facts(1) [OF d])
  have count: "decisions_on u ?H = (if u = ?t then Suc (decisions_on u H) else decisions_on u H)" for u
    by (simp add: decisions_on_def t)
  have "dc_Score d \<le> smooth (bs_Decay default_BotScore) (climb (decisions_on ?t H)) 100"
    using I combine_bounds unfolding decide_facts(4) [OF d] c
    by (intro smooth_mono default_decay) (simp_all add: patience_def)
  then have score: "dc_Score d \<le> climb (decisions_on ?t ?H)" by (simp add: count climb_def)
  have "22 \<le> decisions_on ?t ?H" if b: "dc_Action d = ActionBlock"
  proof (rule ccontr)
    assume "\<not> 22 \<le> decisions_on ?t ?H"
    then have "climb (decisions_on ?t ?H) < 90" by (intro climb_21) simp
    with score block_score [OF d b] show False
      by (simp add: c default_thresholds float_of_small)
  qed
  with I score show "patience ?H s'"
    by (auto simp: patience_def decide_facts(7) [OF d] count t)
qed (simp add: patience_def)

section \<open>The default weights: what a few signals can do\<close>

text \<open>Upper bounds of the default weights in 256ths: sums of these are exact.\<close>

fun weight_cap :: "Signal \<Rightarrow> int" where
  "weight_cap SignalHeartbeat = 64"
| "weight_cap SignalCorrelation = 52"
| "weight_cap SignalFingerprint = 64"
| "weight_cap SignalIPPrefix = 39"
| "weight_cap SignalPoW = 39"

definition nonzero :: "Signals \<Rightarrow> Signal set" where
  "nonzero sig = {name. \<exists>v. (name, v) \<in> set sig \<and> v \<noteq> 0}"

lemma default_weight: "0 \<le> weight (bs_Weights default_BotScore) n \<and>
    weight (bs_Weights default_BotScore) n \<le> of_int (weight_cap n) / 256"
proof -
  have "0 \<le> rnd (25 / 100) \<and> rnd (25 / 100) \<le> 64 / 256" "0 \<le> rnd (20 / 100) \<and> rnd (20 / 100) \<le> 52 / 256"
    "0 \<le> rnd (15 / 100) \<and> rnd (15 / 100) \<le> 39 / 256"
    by code_simp+
  then show ?thesis by (cases n) (simp_all add: default_BotScore_def default_Weights_def)
qed

lemma weight_cap_nonneg [simp]: "0 \<le> weight_cap n" "weight_cap n \<le> 64"
  by (cases n; simp)+

lemma rnd_256: "\<bar>k\<bar> \<le> 2 ^ 53 \<Longrightarrow> rnd (of_int k / 256) = of_int k / 256"
  using rnd_exact [of k "- 8"] by (simp add: pow2_def)

lemma rnd_le_256: "x \<le> of_int k / 256 \<Longrightarrow> \<bar>k\<bar> \<le> 2 ^ 53 \<Longrightarrow> rnd x \<le> of_int k / 256"
  using rnd_mono [of x "of_int k / 256"] by (simp add: rnd_256)

definition cap_sum :: "Signals \<Rightarrow> int" where
  "cap_sum sig = sum_list (map (\<lambda>(n, v). if v = 0 then 0 else weight_cap n) sig)"

lemma cap_sum_bounds: "0 \<le> cap_sum sig" "cap_sum sig \<le> 64 * int (length sig)"
  by (induction sig) (auto simp: cap_sum_def intro: add_mono)

lemma combine_loop_cap:
  assumes "score \<le> of_int k / 256" "0 \<le> k" "k + cap_sum sig \<le> 2 ^ 53"
    "\<forall>v \<in> snd ` set sig. 0 \<le> v \<and> v \<le> 1"
  shows "fst (combine_loop default_BotScore sig score c) \<le> of_int (k + cap_sum sig) / 256"
  using assms
proof (induction "default_BotScore" sig score c arbitrary: k rule: combine_loop.induct)
  case (2 name v sig score c)
  let ?w = "weight (bs_Weights default_BotScore) name"
  let ?k = "if v = 0 then 0 else weight_cap name"
  have nn: "0 \<le> cap_sum sig" by (rule cap_sum_bounds)
  have cs: "cap_sum ((name, v) # sig) = ?k + cap_sum sig" by (simp add: cap_sum_def)
  have k: "0 \<le> ?k" "?k \<le> 64" by simp_all
  have "?w * v \<le> of_int ?k / 256"
    using default_weight [of name] mult_mono [of ?w "of_int (weight_cap name) / 256" v 1] "2.prems"(4)
    by auto
  then have "fmul ?w v \<le> of_int ?k / 256"
    unfolding fmul_def using k by (intro rnd_le_256) simp_all
  with "2.prems"(1) have "score + fmul ?w v \<le> of_int (k + ?k) / 256"
    by (simp add: add_divide_distrib)
  then have "fadd score (fmul ?w v) \<le> of_int (k + ?k) / 256"
    unfolding fadd_def using k "2.prems"(2,3) cs nn by (intro rnd_le_256) simp_all
  with "2.hyps" [of "k + ?k"] "2.prems"(2,3,4) k cs show ?case by (simp add: add.assoc)
qed (simp add: cap_sum_def)

lemma cap_sum_nonzero:
  assumes "distinct (map fst sig)"
  shows "cap_sum sig = (\<Sum>n \<in> nonzero sig. weight_cap n)"
  using assms
proof (induction sig)
  case (Cons p sig)
  obtain n v where p: "p = (n, v)" by force
  have "finite (nonzero sig)" by (rule finite_subset [of _ "fst ` set sig"]) (force simp: nonzero_def)+
  moreover have "n \<notin> nonzero sig" using Cons.prems p by (force simp: nonzero_def)
  moreover have "nonzero (p # sig) = (if v = 0 then nonzero sig else insert n (nonzero sig))"
    using p by (auto simp: nonzero_def)
  ultimately show ?case using Cons p by (simp add: cap_sum_def)
qed (simp add: cap_sum_def nonzero_def)

lemma combine_cap:
  assumes "signals_ok sig" "mset sig' = mset sig" "(\<Sum>n \<in> nonzero sig. weight_cap n) \<le> k" "k \<le> 256"
  shows "fst (combine default_BotScore sig') \<le> rnd (of_int k / 256 * 100)"
proof -
  have sets: "set sig' = set sig" using assms(2) by (rule mset_eq_setD)
  have "distinct (map fst sig')"
    using assms(1,2) by (metis mset_eq_imp_distinct_iff mset_map signals_ok_def)
  moreover have "nonzero sig' = nonzero sig" by (simp add: nonzero_def sets)
  ultimately have c: "cap_sum sig' \<le> k" using assms(3) by (simp add: cap_sum_nonzero)
  have "fst (combine_loop default_BotScore sig' 0 0) \<le> of_int (0 + cap_sum sig') / 256"
    using assms(1,4) c sets by (intro combine_loop_cap) (auto simp: signals_ok_def)
  also have "\<dots> \<le> of_int k / 256" using c by (simp add: divide_right_mono)
  finally have "clamp01 (fst (combine_loop default_BotScore sig' 0 0)) \<le> of_int k / 256"
    using c cap_sum_bounds(1) [of sig'] by (simp add: clamp01_def)
  then show ?thesis
    by (simp add: combine_def case_prod_beta fmul_def rnd_mono)
qed

text \<open>A token whose raw scores stay under a level keeps its score under the level.\<close>

definition weakly :: "(Decision \<Rightarrow> bool) \<Rightarrow> float64 \<Rightarrow> Decision multiset \<Rightarrow> Scorer \<Rightarrow> bool" where
  "weakly weak level H s \<longleftrightarrow>
     (\<forall>t. (\<forall>d \<in># H. dc_TokenID d = t \<longrightarrow> weak d) \<longrightarrow>
        score_of s t \<le> level \<and> (\<forall>d \<in># H. dc_TokenID d = t \<longrightarrow> dc_Score d \<le> level))"

lemma weak_history:
  assumes weak: "\<And>d. weak d \<Longrightarrow> (\<Sum>n \<in> nonzero (dc_Signals d). weight_cap n) \<le> k" and k: "k \<le> 256"
    and level: "0 \<le> level" "0 \<le> k" "90001 / 100000 * level + 10008 / 100000 * rnd (of_int k / 256 * 100) \<le> level"
  shows "scorer_history default_BotScore (weakly weak level)"
proof
  have "0 \<le> rnd (of_int k / 256 * 100)" using level(2) by (intro fp.nonneg) simp
  from smooth_default_le [OF level(1) this] level(3)
  have full: "smooth (bs_Decay default_BotScore) level (rnd (of_int k / 256 * 100)) \<le> level" by simp
  fix H s ob shard st d s' and ord :: "Signals \<Rightarrow> Signals"
  assume I: "weakly weak level H s" and c: "sc_cfg s = default_BotScore" and ob: "observation_ok ob"
    and ord: "\<And>sig. mset (ord sig) = mset sig" and d: "decide ord shard ob st s = (d, s')"
  let ?t = "ob_tokenID ob"
  have "dc_Score d \<le> level"
    if h: "\<forall>e \<in># add_mset d H. dc_TokenID e = ?t \<longrightarrow> weak e"
  proof -
    have "weak d" using h decide_facts(1) [OF d] by simp
    then have "fst (combine default_BotScore (ord (dc_Signals d))) \<le> rnd (of_int k / 256 * 100)"
      using evaluate_ok [OF ob] decide_facts(3) [OF d] weak [of d]
      by (intro combine_cap [OF _ ord _ k]) simp_all
    moreover have "score_of s ?t \<le> level" using I h by (auto simp: weakly_def)
    ultimately show ?thesis
      unfolding decide_facts(4) [OF d] c using full default_decay smooth_mono by (meson order_trans)
  qed
  with I show "weakly weak level (add_mset d H) s'"
    by (auto simp: weakly_def decide_facts(1,7) [OF d])
qed (auto simp: weakly_def score_of_Clamp min_le_iff_disj)


definition one_pointing :: "Decision \<Rightarrow> bool" where
  "one_pointing d \<longleftrightarrow> card (nonzero (dc_Signals d)) \<le> 1"

definition one_missing :: "Decision \<Rightarrow> bool" where
  "one_missing d \<longleftrightarrow> (\<exists>name. name \<notin> nonzero (dc_Signals d))"

lemma UNIV_Signal: "(UNIV :: Signal set) = {SignalHeartbeat, SignalCorrelation, SignalFingerprint, SignalIPPrefix, SignalPoW}"
  by (auto intro: Signal.exhaust)

lemma finite_Signal [simp]: "finite (S :: Signal set)"
proof (rule finite_subset [OF subset_UNIV])
  show "finite (UNIV :: Signal set)" by (simp add: UNIV_Signal)
qed

lemma one_pointing_cap: "one_pointing d \<Longrightarrow> (\<Sum>n \<in> nonzero (dc_Signals d). weight_cap n) \<le> 64"
  by (auto simp: one_pointing_def le_Suc_eq card_1_singleton_iff)

lemma one_missing_cap: "one_missing d \<Longrightarrow> (\<Sum>n \<in> nonzero (dc_Signals d). weight_cap n) \<le> 219"
proof -
  assume "one_missing d"
  then obtain name where n: "name \<notin> nonzero (dc_Signals d)" by (auto simp: one_missing_def)
  have "(\<Sum>n \<in> nonzero (dc_Signals d). weight_cap n) \<le> (\<Sum>n \<in> UNIV - {name}. weight_cap n)"
    using n by (intro sum_mono2) auto
  also have "\<dots> = (\<Sum>n \<in> UNIV. weight_cap n) - weight_cap name" by (simp add: sum_diff1)
  also have "\<dots> \<le> 219" by (cases name) (simp_all add: UNIV_Signal)
  finally show ?thesis .
qed

interpretation lone: scorer_history default_BotScore "weakly one_pointing 26"
proof (rule weak_history [OF one_pointing_cap])
  show "90001 / 100000 * 26 + 10008 / 100000 * rnd (of_int 64 / 256 * 100) \<le> 26"
    using rnd_of_int [of 25] by simp
qed simp_all

interpretation partial: scorer_history default_BotScore "weakly one_missing 89"
proof (rule weak_history [OF one_missing_cap])
  have "rnd (of_int 219 / 256 * 100) \<le> of_int 86" by (rule fp.le_int) simp_all
  then show "90001 / 100000 * 89 + 10008 / 100000 * rnd (of_int 219 / 256 * 100) \<le> 89" by simp
qed simp_all

section \<open>A concrete run\<close>

definition demo_beat :: "int \<Rightarrow> Event" where
  "demo_beat sec = (demo_event KindHeartbeat ''a'' (sec * 1000000000))\<lparr>e_IntervalMS := 0\<rparr>"

definition no_shuffle :: iteration where
  "no_shuffle = \<lparr>it_shards = (\<lambda>ws. ws), it_tokens = (\<lambda>w. w)\<rparr>"

definition demo_windows :: windows where
  "demo_windows = fold windows_observe (map demo_beat [1, 6, 11, 16, 21]) []"

definition demo_ops :: "scorer_op list" where
  "demo_ops = map (Observe_op \<circ> demo_beat) [1, 6, 11, 16, 21] @ [Flush_op no_shuffle (\<lambda>sig. sig) 22000000000]"

lemma no_shuffle_fair: "fair no_shuffle"
  by (simp add: no_shuffle_def fair_def)

lemma demo_ops_fair: "list_all op_fair demo_ops"
  by (simp add: demo_ops_def no_shuffle_fair)

lemma demo_windows_ok: "windows_ok demo_windows"
  by (simp add: demo_windows_def windows_observe_ok windows_ok_def [of "[]"])

lemma demo_judge:
  "(''s0000'', ''a'') \<in> to_judge 22000000000 ((NewScorer default_BotScore)\<lparr>sc_win := demo_windows\<rparr>)"
proof -
  have "list_ex (\<lambda>(sh, w). sh = ''s0000'' \<and> list_ex (\<lambda>(t, ob). t = ''a'' \<and>
      22000000000 - 60000000000 \<le> ob_lastSeen ob \<and> 5 \<le> samples ob) w) demo_windows"
    by code_simp
  then show ?thesis
    by (auto simp: to_judge_def due_def NewScorer_def default_BotScore_def list_ex_iff)
qed

lemma demo_run:
  obtains d ds s where "scorer_run demo_ops (NewScorer default_BotScore) = Some (ds, s)"
    "d \<in> set ds" "dc_TokenID d = ''a''" "length ds < 22"
proof -
  let ?s = "(NewScorer default_BotScore)\<lparr>sc_win := demo_windows\<rparr>"
  have v: "Valid (demo_beat k)" "e_Kind (demo_beat k) \<noteq> KindRechallenge" for k
    by (simp_all add: Valid_def demo_beat_def demo_event_def KindHeartbeat_def KindRechallenge_def)
  have r: "scorer_run demo_ops (NewScorer default_BotScore) =
      scorer_run [Flush_op no_shuffle (\<lambda>sig. sig) 22000000000] ?s"
    by (simp add: demo_ops_def demo_windows_def Observe_def v NewScorer_def)
  have "Milliseconds (bs_SyncBin (sc_cfg ?s)) \<noteq> 0"
    by (simp add: NewScorer_def default_BotScore_def Milliseconds_def quot_def)
  from flush_judges [OF no_shuffle_fair _ this, of "\<lambda>sig. sig" 22000000000] demo_windows_ok
  obtain ds s' where f: "Flush no_shuffle (\<lambda>sig. sig) 22000000000 ?s = Some (ds, s')"
    and dist: "distinct (map (\<lambda>d. (dc_Shard d, dc_TokenID d)) ds)"
    and ds: "set (map (\<lambda>d. (dc_Shard d, dc_TokenID d)) ds) = to_judge 22000000000 ?s"
    by auto
  have "to_judge 22000000000 ?s \<subseteq> {(''s0000'', ''a'')}"
  proof -
    have "list_all (\<lambda>(sh, w). sh = ''s0000'' \<and> list_all (\<lambda>(t, ob). t = ''a'') w) demo_windows"
      by code_simp
    then show ?thesis by (fastforce simp: to_judge_def list_all_iff)
  qed
  with ds have "card (set (map (\<lambda>d. (dc_Shard d, dc_TokenID d)) ds)) \<le> card {(''s0000'', ''a'')}"
    by (intro card_mono) simp_all
  then have l: "length ds \<le> 1" using distinct_card [OF dist] by simp
  have "(''s0000'', ''a'') \<in> set (map (\<lambda>d. (dc_Shard d, dc_TokenID d)) ds)"
    using ds demo_judge by simp
  then obtain d where "d \<in> set ds" "dc_TokenID d = ''a''" by auto
  with that [of ds s' d] r f l show ?thesis by simp
qed

section \<open>Properties\<close>

text \<open>
  No single signal blocks.  In any run of the scorer, for any configuration, a decision to
  block is taken only on a score at the block threshold and with at least
  \<open>MinSignalsToBlock\<close> different signals at or above \<open>SignalMinContrib\<close>; with fewer the
  decision at the block threshold is a hold that says what it was capped from.  Scores stay
  within 0 and 100 when a full score decays to a full score, as it does for 0.9.
\<close>

theorem block_needs_consensus:
  assumes "scorer_run ops (NewScorer cfg) = Some (ds, s)" "list_all op_fair ops" "d \<in> set ds"
  shows "(dc_Action d = ActionBlock \<longrightarrow>
       float_of (bs_Block cfg) \<le> dc_Score d \<and>
       bs_MinSignalsToBlock cfg \<le> int (card (pointing cfg (dc_Signals d)))) \<and>
    (float_of (bs_Block cfg) \<le> dc_Score d \<and>
       int (card (pointing cfg (dc_Signals d))) < bs_MinSignalsToBlock cfg \<longrightarrow>
       dc_Action d = ActionHold \<and> dc_CappedFrom d = Some ActionBlock) \<and>
    (steady cfg \<longrightarrow> 0 \<le> dc_Score d \<and> dc_Score d \<le> 100)"
proof -
  have j: "justified cfg d"
    using justly.from_start(1) [OF assms(1) _ assms(2)] assms(3) by simp
  have "range_inv cfg {#} (NewScorer cfg)" by (simp add: range_inv_def)
  from in_range.from_start(1) [OF assms(1) this assms(2)] assms(3)
  have r: "steady cfg \<longrightarrow> 0 \<le> dc_Score d \<and> dc_Score d \<le> 100" by (auto simp: range_inv_def)
  from j r show ?thesis
    by (auto simp: justified_def next_rung_def split: if_splits)
qed

text \<open>
  C31. Detection is patient: with the default configuration a token is not blocked before its
  22nd decision, that is before 22 windows with enough samples, whatever signals it sent, and
  passing a re-challenge never shortens this.
\<close>

theorem block_takes_22_windows:
  assumes "scorer_run ops (NewScorer default_BotScore) = Some (ds, s)" "list_all op_fair ops"
    "d \<in> set ds" "length (filter (\<lambda>e. dc_TokenID e = dc_TokenID d) ds) < 22"
  shows "dc_Action d \<noteq> ActionBlock"
proof
  assume b: "dc_Action d = ActionBlock"
  have "patience {#} (NewScorer default_BotScore)"
    by (simp add: patience_def decisions_on_def climb_def)
  from patient.from_start(1) [OF assms(1) this assms(2)] assms(3) b
  have "22 \<le> decisions_on (dc_TokenID d) (mset ds)" by (auto simp: patience_def)
  with assms(4) show False by (simp add: decisions_on_def flip: mset_filter)
qed

text \<open>
  With the default weights one signal alone never leads to any action: a token whose
  decisions never carried two nonzero signals is never moved, held or blocked.  And a token
  that never showed all five signals at once is never blocked.
\<close>

theorem few_signals_never_act:
  assumes "scorer_run ops (NewScorer default_BotScore) = Some (ds, s)" "list_all op_fair ops" "d \<in> set ds"
  shows "((\<forall>e \<in> set ds. dc_TokenID e = dc_TokenID d \<longrightarrow> card (nonzero (dc_Signals e)) \<le> 1) \<longrightarrow>
       dc_Action d \<in> {ActionObserve, ActionRestore} \<and> dc_Score d < 40) \<and>
    ((\<forall>e \<in> set ds. dc_TokenID e = dc_TokenID d \<longrightarrow> nonzero (dc_Signals e) \<noteq> UNIV) \<longrightarrow>
       dc_Action d \<noteq> ActionBlock \<and> dc_Score d < 90)"
proof -
  have j: "justified default_BotScore d"
    using justly.from_start(1) [OF assms(1) _ assms(2)] assms(3) by simp
  have 1: "weakly one_pointing 26 {#} (NewScorer default_BotScore)"
    and 2: "weakly one_missing 89 {#} (NewScorer default_BotScore)"
    by (simp_all add: weakly_def)
  have "dc_Score d \<le> 26" if "\<forall>e \<in> set ds. dc_TokenID e = dc_TokenID d \<longrightarrow> one_pointing e"
    using lone.from_start(1) [OF assms(1) 1 assms(2)] that assms(3) by (auto simp: weakly_def)
  moreover have "dc_Score d \<le> 89" if "\<forall>e \<in> set ds. dc_TokenID e = dc_TokenID d \<longrightarrow> one_missing e"
    using partial.from_start(1) [OF assms(1) 2 assms(2)] that assms(3) by (auto simp: weakly_def)
  moreover have "dc_Action d \<in> {ActionObserve, ActionRestore}" if "dc_Score d < 40"
    using j that by (auto simp: justified_def next_rung_def default_thresholds float_of_small split: if_splits)
  moreover have "dc_Action d \<noteq> ActionBlock" if "dc_Score d < 90"
    using j that by (auto simp: justified_def next_rung_def default_thresholds float_of_small split: if_splits)
  moreover have m: "one_missing e \<longleftrightarrow> nonzero (dc_Signals e) \<noteq> UNIV" for e
    by (auto simp: one_missing_def)
  ultimately show ?thesis unfolding one_pointing_def m by force
qed

theorem block_needs_consensus_witness:
  "\<exists>ds s d. scorer_run demo_ops (NewScorer default_BotScore) = Some (ds, s) \<and> d \<in> set ds \<and>
     0 \<le> dc_Score d \<and> dc_Score d \<le> 100"
proof -
  obtain d ds s where r: "scorer_run demo_ops (NewScorer default_BotScore) = Some (ds, s)" "d \<in> set ds"
    by (rule demo_run)
  from block_needs_consensus [OF r(1) demo_ops_fair r(2)] default_steady r show ?thesis by blast
qed

theorem block_takes_22_windows_witness:
  "\<exists>ds s d. scorer_run demo_ops (NewScorer default_BotScore) = Some (ds, s) \<and> d \<in> set ds \<and>
     dc_Action d \<noteq> ActionBlock"
proof -
  obtain d ds s where r: "scorer_run demo_ops (NewScorer default_BotScore) = Some (ds, s)" "d \<in> set ds"
    "length ds < 22"
    by (rule demo_run)
  have "length (filter (\<lambda>e. dc_TokenID e = dc_TokenID d) ds) < 22"
    using r(3) by (rule le_less_trans [OF length_filter_le])
  from block_takes_22_windows [OF r(1) demo_ops_fair r(2) this] r show ?thesis by blast
qed

theorem few_signals_never_act_witness:
  "\<exists>ds s d. scorer_run demo_ops (NewScorer default_BotScore) = Some (ds, s) \<and> d \<in> set ds \<and>
     ((\<forall>e \<in> set ds. dc_TokenID e = dc_TokenID d \<longrightarrow> card (nonzero (dc_Signals e)) \<le> 1) \<longrightarrow> dc_Score d < 40)"
proof -
  obtain d ds s where r: "scorer_run demo_ops (NewScorer default_BotScore) = Some (ds, s)" "d \<in> set ds"
    by (rule demo_run)
  from few_signals_never_act [OF r(1) demo_ops_fair r(2)] r show ?thesis by blast
qed

text \<open>
  A flush judges exactly whom it should: after any run, the next flush does not panic when
  the synchronisation bin is at least a millisecond, and its decisions, in order of shard and
  token, are one for each token seen within the window with enough samples, and no others.
\<close>

theorem flush_judges_exactly:
  assumes "scorer_run ops (NewScorer cfg) = Some (ds0, s)" "list_all op_fair ops" "fair it"
    "1000000 \<le> bs_SyncBin cfg"
  shows "\<exists>ds s'. Flush it ord now s = Some (ds, s') \<and>
    sorted (map (\<lambda>d. (dc_Shard d, dc_TokenID d)) ds) \<and>
    distinct (map (\<lambda>d. (dc_Shard d, dc_TokenID d)) ds) \<and>
    set (map (\<lambda>d. (dc_Shard d, dc_TokenID d)) ds) = to_judge now s"
proof -
  have "Milliseconds 1000000 \<le> Milliseconds (bs_SyncBin cfg)"
    using assms(4) by (intro Milliseconds_mono) simp_all
  then have "Milliseconds (bs_SyncBin (sc_cfg s)) \<noteq> 0"
    using Milliseconds_scale [of 1] justly.from_start(2) [OF assms(1) _ assms(2)] by simp
  moreover have "windows_ok (sc_win s)" using justly.from_start(3) [OF assms(1) _ assms(2)] by simp
  ultimately show ?thesis by (intro flush_judges [OF assms(3)])
qed

theorem flush_judges_exactly_witness:
  "\<exists>ds s'. Flush no_shuffle (\<lambda>sig. sig) 5 (NewScorer default_BotScore) = Some (ds, s') \<and>
    set (map (\<lambda>d. (dc_Shard d, dc_TokenID d)) ds) = to_judge 5 (NewScorer default_BotScore)"
proof -
  have "scorer_run [] (NewScorer default_BotScore) = Some ([], NewScorer default_BotScore)" by simp
  moreover have "1000000 \<le> bs_SyncBin default_BotScore" by (simp add: default_BotScore_def)
  ultimately show ?thesis
    using flush_judges_exactly [OF _ _ no_shuffle_fair, of "[]"] by fastforce
qed

definition fine_bin_config :: Config where
  "fine_bin_config = (default_config (Secret_of ''k''))\<lparr>cf_BotScore := default_BotScore\<lparr>bs_SyncBin := 500000\<rparr>\<rparr>"

text \<open>
  A validated configuration can crash the scorer: \<open>Validate\<close> accepts a synchronisation bin
  of half a millisecond (it only asks for a positive duration), the flush counts in whole
  milliseconds, and the first heartbeat in the window makes it divide by zero.
\<close>

theorem fine_bin_panics:
  "Validate_config fine_bin_config = [] \<and>
   scorer_run [Observe_op (demo_beat 1), Flush_op no_shuffle (\<lambda>sig. sig) 2000000000]
     (NewScorer (cf_BotScore fine_bin_config)) = None"
proof
  show "Validate_config fine_bin_config = []"
    using Validate_default
    by (simp add: Validate_parts checks_infra_def checks_admission_def checks_botscore_def fine_bin_config_def
      default_config_def)
  have "Valid (demo_beat 1)" "e_Kind (demo_beat 1) \<noteq> KindRechallenge" by code_simp+
  moreover have "ob_beats (add (demo_beat 1) (new_observation ''a'')) \<noteq> []"
    "ob_lastSeen (add (demo_beat 1) (new_observation ''a'')) = 1000000000"
    "e_Shard (demo_beat 1) = ''s0000''" "e_TokenID (demo_beat 1) = ''a''"
    by code_simp+
  ultimately show "scorer_run [Observe_op (demo_beat 1), Flush_op no_shuffle (\<lambda>sig. sig) 2000000000]
     (NewScorer (cf_BotScore fine_bin_config)) = None"
    by (simp add: fine_bin_config_def NewScorer_def Observe_def windows_observe_def observe_def Let_def
      Flush_def snapshot_def expired_def expire_def no_shuffle_def analyze_def Milliseconds_def quot_def
      default_BotScore_def)
qed

text \<open>
  Passing a re-challenge lowers, and only lowers: the notice brings the token's score to at
  most the pass score, leaves a lower score, the other tokens and the windows alone, and forgets
  the rung of the ladder, so the next quiet window observes instead of restoring again.  With a
  validated configuration the score is then below the greylist threshold.
\<close>

theorem rechallenge_notice:
  assumes "Valid e" "e_Kind e = KindRechallenge"
  shows "score_of (Observe e s) (e_TokenID e) =
      min (score_of s (e_TokenID e)) (float_of (bs_RechallengePassScore (sc_cfg s))) \<and>
    (u \<noteq> e_TokenID e \<longrightarrow> score_of (Observe e s) u = score_of s u \<and> sc_states (Observe e s) u = sc_states s u) \<and>
    sc_states (Observe e s) (e_TokenID e) = None \<and> sc_win (Observe e s) = sc_win s \<and>
    (Validate_config c = [] \<and> sc_cfg s = cf_BotScore c \<longrightarrow>
       score_of (Observe e s) (e_TokenID e) < of_int (bs_Greylist (sc_cfg s)) \<and>
       (v < of_int (bs_Greylist (sc_cfg s)) \<longrightarrow>
          next_rung (sc_cfg s) (sc_states (Observe e s) (e_TokenID e)) v k = (ActionObserve, None)))"
proof -
  have obs: "Observe e s = Clamp (e_TokenID e) s" using assms by (simp add: Observe_def)
  have low: "float_of (bs_RechallengePassScore (sc_cfg s)) < of_int (bs_Greylist (sc_cfg s)) \<and>
      (v < of_int (bs_Greylist (sc_cfg s)) \<longrightarrow> next_rung (sc_cfg s) None v k = (ActionObserve, None))"
    if "Validate_config c = []" "sc_cfg s = cf_BotScore c"
  proof -
    have ok: "scoring_ok (sc_cfg s)" using Validate_scoring that by simp
    then have "float_of n = of_int n"
      if "n \<in> {bs_RechallengePassScore (sc_cfg s), bs_Greylist (sc_cfg s), bs_Hold (sc_cfg s), bs_Block (sc_cfg s)}" for n
      using that by (intro float_of_small) (auto simp: scoring_ok_def)
    with ok show ?thesis by (auto simp: scoring_ok_def next_rung_def)
  qed
  have st: "sc_states (Clamp t s) u = (if u = t then None else sc_states s u)" for t u
    by (simp add: Clamp_def Let_def)
  show ?thesis
    unfolding obs using low by (auto simp: score_of_Clamp st min_less_iff_disj)
qed

theorem rechallenge_notice_witness:
  "sc_states (Observe (demo_event KindRechallenge ''a'' 7) (NewScorer default_BotScore)) ''a'' = None"
proof -
  have "Valid (demo_event KindRechallenge ''a'' 7)" by code_simp
  moreover have "e_Kind (demo_event KindRechallenge ''a'' 7) = KindRechallenge"
    "e_TokenID (demo_event KindRechallenge ''a'' 7) = ''a''" by (simp_all add: demo_event_def)
  ultimately show ?thesis using rechallenge_notice by metis
qed

end
