(* ===== verification/Challenge.thy ===== *)
theory Challenge
  imports Config Keys Redis Sha256
begin

text \<open>
  The entry challenge of \<open>internal/challenge/challenge.go\<close>: a stateless proof-of-work puzzle
  that carries its own HMAC, and the one-time burning of its nonce.  The difficulty provider,
  the random bytes of a nonce, and the conversion of a duration to the milliseconds of
  \<open>SET ... PX\<close> (done by the Redis client library) are arguments.
\<close>

section \<open>Data\<close>

definition Algorithm :: string where "Algorithm = ''sha256-leading-zeros''"

datatype challenge_error = ErrSignature | ErrExpired | ErrDifficulty | ErrSolution | ErrReplay
  | ErrMalformed | ErrNoKey | ErrNoEvent | ErrNonce | ErrBurn redis_error

fun Reason :: "challenge_error option \<Rightarrow> string" where
  "Reason None = ''ok''"
| "Reason (Some ErrSignature) = ''bad_signature''"
| "Reason (Some ErrExpired) = ''expired''"
| "Reason (Some ErrDifficulty) = ''bad_difficulty''"
| "Reason (Some ErrSolution) = ''bad_solution''"
| "Reason (Some ErrReplay) = ''replay''"
| "Reason (Some e) = ''malformed''"

record Challenge =
  ch_Nonce :: string
  ch_Difficulty :: int
  ch_ExpiresAt :: millis
  ch_Signature :: string
  ch_Algorithm :: string

record Subject =
  su_FPHash :: string
  su_IPPrefix :: string
  su_Attempt :: int

type_synonym provider = "Subject \<Rightarrow> unit + int"

definition Fixed :: "int \<Rightarrow> provider" where "Fixed f s = Inr f"

record Issuer =
  is_key :: string
  is_eventID :: string
  is_ttl :: duration
  is_nonceBytes :: int
  is_base :: int
  is_maxDiff :: int

definition NewIssuer :: "string \<Rightarrow> Challenge_cfg \<Rightarrow> challenge_error + Issuer" where
  "NewIssuer eventID cfg =
    (if IsZero (cl_HMACKey cfg) then Inl ErrNoKey
     else if eventID = '''' then Inl ErrNoEvent
     else Inr \<lparr>is_key = Bytes (cl_HMACKey cfg), is_eventID = eventID, is_ttl = cl_TTL cfg,
       is_nonceBytes = cl_NonceBytes cfg, is_base = cl_BaseDifficulty cfg, is_maxDiff = cl_MaxDifficulty cfg\<rparr>)"

section \<open>The puzzle\<close>

definition Digest :: "string \<Rightarrow> string \<Rightarrow> string" where
  "Digest nonce solution = sha256 (nonce @ [CHR ''.''] @ solution)"

definition LeadingZeros8 :: "int \<Rightarrow> int" where "LeadingZeros8 b = 8 - bits b"

fun LeadingZeroBits :: "string \<Rightarrow> int" where
  "LeadingZeroBits [] = 0"
| "LeadingZeroBits (b # bs) = (if byte_of b \<noteq> 0 then LeadingZeros8 (byte_of b) else 8 + LeadingZeroBits bs)"

definition Check :: "string \<Rightarrow> string \<Rightarrow> int \<Rightarrow> bool" where
  "Check nonce solution difficulty \<longleftrightarrow> LeadingZeroBits (Digest nonce solution) \<ge> difficulty"

text \<open>The loop of \<open>Solve\<close> from \<open>i\<close>, with the number of turns left.\<close>

fun solve_from :: "string \<Rightarrow> int \<Rightarrow> nat \<Rightarrow> nat \<Rightarrow> string option" where
  "solve_from nonce difficulty i 0 = None"
| "solve_from nonce difficulty i (Suc n) =
    (if Check nonce (Itoa (int i)) difficulty then Some (Itoa (int i))
     else solve_from nonce difficulty (Suc i) n)"

definition Solve :: "string \<Rightarrow> int \<Rightarrow> int \<Rightarrow> string option" where
  "Solve nonce difficulty limit = solve_from nonce difficulty 0 (nat limit)"

section \<open>Issuing and verifying\<close>

definition clamp :: "Issuer \<Rightarrow> int \<Rightarrow> int" where
  "clamp i d = (if d < is_base i then is_base i else if d > is_maxDiff i then is_maxDiff i else d)"

definition NUL :: char where "NUL = CHR 0x00"

definition sign_message :: "Issuer \<Rightarrow> string \<Rightarrow> int \<Rightarrow> millis \<Rightarrow> string" where
  "sign_message i nonce difficulty expires =
    is_eventID i @ [NUL] @ nonce @ [NUL] @ Itoa difficulty @ [NUL] @ Itoa expires"

definition sign :: "Issuer \<Rightarrow> string \<Rightarrow> int \<Rightarrow> millis \<Rightarrow> string" where
  "sign i nonce difficulty expires =
    RawURLEncoding (hmac_sha256 (is_key i) (sign_message i nonce difficulty expires))"

text \<open>\<open>random\<close> is what the system's random source gives: no bytes on failure.\<close>

definition Issue :: "Issuer \<Rightarrow> provider \<Rightarrow> gotime \<Rightarrow> string option \<Rightarrow> Subject \<Rightarrow> challenge_error + Challenge" where
  "Issue i provider now random s =
    (let difficulty = clamp i (case provider s of Inl _ \<Rightarrow> is_base i | Inr d \<Rightarrow> d)
     in case random of
          None \<Rightarrow> Inl ErrNonce
        | Some r \<Rightarrow>
            let nonce = RawURLEncoding r; expires = UnixMilli (now + is_ttl i)
            in Inr \<lparr>ch_Nonce = nonce, ch_Difficulty = difficulty, ch_ExpiresAt = expires,
                 ch_Signature = sign i nonce difficulty expires, ch_Algorithm = Algorithm\<rparr>)"

definition Required :: "Issuer \<Rightarrow> provider \<Rightarrow> Subject \<Rightarrow> int" where
  "Required i provider s = (case provider s of Inl _ \<Rightarrow> is_base i | Inr d \<Rightarrow> clamp i d)"

definition SetNX :: "link \<Rightarrow> key \<Rightarrow> string \<Rightarrow> millis \<Rightarrow> redis \<Rightarrow> (redis_error + bool) \<times> redis" where
  "SetNX l k v px r =
    (let fresh = (string_get r k = None);
         r' = (if fresh then set_string_px r k v px else r)
     in case l of Delivered \<Rightarrow> (Inr fresh, r') | RequestLost \<Rightarrow> (Inl Network, r) | ReplyLost \<Rightarrow> (Inl Network, r'))"

definition burn :: "link \<Rightarrow> (duration \<Rightarrow> millis) \<Rightarrow> Issuer \<Rightarrow> gotime \<Rightarrow> Challenge \<Rightarrow> redis \<Rightarrow>
    challenge_error option \<times> redis" where
  "burn l px i now c r =
    (let ttl = ch_ExpiresAt c * 1000000 - now
     in if ttl \<le> 0 then (Some ErrExpired, r)
        else case SetNX l (Challenge_key (is_eventID i) (ch_Nonce c)) ''1'' (px ttl) r of
               (Inl e, r') \<Rightarrow> (Some (ErrBurn e), r')
             | (Inr ok, r') \<Rightarrow> (if ok then None else Some ErrReplay, r'))"

definition Verify :: "link \<Rightarrow> (duration \<Rightarrow> millis) \<Rightarrow> Issuer \<Rightarrow> gotime \<Rightarrow> Challenge \<Rightarrow> string \<Rightarrow> redis \<Rightarrow>
    challenge_error option \<times> redis" where
  "Verify l px i now c solution r =
    (if ch_Nonce c = '''' \<or> ch_Signature c = '''' \<or> solution = '''' then (Some ErrMalformed, r)
     else if ch_Signature c \<noteq> sign i (ch_Nonce c) (ch_Difficulty c) (ch_ExpiresAt c) then (Some ErrSignature, r)
     else if ch_Difficulty c < 1 \<or> ch_Difficulty c > is_maxDiff i then (Some ErrDifficulty, r)
     else if UnixMilli now > ch_ExpiresAt c then (Some ErrExpired, r)
     else if \<not> Check (ch_Nonce c) solution (ch_Difficulty c) then (Some ErrSolution, r)
     else burn l px i now c r)"

section \<open>The digest as a number\<close>

lemma byte_of_range [simp]: "0 \<le> byte_of b" "byte_of b < 256"
proof -
  have "byte_of b mod 256 = byte_of b" by (simp add: byte_of_def)
  then show "0 \<le> byte_of b" "byte_of b < 256"
    using pos_mod_sign [of 256 "byte_of b"] pos_mod_bound [of 256 "byte_of b"] by simp_all
qed

lemma foldl_bytes:
  "foldl (\<lambda>acc c. acc * 256 + byte_of c) a bs =
   a * 256 ^ length bs + foldl (\<lambda>acc c. acc * 256 + byte_of c) 0 bs"
proof (induction bs arbitrary: a)
  case (Cons b bs)
  show ?case
    using Cons.IH [of "a * 256 + byte_of b"] Cons.IH [of "byte_of b"] by (simp add: distrib_right)
qed simp

lemma be_int_Cons: "be_int (b # bs) = byte_of b * 256 ^ length bs + be_int bs"
  using foldl_bytes [of "byte_of b" bs] by (simp add: be_int_def)

lemma be_int_range: "0 \<le> be_int bs" "be_int bs < 256 ^ length bs"
proof -
  have "0 \<le> be_int bs \<and> be_int bs < 256 ^ length bs"
  proof (induction bs)
    case (Cons b bs)
    have "byte_of b * 256 ^ length bs \<le> 255 * 256 ^ length bs"
      using byte_of_range(2) [of b] by (intro mult_right_mono) (linarith, simp)
    then have "byte_of b * 256 ^ length bs + be_int bs < 256 * 256 ^ length bs" using Cons by linarith
    moreover have "0 \<le> byte_of b * 256 ^ length bs" by (intro mult_nonneg_nonneg) simp_all
    ultimately show ?case using Cons by (simp add: be_int_Cons)
  qed (simp add: be_int_def)
  then show "0 \<le> be_int bs" "be_int bs < 256 ^ length bs" by simp_all
qed

lemma LeadingZeroBits_iff:
  assumes "0 \<le> k" "k \<le> 8 * int (length bs)"
  shows "k \<le> LeadingZeroBits bs \<longleftrightarrow> be_int bs < 2 ^ nat (8 * int (length bs) - k)"
  using assms
proof (induction bs arbitrary: k)
  case (Cons b bs)
  let ?n = "length bs"
  have p: "(256 :: int) ^ ?n = 2 ^ (8 * ?n)" by (simp add: power_mult)
  show ?case
  proof (cases "byte_of b = 0")
    case True
    have "k \<le> 8 + LeadingZeroBits bs \<longleftrightarrow> be_int bs < 2 ^ nat (8 * int (Suc ?n) - k)"
    proof (cases "k \<le> 8")
      case True
      then have "0 \<le> LeadingZeroBits bs" using Cons.IH [of 0] be_int_range(2) [of bs] by (simp add: p nat_mult_distrib)
      moreover have "be_int bs < 2 ^ nat (8 * int (Suc ?n) - k)"
        using be_int_range(2) [of bs] True unfolding p
        by (elim less_le_trans) (auto intro!: power_increasing)
      ultimately show ?thesis using True by simp
    next
      case False
      with Cons.IH [of "k - 8"] Cons.prems show ?thesis by (simp add: algebra_simps)
    qed
    with True show ?thesis by (simp add: be_int_Cons)
  next
    case False
    let ?b = "byte_of b"
    have b: "0 < ?b" using False byte_of_range(1) [of b] by linarith
    have "bits ?b \<le> 8"
    proof (rule ccontr)
      assume "\<not> bits ?b \<le> 8"
      then have "(2 :: int) ^ 8 \<le> 2 ^ nat (bits ?b - 1)" by (intro power_increasing) simp_all
      also have "\<dots> \<le> ?b" using bits_bounds [OF b] by simp
      finally show False using byte_of_range(2) [of b] by simp
    qed
    have key: "k \<le> 8 - bits ?b \<longleftrightarrow> ?b * 256 ^ ?n + be_int bs < 2 ^ nat (8 * int (Suc ?n) - k)"
    proof
      assume k: "k \<le> 8 - bits ?b"
      have "?b * 256 ^ ?n + be_int bs < (?b + 1) * 256 ^ ?n"
        using be_int_range(2) [of bs] by (simp add: distrib_right)
      also have "\<dots> \<le> 2 ^ nat (bits ?b) * 256 ^ ?n"
        using bits_bounds [OF b] by (intro mult_right_mono) simp_all
      also have "\<dots> = 2 ^ (nat (bits ?b) + 8 * ?n)" by (simp add: p power_add)
      also have "\<dots> \<le> 2 ^ nat (8 * int (Suc ?n) - k)"
        using k Cons.prems bits_nonneg [of ?b] by (intro power_increasing) auto
      finally show "?b * 256 ^ ?n + be_int bs < 2 ^ nat (8 * int (Suc ?n) - k)" .
    next
      assume lt: "?b * 256 ^ ?n + be_int bs < 2 ^ nat (8 * int (Suc ?n) - k)"
      show "k \<le> 8 - bits ?b"
      proof (rule ccontr)
        assume k: "\<not> k \<le> 8 - bits ?b"
        have "(2 :: int) ^ nat (8 * int (Suc ?n) - k) \<le> 2 ^ (nat (bits ?b - 1) + 8 * ?n)"
          using k by (intro power_increasing) auto
        also have "\<dots> = 2 ^ nat (bits ?b - 1) * 256 ^ ?n" by (simp add: p power_add)
        also have "\<dots> \<le> ?b * 256 ^ ?n" using bits_bounds [OF b] by (intro mult_right_mono) simp_all
        finally show False using lt be_int_range(1) [of bs] by simp
      qed
    qed
    with False show ?thesis by (simp add: be_int_Cons LeadingZeros8_def)
  qed
qed (simp add: be_int_def)


section \<open>What a signature binds\<close>

lemma b64_char_inj:
  assumes "0 \<le> u" "u < 64" "0 \<le> v" "v < 64" "b64_char u = b64_char v"
  shows "u = v"
proof -
  let ?al = "''ABCDEFGHIJKLMNOPQRSTUVWXYZabcdefghijklmnopqrstuvwxyz0123456789-_''"
  have "distinct ?al" by code_simp
  moreover have "?al ! nat u = ?al ! nat v" using assms by (simp add: b64_char_def)
  moreover have "nat u < length ?al" "nat v < length ?al" using assms by simp_all
  ultimately have "nat u = nat v" by (simp only: nth_eq_iff_index_eq)
  with assms show ?thesis by simp
qed

lemma byte_of_inj: "byte_of a = byte_of b \<Longrightarrow> a = b"
  by (simp add: byte_of_def)

lemma byte_parts:
  "0 \<le> byte_of x div 4" "byte_of x div 4 < 64" "0 \<le> byte_of x mod 4" "byte_of x mod 4 < 4"
  "0 \<le> byte_of x div 16" "byte_of x div 16 < 16" "0 \<le> byte_of x mod 16" "byte_of x mod 16 < 16"
  "0 \<le> byte_of x div 64" "byte_of x div 64 < 4" "0 \<le> byte_of x mod 64" "byte_of x mod 64 < 64"
proof -
  have r: "0 \<le> v \<and> v < 256 \<Longrightarrow> 0 \<le> v div 4 \<and> v div 4 < 64 \<and> 0 \<le> v div 16 \<and> v div 16 < 16 \<and>
    0 \<le> v div 64 \<and> v div 64 < 4" for v :: int
    by auto
  from r [of "byte_of x"] show "0 \<le> byte_of x div 4" "byte_of x div 4 < 64"
    "0 \<le> byte_of x div 16" "byte_of x div 16 < 16" "0 \<le> byte_of x div 64" "byte_of x div 64 < 4"
    by simp_all
qed simp_all

lemma mixed_radix:
  fixes x y x' y' k :: int
  assumes "x * k + y = x' * k + y'" "0 \<le> y" "y < k" "0 \<le> y'" "y' < k"
  shows "x = x' \<and> y = y'"
proof -
  have "(x * k + y) div k = x" "(x' * k + y') div k = x'" using assms(2-5) by simp_all
  with assms(1) show ?thesis by simp
qed

lemma byte_from_parts:
  assumes "byte_of a div k = byte_of a' div k" "byte_of a mod k = byte_of a' mod k"
  shows "a = a'"
proof -
  have "k * (byte_of a div k) + byte_of a mod k = k * (byte_of a' div k) + byte_of a' mod k"
    using assms by simp
  then have "byte_of a = byte_of a'" by (simp only: mult_div_mod_eq)
  then show ?thesis by (rule byte_of_inj)
qed

lemma b64_group:
  assumes "b64_char (byte_of a div 4) = b64_char (byte_of a' div 4)"
    "b64_char (byte_of a mod 4 * 16 + byte_of b div 16) = b64_char (byte_of a' mod 4 * 16 + byte_of b' div 16)"
  shows "a = a' \<and> byte_of b div 16 = byte_of b' div 16"
proof -
  have range: "0 \<le> byte_of x mod 4 * 16 + byte_of y div 16" "byte_of x mod 4 * 16 + byte_of y div 16 < 64" for x y
    using byte_parts(3,4) [of x] byte_parts(5,6) [of y] by linarith+
  have d: "byte_of a div 4 = byte_of a' div 4"
    by (rule b64_char_inj [OF byte_parts(1,2) byte_parts(1,2) assms(1)])
  have "byte_of a mod 4 * 16 + byte_of b div 16 = byte_of a' mod 4 * 16 + byte_of b' div 16"
    by (rule b64_char_inj [OF range range assms(2)])
  from mixed_radix [OF this byte_parts(5,6) byte_parts(5,6)] byte_from_parts [OF d] show ?thesis by blast
qed

lemma b64_tail:
  assumes "b64_char (byte_of b mod 16 * 4 + byte_of c div 64) = b64_char (byte_of b' mod 16 * 4 + byte_of c' div 64)"
    "byte_of b div 16 = byte_of b' div 16"
  shows "b = b' \<and> byte_of c div 64 = byte_of c' div 64"
proof -
  have range: "0 \<le> byte_of x mod 16 * 4 + byte_of y div 64" "byte_of x mod 16 * 4 + byte_of y div 64 < 64" for x y
    using byte_parts(7,8) [of x] byte_parts(9,10) [of y] by linarith+
  have "byte_of b mod 16 * 4 + byte_of c div 64 = byte_of b' mod 16 * 4 + byte_of c' div 64"
    by (rule b64_char_inj [OF range range assms(1)])
  from mixed_radix [OF this byte_parts(9,10) byte_parts(9,10)] byte_from_parts [OF assms(2)]
  show ?thesis by blast
qed

lemma byte_of_NUL [simp]: "byte_of NUL = 0"
  by (simp add: byte_of_def NUL_def)

lemma RawURLEncoding_inj: "RawURLEncoding s = RawURLEncoding t \<Longrightarrow> s = t"
proof (induction s arbitrary: t rule: RawURLEncoding.induct)
  case 1
  then show ?case by (cases t rule: RawURLEncoding.cases) auto
next
  case (2 a)
  then show ?case
    using b64_group [of a _ NUL NUL] by (cases t rule: RawURLEncoding.cases) auto
next
  case (3 a b)
  show ?case
  proof (cases t rule: RawURLEncoding.cases)
    case (3 a' b')
    with "3.prems" have g: "a = a' \<and> byte_of b div 16 = byte_of b' div 16"
      by (intro b64_group) simp_all
    with 3 "3.prems" b64_tail [of b NUL b' NUL] show ?thesis by simp
  qed (use "3.prems" in auto)
next
  case (4 a b c s)
  show ?case
  proof (cases t rule: RawURLEncoding.cases)
    case (4 a' b' c' t')
    with "4.prems" have g: "a = a' \<and> byte_of b div 16 = byte_of b' div 16"
      by (intro b64_group) simp_all
    with 4 "4.prems" have h: "b = b' \<and> byte_of c div 64 = byte_of c' div 64"
      by (intro b64_tail) simp_all
    have "byte_of c mod 64 = byte_of c' mod 64"
      using 4 "4.prems" by (intro b64_char_inj) simp_all
    with h have "c = c'" by (blast intro: byte_from_parts)
    moreover have "s = t'" using 4 "4.prems" by (intro "4.IH") simp
    ultimately show ?thesis using g h 4 by simp
  qed (use "4.prems" in auto)
qed

lemma last_separator:
  assumes "xs @ c # ys = xs' @ c # ys'" "c \<notin> set ys" "c \<notin> set ys'"
  shows "xs = xs' \<and> ys = ys'"
proof -
  have "takeWhile ((\<noteq>) c) (rev (zs @ c # us)) = rev us" if "c \<notin> set us" for zs us
    using that takeWhile_append2 [of "rev us" "(\<noteq>) c" "c # rev zs"] by auto
  from this [OF assms(2), of xs] this [OF assms(3), of xs'] assms(1) have "ys = ys'" by simp
  with assms(1) show ?thesis by simp
qed

lemma NUL_not_digit: "list_all is_digit s \<Longrightarrow> NUL \<notin> set s"
  by (auto simp: list_all_iff NUL_def is_digit_of_char)

lemma NUL_Itoa [simp]: "NUL \<notin> set (Itoa n)"
  using NUL_not_digit [OF show_nat_digits] by (auto simp: Itoa_def NUL_def)

lemma sign_message_inj:
  assumes "sign_message i n d e = sign_message i n' d' e'"
  shows "n = n' \<and> d = d' \<and> e = e'"
proof -
  have "(is_eventID i @ [NUL] @ n @ [NUL] @ Itoa d) @ NUL # Itoa e =
      (is_eventID i @ [NUL] @ n' @ [NUL] @ Itoa d') @ NUL # Itoa e'"
    using assms by (simp add: sign_message_def)
  from last_separator [OF this]
  have 1: "(is_eventID i @ [NUL] @ n) @ NUL # Itoa d = (is_eventID i @ [NUL] @ n') @ NUL # Itoa d'"
    "Itoa e = Itoa e'" by simp_all
  from last_separator [OF 1(1)] 1(2) show ?thesis by (simp add: Itoa_inj)
qed


section \<open>Properties\<close>

lemma clamp_bounds: "is_base i \<le> is_maxDiff i \<Longrightarrow> is_base i \<le> clamp i d \<and> clamp i d \<le> is_maxDiff i"
  by (simp add: clamp_def)

lemma NewIssuer_range:
  assumes "NewIssuer ev cfg = Inr i" "challenge_ok cfg"
  shows "1 \<le> is_base i" "is_base i \<le> is_maxDiff i" "is_maxDiff i \<le> 32"
  using assms by (auto simp: NewIssuer_def challenge_ok_def split: if_splits)

lemma solve_from_spec:
  "(case solve_from nonce k i n of
      Some s \<Rightarrow> \<exists>j. i \<le> j \<and> j < i + n \<and> s = Itoa (int j) \<and> Check nonce s k \<and>
        (\<forall>l. i \<le> l \<and> l < j \<longrightarrow> \<not> Check nonce (Itoa (int l)) k)
    | None \<Rightarrow> \<forall>l. i \<le> l \<and> l < i + n \<longrightarrow> \<not> Check nonce (Itoa (int l)) k)"
proof (induction n arbitrary: i)
  case (Suc n)
  show ?case
  proof (cases "Check nonce (Itoa (int i)) k")
    case True
    then show ?thesis by auto
  next
    case False
    show ?thesis
    proof (cases "solve_from nonce k (Suc i) n")
      case None
      with Suc [of "Suc i"] have none: "\<forall>l. Suc i \<le> l \<and> l < Suc i + n \<longrightarrow> \<not> Check nonce (Itoa (int l)) k"
        by simp
      have "\<not> Check nonce (Itoa (int l)) k" if "i \<le> l" "l < i + Suc n" for l
        using that False none by (cases "l = i") auto
      with None False show ?thesis by simp
    next
      case (Some s)
      with Suc [of "Suc i"] obtain j where j: "Suc i \<le> j" "j < Suc i + n" "s = Itoa (int j)" "Check nonce s k"
        "\<forall>l. Suc i \<le> l \<and> l < j \<longrightarrow> \<not> Check nonce (Itoa (int l)) k" by auto
      then have "\<forall>l. i \<le> l \<and> l < j \<longrightarrow> \<not> Check nonce (Itoa (int l)) k"
        using False by (metis Suc_leI le_neq_implies_less)
      with j Some False show ?thesis by (auto intro!: exI [of _ j])
    qed
  qed
qed auto

text \<open>
  C34. The work a challenge asks for: the digest has \<open>k\<close> leading zero bits exactly when, read as
  a number, it is below \<open>2 ^ (256 - k)\<close>; and \<open>Solve\<close> finds the least counter under its limit
  that meets the difficulty, or reports that there is none.
\<close>

theorem proof_of_work:
  assumes "0 \<le> k" "k \<le> 256"
  shows "(Check nonce solution k \<longleftrightarrow> be_int (Digest nonce solution) < 2 ^ nat (256 - k)) \<and>
    (case Solve nonce k limit of
       Some s \<Rightarrow> \<exists>j < nat limit. s = Itoa (int j) \<and> be_int (Digest nonce s) < 2 ^ nat (256 - k) \<and>
         (\<forall>l < j. \<not> Check nonce (Itoa (int l)) k)
     | None \<Rightarrow> \<forall>l < nat limit. \<not> Check nonce (Itoa (int l)) k)"
proof -
  have check: "Check nonce sol k \<longleftrightarrow> be_int (Digest nonce sol) < 2 ^ nat (256 - k)" for sol
    using assms LeadingZeroBits_iff [of k "Digest nonce sol"] by (simp add: Check_def Digest_def)
  show ?thesis
    using solve_from_spec [where nonce = nonce and k = k and i = 0 and n = "nat limit"]
    by (auto simp: Solve_def check split: option.splits)
qed

theorem proof_of_work_witness:
  "Check ''n'' ''s'' 16 \<longleftrightarrow> be_int (Digest ''n'' ''s'') < 2 ^ 240"
  using proof_of_work [of 16 "''n''" "''s''"] by simp

text \<open>
  C33. A client cannot weaken its challenge.  A challenge that comes back under the signature of
  an issued one is refused, unless it has the nonce, the difficulty and the expiry that were
  issued or exhibits two different messages with the same HMAC; and what is issued asks for at
  least the base difficulty and at most the maximum, whatever the difficulty provider says.
\<close>

theorem challenge_binds:
  assumes "NewIssuer ev cfg = Inr i" "challenge_ok cfg" "Issue i provider now (Some r) s = Inr c"
    "ch_Signature c' = ch_Signature c" "fst (Verify l px i t c' solution st) \<notin> {Some ErrSignature, Some ErrMalformed}"
  shows "(ch_Nonce c' = ch_Nonce c \<and> ch_Difficulty c' = ch_Difficulty c \<and> ch_ExpiresAt c' = ch_ExpiresAt c \<or>
     (let m = sign_message i (ch_Nonce c) (ch_Difficulty c) (ch_ExpiresAt c);
          m' = sign_message i (ch_Nonce c') (ch_Difficulty c') (ch_ExpiresAt c')
      in m \<noteq> m' \<and> hmac_sha256 (is_key i) m = hmac_sha256 (is_key i) m')) \<and>
    1 \<le> cl_BaseDifficulty cfg \<and> cl_BaseDifficulty cfg \<le> ch_Difficulty c \<and> ch_Difficulty c \<le> cl_MaxDifficulty cfg"
proof -
  let ?m = "sign_message i (ch_Nonce c) (ch_Difficulty c) (ch_ExpiresAt c)"
    and ?m' = "sign_message i (ch_Nonce c') (ch_Difficulty c') (ch_ExpiresAt c')"
  have c: "ch_Signature c = sign i (ch_Nonce c) (ch_Difficulty c) (ch_ExpiresAt c)"
    "\<exists>d. ch_Difficulty c = clamp i d"
    using assms(3) by (auto simp: Issue_def Let_def)
  have "ch_Signature c' = sign i (ch_Nonce c') (ch_Difficulty c') (ch_ExpiresAt c')"
    using assms(5) by (auto simp: Verify_def split: if_splits)
  then have "RawURLEncoding (hmac_sha256 (is_key i) ?m) = RawURLEncoding (hmac_sha256 (is_key i) ?m')"
    using c(1) assms(4) by (simp only: sign_def)
  then have h: "hmac_sha256 (is_key i) ?m = hmac_sha256 (is_key i) ?m'" by (rule RawURLEncoding_inj)
  have b: "is_base i = cl_BaseDifficulty cfg" "is_maxDiff i = cl_MaxDifficulty cfg"
    using assms(1) by (auto simp: NewIssuer_def split: if_splits)
  obtain d where d: "ch_Difficulty c = clamp i d" using c(2) by blast
  have work: "1 \<le> cl_BaseDifficulty cfg" "cl_BaseDifficulty cfg \<le> ch_Difficulty c"
    "ch_Difficulty c \<le> cl_MaxDifficulty cfg"
    using clamp_bounds [OF NewIssuer_range(2) [OF assms(1,2)], of d] NewIssuer_range(1) [OF assms(1,2)]
    by (simp_all add: b d)
  show ?thesis
  proof (cases "?m = ?m'")
    case True
    with sign_message_inj [OF True] work show ?thesis by simp
  next
    case False
    with h work show ?thesis by (simp add: Let_def)
  qed
qed

text \<open>What is issued is well formed, and its first solution in time is accepted and burned.\<close>

lemma issued_challenge:
  assumes "NewIssuer ev cfg = Inr i" "challenge_ok cfg" "Issue i provider now (Some r) s = Inr c" "r \<noteq> []"
  shows "ch_Nonce c \<noteq> ''''" "ch_Signature c \<noteq> ''''"
    "ch_Signature c = sign i (ch_Nonce c) (ch_Difficulty c) (ch_ExpiresAt c)"
    "1 \<le> ch_Difficulty c" "ch_Difficulty c \<le> is_maxDiff i"
proof -
  show "ch_Signature c = sign i (ch_Nonce c) (ch_Difficulty c) (ch_ExpiresAt c)"
    using assms(3) by (auto simp: Issue_def Let_def)
  moreover have "length (sign i n d e) \<noteq> 0" for n d e by (simp add: sign_def length_RawURLEncoding)
  ultimately show "ch_Signature c \<noteq> ''''" by (metis list.size(3))
  obtain n where "r = n # tl r" using assms(4) by (cases r) auto
  then have "length (RawURLEncoding r) \<noteq> 0" using assms(4) by (simp add: length_RawURLEncoding) (cases r; simp)
  then show "ch_Nonce c \<noteq> ''''" using assms(3) by (auto simp: Issue_def Let_def)
  show "1 \<le> ch_Difficulty c" "ch_Difficulty c \<le> is_maxDiff i"
    using assms(3) clamp_bounds [OF NewIssuer_range(2) [OF assms(1,2)]] NewIssuer_range [OF assms(1,2)]
    by (auto simp: Issue_def Let_def intro: order_trans)
qed

lemma Verify_fresh:
  assumes "NewIssuer ev cfg = Inr i" "challenge_ok cfg" "Issue i provider now (Some r) s = Inr c" "r \<noteq> []"
    and "Check (ch_Nonce c) solution (ch_Difficulty c)" "solution \<noteq> ''''"
    and "t < ch_ExpiresAt c * 1000000"
    and "string_get st (Challenge_key (is_eventID i) (ch_Nonce c)) = None"
  shows "Verify Delivered px i t c solution st =
    (None, set_string_px st (Challenge_key (is_eventID i) (ch_Nonce c)) ''1'' (px (ch_ExpiresAt c * 1000000 - t)))"
proof -
  have "UnixMilli t \<le> ch_ExpiresAt c" using assms(7) by (simp add: UnixMilli_def)
  then show ?thesis
    using issued_challenge [OF assms(1-4)] assms(5-8) by (simp add: Verify_def burn_def SetNX_def Let_def)
qed

text \<open>
  C8. An issued challenge can be redeemed once.  Until its expiry its solution is accepted when
  the nonce is not yet burned, and the acceptance burns it.  Every attempt after that, with any
  text, is refused: an empty one as malformed, a wrong one as no solution, and a right one as a
  replay until the expiry and as expired from then on; past the millisecond of the expiry any
  other text is refused as expired too.  The nonce is remembered until the last millisecond
  before the expiry, on the store's clock, if that is not behind the gate's at the acceptance and
  the client library sends a time to live of at least the whole milliseconds it is given; in
  that last millisecond nothing is claimed.
\<close>

theorem challenge_once:
  assumes issued: "NewIssuer ev cfg = Inr i" "challenge_ok cfg" "Issue i provider now (Some r) s = Inr c" "r \<noteq> []"
    and solved: "Check (ch_Nonce c) solution (ch_Difficulty c)" "solution \<noteq> ''''"
    and time: "t < ch_ExpiresAt c * 1000000" "UnixMilli t \<le> clock st"
    and px: "\<And>ttl. 0 < ttl \<Longrightarrow> 0 < px ttl \<and> Milliseconds ttl \<le> px ttl"
    and fresh: "string_get st (Challenge_key (is_eventID i) (ch_Nonce c)) = None"
  shows "fst (Verify Delivered px i t c solution st) = None \<and>
    (\<forall>d t' solution'. 0 \<le> d \<longrightarrow>
       clock st + d + 1 < ch_ExpiresAt c \<or> ch_ExpiresAt c * 1000000 \<le> t' \<longrightarrow>
       fst (Verify Delivered px i t' c solution' (tick d (snd (Verify Delivered px i t c solution st)))) =
         Some (if solution' = '''' then ErrMalformed
           else if ch_ExpiresAt c < UnixMilli t' then ErrExpired
           else if \<not> Check (ch_Nonce c) solution' (ch_Difficulty c) then ErrSolution
           else if ch_ExpiresAt c * 1000000 \<le> t' then ErrExpired
           else ErrReplay))"
proof -
  let ?k = "Challenge_key (is_eventID i) (ch_Nonce c)" and ?ttl = "ch_ExpiresAt c * 1000000 - t"
  let ?st' = "set_string_px st ?k ''1'' (px ?ttl)"
  note V = Verify_fresh [OF issued solved time(1) fresh, of px]
  note good = issued_challenge [OF issued]
  have kept: "string_get (tick d ?st') ?k \<noteq> None" if "0 \<le> d" "clock st + d + 1 < ch_ExpiresAt c" for d
  proof -
    have "ch_ExpiresAt c - UnixMilli t - 1 \<le> Milliseconds ?ttl"
      using time(1) by (simp add: Milliseconds_nonneg UnixMilli_def)
    also have "\<dots> \<le> px ?ttl" using px [of ?ttl] time(1) by simp
    finally have "clock st + d < clock st + px ?ttl" using that time(2) by linarith
    then show ?thesis by (simp add: string_get_def tick_def set_string_px_def live_def alive_def)
  qed
  have burned: "fst (burn Delivered px i t' c st'') = Some (if ch_ExpiresAt c * 1000000 \<le> t' then ErrExpired else ErrReplay)"
    if "string_get st'' ?k \<noteq> None \<or> ch_ExpiresAt c * 1000000 \<le> t'" for t' st''
    using that by (auto simp: burn_def SetNX_def Let_def)
  show ?thesis
    using good kept burned [of "tick _ ?st'"] by (auto simp: V) (auto simp: Verify_def)
qed

section \<open>A concrete challenge\<close>

definition demo_challenge_cfg :: Challenge_cfg where
  "demo_challenge_cfg = (default_Challenge (Secret_of ''k''))\<lparr>cl_BaseDifficulty := 1\<rparr>"

definition demo_issuer :: Issuer where
  "demo_issuer = \<lparr>is_key = ''k'', is_eventID = ''ev'', is_ttl = 120000000000, is_nonceBytes = 16,
    is_base = 1, is_maxDiff = 26\<rparr>"

definition demo_challenge :: Challenge where
  "demo_challenge = \<lparr>ch_Nonce = ''YWJj'', ch_Difficulty = 1, ch_ExpiresAt = 120000,
    ch_Signature = sign demo_issuer ''YWJj'' 1 120000, ch_Algorithm = Algorithm\<rparr>"

definition demo_subject :: Subject where
  "demo_subject = \<lparr>su_FPHash = ''fp'', su_IPPrefix = ''10.0.0.0/24'', su_Attempt = 0\<rparr>"

lemma demo_new: "NewIssuer ''ev'' demo_challenge_cfg = Inr demo_issuer" "challenge_ok demo_challenge_cfg"
  by (simp_all add: NewIssuer_def demo_challenge_cfg_def demo_issuer_def default_Challenge_def IsZero_def
    Bytes_def challenge_ok_def)

lemma demo_issue: "Issue demo_issuer (Fixed 1) 0 (Some ''abc'') demo_subject = Inr demo_challenge"
proof -
  have "RawURLEncoding ''abc'' = ''YWJj''" by code_simp
  moreover have "clamp demo_issuer 1 = 1" "UnixMilli (0 + is_ttl demo_issuer) = 120000" by code_simp+
  ultimately show ?thesis by (simp add: Issue_def Fixed_def demo_challenge_def Let_def)
qed

lemma demo_solved: "Check ''YWJj'' ''1'' 1"
  by code_simp

theorem challenge_binds_witness:
  "fst (Verify Delivered (\<lambda>d. d) demo_issuer 120001000000 demo_challenge ''1'' empty_redis) = Some ErrExpired \<and>
   ch_Difficulty demo_challenge \<le> cl_MaxDifficulty demo_challenge_cfg"
proof -
  have "length (ch_Signature demo_challenge) \<noteq> 0"
    by (simp add: demo_challenge_def sign_def length_RawURLEncoding)
  then have v: "fst (Verify Delivered (\<lambda>d. d) demo_issuer 120001000000 demo_challenge ''1'' empty_redis) = Some ErrExpired"
    by (auto simp: Verify_def demo_challenge_def demo_issuer_def UnixMilli_def)
  then show ?thesis using challenge_binds [OF demo_new demo_issue refl, of Delivered "\<lambda>d. d" 120001000000 "''1''" empty_redis]
    by simp
qed

theorem challenge_once_witness:
  "let px = (\<lambda>d. Milliseconds d + 1); r1 = Verify Delivered px demo_issuer 5000000 demo_challenge ''1'' (empty_redis\<lparr>clock := 5\<rparr>)
   in fst r1 = None \<and>
      fst (Verify Delivered px demo_issuer 6000000 demo_challenge ''1'' (tick 1 (snd r1))) = Some ErrReplay \<and>
      fst (Verify Delivered px demo_issuer 120000000000 demo_challenge ''1'' (tick 200000 (snd r1))) = Some ErrExpired"
proof -
  let ?px = "\<lambda>d. Milliseconds d + 1" and ?st = "empty_redis\<lparr>clock := 5\<rparr>"
  have px: "0 < ?px d \<and> Milliseconds d \<le> ?px d" if "0 < d" for d
    using Milliseconds_ge_0 [of d] that by simp
  have solved: "Check (ch_Nonce demo_challenge) ''1'' (ch_Difficulty demo_challenge)"
    using demo_solved by (simp add: demo_challenge_def)
  have time: "5000000 < ch_ExpiresAt demo_challenge * 1000000" "UnixMilli 5000000 \<le> clock ?st"
    and fresh: "string_get ?st k = None" for k
    by (simp_all add: demo_challenge_def UnixMilli_def string_get_def live_def empty_redis_def)
  note once = challenge_once [OF demo_new demo_issue _ solved _ time px fresh]
  have e: "ch_ExpiresAt demo_challenge = 120000" "clock ?st = 5" by (simp_all add: demo_challenge_def)
  have "fst (Verify Delivered ?px demo_issuer 5000000 demo_challenge ''1'' ?st) = None" using once by simp
  moreover have "fst (Verify Delivered ?px demo_issuer 6000000 demo_challenge ''1''
      (tick 1 (snd (Verify Delivered ?px demo_issuer 5000000 demo_challenge ''1'' ?st)))) = Some ErrReplay"
    by (subst once [THEN conjunct2, rule_format]) (use solved e in \<open>simp_all add: UnixMilli_def\<close>)
  moreover have "fst (Verify Delivered ?px demo_issuer 120000000000 demo_challenge ''1''
      (tick 200000 (snd (Verify Delivered ?px demo_issuer 5000000 demo_challenge ''1'' ?st)))) = Some ErrExpired"
    by (subst once [THEN conjunct2, rule_format]) (use solved e in \<open>simp_all add: UnixMilli_def\<close>)
  ultimately show ?thesis by (simp add: Let_def)
qed

end
