(* ===== verification/BotActuator.thy ===== *)
theory BotActuator
  imports BotScorer Challenge ActionScripts Lanes Shard
begin

text \<open>
  From decisions to state: the actuator of \<open>internal/botscore/actuator.go\<close>, which runs the
  quarantine scripts, raises the suspicion of a device and of an address range, and leaves an
  audit trail; and the difficulty provider of \<open>internal/botscore/difficulty.go\<close>, which turns
  suspicion into work.  What the network does to each call is an argument.
\<close>

section \<open>Data\<close>

datatype actuator_error = ErrShard shard_error | ErrActionRedis redis_error | ErrUnexpectedReply

record AuditRecord =
  au_EventID :: string
  au_TokenID :: token
  au_Shard :: string
  au_Action :: string
  au_Score :: float64
  au_Signals :: Signals
  au_Contributing :: int
  au_CappedFrom :: "(Action \<times> int) option"
  au_At :: gotime

record BlockRecord =
  bl_EventID :: string
  bl_TokenID :: token
  bl_FPHash :: string
  bl_Score :: float64
  bl_Signals :: Signals
  bl_Contributing :: int
  bl_CappedFrom :: "(Action \<times> int) option"
  bl_At :: gotime

datatype sink_call = Audit AuditRecord | Block BlockRecord

record Actuator =
  an_cfg :: BotScore_cfg
  an_userTTL :: duration
  an_eventID :: string
  an_sink :: bool

text \<open>The fate of the calls one decision makes.\<close>

record wires =
  wi_script :: net
  wi_hmget :: link
  wi_incr :: "string \<Rightarrow> link"
  wi_expire :: "string \<Rightarrow> link"
  wi_hmget2 :: link

definition NewActionScript :: "string \<Rightarrow> script \<Rightarrow> Script" where
  "NewActionScript name body = \<lparr>script_name = name, script_sha = name, script_body = body\<rparr>"

fun action_name :: "Action \<Rightarrow> string" where
  "action_name ActionObserve = ''observe''"
| "action_name ActionGreylist = ''greylist''"
| "action_name ActionHold = ''hold''"
| "action_name ActionBlock = ''block''"
| "action_name ActionRestore = ''restore''"

section \<open>Operations\<close>

definition firstString :: "lval list \<Rightarrow> actuator_error + string" where
  "firstString v = (case v of LStr s # _ \<Rightarrow> Inr s | _ \<Rightarrow> Inl ErrUnexpectedReply)"

definition run_script :: "net \<Rightarrow> string \<Rightarrow> script \<Rightarrow> redis \<Rightarrow> (actuator_error + string) \<times> redis" where
  "run_script n name body r =
    (case Run n (NewActionScript name body) r of
       (Inl e, r') \<Rightarrow> (Inl (ErrActionRedis e), r')
     | (Inr v, r') \<Rightarrow> (firstString v, r'))"

definition runApply :: "net \<Rightarrow> Actuator \<Rightarrow> gotime \<Rightarrow> Decision \<Rightarrow> string \<Rightarrow> redis \<Rightarrow>
    (actuator_error + string) \<times> redis" where
  "runApply n a now d act r =
    (let ev = an_eventID a; sid = dc_Shard d; t = dc_TokenID d
     in case Greylist sid of
          Inl e \<Rightarrow> (Inl (ErrShard e), r)
        | Inr grey \<Rightarrow> run_script n ''apply_action.lua''
            (apply_action_lua (Queue ev sid) (Hold ev sid) (Score ev sid) (User ev sid t) (Queue ev grey)
               t (int64_of (dc_Score d)) act (UnixMilli now) (Milliseconds (an_userTTL a))) r)"

definition subjects :: "link \<Rightarrow> Actuator \<Rightarrow> Decision \<Rightarrow> redis \<Rightarrow> string list" where
  "subjects l a d r =
    (if l \<noteq> Delivered then []
     else let k = User (an_eventID a) (dc_Shard d) (dc_TokenID d)
          in filter (\<lambda>s. s \<noteq> '''') (List.map_filter (\<lambda>v. v) [hget r k u_fp_hash, hget r k u_ip_prefix]))"

text \<open>
  The Redis client sends the lifetime of a key in whole seconds: what is left of a second is
  dropped, and anything positive below one counts as one.
\<close>

definition formatSec :: "duration \<Rightarrow> millis" where
  "formatSec d = (if 0 < d \<and> d < seconds 1 then 1000 else 1000 * quot d (seconds 1))"

definition expire_counter :: "redis \<Rightarrow> key \<Rightarrow> millis \<Rightarrow> redis" where
  "expire_counter r k px =
    (case counter_get r k of
       None \<Rightarrow> r | Some n \<Rightarrow> r\<lparr>counters := (counters r)(k \<mapsto> (n, Some (clock r + px)))\<rparr>)"

definition raise_one :: "wires \<Rightarrow> Actuator \<Rightarrow> string \<Rightarrow> redis \<Rightarrow> redis" where
  "raise_one w a subj r =
    (let k = Suspicion (an_eventID a) subj
     in case wi_incr w subj of
          RequestLost \<Rightarrow> r
        | ReplyLost \<Rightarrow> snd (incr_by r k 1)
        | Delivered \<Rightarrow>
            let r1 = snd (incr_by r k 1)
            in if wi_expire w subj = RequestLost then r1
               else expire_counter r1 k (formatSec (bs_SuspicionTTL (an_cfg a))))"

definition raiseSuspicion :: "wires \<Rightarrow> Actuator \<Rightarrow> Decision \<Rightarrow> redis \<Rightarrow> redis" where
  "raiseSuspicion w a d r = fold (raise_one w a) (subjects (wi_hmget w) a d r) r"

definition move :: "wires \<Rightarrow> Actuator \<Rightarrow> gotime \<Rightarrow> Decision \<Rightarrow> redis \<Rightarrow> (actuator_error + string) \<times> redis" where
  "move w a now d r =
    (let ev = an_eventID a; sid = dc_Shard d; t = dc_TokenID d
     in case Greylist sid of
          Inl e \<Rightarrow> (Inl (ErrShard e), r)
        | Inr grey \<Rightarrow>
            if IsGreylist sid then runApply (wi_script w) a now d ''observe'' r
            else (case run_script (wi_script w) ''move_shard.lua''
                    (move_shard_lua (Queue ev sid) (Queue ev grey) (Score ev sid) (User ev sid t)
                       t grey (int64_of (dc_Score d)) (UnixMilli now) (Milliseconds (an_userTTL a))) r of
                    (Inl e, r') \<Rightarrow> (Inl e, r')
                  | (Inr applied, r') \<Rightarrow>
                      (Inr applied, if applied = ''greylist'' then raiseSuspicion w a d r' else r')))"

definition restore :: "net \<Rightarrow> Actuator \<Rightarrow> gotime \<Rightarrow> Decision \<Rightarrow> redis \<Rightarrow> (actuator_error + string) \<times> redis" where
  "restore n a now d r =
    (let ev = an_eventID a; sid = dc_Shard d; t = dc_TokenID d
     in case (Origin sid, Greylist sid) of
          (Inr origin, Inr grey) \<Rightarrow> run_script n ''restore_shard.lua''
            (restore_shard_lua (Queue ev origin) (Queue ev grey) (Hold ev sid) (User ev sid t)
               t origin (UnixMilli now) (Milliseconds (an_userTTL a))) r
        | (Inl e, _) \<Rightarrow> (Inl (ErrShard e), r)
        | (_, Inl e) \<Rightarrow> (Inl (ErrShard e), r))"

definition capped_reason :: "Actuator \<Rightarrow> Decision \<Rightarrow> (Action \<times> int) option" where
  "capped_reason a d = map_option (\<lambda>c. (c, bs_MinSignalsToBlock (an_cfg a))) (dc_CappedFrom d)"

definition record_action :: "link \<Rightarrow> Actuator \<Rightarrow> gotime \<Rightarrow> Decision \<Rightarrow> string \<Rightarrow> redis \<Rightarrow> sink_call list" where
  "record_action l a now d applied r =
    (if \<not> an_sink a then []
     else Audit \<lparr>au_EventID = an_eventID a, au_TokenID = dc_TokenID d, au_Shard = dc_Shard d,
            au_Action = applied, au_Score = dc_Score d, au_Signals = dc_Signals d,
            au_Contributing = dc_Contributing d, au_CappedFrom = capped_reason a d, au_At = now\<rparr>
          # (if applied = ''block''
             then [Block \<lparr>bl_EventID = an_eventID a, bl_TokenID = dc_TokenID d,
                     bl_FPHash = (case subjects l a d r of [] \<Rightarrow> '''' | s # _ \<Rightarrow> s),
                     bl_Score = dc_Score d, bl_Signals = dc_Signals d,
                     bl_Contributing = dc_Contributing d, bl_CappedFrom = capped_reason a d, bl_At = now\<rparr>]
             else []))"

definition perform :: "wires \<Rightarrow> Actuator \<Rightarrow> gotime \<Rightarrow> Decision \<Rightarrow> redis \<Rightarrow> (actuator_error + string) \<times> redis" where
  "perform w a now d r =
    (case dc_Action d of
       ActionObserve \<Rightarrow> runApply (wi_script w) a now d ''observe'' r
     | ActionHold \<Rightarrow> runApply (wi_script w) a now d (action_name ActionHold) r
     | ActionBlock \<Rightarrow> runApply (wi_script w) a now d (action_name ActionBlock) r
     | ActionGreylist \<Rightarrow> move w a now d r
     | ActionRestore \<Rightarrow> restore (wi_script w) a now d r)"

definition applyOne :: "wires \<Rightarrow> Actuator \<Rightarrow> gotime \<Rightarrow> Decision \<Rightarrow> redis \<Rightarrow>
    (actuator_error + sink_call list) \<times> redis" where
  "applyOne w a now d r =
    (case Validate (dc_Shard d) of
       Some e \<Rightarrow> (Inl (ErrShard e), r)
     | None \<Rightarrow>
         (case perform w a now d r of
            (Inl e, r') \<Rightarrow> (Inl e, r')
          | (Inr applied, r') \<Rightarrow>
              (Inr (if applied \<noteq> ''observe'' \<and> applied \<noteq> ''noop''
                    then record_action (wi_hmget2 w) a now d applied r' else []), r')))"

text \<open>A failed decision is logged and skipped.\<close>

fun Apply :: "Actuator \<Rightarrow> gotime \<Rightarrow> (wires \<times> Decision) list \<Rightarrow> redis \<Rightarrow> sink_call list \<times> redis" where
  "Apply a now [] r = ([], r)"
| "Apply a now ((w, d) # ds) r =
    (let (res, r1) = applyOne w a now d r; (calls, r2) = Apply a now ds r1
     in ((case res of Inl _ \<Rightarrow> [] | Inr cs \<Rightarrow> cs) @ calls, r2))"

section \<open>Difficulty\<close>

record DifficultyProvider =
  df_eventID :: string
  df_base :: int
  df_bump :: int

definition NewDifficulty :: "string \<Rightarrow> Challenge_cfg \<Rightarrow> BotScore_cfg \<Rightarrow> DifficultyProvider" where
  "NewDifficulty ev chal score = \<lparr>df_eventID = ev, df_base = cl_BaseDifficulty chal, df_bump = bs_GreylistDifficulty score\<rparr>"

definition worse :: "(string \<Rightarrow> link) \<Rightarrow> DifficultyProvider \<Rightarrow> redis \<Rightarrow> string \<Rightarrow> int \<Rightarrow> int" where
  "worse l d r subj worst =
    (if subj = '''' \<or> l subj \<noteq> Delivered then worst
     else case counter_get r (Suspicion (df_eventID d) subj) of
            None \<Rightarrow> worst | Some n \<Rightarrow> if n > worst then n else worst)"

definition Difficulty :: "(string \<Rightarrow> link) \<Rightarrow> redis \<Rightarrow> DifficultyProvider \<Rightarrow> provider" where
  "Difficulty l r d s =
    (let worst = fold (worse l d r) [su_FPHash s, su_IPPrefix s] 0;
         rounds = (if su_Attempt s > worst then su_Attempt s else worst)
     in Inr (df_base d + rounds * df_bump d))"


section \<open>Facts\<close>

lemma run_script_cached:
  assumes "link1 n = Delivered" "name \<in> loaded r"
  shows "run_script n name body r =
    (case body r of (Inl e, r') \<Rightarrow> (Inl (ErrActionRedis (ScriptError e)), r') | (Inr v, r') \<Rightarrow> (firstString v, r'))"
  using assms
  by (simp add: run_script_def Run_def EvalSha_def evalsha_server_def NewActionScript_def isNoScript_def
    split: prod.split sum.split)

definition script_names :: "string set" where
  "script_names = {''apply_action.lua'', ''move_shard.lua'', ''restore_shard.lua''}"

text \<open>The step of the slot a decision stands for.\<close>

definition slot_op_of :: "Actuator \<Rightarrow> gotime \<Rightarrow> Decision \<Rightarrow> slot_op" where
  "slot_op_of a now d =
    (let t = dc_TokenID d; score = int64_of (dc_Score d); m = UnixMilli now; ttl = Milliseconds (an_userTTL a)
     in case dc_Action d of
          ActionGreylist \<Rightarrow> Move_op t score m ttl
        | ActionRestore \<Rightarrow> Restore_op t m ttl
        | act \<Rightarrow> Apply_op t score (action_name act) m ttl)"

lemma scripts_reply:
  "\<exists>s v r'. apply_action_lua qk hk sk uk gk t score act m ttl r = (Inr (LStr s # v), r')"
  "\<exists>s v r'. move_shard_lua fk tk sk uk t gs score m ttl r = (Inr (LStr s # v), r')"
  "\<exists>s v r'. restore_shard_lua ok gk hk uk t os m ttl r = (Inr (LStr s # v), r')"
  by (auto simp: action_script_defs Let_def split: option.splits)

definition same_but_counters :: "redis \<Rightarrow> redis \<Rightarrow> bool" where
  "same_but_counters r r' \<longleftrightarrow> r'\<lparr>counters := counters r\<rparr> = r"

lemma same_but_counters_refl [simp]: "same_but_counters r r"
  by (simp add: same_but_counters_def)

lemma same_but_counters_trans: "same_but_counters a b \<Longrightarrow> same_but_counters b c \<Longrightarrow> same_but_counters a c"
  by (cases a; cases b; cases c) (simp add: same_but_counters_def)

lemma raise_one_frame:
  "same_but_counters r (raise_one w a subj r)"
  "k \<noteq> Suspicion (an_eventID a) subj \<Longrightarrow> counters (raise_one w a subj r) k = counters r k"
  by (auto simp: raise_one_def Let_def incr_by_def expire_counter_def same_but_counters_def
      split: link.split option.split)

lemma raise_all_frame:
  "same_but_counters r (fold (raise_one w a) ss r) \<and>
   (\<forall>k. k \<notin> Suspicion (an_eventID a) ` set ss \<longrightarrow> counters (fold (raise_one w a) ss r) k = counters r k)"
proof (induction ss arbitrary: r)
  case (Cons subj ss)
  from same_but_counters_trans [OF raise_one_frame(1) conjunct1 [OF Cons.IH]] raise_one_frame(2) Cons.IH
  show ?case by simp
qed simp


definition connected :: "wires \<Rightarrow> bool" where
  "connected w \<longleftrightarrow> link1 (wi_script w) = Delivered \<and> wi_hmget w = Delivered \<and> wi_hmget2 w = Delivered \<and>
     (\<forall>s. wi_incr w s = Delivered \<and> wi_expire w s = Delivered)"

lemma slot_ok_parts:
  assumes "slot_ok ev sid"
  shows "Validate sid = None" "Greylist sid = Inr (grey_of sid)" "Origin sid = Inr sid" "\<not> IsGreylist sid"
proof -
  have v: "Validate sid = None" "hd sid = CHR ''s''" using assms by (simp_all add: slot_ok_def)
  then obtain ds where "sid = CHR ''s'' # ds" by (cases sid) (auto simp: Validate_None)
  then show "Validate sid = None" "Greylist sid = Inr (grey_of sid)" "Origin sid = Inr sid" "\<not> IsGreylist sid"
    using v by (simp_all add: Greylist_def Origin_def IsGreylist_def grey_of_def)
qed

lemma subjects_counters [simp]: "subjects l a d (r\<lparr>counters := c\<rparr>) = subjects l a d r"
  by (simp add: subjects_def Let_def hget_def user_get_def live_def)

lemma slot_op_reply:
  obtains s v r1 where "exec (an_eventID a) (dc_Shard d) (slot_op_of a now d) r = (Inr (LStr s # v), r1)"
proof (cases "dc_Action d")
  case ActionGreylist
  then show thesis using that scripts_reply(2) by (simp add: slot_op_of_def Let_def) metis
next
  case ActionRestore
  then show thesis using that scripts_reply(3) by (simp add: slot_op_of_def Let_def) metis
qed (use that scripts_reply(1) in \<open>simp add: slot_op_of_def Let_def, metis\<close>)+

lemma perform_exec:
  assumes "slot_ok (an_eventID a) (dc_Shard d)" "connected w" "script_names \<subseteq> loaded r"
    and e: "exec (an_eventID a) (dc_Shard d) (slot_op_of a now d) r = (Inr (LStr s # v), r1)"
  shows "perform w a now d r = (Inr s,
    if dc_Action d = ActionGreylist \<and> s = ''greylist'' then raiseSuspicion w a d r1 else r1)"
proof -
  have l: "link1 (wi_script w) = Delivered" using assms(2) by (simp add: connected_def)
  have n: "''apply_action.lua'' \<in> loaded r" "''move_shard.lua'' \<in> loaded r" "''restore_shard.lua'' \<in> loaded r"
    using assms(3) by (simp_all add: script_names_def)
  note facts = slot_ok_parts [OF assms(1)] run_script_cached [OF l n(1)] run_script_cached [OF l n(2)]
    run_script_cached [OF l n(3)]
  show ?thesis
    using e
    by (cases "dc_Action d")
      (simp_all add: slot_op_of_def Let_def perform_def runApply_def move_def restore_def facts firstString_def)
qed


section \<open>Properties\<close>

text \<open>
  C35. The actuator does to a slot what the model of the slot says.  On a connected network, with
  the scripts cached, applying a decision on an origin shard is the one script step the
  decision stands for, except for suspicion counters, which only a move to the greylist that
  took effect touches; and it is audited unless the step was an observation or a no-op, with a
  block record as well exactly for a block that took effect.
\<close>

theorem applyOne_is_a_slot_step:
  assumes "slot_ok (an_eventID a) (dc_Shard d)" "connected w" "script_names \<subseteq> loaded r"
    "exec (an_eventID a) (dc_Shard d) (slot_op_of a now d) r = (reply, r1)"
    "applyOne w a now d r = (result, r2)"
  shows "\<exists>s v calls. reply = Inr (LStr s # v) \<and> result = Inr calls \<and>
    same_but_counters r1 r2 \<and>
    (\<forall>k. (\<forall>subj. k \<noteq> Suspicion (an_eventID a) subj) \<longrightarrow> counters r2 k = counters r1 k) \<and>
    (\<not> (dc_Action d = ActionGreylist \<and> s = ''greylist'') \<longrightarrow> r2 = r1) \<and>
    (calls = [] \<longleftrightarrow> s = ''observe'' \<or> s = ''noop'' \<or> \<not> an_sink a) \<and>
    length (filter (\<lambda>c. case c of Block b \<Rightarrow> True | _ \<Rightarrow> False) calls) = (if s = ''block'' \<and> an_sink a then 1 else 0)"
proof -
  obtain s v r1' where e: "exec (an_eventID a) (dc_Shard d) (slot_op_of a now d) r = (Inr (LStr s # v), r1')"
    by (rule slot_op_reply)
  with assms(4) have reply: "reply = Inr (LStr s # v)" and r1: "r1' = r1" by simp_all
  note p = perform_exec [OF assms(1-3) e [unfolded r1]]
  let ?r2 = "if dc_Action d = ActionGreylist \<and> s = ''greylist'' then raiseSuspicion w a d r1 else r1"
  have r2: "r2 = ?r2" and result: "result = Inr (if s \<noteq> ''observe'' \<and> s \<noteq> ''noop''
      then record_action (wi_hmget2 w) a now d s ?r2 else [])"
    using assms(5) by (simp_all add: applyOne_def slot_ok_parts(1) [OF assms(1)] p)
  have "same_but_counters r1 ?r2 \<and> (\<forall>k. (\<forall>subj. k \<noteq> Suspicion (an_eventID a) subj) \<longrightarrow> counters ?r2 k = counters r1 k)"
    using raise_all_frame [where w = w and a = a and r = r1] by (auto simp: raiseSuspicion_def)
  then show ?thesis
    unfolding result reply r2
    by (intro exI [of _ s] exI [of _ v] exI conjI refl) (auto simp: record_action_def)
qed


definition demo_actuator :: Actuator where
  "demo_actuator = \<lparr>an_cfg = default_BotScore, an_userTTL = 1000000000, an_eventID = ''ev'', an_sink = True\<rparr>"

definition demo_wires :: wires where
  "demo_wires = \<lparr>wi_script = \<lparr>link1 = Delivered, link_load = Delivered, link2 = Delivered\<rparr>, wi_hmget = Delivered,
    wi_incr = (\<lambda>_. Delivered), wi_expire = (\<lambda>_. Delivered), wi_hmget2 = Delivered\<rparr>"

definition demo_decision :: "Action \<Rightarrow> Decision" where
  "demo_decision act = \<lparr>dc_Shard = ''s0000'', dc_TokenID = ''a'', dc_Score = 95, dc_Action = act,
    dc_Signals = [], dc_Contributing = 2, dc_CappedFrom = None\<rparr>"

definition demo_suspect :: redis where
  "demo_suspect = empty_redis\<lparr>loaded := script_names,
     users := [User ''ev'' ''s0000'' ''a'' \<mapsto> (no_user\<lparr>u_state := Some ''waiting'', u_ip_prefix := Some ''10.0.0.0/24''\<rparr>, None)]\<rparr>"

lemma demo_slot_ok: "slot_ok ''ev'' ''s0000''"
  by code_simp

lemma demo_connected: "connected demo_wires"
  by (simp add: connected_def demo_wires_def)

theorem applyOne_is_a_slot_step_witness:
  "\<exists>calls r2. applyOne demo_wires demo_actuator 0 (demo_decision ActionHold) demo_suspect = (Inr calls, r2) \<and>
    same_but_counters (snd (exec ''ev'' ''s0000'' (slot_op_of demo_actuator 0 (demo_decision ActionHold)) demo_suspect)) r2"
proof -
  have s: "slot_ok (an_eventID demo_actuator) (dc_Shard (demo_decision ActionHold))"
    using demo_slot_ok by (simp add: demo_actuator_def demo_decision_def)
  have l: "script_names \<subseteq> loaded demo_suspect" by (simp add: demo_suspect_def)
  obtain reply r1 where e: "exec (an_eventID demo_actuator) (dc_Shard (demo_decision ActionHold))
      (slot_op_of demo_actuator 0 (demo_decision ActionHold)) demo_suspect = (reply, r1)" by force
  obtain result r2 where x: "applyOne demo_wires demo_actuator 0 (demo_decision ActionHold) demo_suspect = (result, r2)"
    by force
  have n: "an_eventID demo_actuator = ''ev''" "dc_Shard (demo_decision ActionHold) = ''s0000''"
    by (simp_all add: demo_actuator_def demo_decision_def)
  show ?thesis
    using applyOne_is_a_slot_step [OF s demo_connected l e x] x e unfolding n by auto
qed

lemma worse_max: "worse l d r subj worst =
    max worst (if subj = '''' \<or> l subj \<noteq> Delivered then worst else or_else (counter_get r (Suspicion (df_eventID d) subj)) worst)"
  by (simp add: worse_def split: option.split)

lemma worse_mono:
  assumes "w \<le> w'" "\<And>n. counter_get r (Suspicion (df_eventID d) subj) = Some n \<Longrightarrow>
      \<exists>n'. counter_get r' (Suspicion (df_eventID d) subj) = Some n' \<and> n \<le> n'"
  shows "worse l d r subj w \<le> worse l d r' subj w'"
  using assms by (fastforce simp: worse_def split: option.split)

lemma worse_ge: "w \<le> worse l d r subj w"
  by (simp add: worse_def split: option.split)

lemma formatSec_pos: "0 < d \<Longrightarrow> 0 < formatSec d"
  by (simp add: formatSec_def quot_def pos_imp_zdiv_pos_iff)

lemma raise_one_counter:
  assumes "connected w" "0 < bs_SuspicionTTL (an_cfg a)"
  shows "counter_get (raise_one w a subj r) (Suspicion (an_eventID a) subj) =
      Some (or_else (counter_get r (Suspicion (an_eventID a) subj)) 0 + 1)"
    "k \<noteq> Suspicion (an_eventID a) subj \<Longrightarrow> counter_get (raise_one w a subj r) k = counter_get r k"
  using assms(1) formatSec_pos [OF assms(2)]
  by (auto simp: connected_def raise_one_def Let_def incr_by_def expire_counter_def counter_get_def
      live_def alive_def split: option.splits prod.splits if_splits)

text \<open>
  Suspicion costs work, within bounds.  With a validated configuration the difficulty
  required of anyone lies between the base and the maximum (at most 32 bits), whatever the
  store holds and whichever reads fail; it does not fall when the number of re-challenges or
  the suspicion grows; and after a device or an address range has been raised, the difficulty
  of everyone who shares it is at least its new count times the bump above the base, before
  the cut at the maximum.
\<close>

theorem suspicion_costs:
  assumes "Validate_config c = []" "NewIssuer ev (cf_Challenge c) = Inr i"
    "d = NewDifficulty ev (cf_Challenge c) (cf_BotScore c)"
    "connected w" "an_eventID a = ev" "0 < bs_SuspicionTTL (an_cfg a)"
    "subj \<in> {su_FPHash s, su_IPPrefix s}" "subj \<noteq> ''''" "su_Attempt s \<le> att"
  shows "cl_BaseDifficulty (cf_Challenge c) \<le> Required i (Difficulty l r d) s \<and>
    Required i (Difficulty l r d) s \<le> cl_MaxDifficulty (cf_Challenge c) \<and>
    cl_MaxDifficulty (cf_Challenge c) \<le> 32 \<and>
    Required i (Difficulty l r d) s \<le> Required i (Difficulty l r d) (s\<lparr>su_Attempt := att\<rparr>) \<and>
    Required i (Difficulty l r d) s \<le> Required i (Difficulty l (raise_one w a subj r) d) s \<and>
    min (cl_MaxDifficulty (cf_Challenge c))
        (cl_BaseDifficulty (cf_Challenge c) +
          (or_else (counter_get r (Suspicion ev subj)) 0 + 1) * bs_GreylistDifficulty (cf_BotScore c))
      \<le> Required i (Difficulty (\<lambda>_. Delivered) (raise_one w a subj r) d) s"
proof -
  let ?base = "cl_BaseDifficulty (cf_Challenge c)" and ?max = "cl_MaxDifficulty (cf_Challenge c)"
    and ?bump = "bs_GreylistDifficulty (cf_BotScore c)" and ?r = "raise_one w a subj r"
    and ?n = "or_else (counter_get r (Suspicion ev subj)) 0 + 1"
  define rounds where "rounds l r s = (let v = fold (worse l d r) [su_FPHash s, su_IPPrefix s] 0
    in if su_Attempt s > v then su_Attempt s else v)" for l r and s :: Subject
  have cl: "1 \<le> ?base" "?base \<le> ?max" "?max \<le> 32"
    using Validate_challenge [OF assms(1)] by (simp_all add: challenge_ok_def)
  have bump: "0 \<le> ?bump" using Validate_scoring [OF assms(1)] by (simp add: scoring_ok_def)
  have i: "is_base i = ?base" "is_maxDiff i = ?max"
    using assms(2) by (auto simp: NewIssuer_def split: if_splits)
  have d: "df_eventID d = ev" "df_base d = ?base" "df_bump d = ?bump"
    by (simp_all add: assms(3) NewDifficulty_def)
  have req: "Required i (Difficulty l r d) s = min ?max (max ?base (?base + rounds l r s * ?bump))" for l r s
    using cl by (auto simp: Required_def Difficulty_def clamp_def rounds_def Let_def i d)
  have cut: "min ?max (max ?base (?base + x * ?bump)) \<le> min ?max (max ?base (?base + y * ?bump))" if "x \<le> y" for x y
    using mult_right_mono [OF that bump] by linarith
  have up: "\<exists>m'. counter_get ?r (Suspicion (df_eventID d) u) = Some m' \<and> m \<le> m'"
    if "counter_get r (Suspicion (df_eventID d) u) = Some m" for u m
    using that raise_one_counter [OF assms(4,6), where subj = subj and r = r] assms(5)
    by (cases "Suspicion ev u = Suspicion ev subj") (auto simp: d)
  have r1: "rounds l r s \<le> rounds l r (s\<lparr>su_Attempt := att\<rparr>)"
    using assms(9) by (simp add: rounds_def Let_def)
  have "fold (worse l d r) [su_FPHash s, su_IPPrefix s] 0 \<le> fold (worse l d ?r) [su_FPHash s, su_IPPrefix s] 0"
    using worse_mono [OF worse_mono [OF order_refl up] up] by simp
  then have r2: "rounds l r s \<le> rounds l ?r s" by (simp add: rounds_def Let_def)
  have hit: "?n \<le> worse (\<lambda>_. Delivered) d ?r subj v" for v
    using raise_one_counter(1) [OF assms(4,6), where subj = subj and r = r] assms(5,8) by (simp add: worse_def d)
  have "?n \<le> fold (worse (\<lambda>_. Delivered) d ?r) [su_FPHash s, su_IPPrefix s] 0"
  proof (cases "subj = su_FPHash s")
    case True
    then show ?thesis using order_trans [OF hit [of 0] worse_ge] by simp
  next
    case False
    then show ?thesis using hit assms(7) by simp
  qed
  then have r3: "?n \<le> rounds (\<lambda>_. Delivered) ?r s" by (simp add: rounds_def Let_def)
  have "min ?max (?base + ?n * ?bump) \<le> min ?max (max ?base (?base + ?n * ?bump))" by simp
  from order_trans [OF this cut [OF r3]] cut [OF r1] cut [OF r2] cl show ?thesis
    unfolding req by (intro conjI) (assumption | simp only: min.cobounded1 | linarith)+
qed

theorem suspicion_costs_witness:
  "\<exists>i. NewIssuer ''ev'' (default_Challenge (Secret_of ''k'')) = Inr i \<and>
    Required i (Difficulty (\<lambda>_. Delivered) empty_redis
      (NewDifficulty ''ev'' (default_Challenge (Secret_of ''k'')) default_BotScore)) demo_subject \<le> 26"
proof -
  let ?c = "default_config (Secret_of ''k'')"
  obtain i where i: "NewIssuer ''ev'' (cf_Challenge ?c) = Inr i"
    by (simp add: NewIssuer_def default_config_def default_Challenge_def IsZero_def)
  have "0 < bs_SuspicionTTL (an_cfg demo_actuator)" "an_eventID demo_actuator = ''ev''"
    by (simp_all add: demo_actuator_def default_BotScore_def)
  moreover have "''fp'' \<in> {su_FPHash demo_subject, su_IPPrefix demo_subject}" "''fp'' \<noteq> ''''"
    by (simp_all add: demo_subject_def)
  ultimately have "Required i (Difficulty (\<lambda>_. Delivered) empty_redis
      (NewDifficulty ''ev'' (cf_Challenge ?c) (cf_BotScore ?c))) demo_subject \<le> cl_MaxDifficulty (cf_Challenge ?c)"
    using suspicion_costs [OF Validate_default i refl demo_connected _ _ _ _ order_refl] by blast
  with i show ?thesis by (simp add: default_config_def default_Challenge_def)
qed

text \<open>
  The block record can put an address range where it promises a device hash: for a user
  without a fingerprint the first subject is the IP prefix, and that is what is filed under
  \<open>FPHash\<close>.
\<close>

theorem block_record_files_prefix_as_hash:
  "\<exists>au bl r2. applyOne demo_wires demo_actuator 0 (demo_decision ActionBlock) demo_suspect =
     (Inr [Audit au, Block bl], r2) \<and> bl_FPHash bl = ''10.0.0.0/24'' \<and>
   hget r2 (User ''ev'' ''s0000'' ''a'') u_fp_hash = None"
proof -
  have "case applyOne demo_wires demo_actuator 0 (demo_decision ActionBlock) demo_suspect of
      (Inr [Audit au, Block bl], r2) \<Rightarrow>
        bl_FPHash bl = ''10.0.0.0/24'' \<and> hget r2 (User ''ev'' ''s0000'' ''a'') u_fp_hash = None
    | _ \<Rightarrow> False"
    by code_simp
  then show ?thesis
    by (auto split: prod.splits sum.splits list.splits sink_call.splits) (metis list.exhaust)+
qed

end
