(* ===== verification/Token.thy ===== *)
theory Token
  imports Challenge AdmissionStore
begin

text \<open>
  Queue and entry tokens (\<open>src/internal/token/token.go\<close>): identifiers, issuing, verifying, and
  the binding of a token to the device and the network it was issued to.  The JSON Web Token
  library is outside the repository: it is the parameter \<open>J\<close>, and what the code relies on is
  the hypothesis \<open>jwt_ok J\<close>.
\<close>

section \<open>Identifiers and kinds\<close>

definition idBytes :: nat where "idBytes = 16"

datatype token_error = ErrMalformed | ErrSignature | ErrExpired | ErrKind | ErrEvent | ErrFPMismatch
  | ErrIPMismatch | ErrIncomplete | ErrNoSigningKey | ErrTTL | ErrRandom | ErrSign

text \<open>\<open>random n\<close> is what \<open>crypto/rand\<close> gives for \<open>n\<close> bytes.\<close>

definition NewID :: "(nat \<Rightarrow> string option) \<Rightarrow> token_error + string" where
  "NewID random = (case random idBytes of None \<Rightarrow> Inl ErrRandom | Some b \<Rightarrow> Inr (RawURLEncoding b))"

type_synonym token_kind = string

definition KindQueue :: token_kind where "KindQueue = ''queue''"
definition KindEntry :: token_kind where "KindEntry = ''entry''"

definition Reason_token :: "token_error option \<Rightarrow> string" where
  "Reason_token err =
    (case err of
       None \<Rightarrow> ''ok''
     | Some ErrExpired \<Rightarrow> ''expired''
     | Some ErrSignature \<Rightarrow> ''bad_signature''
     | Some ErrKind \<Rightarrow> ''wrong_kind''
     | Some ErrEvent \<Rightarrow> ''wrong_event''
     | Some ErrFPMismatch \<Rightarrow> ''fp_mismatch''
     | Some ErrIPMismatch \<Rightarrow> ''ip_mismatch''
     | Some ErrIncomplete \<Rightarrow> ''incomplete''
     | _ \<Rightarrow> ''malformed'')"

record Claims =
  cm_Kind :: token_kind
  cm_EventID :: string
  cm_TokenID :: token
  cm_JTI :: string
  cm_Shard :: string
  cm_FPHash :: string
  cm_IPPrefix :: string
  cm_IssuedAt :: gotime
  cm_ExpiresAt :: gotime

text \<open>The claims as they are serialised, the registered ones first.\<close>

record registered =
  rc_Issuer :: string
  rc_Subject :: string
  rc_ID :: string
  rc_IssuedAt :: "gotime option"
  rc_ExpiresAt :: "gotime option"
  rc_Kind :: token_kind
  rc_EventID :: string
  rc_TokenID :: token
  rc_Shard :: string
  rc_FPHash :: string
  rc_IPPrefix :: string

section \<open>The token library\<close>

text \<open>
  The library signs claims under a key with HS256, parses a token under a key at a time and
  reports the errors it joined, and rounds the dates it is given to those it can write.
\<close>

datatype jwt_error = ErrTokenExpired | ErrTokenSignatureInvalid | ErrTokenUnverifiable | ErrTokenOther

record jwt =
  jw_Sign :: "string \<Rightarrow> registered \<Rightarrow> string option"
  jw_Parse :: "string \<Rightarrow> gotime \<Rightarrow> string \<Rightarrow> jwt_error list + registered"
  jw_NumericDate :: "gotime \<Rightarrow> gotime"

section \<open>Issuing\<close>

record Token_Issuer =
  ti_key :: string
  ti_issuer :: string
  ti_queueTTL :: duration
  ti_entryTTL :: duration

definition NewIssuer_token :: "Token_cfg \<Rightarrow> token_error + Token_Issuer" where
  "NewIssuer_token cfg =
    (if IsZero (tc_SigningKey cfg) then Inl ErrNoSigningKey
     else if tc_QueueTTL cfg \<le> 0 \<or> tc_EntryTTL cfg \<le> 0 then Inl ErrTTL
     else Inr \<lparr>ti_key = Bytes (tc_SigningKey cfg), ti_issuer = tc_Issuer cfg,
               ti_queueTTL = tc_QueueTTL cfg, ti_entryTTL = tc_EntryTTL cfg\<rparr>)"

definition TTL :: "Token_Issuer \<Rightarrow> token_kind \<Rightarrow> duration" where
  "TTL i kind = (if kind = KindEntry then ti_entryTTL i else ti_queueTTL i)"

text \<open>\<open>time.Time.Truncate(time.Second)\<close>; the zero time is a whole number of seconds from the epoch.\<close>

definition Truncate_second :: "gotime \<Rightarrow> gotime" where
  "Truncate_second t = t - t mod 1000000000"

definition Issue_token :: "jwt \<Rightarrow> Token_Issuer \<Rightarrow> gotime \<Rightarrow> Claims \<Rightarrow> token_error + string \<times> Claims" where
  "Issue_token J i now c =
    (if cm_EventID c = '''' \<or> cm_TokenID c = '''' \<or> cm_JTI c = '''' \<or> cm_Shard c = '''' then Inl ErrIncomplete
     else if cm_Kind c \<noteq> KindQueue \<and> cm_Kind c \<noteq> KindEntry then Inl ErrKind
     else
       let now = Truncate_second now;
           c = c\<lparr>cm_IssuedAt := now, cm_ExpiresAt := now + TTL i (cm_Kind c)\<rparr>;
           claims = \<lparr>rc_Issuer = ti_issuer i, rc_Subject = cm_TokenID c, rc_ID = cm_JTI c,
             rc_IssuedAt = Some (jw_NumericDate J (cm_IssuedAt c)),
             rc_ExpiresAt = Some (jw_NumericDate J (cm_ExpiresAt c)),
             rc_Kind = cm_Kind c, rc_EventID = cm_EventID c, rc_TokenID = cm_TokenID c,
             rc_Shard = cm_Shard c, rc_FPHash = cm_FPHash c, rc_IPPrefix = cm_IPPrefix c\<rparr>
       in case jw_Sign J (ti_key i) claims of
            None \<Rightarrow> Inl ErrSign
          | Some jws \<Rightarrow> Inr (jws, c))"

section \<open>Verifying\<close>

definition Verify_token :: "jwt \<Rightarrow> Token_Issuer \<Rightarrow> gotime \<Rightarrow> string \<Rightarrow> token_kind \<Rightarrow> string \<Rightarrow>
    token_error + Claims" where
  "Verify_token J i now jws kind eventID =
    (case jw_Parse J (ti_key i) now jws of
       Inl errs \<Rightarrow>
         Inl (if ErrTokenExpired \<in> set errs then ErrExpired
              else if ErrTokenSignatureInvalid \<in> set errs \<or> ErrTokenUnverifiable \<in> set errs then ErrSignature
              else ErrMalformed)
     | Inr rc \<Rightarrow>
         if rc_Kind rc \<noteq> kind then Inl ErrKind
         else if eventID \<noteq> '''' \<and> rc_EventID rc \<noteq> eventID then Inl ErrEvent
         else if rc_TokenID rc = '''' \<or> rc_Shard rc = '''' \<or> rc_ID rc = '''' then Inl ErrIncomplete
         else Inr \<lparr>cm_Kind = rc_Kind rc, cm_EventID = rc_EventID rc, cm_TokenID = rc_TokenID rc,
                cm_JTI = rc_ID rc, cm_Shard = rc_Shard rc, cm_FPHash = rc_FPHash rc,
                cm_IPPrefix = rc_IPPrefix rc, cm_IssuedAt = or_else (rc_IssuedAt rc) zero_time,
                cm_ExpiresAt = or_else (rc_ExpiresAt rc) zero_time\<rparr>)"

record Binding =
  bd_FPHash :: string
  bd_IPPrefix :: string

text \<open>A mismatch is an error; the claims the code returns beside it are dropped by every caller.\<close>

definition VerifyBound :: "jwt \<Rightarrow> Token_Issuer \<Rightarrow> gotime \<Rightarrow> string \<Rightarrow> token_kind \<Rightarrow> string \<Rightarrow> Binding \<Rightarrow>
    token_error + Claims" where
  "VerifyBound J i now jws kind eventID b =
    (case Verify_token J i now jws kind eventID of
       Inl e \<Rightarrow> Inl e
     | Inr c \<Rightarrow>
         if cm_FPHash c \<noteq> '''' \<and> bd_FPHash b \<noteq> '''' \<and> cm_FPHash c \<noteq> bd_FPHash b then Inl ErrFPMismatch
         else if cm_IPPrefix c \<noteq> '''' \<and> bd_IPPrefix b \<noteq> '''' \<and> cm_IPPrefix c \<noteq> bd_IPPrefix b
         then Inl ErrIPMismatch
         else Inr c)"

section \<open>What the library promises\<close>

text \<open>
  Dates are written in whole seconds, rounded down.  Claims whose strings are ASCII (the JSON
  encoder rewrites invalid UTF-8) and that carry an expiry come back as they were signed,
  until the expiry; from then on parsing reports it.  No parse succeeds at or after an expiry
  or without one (\<open>WithExpirationRequired\<close>), and no token is empty.
\<close>

definition is_ascii :: "string \<Rightarrow> bool" where "is_ascii s \<longleftrightarrow> list_all (\<lambda>c. c < CHR 0x80) s"

definition rc_ascii :: "registered \<Rightarrow> bool" where
  "rc_ascii rc \<longleftrightarrow> list_all is_ascii [rc_Issuer rc, rc_Subject rc, rc_ID rc, rc_Kind rc, rc_EventID rc,
     rc_TokenID rc, rc_Shard rc, rc_FPHash rc, rc_IPPrefix rc]"

definition whole_seconds :: "registered \<Rightarrow> bool" where
  "whole_seconds rc \<longleftrightarrow> (\<forall>t. rc_IssuedAt rc = Some t \<or> rc_ExpiresAt rc = Some t \<longrightarrow> t mod 1000000000 = 0)"

definition jwt_ok :: "jwt \<Rightarrow> bool" where
  "jwt_ok J \<longleftrightarrow>
     (\<forall>t. jw_NumericDate J t = Truncate_second t) \<and>
     (\<forall>k rc jws e. jw_Sign J k rc = Some jws \<and> rc_ExpiresAt rc = Some e \<and> rc_ascii rc \<and> whole_seconds rc \<longrightarrow>
        (\<forall>now < e. jw_Parse J k now jws = Inr rc) \<and>
        (\<forall>now \<ge> e. \<exists>errs. jw_Parse J k now jws = Inl errs \<and> ErrTokenExpired \<in> set errs)) \<and>
     (\<forall>k now jws rc. jw_Parse J k now jws = Inr rc \<longrightarrow> (\<exists>e. rc_ExpiresAt rc = Some e \<and> now < e)) \<and>
     (\<forall>k rc. jw_Sign J k rc \<noteq> Some '''')"

text \<open>
  The hypothesis can hold: a library for tests that writes the fields one after the other,
  the key first, each character behind a plus sign and each field up to a full stop.
\<close>

fun esc :: "string \<Rightarrow> string" where
  "esc [] = [CHR ''.'']"
| "esc (c # s) = CHR ''+'' # c # esc s"

fun unesc :: "string \<Rightarrow> string \<times> string" where
  "unesc (x # c # s) = (if x = CHR ''+'' then (let (a, b) = unesc s in (c # a, b)) else ([], c # s))"
| "unesc s = ([], [])"

fun split_fields :: "nat \<Rightarrow> string \<Rightarrow> string list" where
  "split_fields 0 s = []"
| "split_fields (Suc n) s = (let (a, r) = unesc s in a # split_fields n r)"

lemma unesc_esc: "unesc (esc s @ r) = (s, r)"
proof (induction s)
  case Nil
  show ?case by (cases r) auto
qed simp

lemma split_fields_esc: "split_fields (length xs) (concat (map esc xs)) = xs"
  by (induction xs) (simp_all add: unesc_esc)

definition plain_Sign :: "string \<Rightarrow> registered \<Rightarrow> string option" where
  "plain_Sign k rc =
    (case (rc_IssuedAt rc, rc_ExpiresAt rc) of
       (Some a, Some e) \<Rightarrow>
         if 0 \<le> a \<and> 0 \<le> e then
           Some (concat (map esc [k, rc_Issuer rc, rc_Subject rc, rc_ID rc, show_nat (nat a), show_nat (nat e),
             rc_Kind rc, rc_EventID rc, rc_TokenID rc, rc_Shard rc, rc_FPHash rc, rc_IPPrefix rc]))
         else None
     | _ \<Rightarrow> None)"

definition plain_Parse :: "string \<Rightarrow> gotime \<Rightarrow> string \<Rightarrow> jwt_error list + registered" where
  "plain_Parse k now jws =
    (case split_fields 12 jws of
       [k', iss, sub, jti, a, e, knd, evt, tid, shd, fph, ipp] \<Rightarrow>
         if k' \<noteq> k then Inl [ErrTokenSignatureInvalid]
         else if int (read_nat e) \<le> now then Inl [ErrTokenExpired]
         else Inr \<lparr>rc_Issuer = iss, rc_Subject = sub, rc_ID = jti, rc_IssuedAt = Some (int (read_nat a)),
           rc_ExpiresAt = Some (int (read_nat e)), rc_Kind = knd, rc_EventID = evt, rc_TokenID = tid,
           rc_Shard = shd, rc_FPHash = fph, rc_IPPrefix = ipp\<rparr>
     | _ \<Rightarrow> Inl [ErrTokenOther])"

definition plain_jwt :: jwt where
  "plain_jwt = \<lparr>jw_Sign = plain_Sign, jw_Parse = plain_Parse, jw_NumericDate = Truncate_second\<rparr>"

lemma plain_jwt_ok: "jwt_ok plain_jwt"
proof -
  have p: "plain_Parse k now jws = (if e \<le> now then Inl [ErrTokenExpired] else Inr rc)"
    if "plain_Sign k rc = Some jws" "rc_ExpiresAt rc = Some e" for k rc jws e now
    using that split_fields_esc [of "[k, rc_Issuer rc, rc_Subject rc, rc_ID rc, show_nat (nat (the (rc_IssuedAt rc))),
        show_nat (nat e), rc_Kind rc, rc_EventID rc, rc_TokenID rc, rc_Shard rc, rc_FPHash rc, rc_IPPrefix rc]"]
    by (cases rc) (auto simp: plain_Sign_def plain_Parse_def numeral_eq_Suc split: option.splits if_splits)
  have q: "\<exists>e. rc_ExpiresAt rc = Some e \<and> now < e" if "plain_Parse k now jws = Inr rc" for k now jws rc
    using that by (auto simp: plain_Parse_def split: list.splits if_splits)
  have ne: "plain_Sign k rc \<noteq> Some ''''" for k rc
    by (cases k) (auto simp: plain_Sign_def split: option.splits if_splits)
  show ?thesis using q ne by (auto simp: jwt_ok_def plain_jwt_def p)
qed

section \<open>Properties\<close>

lemma url_char_id_char: "url_char c \<Longrightarrow> id_char c"
  by (auto simp: url_char_def id_char_def)

text \<open>
  Fresh identifiers fit the rest of the program: an identifier made from 16 random bytes
  passes the queue's validation, so it can stand in a Redis key, has 22 characters, and
  determines the bytes it was made from, so two of them collide only if the randomness does.
\<close>

theorem NewID_valid:
  assumes "\<And>b. random idBytes = Some b \<Longrightarrow> length b = idBytes" "NewID random = Inr t"
  shows "validID t \<and> length t = 22 \<and> (\<forall>random'. NewID random' = Inr t \<longrightarrow> random' idBytes = random idBytes)"
proof -
  obtain b where b: "random idBytes = Some b" "t = RawURLEncoding b" "length b = 16"
    using assms by (auto simp: NewID_def idBytes_def split: option.splits)
  have l: "length t = 22" by (simp add: b length_RawURLEncoding)
  moreover have "validID t"
    using l RawURLEncoding_chars url_char_id_char
    by (auto simp: validID_def maxIDLen_def list_all_iff b(2))
  moreover have "random' idBytes = random idBytes" if "NewID random' = Inr t" for random'
    using that RawURLEncoding_inj by (auto simp: NewID_def b(1,2) split: option.splits)
  ultimately show ?thesis by blast
qed

theorem NewID_valid_witness: "validID (RawURLEncoding (replicate 16 (CHR ''a'')))"
proof -
  have "NewID (\<lambda>n. Some (replicate n (CHR ''a''))) = Inr (RawURLEncoding (replicate 16 (CHR ''a'')))"
    by (simp add: NewID_def idBytes_def)
  from NewID_valid [OF _ this] show ?thesis by simp
qed

lemma Issue_token_nonempty: "jwt_ok J \<Longrightarrow> Issue_token J i now c = Inr (jws, c') \<Longrightarrow> jws \<noteq> ''''"
  by (auto simp: jwt_ok_def Issue_token_def Let_def split: if_splits option.splits)

lemma Issue_token_claims:
  assumes "jwt_ok J" "Issue_token J i now c = Inr (jws, c')"
  obtains rc where "jw_Sign J (ti_key i) rc = Some jws"
    "rc = \<lparr>rc_Issuer = ti_issuer i, rc_Subject = cm_TokenID c, rc_ID = cm_JTI c,
       rc_IssuedAt = Some (Truncate_second now),
       rc_ExpiresAt = Some (Truncate_second (Truncate_second now + TTL i (cm_Kind c))),
       rc_Kind = cm_Kind c, rc_EventID = cm_EventID c, rc_TokenID = cm_TokenID c,
       rc_Shard = cm_Shard c, rc_FPHash = cm_FPHash c, rc_IPPrefix = cm_IPPrefix c\<rparr>"
    "c' = c\<lparr>cm_IssuedAt := Truncate_second now, cm_ExpiresAt := Truncate_second now + TTL i (cm_Kind c)\<rparr>"
    "cm_TokenID c \<noteq> ''''" "cm_Shard c \<noteq> ''''" "cm_JTI c \<noteq> ''''" "cm_EventID c \<noteq> ''''"
proof -
  have d: "jw_NumericDate J t = Truncate_second t" for t using assms(1) by (simp add: jwt_ok_def)
  have "Truncate_second (Truncate_second t) = Truncate_second t" for t
    by (simp add: Truncate_second_def)
  with assms(2) show thesis
    by (intro that) (auto simp: Issue_token_def Let_def d split: if_splits option.splits)
qed

lemma jwt_parse:
  assumes "jwt_ok J" "jw_Sign J k rc = Some jws" "rc_ExpiresAt rc = Some e" "rc_ascii rc" "whole_seconds rc"
  shows "now < e \<Longrightarrow> jw_Parse J k now jws = Inr rc"
    and "e \<le> now \<Longrightarrow> \<exists>errs. jw_Parse J k now jws = Inl errs \<and> ErrTokenExpired \<in> set errs"
  using assms unfolding jwt_ok_def by blast+

lemma Verify_issued:
  assumes "jwt_ok J" "Issue_token J i now c = Inr (jws, c')"
    "list_all is_ascii [ti_issuer i, cm_TokenID c, cm_JTI c, cm_Kind c, cm_EventID c, cm_Shard c,
       cm_FPHash c, cm_IPPrefix c]"
  shows "Verify_token J i t jws kind ev =
    (let expiry = Truncate_second (cm_ExpiresAt c')
     in if expiry \<le> t then Inl ErrExpired
        else if kind \<noteq> cm_Kind c then Inl ErrKind
        else if ev \<noteq> '''' \<and> ev \<noteq> cm_EventID c then Inl ErrEvent
        else Inr (c'\<lparr>cm_ExpiresAt := expiry\<rparr>))"
proof -
  obtain rc where rc: "jw_Sign J (ti_key i) rc = Some jws"
    "rc = \<lparr>rc_Issuer = ti_issuer i, rc_Subject = cm_TokenID c, rc_ID = cm_JTI c,
       rc_IssuedAt = Some (Truncate_second now),
       rc_ExpiresAt = Some (Truncate_second (Truncate_second now + TTL i (cm_Kind c))),
       rc_Kind = cm_Kind c, rc_EventID = cm_EventID c, rc_TokenID = cm_TokenID c,
       rc_Shard = cm_Shard c, rc_FPHash = cm_FPHash c, rc_IPPrefix = cm_IPPrefix c\<rparr>"
    "c' = c\<lparr>cm_IssuedAt := Truncate_second now, cm_ExpiresAt := Truncate_second now + TTL i (cm_Kind c)\<rparr>"
    "cm_TokenID c \<noteq> ''''" "cm_Shard c \<noteq> ''''" "cm_JTI c \<noteq> ''''" "cm_EventID c \<noteq> ''''"
    using Issue_token_claims [OF assms(1,2)] .
  have a: "rc_ascii rc" using assms(3) by (simp add: rc_ascii_def rc(2))
  have w: "whole_seconds rc" by (auto simp: whole_seconds_def rc(2) Truncate_second_def)
  have e: "rc_ExpiresAt rc = Some (Truncate_second (cm_ExpiresAt c'))" by (simp add: rc(2,3))
  note p = jwt_parse [OF assms(1) rc(1) e a w, of t]
  show ?thesis
  proof (cases "t < Truncate_second (cm_ExpiresAt c')")
    case True
    with p(1) rc(4-7) show ?thesis by (auto simp: Verify_token_def Let_def rc(2,3))
  next
    case False
    with p(2) show ?thesis by (auto simp: Verify_token_def Let_def)
  qed
qed

text \<open>
  C37. Tokens come back as they were issued, and only as what they are.  If the library keeps
  its promise, a token verified at any time fails as expired from its expiry on (rounded down
  to the second); before it, it fails when another kind is asked for or another event, and
  otherwise gives exactly the claims it was issued with.
\<close>

theorem token_round_trip:
  assumes "jwt_ok J" "Issue_token J i now c = Inr (jws, c')"
    "list_all is_ascii [ti_issuer i, cm_TokenID c, cm_JTI c, cm_Kind c, cm_EventID c, cm_Shard c,
       cm_FPHash c, cm_IPPrefix c]"
  shows "Verify_token J i t jws kind ev =
    (let expiry = Truncate_second (cm_ExpiresAt c')
     in if expiry \<le> t then Inl ErrExpired
        else if kind \<noteq> cm_Kind c then Inl ErrKind
        else if ev \<noteq> '''' \<and> ev \<noteq> cm_EventID c then Inl ErrEvent
        else Inr (c'\<lparr>cm_ExpiresAt := expiry\<rparr>))"
  using assms by (rule Verify_issued)

definition demo_token_issuer :: Token_Issuer where
  "demo_token_issuer = \<lparr>ti_key = ''k'', ti_issuer = ''shardgate'', ti_queueTTL = minutes 120, ti_entryTTL = minutes 5\<rparr>"

definition demo_claims :: Claims where
  "demo_claims = \<lparr>cm_Kind = KindEntry, cm_EventID = ''ev'', cm_TokenID = ''a'', cm_JTI = ''J'', cm_Shard = ''s0000'',
     cm_FPHash = ''fp'', cm_IPPrefix = ''10.0.0.0/24'', cm_IssuedAt = 0, cm_ExpiresAt = 0\<rparr>"

lemma demo_issue_token:
  obtains jws where "Issue_token plain_jwt demo_token_issuer (seconds 7) demo_claims =
    Inr (jws, demo_claims\<lparr>cm_IssuedAt := seconds 7, cm_ExpiresAt := seconds 307\<rparr>)"
  by (simp add: Issue_token_def Let_def demo_claims_def demo_token_issuer_def KindEntry_def KindQueue_def
      plain_jwt_def plain_Sign_def Truncate_second_def TTL_def)

lemma demo_claims_ascii: "list_all is_ascii [ti_issuer demo_token_issuer, cm_TokenID demo_claims, cm_JTI demo_claims,
    cm_Kind demo_claims, cm_EventID demo_claims, cm_Shard demo_claims, cm_FPHash demo_claims, cm_IPPrefix demo_claims]"
  by code_simp

theorem token_round_trip_witness:
  "\<exists>jws. Verify_token plain_jwt demo_token_issuer (seconds 306) jws KindEntry ''ev'' =
      Inr (demo_claims\<lparr>cm_IssuedAt := seconds 7, cm_ExpiresAt := seconds 307\<rparr>) \<and>
    Verify_token plain_jwt demo_token_issuer (seconds 307) jws KindEntry ''ev'' = Inl ErrExpired \<and>
    Verify_token plain_jwt demo_token_issuer (seconds 306) jws KindQueue ''ev'' = Inl ErrKind"
proof -
  obtain jws where jws: "Issue_token plain_jwt demo_token_issuer (seconds 7) demo_claims =
    Inr (jws, demo_claims\<lparr>cm_IssuedAt := seconds 7, cm_ExpiresAt := seconds 307\<rparr>)"
    by (rule demo_issue_token)
  note rt = token_round_trip [OF plain_jwt_ok jws demo_claims_ascii]
  have "KindQueue \<noteq> KindEntry" by (simp add: KindQueue_def KindEntry_def)
  then show ?thesis
    by (intro exI [of _ jws]) (simp add: rt Truncate_second_def, simp add: demo_claims_def)
qed

text \<open>
  The binding is only as strong as the request lets it be: a token bound to a device and a
  network is refused from another device that says so, but accepted from any device that sends
  no fingerprint header at all, although only tokens without a binding are said to be spared.
\<close>

theorem binding_needs_a_header:
  assumes "Verify_token J i now jws kind ev = Inr c" "cm_FPHash c \<noteq> ''''"
    "bd_FPHash b \<noteq> ''''" "bd_FPHash b \<noteq> cm_FPHash c" "bd_IPPrefix b = cm_IPPrefix c"
  shows "VerifyBound J i now jws kind ev b = Inl ErrFPMismatch"
    "VerifyBound J i now jws kind ev (b\<lparr>bd_FPHash := ''''\<rparr>) = Inr c"
  using assms by (auto simp: VerifyBound_def)

end
