(* ===== verification/Http.thy ===== *)
theory Http
  imports Token
begin

text \<open>
  What the HTTP handlers share (\<open>src/internal/api/api.go\<close>): the headers they read, the places a
  token may stand, and the authenticator every handler that changes state passes first.  A
  request is the record of the headers the program reads; the client's address prefix
  (\<open>src/internal/httpx/ip.go\<close>) is a function of the two prefix widths; a JSON body is an
  argument of the handler, decoded or refused.  A response is a status with a body, or the
  status and code of an API error.  Metrics and logging are left out.
\<close>

record request =
  hr_Authorization :: string
  hr_QueueCookie :: "string option"
  hr_EntryToken :: string
  hr_Fingerprint :: string
  hr_IdempotencyKey :: string
  hr_Accept :: "string list"
  hr_IPPrefix :: "int \<Rightarrow> int \<Rightarrow> string"

type_synonym api_error = "int \<times> string"

datatype 'a response = Reply int 'a | APIError api_error

text \<open>\<open>strings.EqualFold\<close> against a word whose letters fold only to ASCII letters.\<close>

definition lower :: "char \<Rightarrow> char" where
  "lower c = (if CHR ''A'' \<le> c \<and> c \<le> CHR ''Z'' then char_of ((of_char c :: nat) + 32) else c)"

definition bearer :: "request \<Rightarrow> string" where
  "bearer r =
    (let h = hr_Authorization r
     in if length h > 7 \<and> map lower (take 7 h) = ''bearer '' then TrimSpace (drop 7 h) else '''')"

definition queueToken :: "request \<Rightarrow> string" where
  "queueToken r = (if bearer r \<noteq> '''' then bearer r else or_else (hr_QueueCookie r) '''')"

definition entryToken :: "request \<Rightarrow> string" where
  "entryToken r = (if hr_EntryToken r \<noteq> '''' then hr_EntryToken r else bearer r)"

definition binding :: "request \<Rightarrow> int \<Rightarrow> int \<Rightarrow> Binding" where
  "binding r v4bits v6bits = \<lparr>bd_FPHash = hr_Fingerprint r, bd_IPPrefix = hr_IPPrefix r v4bits v6bits\<rparr>"

record authenticator =
  at_issuer :: Token_Issuer
  at_eventID :: string
  at_v4bits :: int
  at_v6bits :: int

definition auth_verify :: "jwt \<Rightarrow> authenticator \<Rightarrow> gotime \<Rightarrow> request \<Rightarrow> string \<Rightarrow> token_kind \<Rightarrow> api_error + Claims" where
  "auth_verify J a now r jws kind =
    (if jws = '''' then Inl (401, ''token_required'')
     else case VerifyBound J (at_issuer a) now jws kind (at_eventID a) (binding r (at_v4bits a) (at_v6bits a)) of
       Inl _ \<Rightarrow> Inl (401, ''token_invalid'')
     | Inr claims \<Rightarrow> Inr claims)"

text \<open>What an accepted token is known to be.\<close>

lemma auth_verify_claims:
  assumes "auth_verify J a now r jws kind = Inr c" "at_eventID a \<noteq> ''''"
  shows "Verify_token J (at_issuer a) now jws kind (at_eventID a) = Inr c"
    "cm_Kind c = kind" "cm_EventID c = at_eventID a" "cm_TokenID c \<noteq> ''''" "cm_Shard c \<noteq> ''''" "cm_JTI c \<noteq> ''''"
  using assms
  by (auto simp: auth_verify_def VerifyBound_def Verify_token_def Let_def split: if_splits sum.splits)

end
