(* ===== verification/QueueApi.thy ===== *)
theory QueueApi
  imports Http Telemetry
begin

text \<open>
  What a waiting user calls: the status of the place in the queue, as one answer or as a stream
  of server-sent events (\<open>src/internal/api/queue.go\<close>), the heartbeat, and the exchange of the
  queue token for an entry token (\<open>src/internal/api/admission.go\<close>).  A handler returns its
  response, the stores and the events it publishes; the client's going away ends a stream as an
  error of a write does.
\<close>

text \<open>The fate and the time of a handler's calls: the script, the token check, the later steps.\<close>

record api_wires =
  ax_net :: net
  ax_auth_at :: gotime
  ax_call_at :: gotime
  ax_at :: gotime

definition event_of :: "Kind \<Rightarrow> string \<Rightarrow> string \<Rightarrow> token \<Rightarrow> gotime \<Rightarrow> string \<Rightarrow> string \<Rightarrow> Event" where
  "event_of kind ev sh t now fp ipp =
    \<lparr>e_Kind = kind, e_EventID = ev, e_Shard = sh, e_TokenID = t, e_At = now, e_FPHash = fp, e_IPPrefix = ipp,
     e_IntervalMS = 0, e_SolveMS = 0, e_Difficulty = 0, e_PointerEntropy = 0, e_Visible = False, e_WaitedMS = 0\<rparr>"

definition NewAuthenticator :: "Token_Issuer \<Rightarrow> Config \<Rightarrow> authenticator" where
  "NewAuthenticator issuer cfg = \<lparr>at_issuer = issuer, at_eventID = ev_ID (cf_Event cfg),
     at_v4bits = tc_IPv4PrefixBits (cf_Token cfg), at_v6bits = tc_IPv6PrefixBits (cf_Token cfg)\<rparr>"

section \<open>The place in the queue\<close>

record QueueAPI =
  qa_auth :: authenticator
  qa_pollHint :: duration
  qa_keepalive :: duration
  qa_shardRate :: float64
  qa_gates :: Gates

definition NewQueueAPI :: "Token_Issuer \<Rightarrow> Config \<Rightarrow> QueueAPI" where
  "NewQueueAPI issuer cfg =
    (let rate = float_of (am_RatePerMin (cf_Admission cfg));
         rate = (if ev_ShardCount (cf_Event cfg) > 0
                 then fdiv rate (float_of (ev_ShardCount (cf_Event cfg))) else rate)
     in \<lparr>qa_auth = NewAuthenticator issuer cfg, qa_pollHint = qu_StatusPollHint (cf_Queue cfg),
         qa_keepalive = qu_SSEKeepalive (cf_Queue cfg), qa_shardRate = rate,
         qa_gates = \<lparr>g_AdmitOpensAt =
             (case ev_OpenAt (cf_Event cfg) of
                Some t \<Rightarrow> if am_AfterLottery (cf_Admission cfg) then Some (t + ev_LotteryWindow (cf_Event cfg)) else None
              | None \<Rightarrow> None),
           g_MinDwell = am_MinDwell (cf_Admission cfg)\<rparr>\<rparr>)"

record StatusResponse =
  ss_Event :: string
  ss_Shard :: string
  ss_State :: string
  ss_Segment :: string
  ss_Rank :: int
  ss_Ahead :: int
  ss_ShardSize :: int
  ss_EstimateMS :: millis
  ss_PollAfter :: millis

definition api_snapshot :: "net \<Rightarrow> gotime \<Rightarrow> QueueAPI \<Rightarrow> Claims \<Rightarrow> Store \<times> redis \<Rightarrow>
    (api_error + StatusResponse) \<times> Store \<times> redis" where
  "api_snapshot n now q c sr =
    (case Position n (cm_Shard c) (cm_TokenID c) sr of
       (Inl _, sr') \<Rightarrow> (Inl (503, ''unavailable''), sr')
     | (Inr snap, sr') \<Rightarrow>
         (Inr \<lparr>ss_Event = cm_EventID c, ss_Shard = sn_Shard snap, ss_State = sn_Status snap,
            ss_Segment = sn_Segment snap, ss_Rank = sn_Rank snap, ss_Ahead = Ahead snap,
            ss_ShardSize = sn_Size snap,
            ss_EstimateMS = Milliseconds (EstimateWaitAt snap now (qa_shardRate q) (qa_gates q)),
            ss_PollAfter = Milliseconds (qa_pollHint q)\<rparr>, sr'))"

definition wantsSSE :: "request \<Rightarrow> bool" where
  "wantsSSE r \<longleftrightarrow> list_ex (\<lambda>v. v = ''text/event-stream'' \<or>
     length v \<ge> 17 \<and> take 17 v = ''text/event-stream'') (hr_Accept r)"

text \<open>The stream: what the select of the loop sees, and the frames that are written.\<close>

datatype stream_input = PollTick net gotime | KeepaliveTick | ClientGone | WriteFails

datatype frame = StatusFrame StatusResponse | KeepaliveFrame

definition send :: "net \<Rightarrow> gotime \<Rightarrow> QueueAPI \<Rightarrow> Claims \<Rightarrow> Store \<times> redis \<Rightarrow> bool \<times> frame list \<times> Store \<times> redis" where
  "send n now q c sr =
    (case api_snapshot n now q c sr of
       (Inl _, sr') \<Rightarrow> (False, [], sr')
     | (Inr snap, sr') \<Rightarrow> (ss_State snap = ''waiting'' \<or> ss_State snap = ''evicting'', [StatusFrame snap], sr'))"

fun stream_loop :: "QueueAPI \<Rightarrow> Claims \<Rightarrow> stream_input list \<Rightarrow> Store \<times> redis \<Rightarrow> frame list \<times> Store \<times> redis" where
  "stream_loop q c [] sr = ([], sr)"
| "stream_loop q c (ClientGone # ins) sr = ([], sr)"
| "stream_loop q c (WriteFails # ins) sr = ([], sr)"
| "stream_loop q c (KeepaliveTick # ins) sr =
    (case stream_loop q c ins sr of (fs, sr') \<Rightarrow> (KeepaliveFrame # fs, sr'))"
| "stream_loop q c (PollTick n now # ins) sr =
    (case send n now q c sr of
       (False, fs, sr') \<Rightarrow> (fs, sr')
     | (True, fs, sr') \<Rightarrow> (case stream_loop q c ins sr' of (fs', sr'') \<Rightarrow> (fs @ fs', sr'')))"

definition stream :: "net \<Rightarrow> gotime \<Rightarrow> QueueAPI \<Rightarrow> Claims \<Rightarrow> stream_input list \<Rightarrow> Store \<times> redis \<Rightarrow>
    frame list \<times> Store \<times> redis" where
  "stream n now q c ins sr =
    (case send n now q c sr of
       (False, fs, sr') \<Rightarrow> (fs, sr')
     | (True, fs, sr') \<Rightarrow> (case stream_loop q c ins sr' of (fs', sr'') \<Rightarrow> (fs @ fs', sr'')))"

definition status :: "jwt \<Rightarrow> api_wires \<Rightarrow> QueueAPI \<Rightarrow> request \<Rightarrow> stream_input list \<Rightarrow> Store \<times> redis \<Rightarrow>
    (frame list + StatusResponse) response \<times> Store \<times> redis" where
  "status J w q r ins sr =
    (case auth_verify J (qa_auth q) (ax_auth_at w) r (queueToken r) KindQueue of
       Inl e \<Rightarrow> (APIError e, sr)
     | Inr claims \<Rightarrow>
         if \<not> wantsSSE r then
           (case api_snapshot (ax_net w) (ax_at w) q claims sr of
              (Inl e, sr') \<Rightarrow> (APIError e, sr')
            | (Inr snap, sr') \<Rightarrow> (Reply 200 (Inr snap), sr'))
         else case stream (ax_net w) (ax_at w) q claims ins sr of (fs, sr') \<Rightarrow> (Reply 200 (Inl fs), sr'))"

section \<open>The heartbeat\<close>

record HeartbeatRequest =
  hb_PointerEntropy :: float64
  hb_Visible :: bool
  hb_Events :: "string list"

record HeartbeatResponse =
  hs_State :: string
  hs_Rank :: int
  hs_Beats :: int
  hs_Revived :: bool
  hs_NextAfter :: millis

text \<open>The body is optional.\<close>

definition heartbeat :: "jwt \<Rightarrow> api_wires \<Rightarrow> QueueAPI \<Rightarrow> request \<Rightarrow> (api_error + HeartbeatRequest) option \<Rightarrow>
    Store \<times> redis \<Rightarrow> HeartbeatResponse response \<times> Event list \<times> Store \<times> redis" where
  "heartbeat J w q r body sr =
    (case auth_verify J (qa_auth q) (ax_auth_at w) r (queueToken r) KindQueue of
       Inl e \<Rightarrow> (APIError e, [], sr)
     | Inr claims \<Rightarrow>
     case or_else body (Inr \<lparr>hb_PointerEntropy = 0, hb_Visible = False, hb_Events = []\<rparr>) of
       Inl e \<Rightarrow> (APIError e, [], sr)
     | Inr b \<Rightarrow>
     case Heartbeat (ax_net w) (ax_call_at w) (cm_Shard claims) (cm_TokenID claims) sr of
       (Inl _, sr') \<Rightarrow> (APIError (503, ''unavailable''), [], sr')
     | (Inr beat, sr') \<Rightarrow>
         (Reply 200 \<lparr>hs_State = bt_Status beat, hs_Rank = bt_Rank beat, hs_Beats = bt_Count beat,
            hs_Revived = bt_Revived beat, hs_NextAfter = Milliseconds (qa_pollHint q)\<rparr>,
          [(event_of KindHeartbeat (cm_EventID claims) (cm_Shard claims) (cm_TokenID claims) (ax_at w)
              (cm_FPHash claims) (cm_IPPrefix claims))
            \<lparr>e_IntervalMS := Milliseconds (bt_Interval beat), e_PointerEntropy := hb_PointerEntropy b,
             e_Visible := hb_Visible b\<rparr>], sr'))"

section \<open>Exchanging the queue token for an entry token\<close>

record AdmissionAPI =
  aa_auth :: authenticator
  aa_store :: AConfig
  aa_issue :: Token_Issuer
  aa_minDwell :: duration
  aa_pollHint :: duration

definition NewAdmissionAPI :: "AConfig \<Rightarrow> Token_Issuer \<Rightarrow> Config \<Rightarrow> AdmissionAPI" where
  "NewAdmissionAPI store issuer cfg = \<lparr>aa_auth = NewAuthenticator issuer cfg, aa_store = store, aa_issue = issuer,
     aa_minDwell = am_MinDwell (cf_Admission cfg), aa_pollHint = qu_StatusPollHint (cf_Queue cfg)\<rparr>"

definition observeRetry :: "AdmissionAPI \<Rightarrow> duration \<Rightarrow> duration" where
  "observeRetry a waited =
    (let left = aa_minDwell a - waited in if left > aa_pollHint a then left else aa_pollHint a)"

record RedeemResponse =
  rd_Status :: string
  rd_EntryToken :: string
  rd_Rank :: int
  rd_Budget :: int
  rd_WaitedMS :: millis
  rd_RetryMS :: millis

definition redeem :: "jwt \<Rightarrow> (nat \<Rightarrow> string option) \<Rightarrow> api_wires \<Rightarrow> AdmissionAPI \<Rightarrow> request \<Rightarrow> redis \<Rightarrow>
    RedeemResponse response \<times> Event list \<times> redis" where
  "redeem J random w a req r =
    (case auth_verify J (aa_auth a) (ax_auth_at w) req (queueToken req) KindQueue of
       Inl e \<Rightarrow> (APIError e, [], r)
     | Inr c \<Rightarrow>
     case NewID random of
       Inl _ \<Rightarrow> (APIError (500, ''internal''), [], r)
     | Inr jti \<Rightarrow>
     case Admit (ax_net w) (ax_call_at w) (aa_store a) (cm_Shard c) (cm_TokenID c) jti r of
       (Inl _, r') \<Rightarrow> (APIError (503, ''unavailable''), [], r')
     | (Inr res, r') \<Rightarrow>
         let answer = \<lparr>rd_Status = rs_Status res, rd_EntryToken = '''', rd_Rank = rs_Rank res,
                rd_Budget = rs_Budget res, rd_WaitedMS = 0, rd_RetryMS = 0\<rparr>
         in if rs_Status res = ''admitted'' then
              (case Issue_token J (aa_issue a) (ax_at w)
                 \<lparr>cm_Kind = KindEntry, cm_EventID = cm_EventID c, cm_TokenID = cm_TokenID c, cm_JTI = rs_JTI res,
                  cm_Shard = cm_Shard c, cm_FPHash = cm_FPHash c, cm_IPPrefix = cm_IPPrefix c,
                  cm_IssuedAt = zero_time, cm_ExpiresAt = zero_time\<rparr> of
                 Inl _ \<Rightarrow> (APIError (500, ''internal''), [], r')
               | Inr (jws, _) \<Rightarrow>
                   (Reply 200 (answer\<lparr>rd_EntryToken := jws, rd_WaitedMS := Milliseconds (rs_Waited res)\<rparr>),
                    [(event_of KindAdmit (cm_EventID c) (cm_Shard c) (cm_TokenID c) (ax_at w) (cm_FPHash c)
                        (cm_IPPrefix c))\<lparr>e_WaitedMS := Milliseconds (rs_Waited res)\<rparr>], r'))
            else if rs_Status res = ''not_yet'' then (Reply 200 answer, [], r')
            else if rs_Status res = ''observing'' then
              (Reply 200 (answer\<lparr>rd_RetryMS := Milliseconds (observeRetry a (rs_Waited res))\<rparr>), [], r')
            else if rs_Status res = ''greylist'' then
              (Reply 200 (answer\<lparr>rd_Status := ''challenge_required'', rd_RetryMS := Milliseconds (aa_pollHint a)\<rparr>), [], r')
            else if rs_Status res = ''held'' \<or> rs_Status res = ''blocked'' then
              (APIError (403, rs_Status res), [], r')
            else (APIError (409, rs_Status res), [], r'))"

end
