(* ===== verification/GateApi.thy ===== *)
theory GateApi
  imports QueueApi
begin

text \<open>
  The entrance of the queue (\<open>src/internal/api/gate.go\<close>) and the way back from the greylist
  (\<open>src/internal/api/rechallenge.go\<close>): a challenge is issued without a write, its solution
  creates the place and the queue token; a greylisted user is issued a harder one and its
  solution restores the place.
\<close>

section \<open>The handlers' state\<close>

record GateAPI =
  ga_chal :: Issuer
  ga_assigner :: Assigner
  ga_tokens :: Token_Issuer
  ga_auth :: authenticator
  ga_eventID :: string
  ga_v4bits :: int
  ga_v6bits :: int
  ga_pollHint :: duration
  ga_rechalMax :: int
  ga_rechalPass :: int
  ga_rechalHold :: int

definition NewGateAPI :: "Issuer \<Rightarrow> Assigner \<Rightarrow> Token_Issuer \<Rightarrow> Config \<Rightarrow> GateAPI" where
  "NewGateAPI chal assigner tokens cfg =
    \<lparr>ga_chal = chal, ga_assigner = assigner, ga_tokens = tokens, ga_auth = NewAuthenticator tokens cfg,
     ga_eventID = ev_ID (cf_Event cfg), ga_v4bits = tc_IPv4PrefixBits (cf_Token cfg),
     ga_v6bits = tc_IPv6PrefixBits (cf_Token cfg), ga_pollHint = qu_StatusPollHint (cf_Queue cfg),
     ga_rechalMax = bs_RechallengeMaxAttempts (cf_BotScore cfg),
     ga_rechalPass = bs_RechallengePassScore (cf_BotScore cfg), ga_rechalHold = bs_Hold (cf_BotScore cfg)\<rparr>"

definition fingerprint :: "request \<Rightarrow> string \<Rightarrow> string" where
  "fingerprint r fromBody = (if hr_Fingerprint r \<noteq> '''' then hr_Fingerprint r else fromBody)"

definition gate_prefix :: "GateAPI \<Rightarrow> request \<Rightarrow> string" where
  "gate_prefix g r = hr_IPPrefix r (ga_v4bits g) (ga_v6bits g)"

text \<open>
  What surrounds one request: randomness, the difficulty provider, the client library's time to
  live, the fates and times of the calls.
\<close>

record gate_wires =
  gx_random :: "nat \<Rightarrow> string option"
  gx_nonce :: "string option"
  gx_lottery :: "string option"
  gx_provider :: provider
  gx_px :: "duration \<Rightarrow> millis"
  gx_burn :: link
  gx_register :: link
  gx_net :: net
  gx_net2 :: net
  gx_clock :: "nat \<Rightarrow> gotime"
  gx_auth_at :: gotime
  gx_at :: gotime

section \<open>Entering\<close>

record EnterResponse =
  en_Event :: string
  en_Challenge :: Challenge
  en_PollAfter :: millis

definition enter :: "gate_wires \<Rightarrow> GateAPI \<Rightarrow> request \<Rightarrow> (api_error + string) option \<Rightarrow> EnterResponse response" where
  "enter w g req body =
    (case or_else body (Inr '''') of
       Inl e \<Rightarrow> APIError e
     | Inr fp \<Rightarrow>
         (case Issue (ga_chal g) (gx_provider w) (gx_at w) (gx_nonce w)
            \<lparr>su_FPHash = fingerprint req fp, su_IPPrefix = gate_prefix g req, su_Attempt = 0\<rparr> of
            Inl _ \<Rightarrow> APIError (503, ''unavailable'')
          | Inr c \<Rightarrow> Reply 200 \<lparr>en_Event = ga_eventID g, en_Challenge = c,
              en_PollAfter = Milliseconds (ga_pollHint g)\<rparr>))"

record VerifyRequest =
  vq_Challenge :: Challenge
  vq_Solution :: string
  vq_FingerprintHash :: string
  vq_SolveMS :: int

record VerifyResponse =
  vr_Event :: string
  vr_Token :: string
  vr_Shard :: string
  vr_State :: string
  vr_Segment :: string
  vr_Rank :: int
  vr_ShardSize :: int
  vr_ExpiresAt :: millis
  vr_PollAfter :: millis
  vr_AlreadyIn :: bool
  vr_ShardCount :: int

definition challenge_failure :: "challenge_error \<Rightarrow> api_error" where
  "challenge_failure e = (if e = challenge_error.ErrExpired then (410, ''challenge_expired'') else (403, ''challenge_failed''))"

text \<open>The events of a solved puzzle: the entry or the re-challenge, and the time it took.\<close>

definition solve_events :: "Kind \<Rightarrow> string \<Rightarrow> string \<Rightarrow> token \<Rightarrow> gotime \<Rightarrow> string \<Rightarrow> string \<Rightarrow> int \<Rightarrow> int \<Rightarrow> Event list" where
  "solve_events kind ev sh t now fp ipp solveMS difficulty =
    event_of kind ev sh t now fp ipp #
    (if solveMS > 0
     then [(event_of KindChallenge ev sh t now fp ipp)\<lparr>e_SolveMS := solveMS, e_Difficulty := difficulty\<rparr>] else [])"

text \<open>The cookie carries the token of the body.\<close>

definition gate_verify :: "jwt \<Rightarrow> gate_wires \<Rightarrow> GateAPI \<Rightarrow> request \<Rightarrow> api_error + VerifyRequest \<Rightarrow> Store \<times> redis \<Rightarrow>
    VerifyResponse response \<times> Event list \<times> Store \<times> redis" where
  "gate_verify J w g req body sr =
    (case sr of (s, r) \<Rightarrow>
     case body of
       Inl e \<Rightarrow> (APIError e, [], s, r)
     | Inr b \<Rightarrow>
     case Verify (gx_burn w) (gx_px w) (ga_chal g) (gx_at w) (vq_Challenge b) (vq_Solution b) r of
       (Some e, r1) \<Rightarrow> (APIError (challenge_failure e), [], s, r1)
     | (None, r1) \<Rightarrow>
     case NewID (gx_random w) of
       Inl _ \<Rightarrow> (APIError (500, ''internal''), [], s, r1)
     | Inr tokenID \<Rightarrow>
     let shardID = Assign (ga_assigner g) tokenID;
         fp = fingerprint req (vq_FingerprintHash b); ipp = gate_prefix g req
     in case Enqueue (gx_net w) (gx_register w) (gx_lottery w) (gx_clock w)
          \<lparr>er_Shard = shardID, er_TokenID = tokenID, er_FPHash = fp, er_IPPrefix = ipp\<rparr> (s, r1) of
       (Inl _, s2, r2) \<Rightarrow> (APIError (503, ''unavailable''), [], s2, r2)
     | (Inr ticket, s2, r2) \<Rightarrow>
     case Issue_token J (ga_tokens g) (gx_at w)
        \<lparr>cm_Kind = KindQueue, cm_EventID = ga_eventID g, cm_TokenID = tokenID, cm_JTI = tokenID,
         cm_Shard = shardID, cm_FPHash = fp, cm_IPPrefix = ipp, cm_IssuedAt = zero_time, cm_ExpiresAt = zero_time\<rparr> of
       Inl _ \<Rightarrow> (APIError (500, ''internal''), [], s2, r2)
     | Inr (jws, claims) \<Rightarrow>
       (Reply 200 \<lparr>vr_Event = ga_eventID g, vr_Token = jws, vr_Shard = shardID, vr_State = tk_Status ticket,
          vr_Segment = tk_Segment ticket, vr_Rank = tk_Rank ticket, vr_ShardSize = tk_Size ticket,
          vr_ExpiresAt = UnixMilli (cm_ExpiresAt claims), vr_PollAfter = Milliseconds (ga_pollHint g),
          vr_AlreadyIn = (tk_Status ticket = ''exists''), vr_ShardCount = a_count (ga_assigner g)\<rparr>,
        solve_events KindEnter (ga_eventID g) shardID tokenID (gx_at w) fp ipp (vq_SolveMS b)
          (ch_Difficulty (vq_Challenge b)), s2, r2))"

section \<open>The way back from the greylist\<close>

definition attemptOf :: "net \<Rightarrow> GateAPI \<Rightarrow> Claims \<Rightarrow> Store \<times> redis \<Rightarrow> int \<times> Store \<times> redis" where
  "attemptOf n g c sr =
    (case Position n (cm_Shard c) (cm_TokenID c) sr of
       (Inl _, sr') \<Rightarrow> (ga_rechalMax g + 1, sr')
     | (Inr snap, sr') \<Rightarrow> (sn_Rechallenges snap + 1, sr'))"

definition attempts_left :: "GateAPI \<Rightarrow> int \<Rightarrow> int" where
  "attempts_left g used = (let left = ga_rechalMax g - used in if left < 0 then 0 else left)"

record ReissueResponse =
  ri_Event :: string
  ri_Challenge :: Challenge
  ri_Attempt :: int
  ri_AttemptsLeft :: int
  ri_PollAfter :: millis

definition reissue :: "jwt \<Rightarrow> gate_wires \<Rightarrow> GateAPI \<Rightarrow> request \<Rightarrow> Store \<times> redis \<Rightarrow>
    ReissueResponse response \<times> Store \<times> redis" where
  "reissue J w g req sr =
    (case auth_verify J (ga_auth g) (gx_auth_at w) req (queueToken req) KindQueue of
       Inl e \<Rightarrow> (APIError e, sr)
     | Inr c \<Rightarrow>
     case Position (gx_net w) (cm_Shard c) (cm_TokenID c) sr of
       (Inl _, sr') \<Rightarrow> (APIError (503, ''unavailable''), sr')
     | (Inr snap, sr') \<Rightarrow>
     if sn_Status snap \<noteq> ''greylist'' then (APIError (409, ''not_greylisted''), sr')
     else
     let attempt = sn_Rechallenges snap + 1;
         attempt = (if attempt > ga_rechalMax g then ga_rechalMax g + 1 else attempt)
     in case Issue (ga_chal g) (gx_provider w) (gx_at w) (gx_nonce w)
          \<lparr>su_FPHash = fingerprint req '''', su_IPPrefix = gate_prefix g req, su_Attempt = attempt\<rparr> of
       Inl _ \<Rightarrow> (APIError (503, ''unavailable''), sr')
     | Inr ch \<Rightarrow>
       (Reply 200 \<lparr>ri_Event = ga_eventID g, ri_Challenge = ch, ri_Attempt = attempt,
          ri_AttemptsLeft = attempts_left g (sn_Rechallenges snap),
          ri_PollAfter = Milliseconds (ga_pollHint g)\<rparr>, sr'))"

record ReverifyRequest =
  re_Challenge :: Challenge
  re_Solution :: string
  re_SolveMS :: int

record ReverifyResponse =
  rv_Event :: string
  rv_Status :: string
  rv_Outcome :: string
  rv_Shard :: string
  rv_Rank :: int
  rv_Attempts :: int
  rv_AttemptsLeft :: int
  rv_PollAfter :: millis

definition reverify :: "jwt \<Rightarrow> gate_wires \<Rightarrow> GateAPI \<Rightarrow> request \<Rightarrow> api_error + ReverifyRequest \<Rightarrow> Store \<times> redis \<Rightarrow>
    ReverifyResponse response \<times> Event list \<times> Store \<times> redis" where
  "reverify J w g req body sr =
    (case auth_verify J (ga_auth g) (gx_auth_at w) req (queueToken req) KindQueue of
       Inl e \<Rightarrow> (APIError e, [], sr)
     | Inr c \<Rightarrow>
     case body of
       Inl e \<Rightarrow> (APIError e, [], sr)
     | Inr b \<Rightarrow>
     case attemptOf (gx_net w) g c sr of (attempt, s1, r1) \<Rightarrow>
     if ch_Difficulty (re_Challenge b) <
          Required (ga_chal g) (gx_provider w) \<lparr>su_FPHash = '''', su_IPPrefix = '''', su_Attempt = attempt\<rparr>
     then (APIError (409, ''challenge_stale''), [], s1, r1)
     else
     case Verify (gx_burn w) (gx_px w) (ga_chal g) (gx_at w) (re_Challenge b) (re_Solution b) r1 of
       (Some e, r2) \<Rightarrow> (APIError (challenge_failure e), [], s1, r2)
     | (None, r2) \<Rightarrow>
     case Rechallenge (gx_net2 w) (gx_at w)
        \<lparr>rq_Shard = cm_Shard c, rq_TokenID = cm_TokenID c, rq_MaxAttempts = ga_rechalMax g,
         rq_PassScore = ga_rechalPass g, rq_HoldScore = ga_rechalHold g\<rparr> (s1, r2) of
       (Inl _, s3, r3) \<Rightarrow> (APIError (503, ''unavailable''), [], s3, r3)
     | (Inr res, s3, r3) \<Rightarrow>
     if rr_Outcome res = ''unknown'' then (APIError (409, ''unknown''), [], s3, r3)
     else
       (Reply 200 \<lparr>rv_Event = ga_eventID g, rv_Status = rr_Status res, rv_Outcome = rr_Outcome res,
          rv_Shard = cm_Shard c, rv_Rank = rr_Rank res, rv_Attempts = rr_Attempts res,
          rv_AttemptsLeft = attempts_left g (rr_Attempts res), rv_PollAfter = Milliseconds (ga_pollHint g)\<rparr>,
        (if rr_Outcome res = ''restored''
         then solve_events KindRechallenge (ga_eventID g) (cm_Shard c) (cm_TokenID c) (gx_at w)
                (cm_FPHash c) (cm_IPPrefix c) (re_SolveMS b) (ch_Difficulty (re_Challenge b))
         else []), s3, r3))"

end
