(* ===== verification/Postgres.thy ===== *)
theory Postgres
  imports BotActuator
begin

text \<open>
  The durable store (\<open>src/internal/store/pg/\<close>): the orders table with the unique constraints of
  \<open>src/deploy/postgres/init/001_schema.sql\<close>, and the buffered writer of audit and block records.
  A statement meets the network as a Redis command does: it is lost, or runs and its reply is
  lost, or is answered.  Which of several violated constraints the database names is the
  parameter \<open>pick\<close>.  A batch of statements is one implicit transaction.
\<close>

section \<open>Orders\<close>

record Order =
  or_ID :: int
  or_EventID :: string
  or_TokenID :: token
  or_AccountID :: string
  or_EntryJTI :: string
  or_IdemKey :: string
  or_SKU :: string
  or_Qty :: int
  or_CreatedAt :: gotime

datatype pg_error = ErrDuplicateOrder | ErrEntryReused | ErrFindOrder | ErrCreateOrder

datatype order_constraint = OrdersIdemKey | OrdersAccount | OrdersToken | OrdersEntryJTI

fun constraint_cols :: "order_constraint \<Rightarrow> Order \<Rightarrow> string \<times> string" where
  "constraint_cols OrdersIdemKey o1 = (or_EventID o1, or_IdemKey o1)"
| "constraint_cols OrdersAccount o1 = (or_EventID o1, or_AccountID o1)"
| "constraint_cols OrdersToken o1 = (or_EventID o1, or_TokenID o1)"
| "constraint_cols OrdersEntryJTI o1 = (or_EventID o1, or_EntryJTI o1)"

definition order_constraints :: "order_constraint list" where
  "order_constraints = [OrdersIdemKey, OrdersAccount, OrdersToken, OrdersEntryJTI]"

definition violated :: "Order \<Rightarrow> Order list \<Rightarrow> order_constraint list" where
  "violated ord rows =
    filter (\<lambda>k. list_ex (\<lambda>row. constraint_cols k row = constraint_cols k ord) rows) order_constraints"

text \<open>The identity column draws its next value before the constraints are checked.\<close>

record orders_db =
  od_rows :: "Order list"
  od_next :: int

definition FindByIdempotencyKey :: "link \<Rightarrow> string \<Rightarrow> string \<Rightarrow> orders_db \<Rightarrow> pg_error + Order option" where
  "FindByIdempotencyKey l eventID k db =
    (if l \<noteq> Delivered then Inl ErrFindOrder
     else Inr (find (\<lambda>row. or_EventID row = eventID \<and> or_IdemKey row = k) (od_rows db)))"

datatype insert_result = Inserted Order | UniqueViolation order_constraint | CheckViolation

definition insertOrder :: "(order_constraint list \<Rightarrow> order_constraint) \<Rightarrow> gotime \<Rightarrow> Order \<Rightarrow> orders_db \<Rightarrow>
    insert_result \<times> orders_db" where
  "insertOrder pick now ord db =
    (let row = ord\<lparr>or_ID := od_next db, or_CreatedAt := now\<rparr>; db' = db\<lparr>od_next := od_next db + 1\<rparr>
     in if or_Qty ord \<le> 0 then (CheckViolation, db')
        else case violated ord (od_rows db) of
               [] \<Rightarrow> (Inserted row, db'\<lparr>od_rows := od_rows db @ [row]\<rparr>)
             | v # vs \<Rightarrow> (UniqueViolation (pick (v # vs)), db'))"

text \<open>\<open>None\<close> as a success: the same idempotency key came in at the same time.\<close>

definition Create :: "link \<Rightarrow> (order_constraint list \<Rightarrow> order_constraint) \<Rightarrow> gotime \<Rightarrow> Order \<Rightarrow> orders_db \<Rightarrow>
    (pg_error + Order option) \<times> orders_db" where
  "Create l pick now ord db =
    (case l of
       RequestLost \<Rightarrow> (Inl ErrCreateOrder, db)
     | ReplyLost \<Rightarrow> (Inl ErrCreateOrder, snd (insertOrder pick now ord db))
     | Delivered \<Rightarrow>
         (case insertOrder pick now ord db of
            (Inserted row, db') \<Rightarrow> (Inr (Some row), db')
          | (CheckViolation, db') \<Rightarrow> (Inl ErrCreateOrder, db')
          | (UniqueViolation k, db') \<Rightarrow>
              ((case k of
                  OrdersEntryJTI \<Rightarrow> Inl ErrEntryReused
                | OrdersIdemKey \<Rightarrow> Inr None
                | _ \<Rightarrow> Inl ErrDuplicateOrder), db')))"

section \<open>The audit writer\<close>

definition auditBuffer :: nat where "auditBuffer = 4096"
definition auditBatch :: nat where "auditBatch = 200"

text \<open>
  Rows as the statements give them, a column that is not given or given as \<open>NULL\<close> being
  \<open>None\<close>.  Both tables have \<open>NOT NULL\<close> on the columns below and a score from 0 to 100.
\<close>

record audit_row =
  ar_event_id :: string
  ar_token_id :: token
  ar_shard_id :: "string option"
  ar_action :: string
  ar_score :: int

record block_row =
  br_event_id :: string
  br_token_id :: token
  br_shard_id :: "string option"
  br_fp_hash :: "string option"
  br_score :: int

record audit_db =
  adb_audit :: "audit_row list"
  adb_blocks :: "block_row list"

definition nullable :: "string \<Rightarrow> string option" where
  "nullable s = (if s = '''' then None else Some s)"

definition insertAudit :: "AuditRecord \<Rightarrow> audit_row" where
  "insertAudit r = \<lparr>ar_event_id = au_EventID r, ar_token_id = au_TokenID r, ar_shard_id = Some (au_Shard r),
     ar_action = au_Action r, ar_score = int64_of (au_Score r)\<rparr>"

text \<open>The statement for blocks names no \<open>shard_id\<close>.\<close>

definition insertBlock :: "BlockRecord \<Rightarrow> block_row" where
  "insertBlock r = \<lparr>br_event_id = bl_EventID r, br_token_id = bl_TokenID r, br_shard_id = None,
     br_fp_hash = nullable (bl_FPHash r), br_score = int64_of (bl_Score r)\<rparr>"

definition audit_accepts :: "audit_row \<Rightarrow> bool" where
  "audit_accepts row \<longleftrightarrow> ar_shard_id row \<noteq> None \<and> 0 \<le> ar_score row \<and> ar_score row \<le> 100"

definition block_accepts :: "block_row \<Rightarrow> audit_db \<Rightarrow> bool" where
  "block_accepts row db \<longleftrightarrow> br_shard_id row \<noteq> None \<and> br_fp_hash row \<noteq> None \<and>
     0 \<le> br_score row \<and> br_score row \<le> 100 \<and>
     \<not> list_ex (\<lambda>b. br_event_id b = br_event_id row \<and> br_token_id b = br_token_id row) (adb_blocks db)"

fun exec_batch :: "sink_call list \<Rightarrow> audit_db \<Rightarrow> audit_db option" where
  "exec_batch [] db = Some db"
| "exec_batch (Audit r # rs) db =
    (if audit_accepts (insertAudit r) then exec_batch rs (db\<lparr>adb_audit := adb_audit db @ [insertAudit r]\<rparr>)
     else None)"
| "exec_batch (Block r # rs) db =
    (if block_accepts (insertBlock r) db then exec_batch rs (db\<lparr>adb_blocks := adb_blocks db @ [insertBlock r]\<rparr>)
     else None)"

text \<open>Writing reports whether it worked; a failed transaction leaves the tables alone.\<close>

definition write_batch :: "link \<Rightarrow> sink_call list \<Rightarrow> audit_db \<Rightarrow> bool \<times> audit_db" where
  "write_batch l batch db =
    (if batch = [] then (True, db)
     else case l of
       RequestLost \<Rightarrow> (False, db)
     | ReplyLost \<Rightarrow> (False, case exec_batch batch db of None \<Rightarrow> db | Some db' \<Rightarrow> db')
     | Delivered \<Rightarrow> (case exec_batch batch db of None \<Rightarrow> (False, db) | Some db' \<Rightarrow> (True, db')))"

record Audit_writer =
  aw_ch :: "sink_call list"
  aw_closed :: bool
  aw_batch :: "sink_call list"
  aw_dropped :: int
  aw_db :: audit_db

definition NewAudit :: "audit_db \<Rightarrow> Audit_writer" where
  "NewAudit db = \<lparr>aw_ch = [], aw_closed = False, aw_batch = [], aw_dropped = 0, aw_db = db\<rparr>"

text \<open>A send on the closed channel panics.\<close>

definition audit_enqueue :: "sink_call \<Rightarrow> Audit_writer \<Rightarrow> Audit_writer option" where
  "audit_enqueue rec a =
    (if aw_closed a then None
     else if length (aw_ch a) < auditBuffer then Some (a\<lparr>aw_ch := aw_ch a @ [rec]\<rparr>)
     else Some (a\<lparr>aw_dropped := aw_dropped a + 1\<rparr>))"

definition audit_flush :: "link \<Rightarrow> Audit_writer \<Rightarrow> Audit_writer" where
  "audit_flush l a =
    (if aw_batch a = [] then a
     else case write_batch l (aw_batch a) (aw_db a) of
       (ok, db) \<Rightarrow> a\<lparr>aw_db := db, aw_batch := [],
         aw_dropped := (if ok then aw_dropped a else aw_dropped a + int (length (aw_batch a)))\<rparr>)"

definition audit_receive :: "link \<Rightarrow> Audit_writer \<Rightarrow> Audit_writer" where
  "audit_receive l a =
    (case aw_ch a of
       [] \<Rightarrow> (if aw_closed a then audit_flush l a else a)
     | r # rs \<Rightarrow>
         let a1 = a\<lparr>aw_ch := rs, aw_batch := aw_batch a @ [r]\<rparr>
         in if length (aw_batch a1) \<ge> auditBatch then audit_flush l a1 else a1)"

definition audit_Close :: "Audit_writer \<Rightarrow> Audit_writer" where
  "audit_Close a = a\<lparr>aw_closed := True\<rparr>"

datatype audit_op = AEnqueue sink_call | AReceive link | ATick link | AClose

fun audit_step :: "audit_op \<Rightarrow> Audit_writer \<Rightarrow> Audit_writer option" where
  "audit_step (AEnqueue rec) a = audit_enqueue rec a"
| "audit_step (AReceive l) a = Some (audit_receive l a)"
| "audit_step (ATick l) a = Some (audit_flush l a)"
| "audit_step AClose a = Some (audit_Close a)"

fun audit_run :: "audit_op list \<Rightarrow> Audit_writer \<Rightarrow> Audit_writer option" where
  "audit_run [] a = Some a"
| "audit_run (s # ss) a = (case audit_step s a of None \<Rightarrow> None | Some a' \<Rightarrow> audit_run ss a')"

section \<open>Facts\<close>

lemma exec_batch_blocks:
  "exec_batch batch db = Some db' \<Longrightarrow> adb_blocks db' = adb_blocks db \<and> (\<forall>b. Block b \<notin> set batch) \<and>
     length (adb_audit db') = length (adb_audit db) + length batch"
  by (induction batch db rule: exec_batch.induct)
    (auto simp: block_accepts_def insertBlock_def split: if_splits)

lemma write_batch_cases:
  "write_batch l batch db = (ok, db') \<Longrightarrow>
     adb_blocks db' = adb_blocks db \<and>
     (length (adb_audit db') = length (adb_audit db) + length batch \<or> \<not> ok \<and> db' = db) \<and>
     (ok \<longrightarrow> length (adb_audit db') = length (adb_audit db) + length batch)"
  by (auto simp: write_batch_def split: if_splits link.splits option.splits dest: exec_batch_blocks)

fun enqueued :: "audit_op list \<Rightarrow> sink_call list" where
  "enqueued [] = []"
| "enqueued (AEnqueue rec # ss) = rec # enqueued ss"
| "enqueued (s # ss) = enqueued ss"

text \<open>Everything handed to the writer is stored, waiting, or counted as dropped.\<close>

definition accounted :: "Audit_writer \<Rightarrow> int" where
  "accounted a = int (length (adb_audit (aw_db a))) + int (length (aw_batch a)) + int (length (aw_ch a)) + aw_dropped a"

definition writer_ok :: "audit_db \<Rightarrow> Audit_writer \<Rightarrow> bool" where
  "writer_ok db0 a \<longleftrightarrow> adb_blocks (aw_db a) = adb_blocks db0 \<and> length (aw_batch a) < auditBatch \<and>
     length (aw_ch a) \<le> auditBuffer"

lemma flush_accounted: "accounted a \<le> accounted (audit_flush l a)"
  by (auto simp: audit_flush_def accounted_def split: prod.split dest!: write_batch_cases)

lemma flush_ok:
  "adb_blocks (aw_db a) = adb_blocks db0 \<Longrightarrow> length (aw_ch a) \<le> auditBuffer \<Longrightarrow> writer_ok db0 (audit_flush l a)"
  by (auto simp: audit_flush_def writer_ok_def auditBatch_def split: prod.split dest!: write_batch_cases)

lemma receive_accounted: "accounted a \<le> accounted (audit_receive l a)"
proof (cases "aw_ch a")
  case (Cons r rs)
  let ?a1 = "a\<lparr>aw_ch := rs, aw_batch := aw_batch a @ [r]\<rparr>"
  have "accounted ?a1 = accounted a" by (simp add: accounted_def Cons)
  with flush_accounted [of ?a1 l] show ?thesis by (simp add: audit_receive_def Cons Let_def)
qed (simp add: audit_receive_def flush_accounted)

lemma receive_ok: "writer_ok db0 a \<Longrightarrow> writer_ok db0 (audit_receive l a)"
  by (auto simp: audit_receive_def Let_def writer_ok_def split: list.split intro!: flush_ok [unfolded writer_ok_def])

lemma audit_step_accounted:
  assumes "audit_step s a = Some a'" "writer_ok db0 a"
  shows "writer_ok db0 a' \<and> accounted a + int (length (enqueued [s])) \<le> accounted a'"
proof (cases s)
  case (AEnqueue rec)
  with assms show ?thesis by (auto simp: audit_enqueue_def writer_ok_def accounted_def split: if_splits)
next
  case (AReceive l)
  with assms show ?thesis by (auto intro: receive_ok receive_accounted)
next
  case (ATick l)
  have "writer_ok db0 (audit_flush l a)" using assms(2) by (intro flush_ok) (simp_all add: writer_ok_def)
  with ATick assms(1) flush_accounted [of a l] show ?thesis by auto
next
  case AClose
  with assms show ?thesis by (auto simp: audit_Close_def writer_ok_def accounted_def)
qed

lemma enqueued_Cons: "length (enqueued (s # ss)) = length (enqueued [s]) + length (enqueued ss)"
  by (cases s) auto

lemma audit_run_accounted:
  "audit_run ss a = Some a' \<Longrightarrow> writer_ok db0 a \<Longrightarrow>
     writer_ok db0 a' \<and> accounted a + int (length (enqueued ss)) \<le> accounted a'"
proof (induction ss arbitrary: a)
  case (Cons s ss)
  then obtain a1 where a1: "audit_step s a = Some a1" "audit_run ss a1 = Some a'"
    by (auto split: option.splits)
  show ?case
    using audit_step_accounted [OF a1(1) Cons.prems(2)] Cons.IH [OF a1(2)] enqueued_Cons [of s ss] by auto
qed simp

section \<open>Properties\<close>

text \<open>
  Lost audit records are never lost silently: in any run of the writer, with any failures of
  the database, the records handed over are at most those stored, those still waiting and those
  counted as dropped together; the batch and the buffer stay within their sizes.
\<close>

theorem audit_losses_counted:
  assumes "audit_run ss (NewAudit db) = Some a"
  shows "int (length (enqueued ss)) \<le>
      (int (length (adb_audit (aw_db a))) - int (length (adb_audit db))) +
      int (length (aw_batch a)) + int (length (aw_ch a)) + aw_dropped a \<and>
    length (aw_batch a) < auditBatch \<and> length (aw_ch a) \<le> auditBuffer"
  using audit_run_accounted [OF assms, of db] by (simp add: writer_ok_def accounted_def NewAudit_def auditBatch_def)

definition demo_audit :: AuditRecord where
  "demo_audit = \<lparr>au_EventID = ''ev'', au_TokenID = ''a'', au_Shard = ''s0000'', au_Action = ''hold'', au_Score = 72,
     au_Signals = [], au_Contributing = 0, au_CappedFrom = None, au_At = 0\<rparr>"

definition demo_block :: BlockRecord where
  "demo_block = \<lparr>bl_EventID = ''ev'', bl_TokenID = ''a'', bl_FPHash = ''fp'', bl_Score = 95,
     bl_Signals = [], bl_Contributing = 2, bl_CappedFrom = None, bl_At = 0\<rparr>"

definition empty_audit :: audit_db where "empty_audit = \<lparr>adb_audit = [], adb_blocks = []\<rparr>"

definition demo_audit_run :: "audit_op list" where
  "demo_audit_run = [AEnqueue (Audit demo_audit), AReceive Delivered, ATick Delivered,
     AEnqueue (Audit demo_audit), AEnqueue (Block demo_block), AReceive Delivered, AReceive Delivered, ATick Delivered]"

lemma demo_audit_result:
  "audit_run demo_audit_run (NewAudit empty_audit) =
     Some ((NewAudit empty_audit)\<lparr>aw_db := \<lparr>adb_audit = [insertAudit demo_audit], adb_blocks = []\<rparr>, aw_dropped := 2\<rparr>)"
  by (simp add: demo_audit_run_def NewAudit_def empty_audit_def audit_enqueue_def audit_receive_def audit_flush_def
      auditBuffer_def auditBatch_def write_batch_def demo_audit_def demo_block_def insertAudit_def insertBlock_def
      audit_accepts_def block_accepts_def int64_of_def)

theorem audit_losses_counted_witness:
  "\<exists>a. audit_run demo_audit_run (NewAudit empty_audit) = Some a \<and> aw_dropped a = 2 \<and>
     length (aw_batch a) < auditBatch \<and> length (aw_ch a) \<le> auditBuffer"
  using audit_losses_counted [OF demo_audit_result] demo_audit_result by (simp add: NewAudit_def)

text \<open>
  The evidence for a block is never kept: the statement for blocks leaves out a column the
  schema requires, so in any run the table of blocks stays as it was, and any batch that holds a
  block record fails as a whole and takes the audit records beside it down.
\<close>

theorem block_evidence_is_lost:
  "(\<forall>l batch db b. Block b \<in> set batch \<longrightarrow> write_batch l batch db = (False, db)) \<and>
   (\<forall>ss db a. audit_run ss (NewAudit db) = Some a \<longrightarrow> adb_blocks (aw_db a) = adb_blocks db)"
proof (intro conjI allI impI)
  fix l batch db and b :: BlockRecord
  assume "Block b \<in> set batch"
  then have "exec_batch batch db = None" "batch \<noteq> []"
    using exec_batch_blocks by (cases "exec_batch batch db"; force)+
  then show "write_batch l batch db = (False, db)" by (simp add: write_batch_def split: link.split)
next
  fix ss db a assume "audit_run ss (NewAudit db) = Some a"
  from audit_run_accounted [OF this, of db] show "adb_blocks (aw_db a) = adb_blocks db"
    by (simp add: writer_ok_def NewAudit_def auditBatch_def)
qed

theorem block_evidence_is_lost_witness:
  "write_batch Delivered [Audit demo_audit, Block demo_block] empty_audit = (False, empty_audit)"
  using block_evidence_is_lost by (meson list.set_intros)

end
