(* ===== verification/ShopApi.thy ===== *)
theory ShopApi
  imports Http Postgres
begin

text \<open>
  The purchase (\<open>src/internal/api/shop.go\<close>): a signed entry token, the burning of its ticket in
  Redis, and the unique constraints of the orders table.  One request meets the database and
  the Redis script through the calls of \<open>shop_wires\<close>.
\<close>

section \<open>The handler\<close>

definition maxQty :: int where "maxQty = 1"

record ShopAPI =
  sh_auth :: authenticator
  sh_admit :: AConfig
  sh_sku :: string

record OrderRequest =
  oq_AccountID :: string
  oq_SKU :: string
  oq_Qty :: int

record OrderResponse =
  op_OrderID :: int
  op_EventID :: string
  op_AccountID :: string
  op_SKU :: string
  op_Qty :: int
  op_CreatedAt :: gotime
  op_Replayed :: bool

definition NewShopAPI :: "AConfig \<Rightarrow> Token_Issuer \<Rightarrow> Config \<Rightarrow> ShopAPI" where
  "NewShopAPI admit issuer cfg =
    \<lparr>sh_auth = \<lparr>at_issuer = issuer, at_eventID = ev_ID (cf_Event cfg),
        at_v4bits = tc_IPv4PrefixBits (cf_Token cfg), at_v6bits = tc_IPv6PrefixBits (cf_Token cfg)\<rparr>,
     sh_admit = admit, sh_sku = ev_ID (cf_Event cfg)\<rparr>"

record shop_wires =
  sw_find :: link
  sw_burn :: net
  sw_create :: link
  sw_find2 :: link
  sw_pick :: "order_constraint list \<Rightarrow> order_constraint"
  sw_auth_at :: gotime
  sw_burn_at :: gotime
  sw_db_at :: gotime

definition toResponse :: "Order \<Rightarrow> bool \<Rightarrow> OrderResponse" where
  "toResponse ord replayed =
    \<lparr>op_OrderID = or_ID ord, op_EventID = or_EventID ord, op_AccountID = or_AccountID ord,
     op_SKU = or_SKU ord, op_Qty = or_Qty ord, op_CreatedAt = or_CreatedAt ord, op_Replayed = replayed\<rparr>"

text \<open>The last part of the handler: the order is written after the ticket is burned.\<close>

definition place :: "shop_wires \<Rightarrow> Claims \<Rightarrow> string \<Rightarrow> OrderRequest \<Rightarrow> orders_db \<Rightarrow>
    OrderResponse response \<times> orders_db" where
  "place w claims idem body db =
    (case Create (sw_create w) (sw_pick w) (sw_db_at w)
       \<lparr>or_ID = 0, or_EventID = cm_EventID claims, or_TokenID = cm_TokenID claims,
        or_AccountID = oq_AccountID body, or_EntryJTI = cm_JTI claims, or_IdemKey = idem,
        or_SKU = oq_SKU body, or_Qty = oq_Qty body, or_CreatedAt = zero_time\<rparr> db of
       (Inl ErrDuplicateOrder, db') \<Rightarrow> (APIError (409, ''already_purchased''), db')
     | (Inl ErrEntryReused, db') \<Rightarrow> (APIError (409, ''entry_reused''), db')
     | (Inl _, db') \<Rightarrow> (APIError (503, ''unavailable''), db')
     | (Inr None, db') \<Rightarrow>
         ((case FindByIdempotencyKey (sw_find2 w) (cm_EventID claims) idem db' of
             Inr (Some prev) \<Rightarrow> Reply 200 (toResponse prev True)
           | _ \<Rightarrow> APIError (409, ''idempotency_conflict'')), db')
     | (Inr (Some ord), db') \<Rightarrow> (Reply 201 (toResponse ord False), db'))"

definition create :: "jwt \<Rightarrow> shop_wires \<Rightarrow> ShopAPI \<Rightarrow> request \<Rightarrow> api_error + OrderRequest \<Rightarrow> redis \<times> orders_db \<Rightarrow>
    OrderResponse response \<times> redis \<times> orders_db" where
  "create J w s req body st =
    (case st of (r, db) \<Rightarrow>
     case auth_verify J (sh_auth s) (sw_auth_at w) req (entryToken req) KindEntry of
       Inl e \<Rightarrow> (APIError e, st)
     | Inr claims \<Rightarrow>
     let idem = hr_IdempotencyKey req
     in if idem = '''' then (APIError (400, ''idempotency_key_required''), st)
     else case body of
       Inl e \<Rightarrow> (APIError e, st)
     | Inr b \<Rightarrow>
     if oq_AccountID b = '''' then (APIError (400, ''account_required''), st)
     else
     let b = (if oq_Qty b = 0 then b\<lparr>oq_Qty := 1\<rparr> else b)
     in if oq_Qty b < 1 \<or> oq_Qty b > maxQty then (APIError (400, ''qty_invalid''), st)
     else
     let b = (if oq_SKU b = '''' then b\<lparr>oq_SKU := sh_sku s\<rparr> else b)
     in case FindByIdempotencyKey (sw_find w) (cm_EventID claims) idem db of
       Inl _ \<Rightarrow> (APIError (503, ''unavailable''), st)
     | Inr (Some prev) \<Rightarrow> (Reply 200 (toResponse prev True), st)
     | Inr None \<Rightarrow>
     case Burn (sw_burn w) (sw_burn_at w) (sh_admit s) (cm_Shard claims) (cm_JTI claims) (cm_TokenID claims) r of
       (Inl _, r') \<Rightarrow> (APIError (503, ''unavailable''), r', db)
     | (Inr outcome, r') \<Rightarrow>
     if outcome = ''burned'' then (case place w claims idem b db of (resp, db') \<Rightarrow> (resp, r', db'))
     else if outcome = ''missing'' then (APIError (409, ''entry_spent''), r', db)
     else (APIError (403, ''entry_mismatch''), r', db))"

section \<open>What one purchase does\<close>

lemma Burn_reply:
  assumes "Burn n now s sh jti t r = (Inr st, r')"
  obtains L where "redeem_lua (Entry (ac_EventID s) sh jti) (User (ac_EventID s) sh t) t (UnixMilli now) (r\<lparr>loaded := L\<rparr>)
    = (Inr [LStr st, LStr (case string_get r (Entry (ac_EventID s) sh jti) of None \<Rightarrow> '''' | Some u \<Rightarrow> u)], r')"
proof -
  let ?e = "Entry (ac_EventID s) sh jti" and ?u = "User (ac_EventID s) sh t"
  let ?sc = "NewScript ''redeem.lua'' (redeem_lua ?e ?u t (UnixMilli now))"
  from assms obtain v where v: "Run n ?sc r = (Inr v, r')" "admission_reply v 2 = Inr v" "st = asString (v ! 0)"
    by (auto simp: Burn_def Let_def admission_call_def admission_reply_def split: if_splits option.splits prod.splits sum.splits)
  have "\<exists>L. script_body ?sc (r\<lparr>loaded := L\<rparr>) = (Inr v, r')"
    using Run_once [where n = n and sc = ?sc and r = r] v(1) by simp
  then obtain L where L: "redeem_lua ?e ?u t (UnixMilli now) (r\<lparr>loaded := L\<rparr>) = (Inr v, r')"
    by (auto simp: NewScript_def)
  have "string_get (r\<lparr>loaded := L\<rparr>) ?e = string_get r ?e" by (simp add: string_get_def live_def)
  with L v(3) have "v = [LStr st, LStr (case string_get r ?e of None \<Rightarrow> '''' | Some u \<Rightarrow> u)]"
    by (auto simp: redeem_lua_def asString_def split: option.splits if_splits)
  with L show thesis by (intro that) simp
qed

lemma Burn_burned:
  assumes "Burn n now s sh jti t r = (Inr ''burned'', r')"
  shows "string_get r (Entry (ac_EventID s) sh jti) = Some t" "string_get r' (Entry (ac_EventID s) sh jti) = None"
proof -
  obtain L where L: "redeem_lua (Entry (ac_EventID s) sh jti) (User (ac_EventID s) sh t) t (UnixMilli now) (r\<lparr>loaded := L\<rparr>)
    = (Inr [LStr ''burned'', LStr (case string_get r (Entry (ac_EventID s) sh jti) of None \<Rightarrow> '''' | Some u \<Rightarrow> u)], r')"
    using Burn_reply [OF assms] .
  have l: "string_get (r\<lparr>loaded := L\<rparr>) k = string_get r k" for k by (simp add: string_get_def live_def)
  show "string_get r (Entry (ac_EventID s) sh jti) = Some t" "string_get r' (Entry (ac_EventID s) sh jti) = None"
    using L by (auto simp: redeem_lua_def l redis_simps split: option.splits if_splits)
qed

definition one_each :: "Order list \<Rightarrow> bool" where
  "one_each rows \<longleftrightarrow> (\<forall>k. distinct (map (constraint_cols k) rows))"

lemma all_constraints [simp]: "k \<in> set order_constraints"
  by (cases k) (simp_all add: order_constraints_def)

lemma violated_None: "violated ord rows = [] \<Longrightarrow> constraint_cols k ord \<notin> constraint_cols k ` set rows"
  using all_constraints [of k] unfolding violated_def filter_empty_conv list_ex_iff by (metis imageE)

lemma constraint_cols_fresh [simp]: "constraint_cols k (ord\<lparr>or_ID := i, or_CreatedAt := t\<rparr>) = constraint_cols k ord"
  by (cases k) simp_all

lemma violated_fresh: "violated (ord\<lparr>or_ID := i, or_CreatedAt := t\<rparr>) rows = violated ord rows"
  by (simp add: violated_def)

text \<open>The rows grow by at most one, which breaks no constraint; a returned order is that row.\<close>

lemma Create_rows:
  assumes "Create l pick now ord db = (res, db')"
  shows "(od_rows db' = od_rows db \<and> (\<forall>x. res \<noteq> Inr (Some x))) \<or>
    (let row = ord\<lparr>or_ID := od_next db, or_CreatedAt := now\<rparr>
     in od_rows db' = od_rows db @ [row] \<and> violated ord (od_rows db) = [] \<and> (\<forall>x. res = Inr (Some x) \<longrightarrow> x = row))"
  using assms
  by (cases l) (auto simp: Create_def insertOrder_def Let_def
      split: prod.splits insert_result.splits if_splits list.splits order_constraint.splits)

lemma one_each_snoc: "one_each rows \<Longrightarrow> violated ord rows = [] \<Longrightarrow> constraint_cols k row = constraint_cols k ord \<Longrightarrow>
    distinct (map (constraint_cols k) (rows @ [row]))"
  using violated_None [of ord rows k] by (simp add: one_each_def)

text \<open>
  A request changes the orders by at most one row, and only when its entry token verified, its
  ticket was there for its owner and is burned.
\<close>

lemma create_cases:
  assumes "create J w s req body (r, db) = (resp, r', db')"
  obtains (unchanged) "od_rows db' = od_rows db" "\<And>x. resp \<noteq> Reply 201 x"
  | (bought) c b row where "auth_verify J (sh_auth s) (sw_auth_at w) req (entryToken req) KindEntry = Inr c"
      "hr_IdempotencyKey req \<noteq> ''''" "body = Inr b" "oq_AccountID b \<noteq> ''''"
      "FindByIdempotencyKey (sw_find w) (cm_EventID c) (hr_IdempotencyKey req) db = Inr None"
      "Burn (sw_burn w) (sw_burn_at w) (sh_admit s) (cm_Shard c) (cm_JTI c) (cm_TokenID c) r = (Inr ''burned'', r')"
      "od_rows db' = od_rows db @ [row]" "violated row (od_rows db) = []"
      "or_EventID row = cm_EventID c" "or_TokenID row = cm_TokenID c" "or_EntryJTI row = cm_JTI c"
      "or_IdemKey row = hr_IdempotencyKey req" "or_AccountID row = oq_AccountID b" "or_Qty row = 1"
      "\<And>x. resp = Reply 201 x \<Longrightarrow> x = toResponse row False"
proof -
  show thesis
  proof (cases "od_rows db' = od_rows db \<and> (\<forall>x. resp \<noteq> Reply 201 x)")
    case True
    with unchanged show thesis by blast
  next
    case False
    define b1 where "b1 b = (if oq_Qty b = 0 then b\<lparr>oq_Qty := 1\<rparr> else b)" for b :: OrderRequest
    define b2 where "b2 b = (if oq_SKU (b1 b) = '''' then (b1 b)\<lparr>oq_SKU := sh_sku s\<rparr> else b1 b)" for b
    have "\<exists>c b. auth_verify J (sh_auth s) (sw_auth_at w) req (entryToken req) KindEntry = Inr c \<and>
        hr_IdempotencyKey req \<noteq> '''' \<and> body = Inr b \<and> oq_AccountID b \<noteq> '''' \<and> oq_Qty (b1 b) = 1 \<and>
        FindByIdempotencyKey (sw_find w) (cm_EventID c) (hr_IdempotencyKey req) db = Inr None \<and>
        Burn (sw_burn w) (sw_burn_at w) (sh_admit s) (cm_Shard c) (cm_JTI c) (cm_TokenID c) r = (Inr ''burned'', r') \<and>
        place w c (hr_IdempotencyKey req) (b2 b) db = (resp, db')"
      using assms False unfolding create_def Let_def b2_def b1_def [symmetric] maxQty_def
      by (auto split: sum.splits if_splits option.splits prod.splits)
    then obtain c b where
      pre: "auth_verify J (sh_auth s) (sw_auth_at w) req (entryToken req) KindEntry = Inr c"
        "hr_IdempotencyKey req \<noteq> ''''" "body = Inr b" "oq_AccountID b \<noteq> ''''"
        "FindByIdempotencyKey (sw_find w) (cm_EventID c) (hr_IdempotencyKey req) db = Inr None"
        "Burn (sw_burn w) (sw_burn_at w) (sh_admit s) (cm_Shard c) (cm_JTI c) (cm_TokenID c) r = (Inr ''burned'', r')"
      and q: "oq_Qty (b1 b) = 1"
      and pl: "place w c (hr_IdempotencyKey req) (b2 b) db = (resp, db')" by blast
    have b': "oq_AccountID (b2 b) = oq_AccountID b" "oq_Qty (b2 b) = 1"
      using q by (auto simp: b2_def b1_def)
    let ?ord = "\<lparr>or_ID = 0, or_EventID = cm_EventID c, or_TokenID = cm_TokenID c,
        or_AccountID = oq_AccountID (b2 b), or_EntryJTI = cm_JTI c, or_IdemKey = hr_IdempotencyKey req,
        or_SKU = oq_SKU (b2 b), or_Qty = oq_Qty (b2 b), or_CreatedAt = zero_time\<rparr>"
    obtain res where cr: "Create (sw_create w) (sw_pick w) (sw_db_at w) ?ord db = (res, db')"
      and resp: "\<And>x. resp = Reply 201 x \<Longrightarrow> \<exists>ord. res = Inr (Some ord) \<and> x = toResponse ord False"
      using pl by (auto simp: place_def split: prod.splits sum.splits pg_error.splits option.splits)
    let ?row = "?ord\<lparr>or_ID := od_next db, or_CreatedAt := sw_db_at w\<rparr>"
    from Create_rows [OF cr] False resp
    have "od_rows db' = od_rows db @ [?row]" "violated ?ord (od_rows db) = []"
      "\<And>x. resp = Reply 201 x \<Longrightarrow> x = toResponse ?row False"
      by (auto simp: Let_def)
    moreover have "violated ?row (od_rows db) = violated ?ord (od_rows db)" by (rule violated_fresh)
    ultimately show thesis using b' by (intro bought [OF pre]) simp_all
  qed
qed

section \<open>Any number of purchases\<close>

text \<open>
  The shop's requests in any order, with anything else happening to Redis between them.
\<close>

datatype shop_op = Buy shop_wires request "api_error + OrderRequest" | Elsewhere "redis \<Rightarrow> redis"

fun shop_run :: "jwt \<Rightarrow> ShopAPI \<Rightarrow> shop_op list \<Rightarrow> redis \<times> orders_db \<Rightarrow>
    OrderResponse response list \<times> redis \<times> orders_db" where
  "shop_run J s [] st = ([], st)"
| "shop_run J s (Elsewhere f # ops) (r, db) = shop_run J s ops (f r, db)"
| "shop_run J s (Buy w req body # ops) st =
    (case create J w s req body st of (resp, st') \<Rightarrow>
     case shop_run J s ops st' of (resps, st'') \<Rightarrow> (resp # resps, st''))"

definition sold :: "OrderResponse response list \<Rightarrow> OrderResponse list" where
  "sold rs = concat (map (\<lambda>resp. case resp of Reply c x \<Rightarrow> if c = 201 then [x] else [] | _ \<Rightarrow> []) rs)"

lemma sold_simps [simp]:
  "sold [] = []"
  "sold (resp # rs) = (case resp of Reply c x \<Rightarrow> if c = 201 then x # sold rs else sold rs | _ \<Rightarrow> sold rs)"
  by (auto simp: sold_def split: response.split)

lemma shop_run_rows:
  assumes "shop_run J s ops (r, db) = (resps, r', db')" "one_each (od_rows db)" "at_eventID (sh_auth s) \<noteq> ''''"
  shows "one_each (od_rows db') \<and>
    (\<exists>more. od_rows db' = od_rows db @ more \<and> subseq (sold resps) (map (\<lambda>row. toResponse row False) more) \<and>
       list_all (\<lambda>row. or_EventID row = at_eventID (sh_auth s) \<and> or_Qty row = 1) more)"
  using assms
proof (induction ops arbitrary: r db resps)
  case (Cons opn ops)
  show ?case
  proof (cases opn)
    case (Elsewhere f)
    with Cons show ?thesis by simp
  next
    case (Buy w req body)
    obtain resp r1 db1 where c: "create J w s req body (r, db) = (resp, r1, db1)"
      by (metis prod_cases3)
    obtain resps1 where rest: "shop_run J s ops (r1, db1) = (resps1, r', db')" and resps: "resps = resp # resps1"
      using Cons.prems(1) Buy c by (auto split: prod.splits)
    from c show ?thesis
    proof (cases rule: create_cases)
      case unchanged
      with Cons.IH [OF rest] Cons.prems(2,3) show ?thesis
        by (auto simp: resps split: response.split)
    next
      case (bought cl b row)
      then have o1: "one_each (od_rows db1)"
        using one_each_snoc [OF Cons.prems(2) bought(8) refl] by (simp add: one_each_def)
      obtain more where more: "od_rows db' = od_rows db1 @ more"
        "subseq (sold resps1) (map (\<lambda>row. toResponse row False) more)"
        "list_all (\<lambda>row. or_EventID row = at_eventID (sh_auth s) \<and> or_Qty row = 1) more" "one_each (od_rows db')"
        using Cons.IH [OF rest o1 Cons.prems(3)] by blast
      have "cm_EventID cl = at_eventID (sh_auth s)" using auth_verify_claims(3) [OF bought(1) Cons.prems(3)] .
      moreover have "subseq (sold resps) (map (\<lambda>row. toResponse row False) (row # more))"
        using more(2) bought(15) by (auto simp: resps split: response.split)
      ultimately show ?thesis using more bought by (intro conjI exI [of _ "row # more"]) simp_all
    qed
  qed
qed (auto)

lemma subseq_count: "subseq xs ys \<Longrightarrow> length (filter P xs) \<le> length (filter P ys)"
  by (rule list_emb_length) (rule subseq_filter)

lemma distinct_count: "distinct (map f xs) \<Longrightarrow> length (filter (\<lambda>x. f x = v) xs) \<le> 1"
  by (induction xs) (auto simp: filter_empty_conv image_iff)

section \<open>Properties\<close>

text \<open>
  C4. One purchase each.  However requests to the shop interleave with anything else that
  happens to Redis and whatever calls fail, an account is told at most once that it bought;
  every sale told is an order on the table, and on the table no account, no queue token, no
  entry ticket and no idempotency key of an event has two orders.
\<close>

theorem one_purchase_each:
  assumes "shop_run J s ops (r, db) = (resps, r', db')" "od_rows db = []" "at_eventID (sh_auth s) \<noteq> ''''"
  shows "length (filter (\<lambda>x. op_AccountID x = a) (sold resps)) \<le> 1 \<and>
    subseq (sold resps) (map (\<lambda>row. toResponse row False) (od_rows db')) \<and>
    (\<forall>k. distinct (map (constraint_cols k) (od_rows db')))"
proof -
  have rows: "one_each (od_rows db')" "subseq (sold resps) (map (\<lambda>row. toResponse row False) (od_rows db'))"
    "list_all (\<lambda>row. or_EventID row = at_eventID (sh_auth s)) (od_rows db')"
    using shop_run_rows [OF assms(1) _ assms(3)] by (auto simp: assms(2) one_each_def list_all_iff)
  have "length (filter (\<lambda>x. op_AccountID x = a) (sold resps))
      \<le> length (filter (\<lambda>row. or_AccountID row = a) (od_rows db'))"
    using subseq_count [OF rows(2), of "\<lambda>x. op_AccountID x = a"] by (simp add: filter_map o_def toResponse_def)
  also have "filter (\<lambda>row. or_AccountID row = a) (od_rows db') =
      filter (\<lambda>row. constraint_cols OrdersAccount row = (at_eventID (sh_auth s), a)) (od_rows db')"
    using rows(3) by (intro filter_cong) (auto simp: list_all_iff)
  also have "length \<dots> \<le> 1" using rows(1) by (intro distinct_count) (simp only: one_each_def)
  finally show ?thesis using rows(1,2) by (simp add: one_each_def)
qed

text \<open>
  C10. No order without a ticket: a request adds at most one order, and then its entry token
  verified as one for this event, the order names the token and the ticket of that entry token
  and the request's idempotency key, the ticket was held by that token in Redis, and it is
  gone afterwards.
\<close>

theorem order_needs_ticket:
  assumes "create J w s req body (r, db) = (resp, r', db')" "od_rows db' \<noteq> od_rows db"
    "at_eventID (sh_auth s) \<noteq> ''''"
  shows "\<exists>c row. Verify_token J (at_issuer (sh_auth s)) (sw_auth_at w) (entryToken req) KindEntry (at_eventID (sh_auth s)) = Inr c \<and>
    od_rows db' = od_rows db @ [row] \<and> or_TokenID row = cm_TokenID c \<and> or_EntryJTI row = cm_JTI c \<and>
    or_IdemKey row = hr_IdempotencyKey req \<and> or_Qty row = 1 \<and>
    (let ticket = Entry (ac_EventID (sh_admit s)) (cm_Shard c) (cm_JTI c)
     in string_get r ticket = Some (cm_TokenID c) \<and> string_get r' ticket = None)"
  using assms(1)
proof (cases rule: create_cases)
  case unchanged
  with assms(2) show ?thesis by simp
next
  case (bought c b row)
  with auth_verify_claims(1) [OF bought(1) assms(3)] Burn_burned [OF bought(6)] show ?thesis
    by (intro exI [of _ c] exI [of _ row]) (simp add: Let_def)
qed

lemma find_appended:
  "(\<forall>x \<in> set xs. \<not> P x) \<Longrightarrow> P y \<Longrightarrow> find P (xs @ y # ys) = Some y"
  by (induction xs) auto

text \<open>
  C36. A purchase can be retried: once a request was answered with an order, the same
  idempotency key answers with that order again, marked as replayed, at any later time, from
  any state of Redis and after any further orders, as long as the entry token still verifies
  and the lookup is answered; and the retry changes nothing.
\<close>

theorem purchase_retry:
  assumes "create J w s req body (r, db) = (Reply 201 x, r1, db1)" "at_eventID (sh_auth s) \<noteq> ''''"
    "od_rows db2 = od_rows db1 @ later" "sw_find w2 = Delivered" "hr_IdempotencyKey req2 = hr_IdempotencyKey req"
    "auth_verify J (sh_auth s) (sw_auth_at w2) req2 (entryToken req2) KindEntry = Inr c2"
    "body2 = Inr b2" "oq_AccountID b2 \<noteq> ''''" "oq_Qty b2 \<in> {0, 1}"
  shows "create J w2 s req2 body2 (r2, db2) = (Reply 200 (x\<lparr>op_Replayed := True\<rparr>), r2, db2)"
  using assms(1)
proof (cases rule: create_cases)
  case unchanged
  then show ?thesis by blast
next
  case (bought c b row)
  let ?P = "\<lambda>row'. or_EventID row' = cm_EventID c2 \<and> or_IdemKey row' = hr_IdempotencyKey req"
  have ev: "cm_EventID c2 = cm_EventID c"
    using auth_verify_claims(3) [OF bought(1) assms(2)] auth_verify_claims(3) [OF assms(6,2)] by simp
  have "\<forall>row' \<in> set (od_rows db). \<not> ?P row'"
    using violated_None [OF bought(8), of OrdersIdemKey] bought(9,12) ev by force
  moreover have "?P row" using bought(9,12) ev by simp
  ultimately have f: "FindByIdempotencyKey Delivered (cm_EventID c2) (hr_IdempotencyKey req) db2 = Inr (Some row)"
    unfolding FindByIdempotencyKey_def assms(3) bought(7) append.assoc append.simps
    by (simp add: find_appended)
  show ?thesis
    using assms(4-9) f bought(2,15) by (auto simp: create_def Let_def maxQty_def toResponse_def)
qed

lemma Burn_held:
  assumes "string_get r (Entry (ac_EventID s) sh jti) = Some t" "t \<noteq> ''''" "jti \<noteq> ''''" "Validate sh = None"
  obtains r' where "Burn good_net now s sh jti t r = (Inr ''burned'', r')"
  using assms
  by (auto simp: Burn_def Let_def admission_call_def Run_connected NewScript_def redeem_lua_def string_get_def live_def
      admission_reply_def asString_def)

lemma Burn_gone:
  assumes "string_get r (Entry (ac_EventID s) sh jti) = None" "t \<noteq> ''''" "jti \<noteq> ''''" "Validate sh = None"
  obtains r' where "Burn good_net now s sh jti t r = (Inr ''missing'', r')"
  using assms
  by (auto simp: Burn_def Let_def admission_call_def Run_connected NewScript_def redeem_lua_def string_get_def live_def
      admission_reply_def asString_def)

text \<open>
  The order is written after the ticket is burned, so a database that is away at that moment
  costs the customer the place in the queue: the request fails as unavailable, no order is
  written, and repeating it with the same idempotency key, when all is well again, is refused
  because the ticket is spent.
\<close>

theorem outage_eats_the_ticket:
  assumes "\<And>v. v \<in> {w, w2} \<Longrightarrow> auth_verify J (sh_auth s) (sw_auth_at v) req (entryToken req) KindEntry = Inr c"
    "\<And>v. v \<in> {w, w2} \<Longrightarrow> sw_find v = Delivered \<and> sw_burn v = good_net" "sw_create w = RequestLost"
    "at_eventID (sh_auth s) \<noteq> ''''" "Validate (cm_Shard c) = None"
    "hr_IdempotencyKey req \<noteq> ''''" "oq_AccountID b \<noteq> ''''" "oq_Qty b \<in> {0, 1}"
    "FindByIdempotencyKey Delivered (cm_EventID c) (hr_IdempotencyKey req) db = Inr None"
    "string_get r (Entry (ac_EventID (sh_admit s)) (cm_Shard c) (cm_JTI c)) = Some (cm_TokenID c)"
  shows "\<exists>r1 r2. create J w s req (Inr b) (r, db) = (APIError (503, ''unavailable''), r1, db) \<and>
    create J w2 s req (Inr b) (r1, db) = (APIError (409, ''entry_spent''), r2, db)"
proof -
  note c = auth_verify_claims(4,6) [OF assms(1) [of w] assms(4), simplified]
  obtain r1 where b1: "Burn good_net (sw_burn_at w) (sh_admit s) (cm_Shard c) (cm_JTI c) (cm_TokenID c) r = (Inr ''burned'', r1)"
    using Burn_held [OF assms(10) _ _ assms(5)] c by blast
  obtain r2 where b2: "Burn good_net (sw_burn_at w2) (sh_admit s) (cm_Shard c) (cm_JTI c) (cm_TokenID c) r1 = (Inr ''missing'', r2)"
    using Burn_gone [OF Burn_burned(2) [OF b1] _ _ assms(5)] c by blast
  have "create J w s req (Inr b) (r, db) = (APIError (503, ''unavailable''), r1, db)"
    using assms(1) [of w] assms(2) [of w] assms(3,6-9) b1
    by (auto simp: create_def Let_def maxQty_def place_def Create_def)
  moreover have "create J w2 s req (Inr b) (r1, db) = (APIError (409, ''entry_spent''), r2, db)"
    using assms(1) [of w2] assms(2) [of w2] assms(6-9) b2
    by (auto simp: create_def Let_def maxQty_def)
  ultimately show ?thesis by blast
qed

text \<open>
  The replay is not tied to the customer: whoever holds any valid entry token and names the
  idempotency key of someone else's order is shown that order.
\<close>

theorem replay_shows_any_order:
  assumes "auth_verify J (sh_auth s) (sw_auth_at w) req (entryToken req) KindEntry = Inr c"
    "FindByIdempotencyKey Delivered (cm_EventID c) (hr_IdempotencyKey req) db = Inr (Some ord)"
    "sw_find w = Delivered" "hr_IdempotencyKey req \<noteq> ''''" "oq_AccountID b \<noteq> ''''" "oq_Qty b \<in> {0, 1}"
  shows "create J w s req (Inr b) (r, db) = (Reply 200 (toResponse ord True), r, db)"
  using assms by (auto simp: create_def Let_def maxQty_def)

section \<open>A purchase that happens\<close>

definition demo_shop :: ShopAPI where
  "demo_shop = \<lparr>sh_auth = \<lparr>at_issuer = demo_token_issuer, at_eventID = ''ev'', at_v4bits = 24, at_v6bits = 48\<rparr>,
     sh_admit = \<lparr>ac_EventID = ''ev'', ac_RatePerMin = 3000, ac_Interval = seconds 5, ac_AfterLottery = False,
       ac_OpenAt = None, ac_LotteryWindow = 0, ac_MinDwell = 0, ac_MinBeats = 0, ac_MaxBudgetPerShard = 500,
       ac_BackpressureMin = 1, ac_BreakerFailures = 5, ac_BreakerCooldown = seconds 30, ac_EntryTTL = minutes 5,
       ac_UserTTL = minutes 120\<rparr>, sh_sku = ''ev''\<rparr>"

definition demo_shop_wires :: "link \<Rightarrow> shop_wires" where
  "demo_shop_wires l = \<lparr>sw_find = Delivered, sw_burn = good_net, sw_create = l, sw_find2 = Delivered, sw_pick = hd,
     sw_auth_at = seconds 8, sw_burn_at = seconds 8, sw_db_at = seconds 8\<rparr>"

definition demo_ticket :: string where
  "demo_ticket = fst (the (case Issue_token plain_jwt demo_token_issuer (seconds 7) demo_claims of Inr x \<Rightarrow> Some x | _ \<Rightarrow> None))"

definition demo_buy :: request where
  "demo_buy = \<lparr>hr_Authorization = '''', hr_QueueCookie = None, hr_EntryToken = demo_ticket, hr_Fingerprint = ''fp'',
     hr_IdempotencyKey = ''k1'', hr_Accept = [], hr_IPPrefix = (\<lambda>_ _. ''10.0.0.0/24'')\<rparr>"

definition demo_order :: OrderRequest where
  "demo_order = \<lparr>oq_AccountID = ''acct'', oq_SKU = '''', oq_Qty = 0\<rparr>"

definition demo_admitted :: redis where
  "demo_admitted = set_string_px empty_redis (Entry ''ev'' ''s0000'' ''J'') ''a'' 300000"

definition no_orders :: orders_db where "no_orders = \<lparr>od_rows = [], od_next = 1\<rparr>"

abbreviation "bought_claims \<equiv> demo_claims\<lparr>cm_IssuedAt := seconds 7, cm_ExpiresAt := seconds 307\<rparr>"

lemma demo_ticket:
  "Issue_token plain_jwt demo_token_issuer (seconds 7) demo_claims = Inr (demo_ticket, bought_claims)"
proof -
  obtain jws where "Issue_token plain_jwt demo_token_issuer (seconds 7) demo_claims = Inr (jws, bought_claims)"
    by (rule demo_issue_token)
  then show ?thesis by (simp add: demo_ticket_def)
qed

lemma demo_auth:
  assumes "sw_auth_at w = seconds 8"
  shows "auth_verify plain_jwt (sh_auth demo_shop) (sw_auth_at w) demo_buy (entryToken demo_buy) KindEntry = Inr bought_claims"
  using Issue_token_nonempty [OF plain_jwt_ok demo_ticket]
  by (simp add: auth_verify_def VerifyBound_def entryToken_def demo_buy_def demo_shop_def assms binding_def
      Verify_issued [OF plain_jwt_ok demo_ticket demo_claims_ascii] Truncate_second_def)
    (simp add: demo_claims_def)

lemma demo_sale:
  obtains x r1 db1 where "create plain_jwt (demo_shop_wires Delivered) demo_shop demo_buy (Inr demo_order) (demo_admitted, no_orders)
    = (Reply 201 x, r1, db1)" "op_AccountID x = ''acct''" "od_rows db1 \<noteq> od_rows no_orders"
proof -
  have t: "string_get demo_admitted (Entry (ac_EventID (sh_admit demo_shop)) (cm_Shard bought_claims) (cm_JTI bought_claims)) =
      Some (cm_TokenID bought_claims)"
    by (simp add: demo_admitted_def demo_shop_def demo_claims_def redis_simps)
  have v: "Validate (cm_Shard bought_claims) = None" by (simp add: demo_claims_def) code_simp
  have ne: "cm_TokenID bought_claims \<noteq> ''''" "cm_JTI bought_claims \<noteq> ''''" by (simp_all add: demo_claims_def)
  obtain r1 where "Burn good_net (seconds 8) (sh_admit demo_shop) (cm_Shard bought_claims) (cm_JTI bought_claims)
      (cm_TokenID bought_claims) demo_admitted = (Inr ''burned'', r1)"
    using Burn_held [OF t ne v] by blast
  then show thesis
    using demo_auth [of "demo_shop_wires Delivered"]
    by - (rule that, simp add: create_def Let_def maxQty_def place_def Create_def insertOrder_def violated_def
        order_constraints_def FindByIdempotencyKey_def demo_shop_wires_def demo_buy_def demo_order_def no_orders_def
        toResponse_def, simp, simp add: no_orders_def)
qed

lemma demo_shop_event: "at_eventID (sh_auth demo_shop) \<noteq> ''''"
  by (simp add: demo_shop_def)

theorem one_purchase_each_witness:
  "\<exists>x st. shop_run plain_jwt demo_shop [Buy (demo_shop_wires Delivered) demo_buy (Inr demo_order), Elsewhere (tick 5)]
      (demo_admitted, no_orders) = ([Reply 201 x], st) \<and>
    length (filter (\<lambda>y. op_AccountID y = ''acct'') (sold [Reply 201 x])) \<le> 1"
proof -
  obtain x r1 db1 where "create plain_jwt (demo_shop_wires Delivered) demo_shop demo_buy (Inr demo_order) (demo_admitted, no_orders)
    = (Reply 201 x, r1, db1)" by (rule demo_sale)
  then have run: "shop_run plain_jwt demo_shop [Buy (demo_shop_wires Delivered) demo_buy (Inr demo_order), Elsewhere (tick 5)]
      (demo_admitted, no_orders) = ([Reply 201 x], tick 5 r1, db1)" by simp
  have "od_rows no_orders = []" by (simp add: no_orders_def)
  from one_purchase_each [OF run this demo_shop_event] run show ?thesis by blast
qed

theorem order_needs_ticket_witness:
  "\<exists>r1 ticket. string_get demo_admitted ticket = Some ''a'' \<and> string_get r1 ticket = None \<and>
     fst (snd (create plain_jwt (demo_shop_wires Delivered) demo_shop demo_buy (Inr demo_order) (demo_admitted, no_orders))) = r1"
proof -
  obtain x r1 db1 where s: "create plain_jwt (demo_shop_wires Delivered) demo_shop demo_buy (Inr demo_order) (demo_admitted, no_orders)
    = (Reply 201 x, r1, db1)" "od_rows db1 \<noteq> od_rows no_orders" by (rule demo_sale)
  from order_needs_ticket [OF s demo_shop_event] obtain t u where
    t: "string_get demo_admitted t = Some u" "string_get r1 t = None" by (auto simp: Let_def)
  then have "u = ''a''" by (auto simp: demo_admitted_def redis_simps string_get_def set_string_px_def empty_redis_def live_def split: if_splits)
  with t s(1) show ?thesis by auto
qed

theorem purchase_retry_witness:
  "\<exists>x r1 db1. create plain_jwt (demo_shop_wires Delivered) demo_shop demo_buy (Inr demo_order) (demo_admitted, no_orders)
      = (Reply 201 x, r1, db1) \<and>
    create plain_jwt (demo_shop_wires Delivered) demo_shop demo_buy (Inr demo_order) (empty_redis, db1)
      = (Reply 200 (x\<lparr>op_Replayed := True\<rparr>), empty_redis, db1)"
proof -
  obtain x r1 db1 where s: "create plain_jwt (demo_shop_wires Delivered) demo_shop demo_buy (Inr demo_order) (demo_admitted, no_orders)
    = (Reply 201 x, r1, db1)" by (rule demo_sale)
  have a: "sw_auth_at (demo_shop_wires Delivered) = seconds 8" "sw_find (demo_shop_wires Delivered) = Delivered"
    by (simp_all add: demo_shop_wires_def)
  have o: "oq_AccountID demo_order \<noteq> ''''" "oq_Qty demo_order \<in> {0, 1}" by (simp_all add: demo_order_def)
  from purchase_retry [OF s demo_shop_event _ a(2) refl demo_auth [OF a(1)] refl o, of db1 "[]" empty_redis] s
  show ?thesis by simp
qed

theorem outage_eats_the_ticket_witness:
  "\<exists>r1 r2. create plain_jwt (demo_shop_wires RequestLost) demo_shop demo_buy (Inr demo_order) (demo_admitted, no_orders)
      = (APIError (503, ''unavailable''), r1, no_orders) \<and>
    create plain_jwt (demo_shop_wires Delivered) demo_shop demo_buy (Inr demo_order) (r1, no_orders)
      = (APIError (409, ''entry_spent''), r2, no_orders)"
proof (rule outage_eats_the_ticket [where c = bought_claims])
  show "auth_verify plain_jwt (sh_auth demo_shop) (sw_auth_at v) demo_buy (entryToken demo_buy) KindEntry = Inr bought_claims"
    "sw_find v = Delivered \<and> sw_burn v = good_net"
    if "v \<in> {demo_shop_wires RequestLost, demo_shop_wires Delivered}" for v
    using that by - (rule demo_auth, auto simp: demo_shop_wires_def)
  show "Validate (cm_Shard bought_claims) = None" by (simp add: demo_claims_def) code_simp
  show "string_get demo_admitted (Entry (ac_EventID (sh_admit demo_shop)) (cm_Shard bought_claims) (cm_JTI bought_claims)) =
      Some (cm_TokenID bought_claims)"
    by (simp add: demo_admitted_def demo_shop_def demo_claims_def redis_simps)
qed (simp_all add: demo_shop_wires_def demo_shop_def demo_buy_def demo_order_def FindByIdempotencyKey_def no_orders_def)

end
