(* ===== verification/Services.thy ===== *)
theory Services
  imports BotActuator GateApi ShopApi
begin

text \<open>
  How the five services are put together (\<open>src/cmd/*/main.go\<close>, \<open>src/internal/app/bootstrap.go\<close>):
  from one configuration to the parts of each service, and the errors that keep a service from
  starting.  A service is given by the parts its handlers and loops work on; the connections to
  Redis, PostgreSQL and Kafka, the HTTP server and the logger carry no state of the model.
\<close>

section \<open>Settings of the stores\<close>

definition QConfig_from :: "Config \<Rightarrow> QConfig" where
  "QConfig_from c =
    \<lparr>qc_EventID = ev_ID (cf_Event c), qc_OpenAt = ev_OpenAt (cf_Event c),
     qc_LotteryWindow = ev_LotteryWindow (cf_Event c), qc_UserTTL = tc_QueueTTL (cf_Token c),
     qc_HeartbeatInterval = qu_HeartbeatInterval (cf_Queue c),
     qc_MissedHeartbeats = qu_MissedHeartbeats (cf_Queue c), qc_EvictGrace = qu_EvictGrace (cf_Queue c),
     qc_EvictedRetain = qu_EvictedRetain (cf_Queue c), qc_SweepBatch = qu_SweepBatch (cf_Queue c)\<rparr>"

definition AConfig_from :: "Config \<Rightarrow> AConfig" where
  "AConfig_from c =
    \<lparr>ac_EventID = ev_ID (cf_Event c), ac_RatePerMin = am_RatePerMin (cf_Admission c),
     ac_Interval = am_Interval (cf_Admission c), ac_AfterLottery = am_AfterLottery (cf_Admission c),
     ac_OpenAt = ev_OpenAt (cf_Event c), ac_LotteryWindow = ev_LotteryWindow (cf_Event c),
     ac_MinDwell = am_MinDwell (cf_Admission c), ac_MinBeats = am_MinBeats (cf_Admission c),
     ac_MaxBudgetPerShard = am_MaxBudgetPerShard (cf_Admission c),
     ac_BackpressureMin = am_BackpressureMin (cf_Admission c),
     ac_BreakerFailures = am_BreakerFailures (cf_Admission c),
     ac_BreakerCooldown = am_BreakerCooldown (cf_Admission c),
     ac_EntryTTL = tc_EntryTTL (cf_Token c), ac_UserTTL = tc_QueueTTL (cf_Token c)\<rparr>"

section \<open>Starting a service\<close>

datatype start_error =
    StartConfig "string list" | StartShard shard_error | StartQueue queue_error
  | StartToken token_error | StartChallenge challenge_error | StartAdmission admission_error
  | StartNoPostgres | StartPostgres

text \<open>The step \<open>x, err := e; if err != nil { return err }\<close> of a \<open>run\<close> function.\<close>

definition start_step :: "('e \<Rightarrow> start_error) \<Rightarrow> 'e + 'a \<Rightarrow> ('a \<Rightarrow> start_error + 'b) \<Rightarrow> start_error + 'b" where
  "start_step wrap e k = (case e of Inl err \<Rightarrow> Inl (wrap err) | Inr x \<Rightarrow> k x)"

text \<open>The common part: the settings, once parsed, are validated, then the service's secrets are required.\<close>

definition app_New :: "Config \<Rightarrow> string list \<Rightarrow> string list + Config" where
  "app_New c requiredSecrets =
    (if Validate_config c \<noteq> [] then Inl (Validate_config c)
     else if RequireSecrets c requiredSecrets \<noteq> [] then Inl (RequireSecrets c requiredSecrets)
     else Inr c)"

record gate_service =
  gs_api :: GateAPI
  gs_store :: Store
  gs_difficulty :: DifficultyProvider
  gs_shardSize :: int
  gs_growEvery :: duration

definition run_gate :: "Config \<Rightarrow> start_error + gate_service" where
  "run_gate c0 =
    start_step StartConfig (app_New c0 [''event_salt'', ''token_signing_key'', ''challenge_hmac_key'']) (\<lambda>c.
    start_step StartShard (NewAssigner (Bytes (ev_Salt (cf_Event c))) (ev_ShardCount (cf_Event c))
      (ev_MaxShardCount (cf_Event c))) (\<lambda>assigner.
    start_step StartQueue (NewStore_queue (QConfig_from c)) (\<lambda>store.
    start_step StartToken (NewIssuer_token (cf_Token c)) (\<lambda>tokens.
    start_step StartChallenge (NewIssuer (ev_ID (cf_Event c)) (cf_Challenge c)) (\<lambda>chal.
    Inr \<lparr>gs_api = NewGateAPI chal assigner tokens c, gs_store = store,
         gs_difficulty = NewDifficulty (ev_ID (cf_Event c)) (cf_Challenge c) (cf_BotScore c),
         gs_shardSize = ev_ShardSize (cf_Event c), gs_growEvery = am_Interval (cf_Admission c)\<rparr>)))))"

record queue_service =
  qs_api :: QueueAPI
  qs_store :: Store
  qs_sweeper :: Sweeper

definition run_queue :: "Config \<Rightarrow> start_error + queue_service" where
  "run_queue c0 =
    start_step StartConfig (app_New c0 [''event_salt'', ''token_signing_key'']) (\<lambda>c.
    start_step StartQueue (NewStore_queue (QConfig_from c)) (\<lambda>store.
    start_step StartToken (NewIssuer_token (cf_Token c)) (\<lambda>issuer.
    Inr \<lparr>qs_api = NewQueueAPI issuer c, qs_store = store, qs_sweeper = NewSweeper (QConfig_from c)\<rparr>)))"

record admission_service =
  as_api :: AdmissionAPI
  as_store :: AConfig
  as_queue :: Store
  as_breaker :: Breaker

definition run_admission :: "Config \<Rightarrow> start_error + admission_service" where
  "run_admission c0 =
    start_step StartConfig (app_New c0 [''token_signing_key'']) (\<lambda>c.
    start_step StartAdmission (NewStore (AConfig_from c)) (\<lambda>store.
    start_step StartQueue (NewStore_queue (QConfig_from c)) (\<lambda>qstore.
    start_step StartToken (NewIssuer_token (cf_Token c)) (\<lambda>issuer.
    Inr \<lparr>as_api = NewAdmissionAPI store issuer c, as_store = store, as_queue = qstore,
         as_breaker = NewBreaker (ac_BreakerFailures store) (ac_BreakerCooldown store)\<rparr>))))"

text \<open>\<open>opened\<close> says whether the pool of connections to PostgreSQL could be opened.\<close>

definition run_shop :: "bool \<Rightarrow> Config \<Rightarrow> start_error + ShopAPI" where
  "run_shop opened c0 =
    start_step StartConfig (app_New c0 [''token_signing_key'', ''postgres_dsn'']) (\<lambda>c.
    if \<not> pg_Enabled (cf_Postgres c) then Inl StartNoPostgres
    else if \<not> opened then Inl StartPostgres
    else
    start_step StartAdmission (NewStore (AConfig_from c)) (\<lambda>store.
    start_step StartToken (NewIssuer_token (cf_Token c)) (\<lambda>issuer.
    Inr (NewShopAPI store issuer c))))"

record scorer_service =
  sx_scorer :: Scorer
  sx_actuator :: Actuator
  sx_consumes :: bool

definition run_scorer :: "bool \<Rightarrow> Config \<Rightarrow> start_error + scorer_service" where
  "run_scorer opened c0 =
    start_step StartConfig (app_New c0 [''event_salt'']) (\<lambda>c.
    let audited = pg_Enabled (cf_Postgres c) \<and> \<not> IsZero (pg_DSN (cf_Postgres c))
    in if audited \<and> \<not> opened then Inl StartPostgres
       else Inr \<lparr>sx_scorer = NewScorer (cf_BotScore c),
         sx_actuator = \<lparr>an_cfg = cf_BotScore c, an_userTTL = tc_QueueTTL (cf_Token c),
           an_eventID = ev_ID (cf_Event c), an_sink = audited\<rparr>,
         sx_consumes = kf_Enabled (cf_Kafka c)\<rparr>)"

section \<open>What a started service holds\<close>

lemma start_step_Inr [simp]: "start_step f e k = Inr y \<longleftrightarrow> (\<exists>x. e = Inr x \<and> k x = Inr y)"
  by (cases e) (simp_all add: start_step_def)

lemma app_New_Inr [simp]:
  "app_New c ss = Inr d \<longleftrightarrow> d = c \<and> Validate_config c = [] \<and> RequireSecrets c ss = []"
  by (auto simp: app_New_def)

lemma NewStore_queue_Inr [simp]:
  "NewStore_queue cfg = Inr s \<longleftrightarrow>
     s = \<lparr>st_cfg = cfg, st_registered = Map.empty\<rparr> \<and> validID (qc_EventID cfg) \<and> 0 < qc_SweepBatch cfg"
  by (auto simp: NewStore_queue_def)

lemma NewIssuer_token_Inr [simp]:
  "NewIssuer_token cfg = Inr i \<longleftrightarrow>
     i = \<lparr>ti_key = Bytes (tc_SigningKey cfg), ti_issuer = tc_Issuer cfg, ti_queueTTL = tc_QueueTTL cfg,
          ti_entryTTL = tc_EntryTTL cfg\<rparr> \<and>
     \<not> IsZero (tc_SigningKey cfg) \<and> 0 < tc_QueueTTL cfg \<and> 0 < tc_EntryTTL cfg"
  by (auto simp: NewIssuer_token_def)

lemma NewAssigner_Inr [simp]:
  "NewAssigner salt n m = Inr a \<longleftrightarrow>
     a = \<lparr>a_salt = salt, a_max = m, a_count = n\<rparr> \<and> salt \<noteq> [] \<and> 0 < n \<and> n \<le> m"
  by (auto simp: NewAssigner_def)

lemma NewStore_Inr [simp]: "NewStore cfg = Inr s \<longleftrightarrow> s = cfg \<and> ac_EventID cfg \<noteq> ''''"
  by (auto simp: NewStore_def)

lemma NewIssuer_Inr [simp]:
  "NewIssuer ev cl = Inr i \<longleftrightarrow>
     i = \<lparr>is_key = Bytes (cl_HMACKey cl), is_eventID = ev, is_ttl = cl_TTL cl, is_nonceBytes = cl_NonceBytes cl,
          is_base = cl_BaseDifficulty cl, is_maxDiff = cl_MaxDifficulty cl\<rparr> \<and>
     \<not> IsZero (cl_HMACKey cl) \<and> ev \<noteq> ''''"
  by (auto simp: NewIssuer_def)

lemma IsZero_Bytes [simp]: "Bytes s = [] \<longleftrightarrow> IsZero s"
  by (simp add: Bytes_def IsZero_def)

text \<open>What the constructors need beyond the secrets follows from a validated configuration.\<close>

lemma Validate_starts:
  assumes "Validate_config c = []"
  shows "ev_ID (cf_Event c) \<noteq> ''''" "0 < ev_ShardCount (cf_Event c)"
    "ev_ShardCount (cf_Event c) \<le> ev_MaxShardCount (cf_Event c)" "0 < ev_ShardSize (cf_Event c)"
    "0 < qu_SweepBatch (cf_Queue c)" "0 < tc_QueueTTL (cf_Token c)" "0 < tc_EntryTTL (cf_Token c)"
  using assms by (simp_all add: Validate_parts checks_infra_def checks_admission_def)

lemma RequireSecrets_Cons:
  "RequireSecrets c (n # ss) = [] \<longleftrightarrow> RequireSecrets c [n] = [] \<and> RequireSecrets c ss = []"
  by (simp add: RequireSecrets_def del: concat_eq_Nil_conv)

lemma RequireSecrets_one:
  "RequireSecrets c [''event_salt''] = [] \<longleftrightarrow> \<not> IsZero (ev_Salt (cf_Event c))"
  "RequireSecrets c [''token_signing_key''] = [] \<longleftrightarrow> \<not> IsZero (tc_SigningKey (cf_Token c))"
  "RequireSecrets c [''challenge_hmac_key''] = [] \<longleftrightarrow> \<not> IsZero (cl_HMACKey (cf_Challenge c))"
  "RequireSecrets c [''postgres_dsn''] = [] \<longleftrightarrow> \<not> (pg_Enabled (cf_Postgres c) \<and> IsZero (pg_DSN (cf_Postgres c)))"
  by (simp_all add: RequireSecrets_def)

lemma RequireSecrets_simps [simp]:
  "RequireSecrets c [] = []"
  "RequireSecrets c (''event_salt'' # ss) = [] \<longleftrightarrow> \<not> IsZero (ev_Salt (cf_Event c)) \<and> RequireSecrets c ss = []"
  "RequireSecrets c (''token_signing_key'' # ss) = [] \<longleftrightarrow> \<not> IsZero (tc_SigningKey (cf_Token c)) \<and> RequireSecrets c ss = []"
  "RequireSecrets c (''challenge_hmac_key'' # ss) = [] \<longleftrightarrow> \<not> IsZero (cl_HMACKey (cf_Challenge c)) \<and> RequireSecrets c ss = []"
  "RequireSecrets c (''postgres_dsn'' # ss) = [] \<longleftrightarrow>
     \<not> (pg_Enabled (cf_Postgres c) \<and> IsZero (pg_DSN (cf_Postgres c))) \<and> RequireSecrets c ss = []"
  by (simp add: RequireSecrets_def, subst RequireSecrets_Cons, simp only: RequireSecrets_one,
      subst RequireSecrets_Cons, simp only: RequireSecrets_one, subst RequireSecrets_Cons, simp only: RequireSecrets_one,
      subst RequireSecrets_Cons, simp only: RequireSecrets_one)

text \<open>
  Which configurations start which service: a validated configuration starts the scorer with
  its salt, the shop with a signing key and a database, and the gate, the queue and the admission
  service with their secrets exactly when the event identifier is also a valid identifier of a
  queue, which validation does not check.
\<close>

theorem services_start:
  assumes "Validate_config c = []"
  shows "((\<exists>g. run_gate c = Inr g) \<longleftrightarrow> validID (ev_ID (cf_Event c)) \<and> \<not> IsZero (ev_Salt (cf_Event c)) \<and>
      \<not> IsZero (tc_SigningKey (cf_Token c)) \<and> \<not> IsZero (cl_HMACKey (cf_Challenge c))) \<and>
    ((\<exists>q. run_queue c = Inr q) \<longleftrightarrow> validID (ev_ID (cf_Event c)) \<and> \<not> IsZero (ev_Salt (cf_Event c)) \<and>
      \<not> IsZero (tc_SigningKey (cf_Token c))) \<and>
    ((\<exists>a. run_admission c = Inr a) \<longleftrightarrow> validID (ev_ID (cf_Event c)) \<and> \<not> IsZero (tc_SigningKey (cf_Token c))) \<and>
    ((\<exists>s. run_shop up c = Inr s) \<longleftrightarrow> up \<and> pg_Enabled (cf_Postgres c) \<and> \<not> IsZero (pg_DSN (cf_Postgres c)) \<and>
      \<not> IsZero (tc_SigningKey (cf_Token c))) \<and>
    ((\<exists>b. run_scorer up c = Inr b) \<longleftrightarrow> \<not> IsZero (ev_Salt (cf_Event c)) \<and>
      (up \<or> \<not> pg_Enabled (cf_Postgres c) \<or> IsZero (pg_DSN (cf_Postgres c))))"
  using assms Validate_starts [OF assms]
  by (auto simp: run_gate_def run_queue_def run_admission_def run_shop_def run_scorer_def QConfig_from_def
      AConfig_from_def Let_def)

theorem services_start_witness:
  "\<exists>g. run_gate (default_config (Secret_of ''k'')) = Inr g"
proof -
  have "validID (ev_ID (cf_Event (default_config (Secret_of ''k''))))" by code_simp
  with services_start [OF Validate_default] show ?thesis
    by (simp add: default_config_def default_Event_def default_Token_def default_Challenge_def IsZero_def)
qed

end
