(* ===== verification/Journey.thy ===== *)
theory Journey
  imports Services
begin

text \<open>
  The way of one user through the services: from the gate into the queue, and from the exchange
  of the queue token to the purchase.  The services share nothing but the signing key, Redis and
  the database; the theorems below follow a token from the handler that issues it to the handler
  that accepts it.
\<close>

section \<open>From the gate into the queue\<close>

lemma users_loaded [simp]: "user_get (r\<lparr>loaded := L\<rparr>) k = user_get r k" "hget (r\<lparr>loaded := L\<rparr>) k f = hget r k f"
  by (simp_all add: hget_def user_get_def live_def)

lemma users_sets [simp]: "user_get (r\<lparr>sets := L\<rparr>) k = user_get r k" "hget (r\<lparr>sets := L\<rparr>) k f = hget r k f"
  by (simp_all add: hget_def user_get_def live_def)

lemma Enqueue_fresh:
  assumes "Enqueue n l rand clk req (s, r) = (Inr tk, s', r')"
    "hget r (User (qc_EventID (st_cfg s)) (er_Shard req) (er_TokenID req)) u_state = None"
    "0 < Milliseconds (qc_UserTTL (st_cfg s))"
  obtains seg where "st_cfg s' = st_cfg s" "check (er_Shard req) (er_TokenID req) = None"
    "hget r' (User (qc_EventID (st_cfg s)) (er_Shard req) (er_TokenID req)) u_state = Some ''waiting''"
    "hget r' (User (qc_EventID (st_cfg s)) (er_Shard req) (er_TokenID req)) u_segment = Some seg"
    "tk = \<lparr>tk_Status = ''created'', tk_Shard = er_Shard req,
       tk_Rank = rank_reply (zsets r' (Queue (qc_EventID (st_cfg s)) (er_Shard req))) (er_TokenID req),
       tk_Size = zcard (zsets r' (Queue (qc_EventID (st_cfg s)) (er_Shard req))), tk_Score = tk_Score tk,
       tk_Segment = seg\<rparr>"
proof -
  let ?ev = "qc_EventID (st_cfg s)" and ?sh = "er_Shard req" and ?t = "er_TokenID req"
  let ?u = "User ?ev ?sh ?t"
  obtain s1 r1 where reg: "registerShard l clk ?sh (s, r) = (None, s1, r1)"
    and chk: "check ?sh ?t = None" and s': "s' = s1"
    using assms(1) by (auto simp: Enqueue_def Let_def split: option.splits prod.splits sum.splits)
  from registerShard_frame [OF reg] obtain S where f: "st_cfg s1 = st_cfg s" "r1 = r\<lparr>sets := S\<rparr>" by blast
  obtain lot vals where
    c: "call n ''enqueue.lua'' 5 (enqueue_lua (Queue ?ev ?sh) (Seq ?ev ?sh) ?u ?t ?sh (UnixMilli (clk 2))
      (milliOrZero (LotteryEnd s1)) lot LotteryBand (er_FPHash req) (er_IPPrefix req)
      (Milliseconds (qc_UserTTL (st_cfg s)))) r1 = (Inr vals, r')"
    and tk: "tk = \<lparr>tk_Status = asString (vals ! 0), tk_Shard = ?sh, tk_Rank = asInt64 (vals ! 1),
       tk_Size = asInt64 (vals ! 2), tk_Score = asInt64 (vals ! 3), tk_Segment = asString (vals ! 4)\<rparr>"
    using assms(1) chk reg f(1)
    by (auto simp: Enqueue_def Let_def split: sum.splits prod.splits)
  from call_once [OF c] obtain L where
    e: "enqueue_lua (Queue ?ev ?sh) (Seq ?ev ?sh) ?u ?t ?sh (UnixMilli (clk 2))
      (milliOrZero (LotteryEnd s1)) lot LotteryBand (er_FPHash req) (er_IPPrefix req)
      (Milliseconds (qc_UserTTL (st_cfg s))) (r1\<lparr>loaded := L\<rparr>) = (Inr vals, r')" by blast
  have n: "hget (r1\<lparr>loaded := L\<rparr>) ?u u_state = None" using assms(2) f(2) by simp
  obtain sc seg r2 where
    "enqueue_lua (Queue ?ev ?sh) (Seq ?ev ?sh) ?u ?t ?sh (UnixMilli (clk 2)) (milliOrZero (LotteryEnd s1)) lot
       LotteryBand (er_FPHash req) (er_IPPrefix req) (Milliseconds (qc_UserTTL (st_cfg s))) (r1\<lparr>loaded := L\<rparr>) =
      (Inr [LStr ''created'', LInt (rank_reply (zsets r2 (Queue ?ev ?sh)) ?t), LInt (zcard (zsets r2 (Queue ?ev ?sh))),
         LInt sc, LStr seg], r2)"
    "hget r2 ?u u_state = Some ''waiting''" "hget r2 ?u u_segment = Some seg"
    using enqueue_created [OF n assms(3), where q = "Queue ?ev ?sh" and sq = "Seq ?ev ?sh" and t = ?t and sh = ?sh
        and now = "UnixMilli (clk 2)" and lend = "milliOrZero (LotteryEnd s1)" and lrand = lot and band = LotteryBand
        and fp = "er_FPHash req" and ip = "er_IPPrefix req"] by metis
  with e s' f(1) chk tk show thesis
    by (intro that [of seg]) (auto simp: asInt64_def asString_def)
qed

lemma Position_waiting:
  assumes "check sh t = None" "hget r (User (qc_EventID (st_cfg s)) sh t) u_state = Some ''waiting''"
    "hget r (User (qc_EventID (st_cfg s)) sh t) u_segment = Some seg"
  obtains snap r' where "Position good_net sh t (s, r) = (Inr snap, s, r')"
    "sn_Status snap = ''waiting''" "sn_Shard snap = sh" "sn_Segment snap = seg"
    "sn_Rank snap = rank_reply (zsets r (Queue (qc_EventID (st_cfg s)) sh)) t"
    "sn_Size snap = zcard (zsets r (Queue (qc_EventID (st_cfg s)) sh))"
proof -
  have "zsets (r\<lparr>loaded := L\<rparr>) k = zsets r k" for L k by simp
  with assms show thesis
    by (intro that) (auto simp: Position_def call_def Run_connected NewScript_def Let_def position_lua_def reply_def
        asString_def asInt64_def)
qed

lemma Verify_frame:
  "Verify l px i now c sol r = (res, r') \<Longrightarrow> user_get r' k = user_get r k \<and> hget r' k f = hget r k f"
  by (auto simp: Verify_def burn_def SetNX_def Let_def hget_def redis_simps
      split: if_splits link.splits prod.splits sum.splits)

lemma RawURLEncoding_ascii: "is_ascii (RawURLEncoding b)"
proof -
  have "url_char c \<Longrightarrow> c < CHR 0x80" for c by (auto simp: url_char_def less_eq_char_def less_char_def)
  with RawURLEncoding_chars show ?thesis by (auto simp: is_ascii_def list_all_iff)
qed

lemma digit_ascii: "is_digit c \<Longrightarrow> c < CHR 0x80"
  by (simp add: is_digit_of_char less_char_def)

lemma Validate_ascii: "Validate sh = None \<Longrightarrow> is_ascii sh"
  using digit_ascii by (auto simp: Validate_None is_ascii_def list_all_iff)

lemma check_Validate: "check sh t = None \<Longrightarrow> Validate sh = None"
  by (simp add: check_def split: if_splits)

lemma Enqueue_checked: "Enqueue n l rand clk req sr = (Inr tk, s', r') \<Longrightarrow> check (er_Shard req) (er_TokenID req) = None"
  by (cases sr) (auto simp: Enqueue_def Let_def split: option.splits)

text \<open>The gate's token opens every door of the waiting user while it lasts.\<close>

lemma gate_token_accepted:
  assumes "jwt_ok J" "g = NewGateAPI chal assigner tokens cfg"
    "gate_verify J w g req (Inr b) sr = (Reply 200 vr, evs, sr2)" "NewID (gx_random w) = Inr tid"
    "list_all is_ascii [ti_issuer tokens, ev_ID (cf_Event cfg), fingerprint req (vq_FingerprintHash b), gate_prefix g req]"
    "hr_Authorization req2 = ''''" "hr_QueueCookie req2 = Some (vr_Token vr)"
    "hr_Fingerprint req2 = hr_Fingerprint req" "hr_IPPrefix req2 = hr_IPPrefix req"
    "t < Truncate_second (Truncate_second (gx_at w) + ti_queueTTL tokens)"
  obtains c where "auth_verify J (NewAuthenticator tokens cfg) t req2 (queueToken req2) KindQueue = Inr c"
    "cm_EventID c = ev_ID (cf_Event cfg)" "cm_TokenID c = tid" "cm_Shard c = Assign assigner tid"
    "cm_FPHash c = fingerprint req (vq_FingerprintHash b)" "cm_IPPrefix c = gate_prefix g req"
proof -
  let ?ev = "ev_ID (cf_Event cfg)" and ?sh = "Assign assigner tid"
  let ?fp = "fingerprint req (vq_FingerprintHash b)" and ?ipp = "gate_prefix g req"
  let ?claims = "\<lparr>cm_Kind = KindQueue, cm_EventID = ?ev, cm_TokenID = tid, cm_JTI = tid,
    cm_Shard = ?sh, cm_FPHash = ?fp, cm_IPPrefix = ?ipp, cm_IssuedAt = zero_time, cm_ExpiresAt = zero_time\<rparr>"
  have g: "ga_assigner g = assigner" "ga_tokens g = tokens" "ga_eventID g = ?ev"
    by (simp_all add: assms(2) NewGateAPI_def)
  from assms(3) obtain r1 tk jws cl where
    enq: "Enqueue (gx_net w) (gx_register w) (gx_lottery w) (gx_clock w)
          \<lparr>er_Shard = ?sh, er_TokenID = tid, er_FPHash = ?fp, er_IPPrefix = ?ipp\<rparr> (fst sr, r1) = (Inr tk, sr2)" and
    iss: "Issue_token J tokens (gx_at w) ?claims = Inr (jws, cl)" and vr: "vr_Token vr = jws"
    by (auto simp: gate_verify_def Let_def assms(4) g split: option.splits prod.splits sum.splits)
  have tid: "is_ascii tid"
    using assms(4) RawURLEncoding_ascii by (auto simp: NewID_def split: option.splits)
  have chk: "check ?sh tid = None" using Enqueue_checked enq by (cases sr2) fastforce
  have asc: "list_all is_ascii [ti_issuer tokens, cm_TokenID ?claims, cm_JTI ?claims, cm_Kind ?claims,
      cm_EventID ?claims, cm_Shard ?claims, cm_FPHash ?claims, cm_IPPrefix ?claims]"
    using assms(5) tid Validate_ascii [OF check_Validate [OF chk]] by (simp add: is_ascii_def KindQueue_def)
  have cl: "cl = ?claims\<lparr>cm_IssuedAt := Truncate_second (gx_at w),
      cm_ExpiresAt := Truncate_second (gx_at w) + ti_queueTTL tokens\<rparr>"
    using Issue_token_claims [OF assms(1) iss] by (auto simp: TTL_def KindQueue_def KindEntry_def)
  let ?c = "cl\<lparr>cm_ExpiresAt := Truncate_second (cm_ExpiresAt cl)\<rparr>"
  have "Verify_token J tokens t jws KindQueue ?ev = Inr ?c"
    using assms(10) by (simp add: Verify_issued [OF assms(1) iss asc] cl)
  then have "auth_verify J (NewAuthenticator tokens cfg) t req2 (queueToken req2) KindQueue = Inr ?c"
    using Issue_token_nonempty [OF assms(1) iss] assms(6-9)
    by (simp add: auth_verify_def VerifyBound_def queueToken_def bearer_def vr assms(2) Let_def
        NewAuthenticator_def binding_def cl fingerprint_def gate_prefix_def NewGateAPI_def)
  with that show thesis by (simp add: cl)
qed

text \<open>
  C13. Who passes the gate finds the place behind the token: a client that solved its challenge
  and got a fresh token can ask the queue service for its status from the same device and
  network while the token lasts, and is told that it is waiting, in the shard, the segment, at
  the rank and among as many as the gate said.
\<close>

theorem entered_user_sees_place:
  assumes "jwt_ok J" "g = NewGateAPI chal assigner tokens cfg" "q = NewQueueAPI tokens cfg"
    "gate_verify J w g req (Inr b) (s, r) = (Reply 200 vr, evs, s2, r2)"
    "NewID (gx_random w) = Inr tid" "qc_EventID (st_cfg s) = ev_ID (cf_Event cfg)" "ev_ID (cf_Event cfg) \<noteq> ''''"
    "hget r (User (ev_ID (cf_Event cfg)) (Assign assigner tid) tid) u_state = None"
    "0 < Milliseconds (qc_UserTTL (st_cfg s))"
    "list_all is_ascii [ti_issuer tokens, ev_ID (cf_Event cfg), fingerprint req (vq_FingerprintHash b), gate_prefix g req]"
    "hr_Authorization req2 = ''''" "hr_QueueCookie req2 = Some (vr_Token vr)" "\<not> wantsSSE req2"
    "hr_Fingerprint req2 = hr_Fingerprint req" "hr_IPPrefix req2 = hr_IPPrefix req"
    "ax_net w2 = good_net"
    "ax_auth_at w2 < Truncate_second (Truncate_second (gx_at w) + ti_queueTTL tokens)"
  shows "\<exists>snap r3. status J w2 q req2 ins (s2, r2) = (Reply 200 (Inr snap), s2, r3) \<and>
    ss_State snap = ''waiting'' \<and> ss_Shard snap = vr_Shard vr \<and> ss_Segment snap = vr_Segment vr \<and>
    ss_Rank snap = vr_Rank vr \<and> ss_ShardSize snap = vr_ShardSize vr"
proof -
  let ?ev = "ev_ID (cf_Event cfg)" and ?sh = "Assign assigner tid"
  let ?fp = "fingerprint req (vq_FingerprintHash b)" and ?ipp = "gate_prefix g req"
  have g: "ga_assigner g = assigner" "ga_tokens g = tokens" "ga_eventID g = ?ev"
    by (simp_all add: assms(2) NewGateAPI_def)
  from assms(4) obtain r1 tk where
    v: "Verify (gx_burn w) (gx_px w) (ga_chal g) (gx_at w) (vq_Challenge b) (vq_Solution b) r = (None, r1)" and
    enq: "Enqueue (gx_net w) (gx_register w) (gx_lottery w) (gx_clock w)
          \<lparr>er_Shard = ?sh, er_TokenID = tid, er_FPHash = ?fp, er_IPPrefix = ?ipp\<rparr> (s, r1) = (Inr tk, s2, r2)" and
    vr: "vr_Shard vr = ?sh" "vr_Segment vr = tk_Segment tk" "vr_Rank vr = tk_Rank tk" "vr_ShardSize vr = tk_Size tk"
    by (auto simp: gate_verify_def Let_def assms(5) g split: option.splits prod.splits sum.splits)
  have n: "hget r1 (User (qc_EventID (st_cfg s)) ?sh tid) u_state = None"
    by (simp add: Verify_frame [OF v] assms(6,8))
  obtain seg where e: "st_cfg s2 = st_cfg s" "check ?sh tid = None"
    "hget r2 (User ?ev ?sh tid) u_state = Some ''waiting''" "hget r2 (User ?ev ?sh tid) u_segment = Some seg"
    "tk_Rank tk = rank_reply (zsets r2 (Queue ?ev ?sh)) tid" "tk_Size tk = zcard (zsets r2 (Queue ?ev ?sh))"
    "tk_Segment tk = seg"
    using Enqueue_fresh [OF enq, simplified] n assms(6,9) by (metis Ticket.select_convs)
  obtain c where "auth_verify J (NewAuthenticator tokens cfg) (ax_auth_at w2) req2 (queueToken req2) KindQueue = Inr c"
    and cl: "cm_TokenID c = tid" "cm_Shard c = ?sh"
    by (rule gate_token_accepted [OF assms(1,2,4,5,10-12,14,15,17)])
  then have a: "auth_verify J (qa_auth q) (ax_auth_at w2) req2 (queueToken req2) KindQueue = Inr c"
    by (simp add: assms(3) NewQueueAPI_def Let_def)
  obtain snap r3 where p: "Position good_net ?sh tid (s2, r2) = (Inr snap, s2, r3)" "sn_Status snap = ''waiting''"
    "sn_Shard snap = ?sh" "sn_Segment snap = seg" "sn_Rank snap = tk_Rank tk" "sn_Size snap = tk_Size tk"
    using Position_waiting [OF e(2), of r2 s2 seg] e assms(6) by metis
  then show ?thesis
    using a assms(13,16) vr e(7)
    by (auto simp: status_def api_snapshot_def cl)
qed

section \<open>From the queue to the purchase\<close>

lemma Admit_fresh:
  assumes "Admit n now s sh t jti r = (Inr res, r')" "rs_Status res = ''admitted''" "0 \<le> rs_Rank res"
  shows "rs_JTI res = jti" "Validate sh = None" "string_get r' (Entry (ac_EventID s) sh jti) = Some t"
proof -
  let ?ev = "ac_EventID s"
  let ?body = "admit_lua (Queue ?ev sh) (Budget ?ev sh) (User ?ev sh t) t jti (UnixMilli now) (EntryPrefix ?ev sh)
    (Milliseconds (ac_EntryTTL s)) (Milliseconds (ac_UserTTL s)) (Milliseconds (ac_MinDwell s)) (ac_MinBeats s)"
  obtain vals where v: "Run n (NewScript ''admit.lua'' ?body) r = (Inr vals, r')" "Validate sh = None"
    "rs_Status res = asString (vals ! 0)" "rs_Rank res = admission_asInt64 (vals ! 1)" "rs_JTI res = asString (vals ! 3)"
    using assms(1)
    by (auto simp: Admit_def Let_def admission_call_def admission_reply_def split: if_splits option.splits prod.splits sum.splits)
  obtain L where L: "?body (r\<lparr>loaded := L\<rparr>) = (Inr vals, r')"
    using Run_once [where n = n and sc = "NewScript ''admit.lua'' ?body" and r = r] v(1) by (auto simp: NewScript_def)
  show "Validate sh = None" by (fact v(2))
  from L assms(2,3) show "rs_JTI res = jti" "string_get r' (Entry ?ev sh jti) = Some t"
    unfolding v(3-5)
    by (auto simp: admit_lua_def Let_def asString_def admission_asInt64_def redis_simps EntryPrefix_Entry
        split: option.splits if_splits)
qed

lemma NewID_ascii: "NewID random = Inr t \<Longrightarrow> is_ascii t"
  using RawURLEncoding_ascii by (auto simp: NewID_def split: option.splits)

lemma create_buys:
  assumes "auth_verify J (sh_auth s) (sw_auth_at w) req (entryToken req) KindEntry = Inr c"
    "hr_IdempotencyKey req \<noteq> ''''" "oq_AccountID b \<noteq> ''''" "oq_Qty b \<in> {0, 1}"
    "sw_find w = Delivered" "sw_burn w = good_net" "sw_create w = Delivered"
    "string_get r (Entry (ac_EventID (sh_admit s)) (cm_Shard c) (cm_JTI c)) = Some (cm_TokenID c)"
    "cm_TokenID c \<noteq> ''''" "cm_JTI c \<noteq> ''''" "Validate (cm_Shard c) = None"
    "\<And>row. row \<in> set (od_rows db) \<Longrightarrow> or_EventID row = cm_EventID c \<Longrightarrow>
       or_IdemKey row \<noteq> hr_IdempotencyKey req \<and> or_AccountID row \<noteq> oq_AccountID b \<and>
       or_TokenID row \<noteq> cm_TokenID c \<and> or_EntryJTI row \<noteq> cm_JTI c"
  obtains x r' db' where "create J w s req (Inr b) (r, db) = (Reply 201 x, r', db')"
    "op_AccountID x = oq_AccountID b" "op_Qty x = 1"
proof -
  obtain r1 where b1: "Burn good_net (sw_burn_at w) (sh_admit s) (cm_Shard c) (cm_JTI c) (cm_TokenID c) r = (Inr ''burned'', r1)"
    using Burn_held [OF assms(8-11)] by blast
  have f: "FindByIdempotencyKey Delivered (cm_EventID c) (hr_IdempotencyKey req) db = Inr None"
    using assms(12) by (auto simp: FindByIdempotencyKey_def find_None_iff)
  have v: "violated \<lparr>or_ID = i, or_EventID = cm_EventID c, or_TokenID = cm_TokenID c, or_AccountID = oq_AccountID b,
      or_EntryJTI = cm_JTI c, or_IdemKey = hr_IdempotencyKey req, or_SKU = sku, or_Qty = qty, or_CreatedAt = t\<rparr>
      (od_rows db) = []" for i sku qty t
    using assms(12) by (auto simp: violated_def order_constraints_def list_ex_iff)
  have "\<exists>x r' db'. create J w s req (Inr b) (r, db) = (Reply 201 x, r', db') \<and> op_AccountID x = oq_AccountID b \<and> op_Qty x = 1"
    using assms(1-7) b1 f v
    by (auto simp: create_def Let_def maxQty_def place_def Create_def insertOrder_def toResponse_def)
  with that show thesis by blast
qed

text \<open>
  Who is admitted can buy: when a redemption answers admitted with a rank, the entry token in
  its answer, presented to the shop from the same device and network before it expires, with a
  new idempotency key and for an account that has not bought, buys exactly one piece, provided
  Redis and the database answer.
\<close>

lemma redeemed_user_can_buy:
  assumes "jwt_ok J" "a = NewAdmissionAPI admit tokens cfg" "s = NewShopAPI admit tokens cfg" "ev_ID (cf_Event cfg) \<noteq> ''''"
    "auth_verify J (aa_auth a) (ax_auth_at w) req (queueToken req) KindQueue = Inr c" "NewID random = Inr jti"
    "list_all is_ascii [ti_issuer tokens, cm_TokenID c, cm_EventID c, cm_FPHash c, cm_IPPrefix c]"
    "redeem J random w a req r = (Reply 200 ans, evs, r1)" "rd_Status ans = ''admitted''" "0 \<le> rd_Rank ans"
    "hr_EntryToken req2 = rd_EntryToken ans" "hr_Fingerprint req2 = hr_Fingerprint req" "hr_IPPrefix req2 = hr_IPPrefix req"
    "sw_auth_at w2 < Truncate_second (Truncate_second (ax_at w) + ti_entryTTL tokens)"
    "sw_find w2 = Delivered" "sw_burn w2 = good_net" "sw_create w2 = Delivered"
    "hr_IdempotencyKey req2 \<noteq> ''''" "oq_AccountID b \<noteq> ''''" "oq_Qty b \<in> {0, 1}"
    "\<And>row. row \<in> set (od_rows db) \<Longrightarrow> or_EventID row = ev_ID (cf_Event cfg) \<Longrightarrow>
       or_IdemKey row \<noteq> hr_IdempotencyKey req2 \<and> or_AccountID row \<noteq> oq_AccountID b \<and>
       or_TokenID row \<noteq> cm_TokenID c \<and> or_EntryJTI row \<noteq> jti"
  shows "\<exists>x r2 db2. create J w2 s req2 (Inr b) (r1, db) = (Reply 201 x, r2, db2) \<and>
    op_AccountID x = oq_AccountID b \<and> op_Qty x = 1"
proof -
  have au: "aa_auth a = NewAuthenticator tokens cfg" "sh_auth s = NewAuthenticator tokens cfg" "aa_store a = admit"
    "sh_admit s = admit" "aa_issue a = tokens" "at_issuer (NewAuthenticator tokens cfg) = tokens"
    "at_eventID (NewAuthenticator tokens cfg) = ev_ID (cf_Event cfg)"
    by (simp_all add: assms(2,3) NewAdmissionAPI_def NewShopAPI_def NewAuthenticator_def)
  have c: "cm_EventID c = ev_ID (cf_Event cfg)" "cm_TokenID c \<noteq> ''''" "cm_Shard c \<noteq> ''''"
    using auth_verify_claims [OF assms(5)] assms(4) by (simp_all add: au)
  have authc: "auth_verify J (NewAuthenticator tokens cfg) (ax_auth_at w) req (queueToken req) KindQueue = Inr c"
    using assms(5) by (simp add: au)
  from assms(8,9) obtain res jws cl where
    adm: "Admit (ax_net w) (ax_call_at w) admit (cm_Shard c) (cm_TokenID c) jti r = (Inr res, r1)"
      "rs_Status res = ''admitted''" "rd_Rank ans = rs_Rank res"
    and iss: "Issue_token J tokens (ax_at w)
                 \<lparr>cm_Kind = KindEntry, cm_EventID = cm_EventID c, cm_TokenID = cm_TokenID c, cm_JTI = rs_JTI res,
                  cm_Shard = cm_Shard c, cm_FPHash = cm_FPHash c, cm_IPPrefix = cm_IPPrefix c,
                  cm_IssuedAt = zero_time, cm_ExpiresAt = zero_time\<rparr> = Inr (jws, cl)"
      "rd_EntryToken ans = jws"
    by (auto simp: redeem_def Let_def authc assms(6) au split: sum.splits prod.splits if_splits)
  note held = Admit_fresh [OF adm(1,2) assms(10) [unfolded adm(3)]]
  let ?claims = "\<lparr>cm_Kind = KindEntry, cm_EventID = cm_EventID c, cm_TokenID = cm_TokenID c, cm_JTI = jti,
    cm_Shard = cm_Shard c, cm_FPHash = cm_FPHash c, cm_IPPrefix = cm_IPPrefix c,
    cm_IssuedAt = zero_time, cm_ExpiresAt = zero_time\<rparr>"
  note iss = iss(1) [unfolded held(1)] iss(2)
  have asc: "list_all is_ascii [ti_issuer tokens, cm_TokenID ?claims, cm_JTI ?claims, cm_Kind ?claims,
      cm_EventID ?claims, cm_Shard ?claims, cm_FPHash ?claims, cm_IPPrefix ?claims]"
    using assms(7) NewID_ascii [OF assms(6)] Validate_ascii [OF held(2)] by (simp add: is_ascii_def KindEntry_def)
  have cl: "cl = ?claims\<lparr>cm_IssuedAt := Truncate_second (ax_at w),
      cm_ExpiresAt := Truncate_second (ax_at w) + ti_entryTTL tokens\<rparr>"
    using Issue_token_claims [OF assms(1) iss(1)] by (auto simp: TTL_def)
  let ?c = "cl\<lparr>cm_ExpiresAt := Truncate_second (cm_ExpiresAt cl)\<rparr>"
  have "Verify_token J tokens (sw_auth_at w2) jws KindEntry (ev_ID (cf_Event cfg)) = Inr ?c"
    using assms(14) by (simp add: Verify_issued [OF assms(1) iss(1) asc] cl c(1))
  then have a: "auth_verify J (sh_auth s) (sw_auth_at w2) req2 (entryToken req2) KindEntry = Inr ?c"
    using Issue_token_nonempty [OF assms(1) iss(1)] assms(5,11-13) iss(2)
    by (auto simp: auth_verify_def VerifyBound_def entryToken_def au binding_def cl split: if_splits sum.splits)
  have j: "jti \<noteq> ''''" using adm(1) by (auto simp: Admit_def split: if_splits)
  obtain x r2 db2 where "create J w2 s req2 (Inr b) (r1, db) = (Reply 201 x, r2, db2)"
    "op_AccountID x = oq_AccountID b" "op_Qty x = 1"
    by (rule create_buys [OF a assms(18-20) assms(15-17), of r1 db])
      (use held c j assms(21) in \<open>simp_all add: cl au\<close>)
  then show ?thesis by blast
qed

section \<open>All services from one configuration\<close>

abbreviation tokens_of :: "Config \<Rightarrow> Token_Issuer" where
  "tokens_of cfg \<equiv> \<lparr>ti_key = Bytes (tc_SigningKey (cf_Token cfg)), ti_issuer = tc_Issuer (cf_Token cfg),
     ti_queueTTL = tc_QueueTTL (cf_Token cfg), ti_entryTTL = tc_EntryTTL (cf_Token cfg)\<rparr>"

lemma run_gate_parts:
  assumes "run_gate cfg = Inr g"
  obtains chal assigner where "gs_api g = NewGateAPI chal assigner (tokens_of cfg) cfg"
    "st_cfg (gs_store g) = QConfig_from cfg" "ev_ID (cf_Event cfg) \<noteq> ''''"
  using assms Validate_starts(1) by (auto simp: run_gate_def)

lemma run_admission_parts:
  "run_admission cfg = Inr a \<Longrightarrow> as_api a = NewAdmissionAPI (AConfig_from cfg) (tokens_of cfg) cfg"
  by (auto simp: run_admission_def)

lemma run_shop_parts:
  "run_shop up cfg = Inr s \<Longrightarrow> s = NewShopAPI (AConfig_from cfg) (tokens_of cfg) cfg"
  by (auto simp: run_shop_def split: if_splits)

text \<open>
  C3. Whoever passed the gate and is admitted can buy.  The gate, the admission service and the
  shop run from one configuration and share nothing else; between the entry and the redemption
  anything may happen to Redis.  When the redemption with the gate's token answers admitted with
  a rank, the entry token in its answer, presented to the shop from the same device and network
  before it expires, with a new idempotency key and for an account that has not bought, buys
  exactly one piece, provided Redis and the database answer.
\<close>

theorem served_user_can_buy:
  assumes "jwt_ok J" "run_gate cfg = Inr g" "run_admission cfg = Inr a" "run_shop up cfg = Inr s"
    "gate_verify J w (gs_api g) req (Inr b) sr = (Reply 200 vr, evs, sr2)" "NewID (gx_random w) = Inr tid"
    "list_all is_ascii [tc_Issuer (cf_Token cfg), ev_ID (cf_Event cfg), fingerprint req (vq_FingerprintHash b),
       gate_prefix (gs_api g) req]"
    "hr_Authorization reqA = ''''" "hr_QueueCookie reqA = Some (vr_Token vr)"
    "hr_Fingerprint reqA = hr_Fingerprint req" "hr_IPPrefix reqA = hr_IPPrefix req"
    "ax_auth_at wA < Truncate_second (Truncate_second (gx_at w) + tc_QueueTTL (cf_Token cfg))"
    "NewID random = Inr jti" "redeem J random wA (as_api a) reqA r = (Reply 200 ans, evsA, r1)"
    "rd_Status ans = ''admitted''" "0 \<le> rd_Rank ans"
    "hr_EntryToken reqS = rd_EntryToken ans" "hr_Fingerprint reqS = hr_Fingerprint req" "hr_IPPrefix reqS = hr_IPPrefix req"
    "sw_auth_at wS < Truncate_second (Truncate_second (ax_at wA) + tc_EntryTTL (cf_Token cfg))"
    "sw_find wS = Delivered" "sw_burn wS = good_net" "sw_create wS = Delivered"
    "hr_IdempotencyKey reqS \<noteq> ''''" "oq_AccountID o1 \<noteq> ''''" "oq_Qty o1 \<in> {0, 1}"
    "\<And>row. row \<in> set (od_rows db) \<Longrightarrow> or_EventID row = ev_ID (cf_Event cfg) \<Longrightarrow>
       or_IdemKey row \<noteq> hr_IdempotencyKey reqS \<and> or_AccountID row \<noteq> oq_AccountID o1 \<and>
       or_TokenID row \<noteq> tid \<and> or_EntryJTI row \<noteq> jti"
  shows "\<exists>x r2 db2. create J wS s reqS (Inr o1) (r1, db) = (Reply 201 x, r2, db2) \<and>
    op_AccountID x = oq_AccountID o1 \<and> op_Qty x = 1"
proof -
  obtain chal assigner where g: "gs_api g = NewGateAPI chal assigner (tokens_of cfg) cfg" "ev_ID (cf_Event cfg) \<noteq> ''''"
    by (rule run_gate_parts [OF assms(2)])
  note a = run_admission_parts [OF assms(3)] and s = run_shop_parts [OF assms(4)]
  obtain c where c: "auth_verify J (NewAuthenticator (tokens_of cfg) cfg) (ax_auth_at wA) reqA (queueToken reqA) KindQueue = Inr c"
    "cm_EventID c = ev_ID (cf_Event cfg)" "cm_TokenID c = tid" "cm_Shard c = Assign assigner tid"
    "cm_FPHash c = fingerprint req (vq_FingerprintHash b)" "cm_IPPrefix c = gate_prefix (gs_api g) req"
    by (rule gate_token_accepted [OF assms(1) g(1) assms(5,6) _ assms(8-11)]) (use assms(7,12) in simp_all)
  have authc: "auth_verify J (aa_auth (as_api a)) (ax_auth_at wA) reqA (queueToken reqA) KindQueue = Inr c"
    using c(1) by (simp add: a NewAdmissionAPI_def)
  have asc: "list_all is_ascii [ti_issuer (tokens_of cfg), cm_TokenID c, cm_EventID c, cm_FPHash c, cm_IPPrefix c]"
    using assms(7) NewID_ascii [OF assms(6)] by (simp add: c)
  show ?thesis
    by (rule redeemed_user_can_buy [OF assms(1) a s g(2) authc assms(13) asc assms(14-17)])
      (use assms(10,11,18-27) c in simp_all)
qed

section \<open>One user's way\<close>

lemma Assign_valid: "0 < a_count a \<Longrightarrow> a_count a \<le> 10 ^ 9 \<Longrightarrow> Validate (Assign a t) = None"
proof -
  assume c: "0 < a_count a" "a_count a \<le> 10 ^ 9"
  then have "0 \<le> Index a t" "Index a t < a_count a" using Index_eq [of a t] by simp_all
  with c(2) show ?thesis using Validate_ID [of "Index a t"] by (simp add: Assign_def)
qed

lemma Enqueue_succeeds:
  assumes "check (er_Shard req) (er_TokenID req) = None" "0 < Milliseconds (qc_UserTTL (st_cfg s))"
    "hget r (User (qc_EventID (st_cfg s)) (er_Shard req) (er_TokenID req)) u_state = None"
  obtains tk s' r' where "Enqueue good_net Delivered (Some rand) clk req (s, r) = (Inr tk, s', r')"
proof -
  let ?ev = "qc_EventID (st_cfg s)" and ?sh = "er_Shard req" and ?t = "er_TokenID req"
  let ?u = "User ?ev ?sh ?t"
  obtain s1 S where reg: "registerShard Delivered clk ?sh (s, r) = (None, s1, r\<lparr>sets := S\<rparr>)" "st_cfg s1 = st_cfg s"
    by (rule registerShard_delivered)
  obtain lot where lot: "lotteryRank (Some rand) = Inr lot" by (simp add: lotteryRank_def)
  let ?r1 = "r\<lparr>sets := S, loaded := insert ''enqueue.lua'' (loaded r)\<rparr>"
  have n: "hget ?r1 ?u u_state = None" using assms(3) by simp
  obtain sc seg r2 where
    "enqueue_lua (Queue ?ev ?sh) (Seq ?ev ?sh) ?u ?t ?sh (UnixMilli (clk 2)) (milliOrZero (LotteryEnd s1)) lot
       LotteryBand (er_FPHash req) (er_IPPrefix req) (Milliseconds (qc_UserTTL (st_cfg s))) ?r1 =
      (Inr [LStr ''created'', LInt (rank_reply (zsets r2 (Queue ?ev ?sh)) ?t), LInt (zcard (zsets r2 (Queue ?ev ?sh))),
         LInt sc, LStr seg], r2)"
    using enqueue_created [OF n assms(2), where q = "Queue ?ev ?sh" and sq = "Seq ?ev ?sh" and t = ?t and sh = ?sh
        and now = "UnixMilli (clk 2)" and lend = "milliOrZero (LotteryEnd s1)" and lrand = lot and band = LotteryBand
        and fp = "er_FPHash req" and ip = "er_IPPrefix req"] by metis
  then show thesis
    using assms(1) reg lot
    by (intro that) (auto simp: Enqueue_def Let_def call_def Run_connected NewScript_def reply_def)
qed

definition demo_config :: Config where
  "demo_config = (default_config (Secret_of ''k''))
    \<lparr>cf_Event := (default_Event (Secret_of ''k''))\<lparr>ev_ID := ''ev''\<rparr>,
     cf_Challenge := (default_Challenge (Secret_of ''k''))\<lparr>cl_BaseDifficulty := 1\<rparr>\<rparr>"

definition demo_assigner :: Assigner where "demo_assigner = \<lparr>a_salt = ''k'', a_max = 4096, a_count = 16\<rparr>"

definition demo_gate :: GateAPI where
  "demo_gate = NewGateAPI demo_issuer demo_assigner demo_token_issuer demo_config"

definition demo_gate_wires :: gate_wires where
  "demo_gate_wires = \<lparr>gx_random = (\<lambda>n. Some (replicate n (CHR ''a''))), gx_nonce = Some ''abc'', gx_lottery = Some ''12345678'',
     gx_provider = Fixed 1, gx_px = (\<lambda>d. Milliseconds d + 1), gx_burn = Delivered, gx_register = Delivered,
     gx_net = good_net, gx_net2 = good_net, gx_clock = (\<lambda>_. seconds 5), gx_auth_at = seconds 5, gx_at = seconds 5\<rparr>"

definition demo_visit :: request where
  "demo_visit = \<lparr>hr_Authorization = '''', hr_QueueCookie = None, hr_EntryToken = '''', hr_Fingerprint = ''fp'',
     hr_IdempotencyKey = '''', hr_Accept = [], hr_IPPrefix = (\<lambda>_ _. ''10.0.0.0/24'')\<rparr>"

definition demo_solution :: VerifyRequest where
  "demo_solution = \<lparr>vq_Challenge = demo_challenge, vq_Solution = ''1'', vq_FingerprintHash = '''', vq_SolveMS = 900\<rparr>"

lemma demo_verified:
  obtains r1 where "Verify Delivered (\<lambda>d. Milliseconds d + 1) demo_issuer (seconds 5) demo_challenge ''1'' empty_redis = (None, r1)"
proof -
  have "length (sign demo_issuer n d e) \<noteq> 0" for n d e by (simp add: sign_def length_RawURLEncoding)
  then show thesis
    using demo_solved
    by (intro that) (auto simp: Verify_def demo_challenge_def demo_issuer_def burn_def SetNX_def UnixMilli_def Let_def
        string_get_def live_def empty_redis_def)
qed

lemma empty_hget: "hget empty_redis k f = None"
  by (simp add: hget_def user_get_def empty_redis_def live_def)

lemma demo_gate_reply:
  obtains vr evs s2 r2 where "gate_verify plain_jwt demo_gate_wires demo_gate demo_visit (Inr demo_solution) (demo_store, empty_redis)
    = (Reply 200 vr, evs, s2, r2)"
proof -
  let ?tid = "RawURLEncoding (replicate 16 (CHR ''a''))"
  let ?req = "\<lparr>er_Shard = Assign demo_assigner ?tid, er_TokenID = ?tid, er_FPHash = ''fp'', er_IPPrefix = ''10.0.0.0/24''\<rparr>"
  obtain r1 where v: "Verify Delivered (\<lambda>d. Milliseconds d + 1) demo_issuer (seconds 5) demo_challenge ''1'' empty_redis = (None, r1)"
    by (rule demo_verified)
  have id: "NewID (\<lambda>n. Some (replicate n (CHR ''a''))) = Inr ?tid" by (simp add: NewID_def idBytes_def)
  have vid: "validID ?tid"
    using length_RawURLEncoding [of "replicate 16 (CHR ''a'')"] RawURLEncoding_chars url_char_id_char
    by (auto simp: validID_def maxIDLen_def list_all_iff)
  then have ne: "?tid \<noteq> ''''" by (auto simp: validID_def)
  have val: "Validate (Assign demo_assigner ?tid) = None" by (rule Assign_valid) (simp_all add: demo_assigner_def)
  have chk: "check (er_Shard ?req) (er_TokenID ?req) = None" using vid ne val by (simp add: check_def)
  have n: "hget r1 (User (qc_EventID (st_cfg demo_store)) (er_Shard ?req) (er_TokenID ?req)) u_state = None"
    by (simp add: Verify_frame [OF v] empty_hget)
  have ttl: "0 < Milliseconds (qc_UserTTL (st_cfg demo_store))"
    by (simp add: demo_store_def demo_cfg_def Milliseconds_def quot_def)
  obtain tk s2 r2 where e: "Enqueue good_net Delivered (Some ''12345678'') (\<lambda>_. seconds 5) ?req (demo_store, r1) = (Inr tk, s2, r2)"
    by (rule Enqueue_succeeds [OF chk ttl n])
  have sh: "Assign demo_assigner ?tid \<noteq> ''''" using val by (auto simp: Validate_None)
  show thesis
    using that v id e ne sh
    by (auto simp: gate_verify_def demo_gate_wires_def demo_gate_def NewGateAPI_def demo_solution_def demo_visit_def
        fingerprint_def gate_prefix_def demo_config_def Let_def Issue_token_def plain_jwt_def plain_Sign_def
        Truncate_second_def TTL_def demo_token_issuer_def KindQueue_def KindEntry_def)
qed

theorem entered_user_sees_place_witness:
  "\<exists>vr evs s2 r2 snap r3.
     gate_verify plain_jwt demo_gate_wires demo_gate demo_visit (Inr demo_solution) (demo_store, empty_redis)
       = (Reply 200 vr, evs, s2, r2) \<and>
     status plain_jwt \<lparr>ax_net = good_net, ax_auth_at = seconds 8, ax_call_at = seconds 8, ax_at = seconds 8\<rparr>
       (NewQueueAPI demo_token_issuer demo_config) (demo_visit\<lparr>hr_QueueCookie := Some (vr_Token vr)\<rparr>) [] (s2, r2)
       = (Reply 200 (Inr snap), s2, r3) \<and> ss_State snap = ''waiting'' \<and> ss_Rank snap = vr_Rank vr"
proof -
  obtain vr evs s2 r2 where g: "gate_verify plain_jwt demo_gate_wires demo_gate demo_visit (Inr demo_solution) (demo_store, empty_redis)
    = (Reply 200 vr, evs, s2, r2)" by (rule demo_gate_reply)
  have id: "NewID (gx_random demo_gate_wires) = Inr (RawURLEncoding (replicate 16 (CHR ''a'')))"
    by (simp add: NewID_def idBytes_def demo_gate_wires_def)
  let ?w2 = "\<lparr>ax_net = good_net, ax_auth_at = seconds 8, ax_call_at = seconds 8, ax_at = seconds 8\<rparr>"
  let ?req2 = "demo_visit\<lparr>hr_QueueCookie := Some (vr_Token vr)\<rparr>"
  have asc: "list_all is_ascii [ti_issuer demo_token_issuer, ev_ID (cf_Event demo_config),
      fingerprint demo_visit (vq_FingerprintHash demo_solution), gate_prefix demo_gate demo_visit]"
    by (simp add: demo_token_issuer_def demo_config_def fingerprint_def gate_prefix_def demo_visit_def demo_gate_def
        is_ascii_def less_char_def)
  have "\<exists>snap r3. status plain_jwt ?w2 (NewQueueAPI demo_token_issuer demo_config) ?req2 [] (s2, r2) = (Reply 200 (Inr snap), s2, r3) \<and>
    ss_State snap = ''waiting'' \<and> ss_Shard snap = vr_Shard vr \<and> ss_Segment snap = vr_Segment vr \<and>
    ss_Rank snap = vr_Rank vr \<and> ss_ShardSize snap = vr_ShardSize vr"
    by (rule entered_user_sees_place [OF plain_jwt_ok demo_gate_def refl g id _ _ _ _ asc])
      (simp_all add: demo_store_def demo_cfg_def demo_config_def hget_def user_get_def empty_redis_def live_def
        Milliseconds_def quot_def demo_visit_def wantsSSE_def demo_gate_wires_def demo_token_issuer_def Truncate_second_def)
  with g show ?thesis by blast
qed

lemma Validate_demo: "Validate_config demo_config = []"
  by code_simp

lemma demo_services:
  obtains g a s where "run_gate demo_config = Inr g" "gs_api g = demo_gate"
    "run_admission demo_config = Inr a" "run_shop True demo_config = Inr s"
proof -
  have "validID (ev_ID (cf_Event demo_config))" by code_simp
  with services_start [OF Validate_demo, of True] that show thesis
    by (auto simp: demo_config_def default_config_def default_Event_def default_Token_def default_Challenge_def
        default_Postgres_def IsZero_def run_gate_def demo_gate_def demo_issuer_def demo_assigner_def
        demo_token_issuer_def Bytes_def)
qed

text \<open>A user waits in front, and the shard has a budget.\<close>

definition demo_line :: "string \<Rightarrow> token \<Rightarrow> redis" where
  "demo_line sh t = set_counter_px (snd (enqueue_lua (Queue ''ev'' sh) (Seq ''ev'' sh) (User ''ev'' sh t) t sh 5000 0 0
     LotteryBand ''fp'' ''10.0.0.0/24'' 7200000 empty_redis)) (Budget ''ev'' sh) 10 60000"

lemma demo_line_facts:
  "hget (demo_line sh t) (User ''ev'' sh t) u_state = Some ''waiting''"
  "zrank (zsets (demo_line sh t) (Queue ''ev'' sh)) t = Some 0"
  "counter_get (demo_line sh t) (Budget ''ev'' sh) = Some 10"
proof -
  have z: "zrank (zadd (zsets empty_redis q) sc t) t = Some 0" for q sc
    by (simp add: empty_redis_def zadd_def zrank_def zrem_def Let_def)
  have k: "hget (set_counter_px r k n d) k' f = hget r k' f" for r k n d k' f
    by (simp add: hget_def user_get_def set_counter_px_def live_def)
  show "hget (demo_line sh t) (User ''ev'' sh t) u_state = Some ''waiting''"
    unfolding demo_line_def k
    by (rule enqueue_created [OF empty_hget, where q = "Queue ''ev'' sh" and sq = "Seq ''ev'' sh" and t = t and sh = sh
        and userKey = "User ''ev'' sh t" and now = 5000 and lend = 0 and lrand = 0 and band = LotteryBand and fp = "''fp''" and ip = "''10.0.0.0/24''"
        and ttl = 7200000]) auto
  show "zrank (zsets (demo_line sh t) (Queue ''ev'' sh)) t = Some 0"
    "counter_get (demo_line sh t) (Budget ''ev'' sh) = Some 10"
    by (simp_all add: demo_line_def enqueue_lua_def enqueue_new_def empty_hget Let_def redis_simps z)
qed

lemma demo_Admit:
  assumes "Validate sh = None" "t \<noteq> ''''" "jti \<noteq> ''''"
  obtains res r1 where "Admit good_net (seconds 9) (AConfig_from demo_config) sh t jti (demo_line sh t) = (Inr res, r1)"
    "rs_Status res = ''admitted''" "rs_Rank res = 0" "rs_JTI res = jti"
proof -
  let ?r = "(demo_line sh t)\<lparr>loaded := insert ''admit.lua'' (loaded (demo_line sh t))\<rparr>"
  have "hget ?r (User ''ev'' sh t) u_state = Some ''waiting''" "zrank (zsets ?r (Queue ''ev'' sh)) t = Some 0"
    using demo_line_facts by simp_all
  moreover have "counter_get ?r (Budget ''ev'' sh) = Some 10"
    using demo_line_facts(3) by (simp add: counter_get_def live_def)
  ultimately show thesis using assms
    by - (rule that, simp add: Admit_def Let_def admission_call_def Run_connected NewScript_def admit_lua_def
        AConfig_from_def demo_config_def default_config_def default_Event_def default_Token_def default_Admission_def
        Milliseconds_def quot_def admission_reply_def asString_def admission_asInt64_def, simp, simp, simp)
qed

definition demo_api_wires :: api_wires where
  "demo_api_wires = \<lparr>ax_net = good_net, ax_auth_at = seconds 9, ax_call_at = seconds 9, ax_at = seconds 9\<rparr>"

abbreviation "random_as \<equiv> (\<lambda>n. Some (replicate n (CHR ''a''))) :: nat \<Rightarrow> string option"
abbreviation "demo_id \<equiv> RawURLEncoding (replicate 16 (CHR ''a''))"
abbreviation "demo_place \<equiv> Assign demo_assigner demo_id"

theorem served_user_can_buy_witness:
  "\<exists>g a s vr evs sr2 ans evsA r1 x r2 db2.
     run_gate demo_config = Inr g \<and> run_admission demo_config = Inr a \<and> run_shop True demo_config = Inr s \<and>
     gate_verify plain_jwt demo_gate_wires (gs_api g) demo_visit (Inr demo_solution) (demo_store, empty_redis)
       = (Reply 200 vr, evs, sr2) \<and>
     redeem plain_jwt random_as demo_api_wires (as_api a) (demo_visit\<lparr>hr_QueueCookie := Some (vr_Token vr)\<rparr>)
       (demo_line demo_place demo_id) = (Reply 200 ans, evsA, r1) \<and> rd_Status ans = ''admitted'' \<and>
     create plain_jwt (demo_shop_wires Delivered) s
       (demo_visit\<lparr>hr_EntryToken := rd_EntryToken ans, hr_IdempotencyKey := ''k1''\<rparr>) (Inr demo_order) (r1, no_orders)
       = (Reply 201 x, r2, db2) \<and> op_AccountID x = ''acct''"
proof -
  obtain g a s where sv: "run_gate demo_config = Inr g" "gs_api g = demo_gate" "run_admission demo_config = Inr a"
    "run_shop True demo_config = Inr s" by (rule demo_services)
  obtain vr evs s2 r2 where gv: "gate_verify plain_jwt demo_gate_wires demo_gate demo_visit (Inr demo_solution)
    (demo_store, empty_redis) = (Reply 200 vr, evs, s2, r2)" by (rule demo_gate_reply)
  have id: "NewID (gx_random demo_gate_wires) = Inr demo_id" "NewID random_as = Inr demo_id"
    by (simp_all add: NewID_def idBytes_def demo_gate_wires_def)
  let ?reqA = "demo_visit\<lparr>hr_QueueCookie := Some (vr_Token vr)\<rparr>"
  have asc: "list_all is_ascii [ti_issuer demo_token_issuer, ev_ID (cf_Event demo_config),
      fingerprint demo_visit (vq_FingerprintHash demo_solution), gate_prefix demo_gate demo_visit]"
    by (simp add: demo_token_issuer_def demo_config_def fingerprint_def gate_prefix_def demo_visit_def demo_gate_def
        is_ascii_def less_char_def)
  obtain c where c: "auth_verify plain_jwt (NewAuthenticator demo_token_issuer demo_config) (seconds 9) ?reqA (queueToken ?reqA) KindQueue = Inr c"
    "cm_EventID c = ''ev''" "cm_TokenID c = demo_id" "cm_Shard c = demo_place"
    by (rule gate_token_accepted [OF plain_jwt_ok demo_gate_def gv id(1) asc, of ?reqA "seconds 9"])
      (simp_all add: demo_visit_def demo_gate_wires_def Truncate_second_def demo_token_issuer_def demo_config_def)
  have tok: "tokens_of demo_config = demo_token_issuer"
    by (simp add: demo_config_def default_config_def default_Token_def demo_token_issuer_def Bytes_def)
  have ne: "demo_id \<noteq> ''''" using length_RawURLEncoding [of "replicate 16 (CHR ''a'')"] by auto
  have pl: "Validate demo_place = None" by (rule Assign_valid) (simp_all add: demo_assigner_def)
  obtain res r1 where adm: "Admit good_net (seconds 9) (AConfig_from demo_config) demo_place demo_id demo_id
      (demo_line demo_place demo_id) = (Inr res, r1)"
    "rs_Status res = ''admitted''" "rs_Rank res = 0" "rs_JTI res = demo_id" by (rule demo_Admit [OF pl ne ne])
  obtain ejws ecl where iss: "Issue_token plain_jwt demo_token_issuer (seconds 9)
      \<lparr>cm_Kind = KindEntry, cm_EventID = ''ev'', cm_TokenID = demo_id, cm_JTI = demo_id, cm_Shard = demo_place,
       cm_FPHash = cm_FPHash c, cm_IPPrefix = cm_IPPrefix c, cm_IssuedAt = zero_time, cm_ExpiresAt = zero_time\<rparr> = Inr (ejws, ecl)"
    using ne pl by (auto simp: Issue_token_def Let_def demo_token_issuer_def KindEntry_def KindQueue_def plain_jwt_def
        plain_Sign_def Truncate_second_def TTL_def Validate_None)
  have as: "as_api a = NewAdmissionAPI (AConfig_from demo_config) demo_token_issuer demo_config"
    using run_admission_parts [OF sv(3)] by (simp only: tok)
  obtain ans evsA where red: "redeem plain_jwt random_as demo_api_wires (as_api a) ?reqA (demo_line demo_place demo_id)
      = (Reply 200 ans, evsA, r1)" "rd_Status ans = ''admitted''" "rd_Rank ans = 0"
    using adm iss c id(2)
    by - (rule that, simp add: redeem_def as NewAdmissionAPI_def demo_api_wires_def Let_def, simp, simp)
  have "\<exists>x r2 db2. create plain_jwt (demo_shop_wires Delivered) s
       (demo_visit\<lparr>hr_EntryToken := rd_EntryToken ans, hr_IdempotencyKey := ''k1''\<rparr>) (Inr demo_order) (r1, no_orders)
       = (Reply 201 x, r2, db2) \<and> op_AccountID x = oq_AccountID demo_order \<and> op_Qty x = 1"
    by (rule served_user_can_buy [OF plain_jwt_ok sv(1,3,4) gv [folded sv(2)] id(1) _ _ _ _ _ _ id(2) red(1,2)])
      (use asc in \<open>simp_all add: sv(2) red(3) tok [symmetric] demo_visit_def demo_shop_wires_def demo_order_def
        no_orders_def demo_api_wires_def demo_gate_wires_def Truncate_second_def demo_config_def default_config_def
        default_Token_def\<close>)
  moreover have "oq_AccountID demo_order = ''acct''" by (simp add: demo_order_def)
  ultimately show ?thesis using sv gv red(1,2) by auto
qed

end
