(* ===== verification/Detection.thy ===== *)
theory Detection
  imports Services Telemetry
begin

text \<open>
  The scorer service at work (\<open>src/cmd/scorer/main.go\<close>): the consumer feeds the scorer event by
  event (\<open>Consumer.Run\<close>), every tick flushes it and hands the decisions to the actuator
  (\<open>Scorer.Run\<close>), and the rest of the system changes Redis in between.
\<close>

section \<open>The loops\<close>

text \<open>
  One event of the service: the consumer reads, the ticker fires (with the order of the maps, the
  readings of the two clocks and the fate of the calls for each decision), or Redis has changed.
\<close>

datatype service_step =
    Read_step read
  | Tick_step iteration "Signals \<Rightarrow> Signals" gotime gotime "nat \<Rightarrow> wires"
  | Elsewhere_step redis

definition with_wires :: "(nat \<Rightarrow> wires) \<Rightarrow> Decision list \<Rightarrow> (wires \<times> Decision) list" where
  "with_wires ws ds = map (\<lambda>i. (ws i, ds ! i)) [0 ..< length ds]"

definition scorer_tick :: "Actuator \<Rightarrow> iteration \<Rightarrow> (Signals \<Rightarrow> Signals) \<Rightarrow> gotime \<Rightarrow> gotime \<Rightarrow> (nat \<Rightarrow> wires) \<Rightarrow>
    Scorer \<times> redis \<Rightarrow> (sink_call list \<times> Scorer \<times> redis) option" where
  "scorer_tick a it ord now applied_at ws sr =
    (case sr of (s, r) \<Rightarrow>
      (case Flush it ord now s of
         None \<Rightarrow> None
       | Some (decisions, s') \<Rightarrow>
           if decisions = [] then Some ([], s', r)
           else (case Apply a applied_at (with_wires ws decisions) r of (calls, r') \<Rightarrow> Some (calls, s', r'))))"

fun serve :: "Actuator \<Rightarrow> service_step list \<Rightarrow> Scorer \<times> redis \<Rightarrow> (sink_call list \<times> Scorer \<times> redis) option" where
  "serve a [] sr = Some ([], sr)"
| "serve a (Read_step rd # steps) sr = serve a steps (Consume Observe [rd] (fst sr), snd sr)"
| "serve a (Elsewhere_step r # steps) sr = serve a steps (fst sr, r)"
| "serve a (Tick_step it ord now at' ws # steps) sr =
    (case scorer_tick a it ord now at' ws sr of
       None \<Rightarrow> None
     | Some (calls, sr') \<Rightarrow>
         (case serve a steps sr' of None \<Rightarrow> None | Some (more_calls, sr'') \<Rightarrow> Some (calls @ more_calls, sr'')))"

section \<open>What applying a decision can block\<close>

abbreviation blocked :: "redis \<Rightarrow> key \<Rightarrow> bool" where
  "blocked r k \<equiv> hget r k u_state = Some ''blocked''"

lemma apply_blocked:
  assumes "blocked (snd (apply_action_lua q h s u g t sc act now ttl r)) k"
  shows "blocked r k \<or> k = u \<and> act = ''block''"
proof (cases "k = u")
  case True
  with assms show ?thesis
    by (auto simp: apply_action_lua_def Let_def hget_def redis_simps split: option.splits if_splits)
next
  case False
  with assms show ?thesis
    by (auto simp: apply_action_lua_def Let_def hget_def redis_simps split: option.splits if_splits)
qed

lemma move_blocked:
  assumes "blocked (snd (move_shard_lua f t' s u t g sc now ttl r)) k"
  shows "blocked r k"
proof (cases "k = u")
  case True
  with assms show ?thesis
    by (auto simp: move_shard_lua_def Let_def hget_def redis_simps split: option.splits if_splits)
next
  case False
  with assms show ?thesis
    by (auto simp: move_shard_lua_def Let_def hget_def redis_simps split: option.splits if_splits)
qed

lemma restore_blocked:
  assumes "blocked (snd (restore_shard_lua q g h u t sid now ttl r)) k"
  shows "blocked r k"
  using assms
  by (cases "k = u") (auto simp: restore_shard_lua_def Let_def hget_def redis_simps split: option.splits if_splits)

text \<open>Whatever the network does, a call runs its script at most once.\<close>

lemma loaded_blocked [simp]: "blocked (r\<lparr>loaded := L\<rparr>) k \<longleftrightarrow> blocked r k"
  by (simp add: hget_def user_get_def live_def)

lemma run_script_blocked:
  assumes "blocked (snd (run_script n name body r)) k" "\<And>r. blocked (snd (body r)) k \<Longrightarrow> blocked r k \<or> Q"
  shows "blocked r k \<or> Q"
proof -
  have "snd (run_script n name body r) = snd (Run n (NewActionScript name body) r)"
    by (simp add: run_script_def split: prod.split sum.split)
  moreover have "\<exists>L. snd (Run n (NewActionScript name body) r) = r\<lparr>loaded := L\<rparr> \<or>
      snd (Run n (NewActionScript name body) r) = snd (body (r\<lparr>loaded := L\<rparr>))"
    using Run_once [where n = n and sc = "NewActionScript name body" and r = r]
    by (auto simp: NewActionScript_def split: prod.splits sum.splits) (metis snd_conv)+
  ultimately obtain L where "snd (run_script n name body r) = r\<lparr>loaded := L\<rparr> \<or>
      snd (run_script n name body r) = snd (body (r\<lparr>loaded := L\<rparr>))" by auto
  with assms loaded_blocked show ?thesis by metis
qed

lemma raise_one_hget: "hget (raise_one w a subj r) k f = hget r k f"
  by (auto simp: raise_one_def Let_def incr_by_def expire_counter_def hget_def user_get_def live_def
      split: link.split option.split)

lemma raise_suspicion_hget [simp]: "hget (raiseSuspicion w a d r) k f = hget r k f"
proof -
  have "hget (fold (raise_one w a) ss r) k f = hget r k f" for ss
    by (induction ss arbitrary: r) (simp_all add: raise_one_hget)
  then show ?thesis by (simp add: raiseSuspicion_def)
qed

lemma applyOne_blocked:
  assumes "blocked (snd (applyOne w a now d r)) k"
  shows "blocked r k \<or> (k = User (an_eventID a) (dc_Shard d) (dc_TokenID d) \<and> dc_Action d = ActionBlock)"
proof -
  let ?Q = "k = User (an_eventID a) (dc_Shard d) (dc_TokenID d) \<and> dc_Action d = ActionBlock"
  have ap: "blocked r k \<or> k = User (an_eventID a) (dc_Shard d) (dc_TokenID d) \<and> act = ''block''"
    if "blocked (snd (runApply n a now d act r)) k" for n act
    using that run_script_blocked [OF _ apply_blocked]
    by (fastforce simp: runApply_def Let_def split: sum.splits)
  have mv: "blocked r k" if b: "blocked (snd (move w a now d r)) k" "dc_Action d = ActionGreylist"
  proof -
    have "blocked r k \<or> False" if "blocked (snd (run_script n nm (move_shard_lua f t' s u t g sc nw ttl) r)) k"
      for n nm f t' s u t g sc nw ttl
      by (rule run_script_blocked [OF that]) (blast dest: move_blocked)
    with b ap show ?thesis
      by (auto simp: move_def Let_def split: sum.splits prod.splits if_splits) (metis snd_conv)+
  qed
  have rs: "blocked r k" if b: "blocked (snd (restore n a now d r)) k" for n
  proof -
    have "blocked r k \<or> False" if "blocked (snd (run_script n nm (restore_shard_lua q g h u t sid nw ttl) r)) k"
      for n nm q g h u t sid nw ttl
      by (rule run_script_blocked [OF that]) (blast dest: restore_blocked)
    with b show ?thesis by (auto simp: restore_def Let_def split: sum.splits)
  qed
  have "blocked (snd (perform w a now d r)) k \<or> blocked r k"
    using assms by (auto simp: applyOne_def split: option.splits prod.splits sum.splits)
  then show ?thesis
    using ap mv rs by (cases "dc_Action d") (auto simp: perform_def)
qed

lemma Apply_blocked:
  assumes "blocked (snd (Apply a now ds r)) k"
  shows "blocked r k \<or> (\<exists>(w, d) \<in> set ds. k = User (an_eventID a) (dc_Shard d) (dc_TokenID d) \<and> dc_Action d = ActionBlock)"
  using assms
proof (induction ds arbitrary: r)
  case (Cons wd ds)
  obtain w d where wd: "wd = (w, d)" by force
  obtain res r1 where o: "applyOne w a now d r = (res, r1)" by force
  from Cons.prems have "blocked (snd (Apply a now ds r1)) k" by (simp add: wd o Let_def split: prod.splits)
  with Cons.IH [of r1] applyOne_blocked [of w a now d r k] show ?case by (auto simp: wd o)
qed simp

section \<open>The service and its scorer\<close>

text \<open>What the scorer goes through in a run of the service.\<close>

fun scorer_ops :: "service_step \<Rightarrow> scorer_op list" where
  "scorer_ops (Read_step (Msg v)) = (case Decode v of None \<Rightarrow> [] | Some e \<Rightarrow> [Observe_op e])"
| "scorer_ops (Read_step _) = []"
| "scorer_ops (Elsewhere_step r) = []"
| "scorer_ops (Tick_step it ord now at' ws) = [Flush_op it ord now]"

fun step_fair :: "service_step \<Rightarrow> bool" where
  "step_fair (Tick_step it ord now at' ws) \<longleftrightarrow> fair it \<and> (\<forall>sig. mset (ord sig) = mset sig)"
| "step_fair _ \<longleftrightarrow> True"

lemma serve_scorer_run:
  assumes "serve a steps (s0, r0) = Some (calls, s, r)"
  obtains ds where "scorer_run (concat (map scorer_ops steps)) s0 = Some (ds, s)"
proof -
  have "\<exists>ds. scorer_run (concat (map scorer_ops steps)) s0 = Some (ds, s)"
    using assms
  proof (induction a steps "(s0, r0)" arbitrary: s0 r0 calls rule: serve.induct)
    case (2 a rd steps)
    then show ?case by (cases rd) (auto split: option.splits)
  next
    case (4 a it ord now at' ws steps)
    then obtain c1 s1 r1 c2 where t: "scorer_tick a it ord now at' ws (s0, r0) = Some (c1, s1, r1)"
      "serve a steps (s1, r1) = Some (c2, s, r)" by (auto split: option.splits)
    then obtain ds where "Flush it ord now s0 = Some (ds, s1)"
      by (auto simp: scorer_tick_def split: option.splits if_splits prod.splits)
    moreover obtain ds2 where "scorer_run (concat (map scorer_ops steps)) s1 = Some (ds2, s)"
      using 4(1) [OF t(1)] t(2) by auto
    ultimately show ?case by simp
  qed auto
  with that show thesis by blast
qed

lemma scorer_run_append:
  "scorer_run (ops1 @ ops2) s =
    (case scorer_run ops1 s of None \<Rightarrow> None
     | Some (ds1, s1) \<Rightarrow> map_option (\<lambda>(ds2, s2). (ds1 @ ds2, s2)) (scorer_run ops2 s1))"
  by (induction ops1 s rule: scorer_run.induct) (auto split: option.splits simp: option.map_id)

lemma fair_ops: "list_all step_fair steps \<Longrightarrow> list_all op_fair (concat (map scorer_ops steps))"
proof (induction steps)
  case (Cons st steps)
  then show ?case by (cases st rule: scorer_ops.cases) (auto split: option.splits)
qed simp

text \<open>
  C6. Nobody is blocked on one signal.  In any run of the scorer service, started from a validated
  configuration, whatever it reads, however the maps are iterated, whatever the network does to
  its calls and whatever others do to Redis: when a tick makes the state of a user \<open>blocked\<close>, the
  flush of that tick decided so for that user, at a score not below the block threshold and with
  at least \<open>MinSignalsToBlock\<close>, so at least two, different signals pointing at the user.
\<close>

theorem blocked_with_consensus:
  assumes "run_scorer up cfg = Inr b" "serve (sx_actuator b) steps (sx_scorer b, r0) = Some (calls, s, r)"
    "scorer_tick (sx_actuator b) it ord now applied_at ws (s, r) = Some (calls', s', r')"
    "list_all step_fair (steps @ [Tick_step it ord now applied_at ws])"
    "hget r k u_state \<noteq> Some ''blocked''" "hget r' k u_state = Some ''blocked''"
  shows "\<exists>ds d. Flush it ord now s = Some (ds, s') \<and> d \<in> set ds \<and> dc_Action d = ActionBlock \<and>
    k = User (ev_ID (cf_Event cfg)) (dc_Shard d) (dc_TokenID d) \<and>
    float_of (bs_Block (cf_BotScore cfg)) \<le> dc_Score d \<and>
    bs_MinSignalsToBlock (cf_BotScore cfg) \<le> int (card (pointing (cf_BotScore cfg) (dc_Signals d))) \<and>
    2 \<le> card (pointing (cf_BotScore cfg) (dc_Signals d))"
proof -
  let ?cfg = "cf_BotScore cfg"
  have b: "sx_scorer b = NewScorer ?cfg" "an_eventID (sx_actuator b) = ev_ID (cf_Event cfg)" "Validate_config cfg = []"
    using assms(1) by (auto simp: run_scorer_def Let_def split: if_splits)
  obtain ds0 where run: "scorer_run (concat (map scorer_ops steps)) (NewScorer ?cfg) = Some (ds0, s)"
    using assms(2) serve_scorer_run b(1) by metis
  obtain ds where ds: "Flush it ord now s = Some (ds, s')"
    and r': "ds \<noteq> [] \<Longrightarrow> r' = snd (Apply (sx_actuator b) applied_at (with_wires ws ds) r)" "ds = [] \<Longrightarrow> r' = r"
    using assms(3) by (auto simp: scorer_tick_def split: option.splits if_splits prod.splits)
  have run2: "scorer_run (concat (map scorer_ops steps) @ [Flush_op it ord now]) (NewScorer ?cfg) = Some (ds0 @ ds, s')"
    by (simp add: scorer_run_append run ds)
  have fair: "list_all op_fair (concat (map scorer_ops steps) @ [Flush_op it ord now])"
    using assms(4) fair_ops by simp
  from assms(5,6) r' have ne: "ds \<noteq> []" and "blocked (snd (Apply (sx_actuator b) applied_at (with_wires ws ds) r)) k" by auto
  then obtain w d where "(w, d) \<in> set (with_wires ws ds)" and d: "dc_Action d = ActionBlock"
    "k = User (ev_ID (cf_Event cfg)) (dc_Shard d) (dc_TokenID d)"
    using Apply_blocked assms(5) b(2) by force
  then have mem: "d \<in> set ds" by (auto simp: with_wires_def)
  have j: "justified ?cfg d"
    using justly.from_start(1) [OF run2 _ fair] mem by simp
  then have "float_of (bs_Block ?cfg) \<le> dc_Score d" "bs_MinSignalsToBlock ?cfg \<le> int (card (pointing ?cfg (dc_Signals d)))"
    using d(1) by (auto simp: justified_def next_rung_def split: if_splits)
  moreover have "2 \<le> bs_MinSignalsToBlock ?cfg" using Validate_scoring [OF b(3)] by (simp add: scoring_ok_def)
  ultimately show ?thesis using ds mem d by fastforce
qed

section \<open>A concrete block\<close>

text \<open>Two users with one device behind one address, judged by a hasty configuration.\<close>

definition hasty_score :: BotScore_cfg where
  "hasty_score = default_BotScore\<lparr>bs_Greylist := 10, bs_Hold := 20, bs_Block := 30, bs_RechallengePassScore := 5,
     bs_MinSamples := 1, bs_FPGroupCap := 2, bs_IPGroupCap := 2, bs_Decay := 1 / 2,
     bs_Weights := \<lparr>wt_Heartbeat = 0, wt_Correlation = 0, wt_Fingerprint = 1 / 2, wt_IPPrefix = 1 / 2, wt_PoW = 0\<rparr>\<rparr>"

definition hasty_config :: Config where
  "hasty_config = (default_config (Secret_of ''k''))\<lparr>cf_BotScore := hasty_score\<rparr>"

definition twin :: "token \<Rightarrow> read" where
  "twin t = Msg (Some ((demo_event KindHeartbeat t 1000000000)\<lparr>e_FPHash := ''fp'', e_IPPrefix := ''10.0.0.0/24''\<rparr>))"

definition twins_wait :: redis where
  "twins_wait = empty_redis\<lparr>users := [User ''demo'' ''s0000'' ''a'' \<mapsto> (no_user\<lparr>u_state := Some ''waiting''\<rparr>, None)]\<rparr>"

definition hasty_actuator :: Actuator where
  "hasty_actuator = \<lparr>an_cfg = hasty_score, an_userTTL = 7200000000000, an_eventID = ''demo'', an_sink = True\<rparr>"

abbreviation "twins_read \<equiv> [Read_step (twin ''a''), Read_step (twin ''b'')]"
abbreviation "twins_seen \<equiv> Consume Observe [twin ''b''] (Consume Observe [twin ''a''] (NewScorer hasty_score))"

lemma hasty_service:
  obtains b where "run_scorer True hasty_config = Inr b" "sx_scorer b = NewScorer hasty_score" "sx_actuator b = hasty_actuator"
proof -
  have "Validate_config hasty_config = []" by code_simp
  then show thesis
    by (intro that [of "\<lparr>sx_scorer = NewScorer hasty_score, sx_actuator = hasty_actuator, sx_consumes = True\<rparr>"])
      (simp_all add: run_scorer_def start_step_def app_New_def RequireSecrets_def Let_def hasty_config_def default_config_def
        default_Event_def default_Postgres_def default_Kafka_def default_Token_def IsZero_def hasty_actuator_def)
qed

lemma hasty_blocks:
  "case scorer_tick hasty_actuator no_shuffle (\<lambda>sig. sig) 2000000000 2000000000 (\<lambda>_. demo_wires) (twins_seen, twins_wait) of
     None \<Rightarrow> False | Some (_, _, r') \<Rightarrow> hget r' (User ''demo'' ''s0000'' ''a'') u_state = Some ''blocked''"
  by code_simp

theorem blocked_with_consensus_witness:
  "\<exists>b calls s calls' s' r' ds d. run_scorer True hasty_config = Inr b \<and>
     serve (sx_actuator b) twins_read (sx_scorer b, twins_wait) = Some (calls, s, twins_wait) \<and>
     scorer_tick (sx_actuator b) no_shuffle (\<lambda>sig. sig) 2000000000 2000000000 (\<lambda>_. demo_wires) (s, twins_wait) =
       Some (calls', s', r') \<and> hget r' (User ''demo'' ''s0000'' ''a'') u_state = Some ''blocked'' \<and>
     Flush no_shuffle (\<lambda>sig. sig) 2000000000 s = Some (ds, s') \<and> d \<in> set ds \<and> dc_Action d = ActionBlock \<and>
     2 \<le> card (pointing hasty_score (dc_Signals d))"
proof -
  obtain b where b: "run_scorer True hasty_config = Inr b" "sx_scorer b = NewScorer hasty_score" "sx_actuator b = hasty_actuator"
    by (rule hasty_service)
  have s: "serve (sx_actuator b) twins_read (sx_scorer b, twins_wait) = Some ([], twins_seen, twins_wait)"
    unfolding b(2) serve.simps fst_conv snd_conv ..
  obtain calls' s' r' where t: "scorer_tick (sx_actuator b) no_shuffle (\<lambda>sig. sig) 2000000000 2000000000 (\<lambda>_. demo_wires)
      (twins_seen, twins_wait) = Some (calls', s', r')"
    and k: "hget r' (User ''demo'' ''s0000'' ''a'') u_state = Some ''blocked''"
    using hasty_blocks unfolding b(3) by (auto split: option.splits)
  have f: "list_all step_fair (twins_read @ [Tick_step no_shuffle (\<lambda>sig. sig) 2000000000 2000000000 (\<lambda>_. demo_wires)])"
    by (simp add: no_shuffle_fair)
  have n: "hget twins_wait (User ''demo'' ''s0000'' ''a'') u_state \<noteq> Some ''blocked''"
    by (simp add: twins_wait_def hget_def user_get_def live_def alive_def)
  have c: "cf_BotScore hasty_config = hasty_score" by (simp add: hasty_config_def)
  from blocked_with_consensus [OF b(1) s t f n k] show ?thesis
    unfolding c using b(1) s t k by blast
qed

end
