(* ===== verification/Address.thy ===== *)
theory Address
  imports Token "HOL-Library.Word"
begin

text \<open>
  The address of a client (\<open>src/internal/httpx/ip.go\<close>): which header names it, and the network
  prefix that is all the services keep of it.  The parts of \<open>net\<close> and \<open>net/netip\<close> the code
  calls are written out: \<open>SplitHostPort\<close>, \<open>ParseAddr\<close>, \<open>Unmap\<close>, \<open>Prefix\<close> and its text.
\<close>

unbundle bit_operations_syntax

section \<open>Addresses\<close>

text \<open>The zero \<open>netip.Addr\<close>, IPv4 addresses, and IPv6 addresses with their zone.\<close>

datatype Addr = NoAddr | Addr4 "32 word" | Addr6 "128 word" string

definition Is6 :: "Addr \<Rightarrow> bool" where
  "Is6 a = (case a of Addr6 _ _ \<Rightarrow> True | _ \<Rightarrow> False)"

text \<open>IPv4 addresses mapped into IPv6, \<open>::ffff:0:0/96\<close>.\<close>

definition mapped4 :: "128 word \<Rightarrow> bool" where
  "mapped4 w \<longleftrightarrow> drop_bit 32 w = 0xffff"

definition Unmap :: "Addr \<Rightarrow> Addr" where
  "Unmap a = (case a of Addr6 w z \<Rightarrow> if mapped4 w then Addr4 (ucast w) else a | _ \<Rightarrow> a)"

definition of_bytes :: "int list \<Rightarrow> 'a::len word" where
  "of_bytes bs = word_of_int (foldl (\<lambda>n b. n * 256 + b) 0 bs)"

text \<open>Four decimal fields: \<open>dot\<close> holds at the start and after a dot, \<open>n\<close> counts the digits of the field.\<close>

fun parse4 :: "string \<Rightarrow> bool \<Rightarrow> int \<Rightarrow> nat \<Rightarrow> int list \<Rightarrow> int list option" where
  "parse4 [] dot val n fs = (if length fs < 3 then None else Some (fs @ [val]))"
| "parse4 (c # s) dot val n fs =
    (if is_digit c then
       (if n = 1 \<and> val = 0 then None
        else let val = val * 10 + the (Config.hex_val c)
             in if val > 255 then None else parse4 s False val (n + 1) fs)
     else if c = CHR ''.'' then
       (if dot \<or> s = [] then None
        else if length fs = 3 then None
        else parse4 s True 0 0 (fs @ [val]))
     else None)"

definition parseIPv4 :: "string \<Rightarrow> Addr option" where
  "parseIPv4 s = map_option (\<lambda>bs. Addr4 (of_bytes bs)) (parse4 s True 0 0 [])"

definition hex_int :: "string \<Rightarrow> int" where
  "hex_int s = foldl (\<lambda>n c. n * 16 + the (Config.hex_val c)) 0 s"

text \<open>The end of the loop: \<open>s\<close> is what is left, \<open>ip\<close> the bytes read, \<open>ell\<close> where \<open>::\<close> stood.\<close>

definition finish6 :: "string \<Rightarrow> int list \<Rightarrow> nat option \<Rightarrow> int list option" where
  "finish6 s ip ell =
    (if s \<noteq> [] then None
     else if length ip < 16 then
       (case ell of None \<Rightarrow> None
        | Some e \<Rightarrow> Some (take e ip @ replicate (16 - length ip) 0 @ drop e ip))
     else if ell \<noteq> None then None else Some ip)"

function groups6 :: "string \<Rightarrow> int list \<Rightarrow> nat option \<Rightarrow> int list option" where
  "groups6 s ip ell =
    (if length ip \<ge> 16 then finish6 s ip ell
     else
     let h = takeWhile (\<lambda>c. Config.hex_val c \<noteq> None) s; rest = drop (length h) s
     in if length h > 4 \<or> h = [] then None
     else if rest \<noteq> [] \<and> hd rest = CHR ''.'' then
       (if ell = None \<and> length ip \<noteq> 12 then None
        else if length ip + 4 > 16 then None
        else case parse4 s True 0 0 [] of
               None \<Rightarrow> None
             | Some bs \<Rightarrow> finish6 [] (ip @ bs) ell)
     else
     let ip = ip @ [hex_int h div 256, hex_int h mod 256]
     in case rest of
          [] \<Rightarrow> finish6 [] ip ell
        | c # s2 \<Rightarrow>
            if c \<noteq> CHR '':'' then None
            else if s2 = [] then None
            else if hd s2 = CHR '':'' then
              (if ell \<noteq> None then None
               else if tl s2 = [] then finish6 [] ip (Some (length ip))
               else groups6 (tl s2) ip (Some (length ip)))
            else groups6 s2 ip ell)"
  by pat_completeness auto

termination
  by (relation "measure (\<lambda>(s, ip, ell). length s)") (auto simp: tl_drop dest!: arg_cong [where f = length])

declare groups6.simps [simp del]

text \<open>\<open>Index\<close> and \<open>last\<close> of a character, cutting a text at it.\<close>

definition cut_at :: "char \<Rightarrow> string \<Rightarrow> (string \<times> string) option" where
  "cut_at c s = (if c \<in> set s then Some (takeWhile (\<lambda>x. x \<noteq> c) s, tl (dropWhile (\<lambda>x. x \<noteq> c) s)) else None)"

definition cut_last :: "char \<Rightarrow> string \<Rightarrow> (string \<times> string) option" where
  "cut_last c s = map_option (\<lambda>(a, b). (rev b, rev a)) (cut_at c (rev s))"

definition parseIPv6 :: "string \<Rightarrow> Addr option" where
  "parseIPv6 s0 =
    (let (s, zone) = (case cut_at (CHR ''%'') s0 of None \<Rightarrow> (s0, None) | Some (a, b) \<Rightarrow> (a, Some b))
     in if zone = Some '''' then None
     else
     let zone = (case zone of None \<Rightarrow> '''' | Some z \<Rightarrow> z);
         start = take 2 s = ''::''; s = (if start then drop 2 s else s)
     in if start \<and> s = [] then Some (Addr6 0 zone)
     else map_option (\<lambda>bs. Addr6 (of_bytes bs) zone) (groups6 s [] (if start then Some 0 else None)))"

definition ParseAddr :: "string \<Rightarrow> Addr option" where
  "ParseAddr s =
    (case find (\<lambda>c. c \<in> {CHR ''.'', CHR '':'', CHR ''%''}) s of
       None \<Rightarrow> None
     | Some c \<Rightarrow> if c = CHR ''.'' then parseIPv4 s else if c = CHR '':'' then parseIPv6 s else None)"

text \<open>\<open>net.SplitHostPort\<close>, of which the code uses the host only.\<close>

definition SplitHost :: "string \<Rightarrow> string option" where
  "SplitHost hp =
    (case cut_last (CHR '':'') hp of
       None \<Rightarrow> None
     | Some (before, port) \<Rightarrow>
         if hd hp = CHR ''['' then
           (case cut_at (CHR '']'') (tl hp) of
              None \<Rightarrow> None
            | Some (host, after) \<Rightarrow>
                if after \<noteq> CHR '':'' # port then None
                else if CHR ''['' \<in> set (tl hp) \<or> CHR '']'' \<in> set port then None
                else Some host)
         else if CHR '':'' \<in> set before then None
         else if CHR ''['' \<in> set hp \<or> CHR '']'' \<in> set hp then None
         else Some before)"

section \<open>The client\<close>

text \<open>The request as \<open>ClientIP\<close> sees it: \<open>Header.Get\<close> and the address of the peer.\<close>

record client =
  ci_header :: "string \<Rightarrow> string"
  ci_RemoteAddr :: string

definition from_header :: "client \<Rightarrow> string \<Rightarrow> Addr option" where
  "from_header r h =
    (let v = TrimSpace (ci_header r h)
     in if v = '''' then None else map_option Unmap (ParseAddr v))"

definition from_forwarded :: "client \<Rightarrow> Addr option" where
  "from_forwarded r =
    (let v = ci_header r ''X-Forwarded-For''
     in if v = '''' then None
        else map_option Unmap (ParseAddr (TrimSpace
          (case cut_at (CHR '','') v of None \<Rightarrow> v | Some (first, _) \<Rightarrow> first))))"

definition from_peer :: "client \<Rightarrow> Addr option" where
  "from_peer r =
    map_option Unmap (ParseAddr (case SplitHost (ci_RemoteAddr r) of None \<Rightarrow> ci_RemoteAddr r | Some host \<Rightarrow> host))"

fun first_of :: "'a option list \<Rightarrow> 'a option" where
  "first_of [] = None"
| "first_of (x # xs) = (case x of Some a \<Rightarrow> Some a | None \<Rightarrow> first_of xs)"

definition ClientIP :: "client \<Rightarrow> Addr" where
  "ClientIP r =
    (case first_of (map (from_header r) [''CF-Connecting-IP'', ''True-Client-IP'', ''X-Real-IP''] @
        [from_forwarded r, from_peer r]) of
       Some a \<Rightarrow> a | None \<Rightarrow> NoAddr)"

section \<open>The prefix\<close>

definition keep :: "nat \<Rightarrow> nat \<Rightarrow> 'a::len word \<Rightarrow> 'a word" where
  "keep w b x = push_bit (w - b) (drop_bit (w - b) x)"

text \<open>\<open>netip.Addr.Prefix\<close>: the bits behind the prefix are cleared and the zone is dropped.\<close>

definition Prefix :: "Addr \<Rightarrow> int \<Rightarrow> Addr option" where
  "Prefix a b =
    (if b < 0 then None
     else case a of
       NoAddr \<Rightarrow> Some NoAddr
     | Addr4 x \<Rightarrow> if b > 32 then None else Some (Addr4 (keep 32 (nat b) x))
     | Addr6 x z \<Rightarrow> if b > 128 then None else Some (Addr6 (keep 128 (nat b) x) ''''))"

definition dotted :: "32 word \<Rightarrow> string" where
  "dotted x = Itoa (uint (drop_bit 24 x)) @ ''.'' @ Itoa (uint (drop_bit 16 x) mod 256) @ ''.'' @
    Itoa (uint (drop_bit 8 x) mod 256) @ ''.'' @ Itoa (uint x mod 256)"

definition hex_digit :: "int \<Rightarrow> char" where
  "hex_digit d = (if d < 10 then char_of (48 + d) else char_of (87 + d))"

text \<open>A group without leading zeros.\<close>

definition hex_group :: "int \<Rightarrow> string" where
  "hex_group v =
    (let ds = dropWhile (\<lambda>d. d = 0) [v div 4096 mod 16, v div 256 mod 16, v div 16 mod 16]
     in map hex_digit (ds @ [v mod 16]))"

definition group6 :: "128 word \<Rightarrow> nat \<Rightarrow> int" where
  "group6 x i = uint (drop_bit (112 - 16 * i) x) mod 65536"

text \<open>The first longest run of at least two zero groups is written \<open>::\<close>.\<close>

definition zero_run :: "128 word \<Rightarrow> nat \<Rightarrow> nat" where
  "zero_run x i = length (takeWhile (\<lambda>j. group6 x j = 0) [i ..< 8])"

definition longest_run :: "128 word \<Rightarrow> (nat \<times> nat) option" where
  "longest_run x = fold (\<lambda>i best. let l = zero_run x i
     in if l \<ge> 2 \<and> l > (case best of None \<Rightarrow> 0 | Some (_, m) \<Rightarrow> m) then Some (i, l) else best) [0 ..< 8] None"

fun colons :: "string list \<Rightarrow> string" where
  "colons [] = ''''"
| "colons [g] = g"
| "colons (g # gs) = g @ '':'' @ colons gs"

definition text6 :: "128 word \<Rightarrow> string" where
  "text6 x =
    (let g = \<lambda>i. hex_group (group6 x i)
     in case longest_run x of
          None \<Rightarrow> colons (map g [0 ..< 8])
        | Some (i, l) \<Rightarrow> colons (map g [0 ..< i]) @ ''::'' @ colons (map g [i + l ..< 8]))"

definition Prefix_String :: "Addr \<Rightarrow> int \<Rightarrow> string" where
  "Prefix_String a b =
    (case a of
       NoAddr \<Rightarrow> ''invalid Prefix''
     | Addr4 x \<Rightarrow> dotted x @ ''/'' @ Itoa b
     | Addr6 x z \<Rightarrow> (if mapped4 x then ''::ffff:'' @ dotted (ucast x) else text6 x) @ ''/'' @ Itoa b)"

definition IPPrefix :: "Addr \<Rightarrow> int \<Rightarrow> int \<Rightarrow> string" where
  "IPPrefix addr v4bits v6bits =
    (if addr = NoAddr then ''''
     else let b = (if Is6 addr then v6bits else v4bits)
          in case Prefix addr b of None \<Rightarrow> '''' | Some p \<Rightarrow> Prefix_String p b)"

section \<open>What the prefix tells\<close>

lemma keep_eq_iff: "keep w b x = keep w b y \<longleftrightarrow> drop_bit (w - b) x = drop_bit (w - b) y" if "w \<le> LENGTH('a)"
  for x y :: "'a::len word"
proof
  have d: "drop_bit (w - b) (keep w b z) = drop_bit (w - b) z" for z :: "'a word"
    using that by (intro bit_eqI) (auto simp: keep_def bit_simps dest: bit_imp_le_length)
  assume "keep w b x = keep w b y"
  then show "drop_bit (w - b) x = drop_bit (w - b) y" by (metis d)
qed (simp add: keep_def)

lemma cut_unique:
  "c \<notin> set a \<Longrightarrow> c \<notin> set a' \<Longrightarrow> a @ c # b = a' @ c # b' \<longleftrightarrow> a = a' \<and> b = b'"
  by (induction a arbitrary: a') (case_tac a'; auto)+

lemma Itoa_plain: "0 \<le> n \<Longrightarrow> CHR ''.'' \<notin> set (Itoa n)" "0 \<le> n \<Longrightarrow> CHR ''/'' \<notin> set (Itoa n)"
  using show_nat_digits [of "nat n"] by (auto simp: Itoa_nonneg list_all_iff is_digit_def)

lemma bytes_int:
  fixes n :: int
  shows "n = n div 16777216 * 16777216 + n div 65536 mod 256 * 65536 + n div 256 mod 256 * 256 + n mod 256"
proof -
  have "n div 65536 div 256 = n div 16777216" "n div 256 div 256 = n div 65536"
    using zdiv_zmult2_eq [of 256 n 65536] zdiv_zmult2_eq [of 256 n 256] by simp_all
  then show ?thesis
    using div_mult_mod_eq [of "n div 65536" 256] div_mult_mod_eq [of "n div 256" 256] div_mult_mod_eq [of n 256]
    by linarith
qed

lemma uint_drop_bit: "uint (drop_bit n x) = uint x div 2 ^ n" for x :: "'a::len word"
proof -
  have "unat (drop_bit n x) = unat x div 2 ^ n" by (simp only: unat_drop_bit_eq) (simp add: drop_bit_eq_div)
  then show ?thesis by (simp only: uint_nat zdiv_int of_nat_power of_nat_numeral)
qed

lemma dotted_inj: "dotted x @ CHR ''/'' # s = dotted y @ CHR ''/'' # s' \<longleftrightarrow> x = y \<and> s = s'"
proof
  let ?f = "\<lambda>n. uint (drop_bit n x)" and ?g = "\<lambda>n. uint (drop_bit n y)"
  assume "dotted x @ CHR ''/'' # s = dotted y @ CHR ''/'' # s'"
  then have e: "?f 24 = ?g 24" "?f 16 mod 256 = ?g 16 mod 256" "?f 8 mod 256 = ?g 8 mod 256"
    "uint x mod 256 = uint y mod 256" "s = s'"
    by (simp_all add: dotted_def cut_unique Itoa_plain)
  have "uint x = ?f 24 * 16777216 + ?f 16 mod 256 * 65536 + ?f 8 mod 256 * 256 + uint x mod 256"
    using bytes_int [of "uint x"] by (simp only: uint_drop_bit) simp
  also have "\<dots> = ?g 24 * 16777216 + ?g 16 mod 256 * 65536 + ?g 8 mod 256 * 256 + uint y mod 256"
    by (simp only: e)
  also have "\<dots> = uint y"
    using bytes_int [of "uint y"] by (simp only: uint_drop_bit) simp
  finally have "uint x = uint y" .
  with e(5) show "x = y \<and> s = s'" by (simp add: word_uint_eq_iff)
qed simp

lemma dotted_eq [simp]: "dotted x = dotted y \<longleftrightarrow> x = y"
  using dotted_inj [of x "''''" y "''''"] by auto

text \<open>
  For IPv4 the prefix names the network exactly; for IPv6 nothing but the leading bits goes into it.
\<close>

lemma prefix4_network:
  assumes "0 \<le> b" "b \<le> 32"
  shows "IPPrefix (Addr4 x) b b6 = IPPrefix (Addr4 y) b b6 \<longleftrightarrow> drop_bit (32 - nat b) x = drop_bit (32 - nat b) y"
  using assms by (simp add: IPPrefix_def Is6_def Prefix_def Prefix_String_def keep_eq_iff)

lemma prefix6_network:
  assumes "drop_bit (128 - nat b6) x = drop_bit (128 - nat b6) y"
  shows "IPPrefix (Addr6 x zx) b b6 = IPPrefix (Addr6 y zy) b b6"
proof -
  have "keep 128 (nat b6) x = keep 128 (nat b6) y" using assms by (simp add: keep_def)
  then show ?thesis by (simp add: IPPrefix_def Is6_def Prefix_def)
qed

text \<open>
  C15. A token follows its network: a token bound to the prefix of an IPv4 client stays valid for
  the same device exactly at the addresses that share the leading bits with the address it was
  issued to, whatever headers or connection the addresses come from; and all that is kept of an
  address is these leading bits.
\<close>

theorem token_follows_network:
  assumes "jwt_ok J" "Issue_token J i now c = Inr (jws, c')"
    "list_all is_ascii [ti_issuer i, cm_TokenID c, cm_JTI c, cm_Kind c, cm_EventID c, cm_Shard c, cm_FPHash c, cm_IPPrefix c]"
    "t < Truncate_second (cm_ExpiresAt c')" "cm_IPPrefix c = IPPrefix (ClientIP c1) v4 v6"
    "ClientIP c1 = Addr4 x" "ClientIP c2 = Addr4 y" "0 < v4" "v4 \<le> 32"
  shows "(\<exists>d. VerifyBound J i t jws (cm_Kind c) (cm_EventID c)
      \<lparr>bd_FPHash = cm_FPHash c, bd_IPPrefix = IPPrefix (ClientIP c2) v4 v6\<rparr> = Inr d) \<longleftrightarrow>
    drop_bit (32 - nat v4) x = drop_bit (32 - nat v4) y"
proof -
  have ne: "IPPrefix (Addr4 z) v4 v6 \<noteq> ''''" for z
    using assms(8,9) by (simp add: IPPrefix_def Is6_def Prefix_def Prefix_String_def)
  have "Verify_token J i t jws (cm_Kind c) (cm_EventID c) = Inr (c'\<lparr>cm_ExpiresAt := Truncate_second (cm_ExpiresAt c')\<rparr>)"
    using assms(4) by (simp add: Verify_issued [OF assms(1-3)] Let_def)
  moreover have "cm_FPHash c' = cm_FPHash c" "cm_IPPrefix c' = cm_IPPrefix c"
    by (rule Issue_token_claims [OF assms(1,2)], simp)+
  ultimately show ?thesis
    using prefix4_network [of v4 x v6 y] assms(5-9) ne by (auto simp: VerifyBound_def)
qed

lemma address_examples:
  "IPPrefix (the (ParseAddr ''203.0.113.77'')) 24 48 = ''203.0.113.0/24''"
  "IPPrefix (the (ParseAddr ''2001:db8:1:2::9'')) 24 48 = ''2001:db8:1::/48''"
  "Unmap (the (ParseAddr ''::ffff:10.1.2.3'')) = Addr4 0x0A010203"
  "ParseAddr ''10.01.2.3'' = None" "ParseAddr ''1:2:3'' = None" "ParseAddr ''fe80::1%eth0'' = Some (Addr6 0xfe800000000000000000000000000001 ''eth0'')"
  "SplitHost ''[::1]:80'' = Some ''::1''" "SplitHost ''10.0.0.1:80'' = Some ''10.0.0.1''" "SplitHost ''10.0.0.1'' = None"
  by code_simp+

definition demo_client :: client where
  "demo_client = \<lparr>ci_header = (\<lambda>h. if h = ''CF-Connecting-IP'' then ''203.0.113.77'' else ''''), ci_RemoteAddr = ''10.0.0.1:80''\<rparr>"

definition demo_client2 :: client where
  "demo_client2 = \<lparr>ci_header = (\<lambda>h. if h = ''X-Forwarded-For'' then ''203.0.113.5, 10.9.9.9'' else ''''), ci_RemoteAddr = ''10.0.0.1:80''\<rparr>"

lemma demo_addresses: "ClientIP demo_client = Addr4 0xCB00714D" "ClientIP demo_client2 = Addr4 0xCB007105"
  "IPPrefix (Addr4 0xCB00714D) 24 48 = ''203.0.113.0/24''"
  by code_simp+

theorem token_follows_network_witness:
  "\<exists>jws d. VerifyBound plain_jwt demo_token_issuer (seconds 20) jws KindEntry ''ev''
      \<lparr>bd_FPHash = ''fp'', bd_IPPrefix = IPPrefix (ClientIP demo_client2) 24 48\<rparr> = Inr d"
proof -
  let ?c = "demo_claims\<lparr>cm_IPPrefix := IPPrefix (ClientIP demo_client) 24 48\<rparr>"
  have p: "IPPrefix (ClientIP demo_client) 24 48 = ''203.0.113.0/24''" by (simp add: demo_addresses)
  obtain jws c' where i: "Issue_token plain_jwt demo_token_issuer (seconds 7) ?c = Inr (jws, c')"
    "cm_ExpiresAt c' = seconds 307"
    by (simp add: Issue_token_def Let_def demo_claims_def demo_token_issuer_def KindEntry_def KindQueue_def
      plain_jwt_def plain_Sign_def Truncate_second_def TTL_def)
  have asc: "list_all is_ascii [ti_issuer demo_token_issuer, cm_TokenID ?c, cm_JTI ?c, cm_Kind ?c, cm_EventID ?c,
      cm_Shard ?c, cm_FPHash ?c, cm_IPPrefix ?c]"
    using demo_claims_ascii by (simp add: p) (simp add: is_ascii_def less_char_def)
  have net: "drop_bit (32 - nat 24) (0xCB00714D :: 32 word) = drop_bit (32 - nat 24) 0xCB007105" by code_simp
  have "\<exists>d. VerifyBound plain_jwt demo_token_issuer (seconds 20) jws (cm_Kind ?c) (cm_EventID ?c)
      \<lparr>bd_FPHash = cm_FPHash ?c, bd_IPPrefix = IPPrefix (ClientIP demo_client2) 24 48\<rparr> = Inr d"
    using net
    by (subst token_follows_network [OF plain_jwt_ok i(1) asc _ _ demo_addresses(1,2)])
      (simp_all add: i(2) Truncate_second_def)
  then show ?thesis by (auto simp: demo_claims_def)
qed

end
