(* ===== verification/Serving.thy ===== *)
theory Serving
  imports Http
begin

text \<open>
  What surrounds every handler (\<open>src/internal/httpx/httpx.go\<close>, \<open>src/internal/httpx/middleware.go\<close>,
  \<open>src/internal/httpx/server.go\<close>): errors that become responses, the recovery from panics, the
  request identifier, and the observation of every response by the metrics.  A handler is given by
  what it does to its response writer; the two kinds of writer are a datatype, their methods
  dispatch on it.  Log lines are left out.
\<close>

section \<open>Response writers\<close>

text \<open>
  The writer of \<open>net/http\<close>: the first final status sent stays (an informational one, 1xx but for
  101, goes out ahead of it), writing and flushing send 200 when none was sent before, and so
  does the end of the request.  Codes outside 100 to 999, on which \<open>net/http\<close> panics, are left out.
\<close>

record sent =
  hw_status :: "int option"
  hw_body :: string
  hw_request_id :: string

datatype writer = Raw sent | Wrapped int bool writer \<comment> \<open>\<open>responseWriter\<close>: status, wroteHeader, the writer below\<close>

definition send_header :: "int \<Rightarrow> sent \<Rightarrow> sent" where
  "send_header n w =
    (if hw_status w = None \<and> \<not> (100 \<le> n \<and> n \<le> 199 \<and> n \<noteq> 101) then w\<lparr>hw_status := Some n\<rparr> else w)"

definition send_body :: "string \<Rightarrow> sent \<Rightarrow> sent" where
  "send_body b w = (send_header 200 w)\<lparr>hw_body := hw_body w @ b\<rparr>"

fun WriteHeader :: "int \<Rightarrow> writer \<Rightarrow> writer" where
  "WriteHeader n (Raw w) = Raw (send_header n w)"
| "WriteHeader n (Wrapped st wrote w) = (if wrote then Wrapped st wrote w else Wrapped n True (WriteHeader n w))"

lemma size_WriteHeader [termination_simp]: "size (WriteHeader n w) = size w"
  by (induction n w rule: WriteHeader.induct) simp_all

fun Write :: "string \<Rightarrow> writer \<Rightarrow> writer" where
  "Write b (Raw w) = Raw (send_body b w)"
| "Write b (Wrapped st wrote w) =
    (if wrote then Wrapped st wrote (Write b w) else Wrapped 200 True (Write b (WriteHeader 200 w)))"

fun Flush_writer :: "writer \<Rightarrow> writer" where
  "Flush_writer (Raw w) = Raw (send_header 200 w)"
| "Flush_writer (Wrapped st wrote w) = Wrapped st wrote (Flush_writer w)"

section \<open>Handlers\<close>

datatype ending = Returned | Panicked

record req_ctx =
  cx_request_id :: string
  cx_route :: string
  cx_method :: string

record observed =
  mt_in_flight :: int
  mt_requests :: "(string \<times> string \<times> int) list"

type_synonym http_handler = "req_ctx \<Rightarrow> writer \<times> observed \<Rightarrow> ending \<times> writer \<times> observed"

text \<open>\<open>encode\<close> is the JSON text of an error body.\<close>

definition WriteJSON :: "int \<Rightarrow> string \<Rightarrow> writer \<Rightarrow> writer" where
  "WriteJSON status body w = Write body (WriteHeader status w)"

definition WriteError :: "(string \<Rightarrow> string) \<Rightarrow> api_error option \<Rightarrow> writer \<Rightarrow> writer" where
  "WriteError encode err w =
    (let (status, code) = (case err of Some e \<Rightarrow> e | None \<Rightarrow> (500, ''internal''))
     in WriteJSON status (encode code) w)"

text \<open>
  What the code of a handler does: the calls on its writer, then a normal end, an error (an API
  error, or another one), or a panic.
\<close>

datatype call_on_writer = Do_header int | Do_write string | Do_flush
datatype handler_end = Done | Failed "api_error option" | Panics

fun do_call :: "call_on_writer \<Rightarrow> writer \<Rightarrow> writer" where
  "do_call (Do_header n) w = WriteHeader n w"
| "do_call (Do_write b) w = Write b w"
| "do_call Do_flush w = Flush_writer w"

definition ServeHTTP :: "(string \<Rightarrow> string) \<Rightarrow> call_on_writer list \<Rightarrow> handler_end \<Rightarrow> http_handler" where
  "ServeHTTP encode calls e cx wm =
    (case wm of (w, m) \<Rightarrow>
      (let w' = fold do_call calls w
       in case e of
            Done \<Rightarrow> (Returned, w', m)
          | Failed err \<Rightarrow> (Returned, WriteError encode err w', m)
          | Panics \<Rightarrow> (Panicked, w', m)))"

section \<open>Middleware\<close>

definition Chain :: "http_handler \<Rightarrow> (http_handler \<Rightarrow> http_handler) list \<Rightarrow> http_handler" where
  "Chain h mws = foldr (\<lambda>mw h. mw h) mws h"

text \<open>\<open>incoming\<close> is the header of the request, \<open>fresh\<close> the hexadecimal text of eight random bytes.\<close>

fun set_request_id :: "string \<Rightarrow> writer \<Rightarrow> writer" where
  "set_request_id i (Raw w) = Raw (w\<lparr>hw_request_id := i\<rparr>)"
| "set_request_id i (Wrapped st wrote w) = Wrapped st wrote (set_request_id i w)"

definition RequestID :: "string \<Rightarrow> string \<Rightarrow> http_handler \<Rightarrow> http_handler" where
  "RequestID incoming fresh nxt cx wm =
    (let i = (if incoming = '''' then fresh else incoming)
     in nxt (cx\<lparr>cx_request_id := i\<rparr>) (set_request_id i (fst wm), snd wm))"

definition Recover :: "(string \<Rightarrow> string) \<Rightarrow> http_handler \<Rightarrow> http_handler" where
  "Recover encode nxt cx wm =
    (case nxt cx wm of
       (Panicked, w, m) \<Rightarrow> (Returned, WriteError encode (Some (500, ''internal'')) w, m)
     | (Returned, w, m) \<Rightarrow> (Returned, w, m))"

text \<open>The wrapper is local to the call: the caller's writer is the one below it.\<close>

fun below_wrapper :: "writer \<Rightarrow> writer" where
  "below_wrapper (Raw w) = Raw w"
| "below_wrapper (Wrapped st wrote w) = w"

definition Observe_mw :: "http_handler \<Rightarrow> http_handler" where
  "Observe_mw nxt cx wm =
    (case wm of (w, m) \<Rightarrow>
      let m = m\<lparr>mt_in_flight := mt_in_flight m + 1\<rparr>;
          (e, rw', m') = nxt cx (Wrapped 200 False w, m);
          down = (\<lambda>m. m\<lparr>mt_in_flight := mt_in_flight m - 1\<rparr>)
      in case e of
           Panicked \<Rightarrow> (Panicked, below_wrapper rw', down m')
         | Returned \<Rightarrow>
             let route = (if cx_route cx = '''' then ''unmatched'' else cx_route cx);
                 status = (case rw' of Raw _ \<Rightarrow> 200 | Wrapped st _ _ \<Rightarrow> st)
             in (Returned, below_wrapper rw', down (m'\<lparr>mt_requests := mt_requests m' @ [(route, cx_method cx, status)]\<rparr>)))"

text \<open>\<open>Server.Run\<close> puts these around the router; \<open>WithLogger\<close> only adds a logger to the context.\<close>

definition server_handler :: "(string \<Rightarrow> string) \<Rightarrow> string \<Rightarrow> string \<Rightarrow> http_handler \<Rightarrow> http_handler" where
  "server_handler encode incoming fresh mux =
    Chain mux [RequestID incoming fresh, \<lambda>h. h, Recover encode, Observe_mw]"

section \<open>What the client gets and what is observed\<close>

text \<open>The status the client sees: 200 when the request ends without a header.\<close>

definition status_of :: "writer \<Rightarrow> int" where
  "status_of w = (case w of Raw s \<Rightarrow> or_else (hw_status s) 200 | Wrapped _ _ _ \<Rightarrow> 0)"

text \<open>A status a response can end with.\<close>

definition final_status :: "int \<Rightarrow> bool" where
  "final_status n \<longleftrightarrow> 200 \<le> n \<and> n \<le> 999"

fun final_call :: "call_on_writer \<Rightarrow> bool" where
  "final_call (Do_header n) \<longleftrightarrow> final_status n"
| "final_call _ \<longleftrightarrow> True"

fun final_end :: "handler_end \<Rightarrow> bool" where
  "final_end (Failed (Some (n, _))) \<longleftrightarrow> final_status n"
| "final_end _ \<longleftrightarrow> True"

fun first_status :: "call_on_writer \<Rightarrow> int" where
  "first_status (Do_header n) = n"
| "first_status _ = 200"

fun end_status :: "handler_end \<Rightarrow> int" where
  "end_status Done = 200"
| "end_status (Failed (Some (n, _))) = n"
| "end_status (Failed None) = 500"
| "end_status Panics = 500"

text \<open>The status sent is that of the first call on the writer, or else of the way the request ends.\<close>

definition sent_status :: "call_on_writer list \<Rightarrow> handler_end \<Rightarrow> int" where
  "sent_status calls e = (case calls of [] \<Rightarrow> end_status e | c # _ \<Rightarrow> first_status c)"

text \<open>The wrapper does not notice a flush: the status counted is that of the first other call.\<close>

definition counted_status :: "call_on_writer list \<Rightarrow> handler_end \<Rightarrow> int" where
  "counted_status calls e = sent_status (dropWhile (\<lambda>c. c = Do_flush) calls) e"

lemma counted_is_sent: "calls = [] \<or> hd calls \<noteq> Do_flush \<Longrightarrow> counted_status calls e = sent_status calls e"
  by (cases calls) (simp_all add: counted_status_def)

lemma send_header_final: "final_status n \<Longrightarrow> send_header n w = (if hw_status w = None then w\<lparr>hw_status := Some n\<rparr> else w)"
  by (auto simp: send_header_def final_status_def)

lemma final_literals [simp]: "final_status 200" "final_status 500"
  by (simp_all add: final_status_def)

lemma send_body_status: "hw_status (send_body b w) = Some (or_else (hw_status w) 200)" "hw_request_id (send_body b w) = hw_request_id w"
  by (cases "hw_status w"; simp add: send_body_def send_header_final or_else_def)+

lemma send_header_id [simp]: "hw_request_id (send_header n w) = hw_request_id w"
  by (simp add: send_header_def)

text \<open>Once a status is there, nothing a handler does changes it, nor the one the wrapper holds.\<close>

lemma do_calls_sent:
  "hw_status s = Some n \<Longrightarrow> list_all final_call cs \<Longrightarrow>
    \<exists>s'. fold do_call cs (Wrapped st True (Raw s)) = Wrapped st True (Raw s') \<and>
      hw_request_id s' = hw_request_id s \<and> hw_status s' = Some n"
proof (induction cs arbitrary: s)
  case (Cons c cs)
  then obtain s1 where "do_call c (Wrapped st True (Raw s)) = Wrapped st True (Raw s1)"
    "hw_request_id s1 = hw_request_id s" "hw_status s1 = Some n"
    by (cases c) (auto simp: send_header_def send_body_status or_else_def)
  with Cons.IH [of s1] Cons.prems(2) show ?case by simp
qed simp

text \<open>Only flushes so far, or none.\<close>

lemma do_calls_fresh:
  "list_all final_call cs \<Longrightarrow> hw_status s = None \<or> hw_status s = Some 200 \<Longrightarrow>
    \<exists>st wrote s'. fold do_call cs (Wrapped 200 False (Raw s)) = Wrapped st wrote (Raw s') \<and>
      hw_request_id s' = hw_request_id s \<and>
      (wrote \<longleftrightarrow> dropWhile (\<lambda>c. c = Do_flush) cs \<noteq> []) \<and>
      (wrote \<longrightarrow> st = first_status (hd (dropWhile (\<lambda>c. c = Do_flush) cs))) \<and> (\<not> wrote \<longrightarrow> st = 200) \<and>
      hw_status s' = (if hw_status s \<noteq> None \<or> cs = [] then hw_status s else Some (first_status (hd cs)))"
proof (induction cs arbitrary: s)
  case (Cons c cs)
  show ?case
  proof (cases "c = Do_flush")
    case True
    define s1 where "s1 = send_header 200 s"
    have s1: "hw_status s1 = Some 200" "hw_request_id s1 = hw_request_id s"
      using Cons.prems(2) by (auto simp: s1_def send_header_final)
    with Cons.IH [of s1] Cons.prems True show ?thesis by (auto simp: s1_def [symmetric])
  next
    case False
    then obtain s1 where s1: "do_call c (Wrapped 200 False (Raw s)) = Wrapped (first_status c) True (Raw s1)"
      "hw_request_id s1 = hw_request_id s" "hw_status s1 = Some (or_else (hw_status s) (first_status c))"
      using Cons.prems by (cases c) (auto simp: send_header_final send_body_status or_else_def)
    have "list_all final_call cs" using Cons.prems by simp
    from do_calls_sent [OF s1(3) this, of "first_status c"] s1 False show ?thesis
      by (auto simp: or_else_def split: option.splits)
  qed
qed (intro exI [of _ 200] exI [of _ False], simp)

text \<open>
  C39. One request cannot stop a service, and what the metrics say of it.  Whatever a handler does
  with statuses a response can end with, the server returns: the identifier of the request is the
  one that came in, or a fresh one, and the number of requests in flight is what it was.  The
  client gets the status of the handler's first header, write or flush; without one, 200, or the
  status of the handler's error, or 500 for any other error and for a panic.  A request that
  panics is not counted; any other is counted once, with the status of the first header or write
  or of the handler's end, which is the one sent unless the handler flushes before it writes.
\<close>

theorem every_request_ends:
  assumes "hw_status s = None" "list_all final_call calls" "final_end e"
    "server_handler encode incoming fresh (ServeHTTP encode calls e) cx (Raw s, m) = (result, w, m')"
  shows "result = Returned \<and> (\<exists>s'. w = Raw s' \<and> hw_request_id s' = (if incoming = '''' then fresh else incoming)) \<and>
    mt_in_flight m' = mt_in_flight m \<and>
    status_of w = sent_status calls e \<and>
    mt_requests m' = mt_requests m @
      (if e = Panics then []
       else [(if cx_route cx = '''' then ''unmatched'' else cx_route cx, cx_method cx, counted_status calls e)]) \<and>
    (calls = [] \<or> hd calls \<noteq> Do_flush \<longrightarrow> counted_status calls e = sent_status calls e)"
proof -
  let ?i = "if incoming = '''' then fresh else incoming" and ?late = "dropWhile (\<lambda>c. c = Do_flush) calls"
  have t: "hw_status (s\<lparr>hw_request_id := ?i\<rparr>) = None" "hw_request_id (s\<lparr>hw_request_id := ?i\<rparr>) = ?i"
    using assms(1) by simp_all
  obtain st wrote s' where F: "fold do_call calls (Wrapped 200 False (Raw (s\<lparr>hw_request_id := ?i\<rparr>))) = Wrapped st wrote (Raw s') \<and>
    hw_request_id s' = hw_request_id (s\<lparr>hw_request_id := ?i\<rparr>) \<and> (wrote \<longleftrightarrow> ?late \<noteq> []) \<and>
    (wrote \<longrightarrow> st = first_status (hd ?late)) \<and> (\<not> wrote \<longrightarrow> st = 200) \<and>
    hw_status s' = (if hw_status (s\<lparr>hw_request_id := ?i\<rparr>) \<noteq> None \<or> calls = [] then hw_status (s\<lparr>hw_request_id := ?i\<rparr>)
      else Some (first_status (hd calls)))"
    using do_calls_fresh [OF assms(2) disjI1 [OF t(1)]] by (elim exE)
  then have f: "fold do_call calls (Wrapped 200 False (Raw (s\<lparr>hw_request_id := ?i\<rparr>))) = Wrapped st wrote (Raw s')"
    "hw_request_id s' = ?i" "wrote \<longleftrightarrow> ?late \<noteq> []" "wrote \<Longrightarrow> st = first_status (hd ?late)" "\<not> wrote \<Longrightarrow> st = 200"
    "hw_status s' = (if calls = [] then None else Some (first_status (hd calls)))"
    unfolding t by simp_all
  have c: "counted_status calls e = (if wrote then st else end_status e)"
    using f(3,4) unfolding counted_status_def sent_status_def by (cases ?late) (simp_all del: dropWhile_eq_Nil_conv)
  have q: "sent_status calls e = or_else (hw_status s') (end_status e)"
    using f(6) by (cases calls) (simp_all add: sent_status_def or_else_def)
  have w: "wrote \<Longrightarrow> hw_status s' \<noteq> None" using f(3,6) by (cases calls) simp_all
  have "result = Returned \<and> (\<exists>s'. w = Raw s' \<and> hw_request_id s' = ?i) \<and> mt_in_flight m' = mt_in_flight m \<and>
    status_of w = or_else (hw_status s') (end_status e) \<and>
    mt_requests m' = mt_requests m @ (if e = Panics then []
       else [(if cx_route cx = '''' then ''unmatched'' else cx_route cx, cx_method cx, if wrote then st else end_status e)])"
    using assms(3,4) f(1,2,5) w
    by (cases e rule: end_status.cases; cases wrote; cases "hw_status s'")
      (auto simp: server_handler_def Chain_def RequestID_def Recover_def Observe_mw_def ServeHTTP_def Let_def status_of_def
        WriteError_def WriteJSON_def send_header_final send_body_status or_else_def)
  with c q counted_is_sent [of calls e] show ?thesis by simp
qed

text \<open>A panic, and a handler that flushes first: the client is told 200, the metrics 404.\<close>

theorem every_request_ends_witness:
  "\<exists>w m' w2 m2. server_handler (\<lambda>c. c) '''' ''0a1b2c3d'' (ServeHTTP (\<lambda>c. c) [] Panics)
       \<lparr>cx_request_id = '''', cx_route = ''POST /orders'', cx_method = ''POST''\<rparr>
       (Raw \<lparr>hw_status = None, hw_body = '''', hw_request_id = ''''\<rparr>, \<lparr>mt_in_flight = 3, mt_requests = []\<rparr>) =
     (Returned, w, m') \<and> status_of w = 500 \<and> mt_in_flight m' = 3 \<and> mt_requests m' = [] \<and>
   server_handler (\<lambda>c. c) '''' ''0a1b2c3d'' (ServeHTTP (\<lambda>c. c) [Do_flush, Do_header 404] Done)
       \<lparr>cx_request_id = '''', cx_route = ''POST /orders'', cx_method = ''POST''\<rparr>
       (Raw \<lparr>hw_status = None, hw_body = '''', hw_request_id = ''''\<rparr>, \<lparr>mt_in_flight = 3, mt_requests = []\<rparr>) =
     (Returned, w2, m2) \<and> status_of w2 = 200 \<and> mt_requests m2 = [(''POST /orders'', ''POST'', 404)]"
proof -
  let ?cx = "\<lparr>cx_request_id = '''', cx_route = ''POST /orders'', cx_method = ''POST''\<rparr>"
  let ?s = "\<lparr>hw_status = None, hw_body = '''', hw_request_id = ''''\<rparr>" and ?m = "\<lparr>mt_in_flight = 3, mt_requests = []\<rparr>"
  obtain res w m' where x: "server_handler (\<lambda>c. c) '''' ''0a1b2c3d'' (ServeHTTP (\<lambda>c. c) [] Panics) ?cx (Raw ?s, ?m) = (res, w, m')"
    by (rule prod_cases3)
  obtain res2 w2 m2 where y: "server_handler (\<lambda>c. c) '''' ''0a1b2c3d'' (ServeHTTP (\<lambda>c. c) [Do_flush, Do_header 404] Done) ?cx (Raw ?s, ?m)
      = (res2, w2, m2)" by (rule prod_cases3)
  from every_request_ends [OF _ _ _ x] every_request_ends [OF _ _ _ y] x y show ?thesis
    by (simp add: sent_status_def counted_status_def final_status_def)
qed

end
