(* ===== verification/Growth.thy ===== *)
theory Growth
  imports QueueStore
begin

text \<open>
  The growth of the shards over time (\<open>Grower\<close> of \<open>src/internal/shard/grower.go\<close>).  The grower
  knows the queue by one method, \<open>WaitingCounter.TotalWaiting\<close>: that interface is the locale
  \<open>waiting_counter\<close>, and the queue's store provides it.
\<close>

section \<open>The loop\<close>

text \<open>Every tick asks the counter, in the state the queue is in by then, and grows.\<close>

fun grower_run :: "('s \<Rightarrow> 'e + int) \<Rightarrow> int \<Rightarrow> 's list \<Rightarrow> Assigner \<Rightarrow> Assigner" where
  "grower_run counter shardSize [] a = a"
| "grower_run counter shardSize (q # qs) a =
    grower_run counter shardSize qs
      (Grower_once (case counter q of Inl _ \<Rightarrow> Inl '''' | Inr n \<Rightarrow> Inr n) shardSize a)"

section \<open>The counter as an interface\<close>

locale waiting_counter =
  fixes counter :: "'s \<Rightarrow> 'e + int"
  assumes nonneg: "counter q = Inr n \<Longrightarrow> 0 \<le> n"
begin

lemma once:
  assumes "assigner_ok a" "0 < sz"
  shows "let a' = Grower_once (case counter q of Inl _ \<Rightarrow> Inl '''' | Inr n \<Rightarrow> Inr n) sz a
    in assigner_ok a' \<and> a_salt a' = a_salt a \<and> a_max a' = a_max a \<and> a_count a \<le> a_count a' \<and>
       (\<forall>n. counter q = Inr n \<longrightarrow> n \<le> a_count a' * sz \<or> a_count a' = a_max a)"
proof (cases "counter q")
  case (Inl e)
  then show ?thesis using assms by (simp add: Grower_once_def)
next
  case (Inr n)
  then have n: "0 \<le> n" by (rule nonneg)
  let ?need = "(n + sz - 1) div sz"
  have q: "quot (n + sz - 1) sz = ?need"
    using assms(2) n by (cases "n + sz - 1 = 0") (simp_all add: quot_def)
  have "n + sz - 1 = ?need * sz + (n + sz - 1) mod sz" "(n + sz - 1) mod sz \<le> sz - 1"
    using assms(2) by simp_all
  then have room: "n \<le> ?need * sz" by linarith
  have "n \<le> m * sz" if "?need \<le> m" for m
    using room mult_right_mono [OF that, of sz] assms(2) by linarith
  with assms q Inr show ?thesis
    by (auto simp: Grower_once_def EnsureCapacity_def Grow_eq Let_def assigner_ok_def max_def split: if_splits)
qed

lemma run:
  assumes "assigner_ok a" "0 < sz"
  shows "assigner_ok (grower_run counter sz qs a) \<and> a_salt (grower_run counter sz qs a) = a_salt a \<and>
    a_max (grower_run counter sz qs a) = a_max a \<and> a_count a \<le> a_count (grower_run counter sz qs a) \<and>
    (\<forall>q \<in> set qs. \<forall>n. counter q = Inr n \<longrightarrow>
       n \<le> a_count (grower_run counter sz qs a) * sz \<or> a_count (grower_run counter sz qs a) = a_max a)"
  using assms(1)
proof (induction qs arbitrary: a)
  case (Cons q qs)
  let ?a = "Grower_once (case counter q of Inl _ \<Rightarrow> Inl '''' | Inr n \<Rightarrow> Inr n) sz a"
  have o: "assigner_ok ?a" "a_salt ?a = a_salt a" "a_max ?a = a_max a" "a_count a \<le> a_count ?a"
    "\<forall>n. counter q = Inr n \<longrightarrow> n \<le> a_count ?a * sz \<or> a_count ?a = a_max a"
    using once [OF Cons.prems assms(2), of q] by (simp_all add: Let_def)
  note IH = Cons.IH [OF o(1)]
  have "n \<le> a_count (grower_run counter sz qs ?a) * sz \<or> a_count (grower_run counter sz qs ?a) = a_max a"
    if "counter q = Inr n" for n
  proof -
    have le: "a_count ?a \<le> a_count (grower_run counter sz qs ?a)" using IH by blast
    have mx: "a_count (grower_run counter sz qs ?a) \<le> a_max a" using IH o(3) by (simp add: assigner_ok_def)
    have sz: "a_count ?a * sz \<le> a_count (grower_run counter sz qs ?a) * sz"
      using le assms(2) by (intro mult_right_mono) simp_all
    from o(5) that have "n \<le> a_count ?a * sz \<or> a_count ?a = a_max a" by blast
    then show ?thesis
    proof
      assume "n \<le> a_count ?a * sz"
      then show ?thesis using sz by linarith
    next
      assume "a_count ?a = a_max a"
      then show ?thesis using le mx by linarith
    qed
  qed
  with IH o show ?case by auto
qed (use assms in simp)

end

section \<open>The queue's store counts\<close>

text \<open>What a tick meets: the fates of the two reads, the store and Redis.\<close>

type_synonym queue_view = "link \<times> link \<times> Store \<times> redis"

definition count_waiting :: "queue_view \<Rightarrow> queue_error + int" where
  "count_waiting v = (case v of (l1, l2, s, r) \<Rightarrow> TotalWaiting l1 l2 s r)"

interpretation qc: waiting_counter count_waiting
  by unfold_locales
    (auto simp: count_waiting_def TotalWaiting_def Sizes_def zcard_def intro!: sum_list_nonneg
      split: sum.splits link.splits if_splits)

text \<open>
  C17. Shards only grow, and make room.  However often the grower looks at the queue, whatever it
  finds there and whether or not the reads arrive: the number of shards never decreases and never
  exceeds the maximum, every token, issued before or after, is assigned an existing, valid shard,
  and every count of waiting people that was read fits into the shards unless the maximum is
  reached.
\<close>

theorem shards_only_grow:
  assumes "NewAssigner salt count mx = Inr a" "mx \<le> 10 ^ 9" "0 < sz"
    "a' = grower_run count_waiting sz views a"
  shows "count \<le> a_count a' \<and> a_count a' \<le> mx \<and>
    0 \<le> Index a' t \<and> Index a' t < a_count a' \<and> Validate (Assign a' t) = None \<and>
    (\<forall>v \<in> set views. \<forall>n. count_waiting v = Inr n \<longrightarrow> n \<le> a_count a' * sz \<or> a_count a' = mx)"
proof -
  have a: "assigner_ok a" "a_count a = count" "a_max a = mx"
    using NewAssigner_ok [OF assms(1)] assms(1) by (auto simp: NewAssigner_def split: if_splits)
  note run = qc.run [OF a(1) assms(3), of views, folded assms(4)]
  then have c: "0 < a_count a'" "a_count a' \<le> mx" using a(3) by (simp_all add: assigner_ok_def)
  then have i: "0 \<le> Index a' t" "Index a' t < a_count a'"
    using Index_eq [of a' t] assms(2) by simp_all
  moreover have "Validate (Assign a' t) = None"
    using Validate_ID [of "Index a' t"] i c assms(2) by (simp add: Assign_def)
  ultimately show ?thesis using run a c by auto
qed

theorem shards_only_grow_witness:
  "\<exists>r a'. a' = grower_run count_waiting 1 [(Delivered, Delivered, demo_store, r), (RequestLost, Delivered, demo_store, r)]
       \<lparr>a_salt = ''k'', a_max = 8, a_count = 1\<rparr> \<and> a_count a' = 2 \<and> Index a' ''t'' < 2"
proof -
  let ?r = "snd (snd (Enqueue good_net Delivered (Some ''12345678'') (\<lambda>_. 5000000000) (demo_request ''b'')
    (snd (Enqueue good_net Delivered (Some ''12345678'') (\<lambda>_. 5000000000) (demo_request ''a'') (demo_store, empty_redis)))))"
  let ?vs = "[(Delivered, Delivered, demo_store, ?r), (RequestLost, Delivered, demo_store, ?r)]"
  let ?a = "\<lparr>a_salt = ''k'', a_max = 8, a_count = 1\<rparr> :: Assigner"
  have n: "NewAssigner ''k'' 1 8 = Inr ?a" by code_simp
  have c: "a_count (grower_run count_waiting 1 ?vs ?a) = 2" by code_simp
  from shards_only_grow [OF n _ _ refl, of 1 ?vs "''t''"] c show ?thesis by auto
qed

end
