(* ===== verification/Metrics.thy ===== *)
theory Metrics
  imports Http
begin

text \<open>
  The metrics every service registers and the level of its log (\<open>src/internal/obs/metrics.go\<close>,
  \<open>src/internal/obs/log.go\<close>).  The registry is code of the Prometheus client library: a
  parameter, whose documented behaviour is stated by \<open>prom_ok\<close>.  Registering panics in Go when the
  registry refuses a metric, so \<open>None\<close> is the panic.  Help texts are left out.
\<close>

section \<open>Metrics\<close>

datatype metric_kind = CounterVec | GaugeVec | Gauge | HistogramVec "rat list"

record metric_desc =
  md_Name :: string \<comment> \<open>namespace and name, joined by an underscore\<close>
  md_Kind :: metric_kind
  md_Labels :: "string list"
  md_Const :: "string \<times> string" \<comment> \<open>the label every metric of a service carries, and its value\<close>

text \<open>A registry by its two operations: a metric, and the library's collectors of the process.\<close>

record 'r prom =
  pr_empty :: 'r
  pr_register :: "metric_desc \<Rightarrow> 'r \<Rightarrow> 'r option"
  pr_collectors :: "'r \<Rightarrow> 'r option"

definition namespace :: string where "namespace = ''shardgate''"

definition durationBuckets :: "rat list" where
  "durationBuckets = [1/1000, 5/1000, 1/100, 25/1000, 5/100, 1/10, 25/100, 1/2, 1, 5/2, 5, 10]"
definition waitBuckets :: "rat list" where
  "waitBuckets = [1, 5, 10, 30, 60, 120, 300, 600, 1200, 1800, 3600]"
definition scoreBuckets :: "rat list" where
  "scoreBuckets = [0, 10, 20, 30, 40, 50, 60, 70, 80, 90, 100]"
definition solveBuckets :: "rat list" where
  "solveBuckets = [1/100, 5/100, 1/10, 25/100, 1/2, 1, 2, 5, 10, 30]"

text \<open>\<open>prometheus.LinearBuckets\<close>: the first bound, the width, the number of buckets.\<close>

definition LinearBuckets :: "rat \<Rightarrow> rat \<Rightarrow> nat \<Rightarrow> rat list" where
  "LinearBuckets start width count = map (\<lambda>i. start + width * of_nat i) [0..<count]"

definition described :: "string \<Rightarrow> metric_kind \<Rightarrow> string \<Rightarrow> string list \<Rightarrow> metric_desc" where
  "described service kind name labels =
    \<lparr>md_Name = namespace @ ''_'' @ name, md_Kind = kind, md_Labels = labels, md_Const = (''service'', service)\<rparr>"

definition metrics_of :: "string \<Rightarrow> metric_desc list" where
  "metrics_of service =
    (let counterVec = described service CounterVec; gaugeVec = described service GaugeVec;
         gauge = (\<lambda>name. described service Gauge name []);
         histogramVec = (\<lambda>name buckets. described service (HistogramVec buckets) name)
     in [counterVec ''http_requests_total'' [''route'', ''method'', ''code''],
         histogramVec ''http_request_duration_seconds'' durationBuckets [''route'', ''method''],
         gauge ''http_in_flight_requests'',
         counterVec ''queue_enqueued_total'' [''event'', ''segment''],
         gaugeVec ''queue_size'' [''event'', ''shard''],
         counterVec ''queue_evicted_total'' [''event'', ''reason''],
         counterVec ''admission_attempts_total'' [''event'', ''result''],
         gaugeVec ''admission_budget'' [''event'', ''shard''],
         gauge ''admission_effective_rate_per_min'',
         counterVec ''admission_redeem_total'' [''event'', ''result''],
         histogramVec ''admission_wait_seconds'' waitBuckets [''event''],
         counterVec ''challenge_issued_total'' [''event''],
         counterVec ''challenge_verified_total'' [''event'', ''result''],
         histogramVec ''challenge_difficulty_bits'' (LinearBuckets 8 2 12) [''event''],
         histogramVec ''challenge_solve_seconds'' solveBuckets [''event''],
         counterVec ''rechallenge_total'' [''event'', ''outcome''],
         counterVec ''token_rejected_total'' [''kind'', ''reason''],
         counterVec ''telemetry_events_total'' [''type'', ''direction''],
         counterVec ''telemetry_errors_total'' [''stage''],
         gauge ''scorer_lag_seconds'',
         histogramVec ''botscore_value'' scoreBuckets [''event''],
         counterVec ''botscore_actions_total'' [''event'', ''action''],
         histogramVec ''botscore_signal'' scoreBuckets [''signal''],
         counterVec ''orders_total'' [''result'']])"

fun register_all :: "'r prom \<Rightarrow> metric_desc list \<Rightarrow> 'r \<Rightarrow> 'r option" where
  "register_all P [] r = Some r"
| "register_all P (d # ds) r = (case pr_register P d r of None \<Rightarrow> None | Some r' \<Rightarrow> register_all P ds r')"

definition NewMetrics :: "'r prom \<Rightarrow> string \<Rightarrow> 'r option" where
  "NewMetrics P service =
    (case register_all P (metrics_of service) (pr_empty P) of None \<Rightarrow> None | Some r \<Rightarrow> pr_collectors P r)"

section \<open>What the library documents\<close>

text \<open>
  A name is made of letters, digits, underscores and, but for labels, colons, and starts with no
  digit; labels are distinct and differ from the constant one; the bounds of a histogram increase.
\<close>

definition char_within :: "char \<Rightarrow> char \<Rightarrow> char \<Rightarrow> bool" where
  "char_within lo hi c \<longleftrightarrow> lo \<le> c \<and> c \<le> hi"

definition ascii_letter :: "char \<Rightarrow> bool" where
  "ascii_letter c \<longleftrightarrow> char_within CHR ''A'' CHR ''Z'' c \<or> char_within CHR ''a'' CHR ''z'' c"

definition name_char :: "char \<Rightarrow> bool" where
  "name_char c \<longleftrightarrow> ascii_letter c \<or> is_digit c \<or> c = CHR ''_''"

definition good_name :: "string \<Rightarrow> bool" where
  "good_name s \<longleftrightarrow> s \<noteq> '''' \<and> \<not> is_digit (hd s) \<and> list_all name_char s"

fun increasing :: "rat list \<Rightarrow> bool" where
  "increasing (a # b # bs) \<longleftrightarrow> a < b \<and> increasing (b # bs)"
| "increasing _ \<longleftrightarrow> True"

definition good_metric :: "metric_desc \<Rightarrow> bool" where
  "good_metric d \<longleftrightarrow> good_name (md_Name d) \<and> list_all good_name (fst (md_Const d) # md_Labels d) \<and>
    distinct (fst (md_Const d) # md_Labels d) \<and>
    (case md_Kind d of HistogramVec bs \<Rightarrow> increasing bs \<and> ''le'' \<notin> set (md_Labels d) | _ \<Rightarrow> True)"

definition process_name :: "string \<Rightarrow> bool" where
  "process_name n \<longleftrightarrow> take 3 n = ''go_'' \<or> take 8 n = ''process_''"

text \<open>
  \<open>names r\<close>: the names registered so far.  A good metric with a new name is taken; the collectors
  of the process are taken once, when none of their names is used.
\<close>

definition prom_ok :: "'r prom \<Rightarrow> ('r \<Rightarrow> string set) \<Rightarrow> bool" where
  "prom_ok P names \<longleftrightarrow> names (pr_empty P) = {} \<and>
    (\<forall>d r. good_metric d \<and> md_Name d \<notin> names r \<longrightarrow>
      (\<exists>r'. pr_register P d r = Some r' \<and> names r' = insert (md_Name d) (names r))) \<and>
    (\<forall>r. (\<forall>n \<in> names r. \<not> process_name n) \<longrightarrow> pr_collectors P r \<noteq> None)"

text \<open>A registry that keeps the metrics in a list.\<close>

definition list_prom :: "metric_desc list prom" where
  "list_prom = \<lparr>pr_empty = [], pr_register = (\<lambda>d r. if good_metric d \<and> md_Name d \<notin> md_Name ` set r then Some (r @ [d]) else None),
    pr_collectors = (\<lambda>r. if list_ex (\<lambda>d. process_name (md_Name d)) r then None else Some r)\<rparr>"

lemma list_prom_ok: "prom_ok list_prom (\<lambda>r. md_Name ` set r)"
  by (auto simp: prom_ok_def list_prom_def list_ex_iff)

lemma register_all_taken:
  assumes "prom_ok P names"
  shows "list_all good_metric ds \<Longrightarrow> distinct (map md_Name ds) \<Longrightarrow> \<forall>d \<in> set ds. md_Name d \<notin> names r \<Longrightarrow>
    \<exists>r'. register_all P ds r = Some r' \<and> names r' = names r \<union> md_Name ` set ds"
proof (induction ds arbitrary: r)
  case (Cons d ds)
  then have "good_metric d \<and> md_Name d \<notin> names r" by simp
  then obtain r1 where r1: "pr_register P d r = Some r1" "names r1 = insert (md_Name d) (names r)"
    using assms unfolding prom_ok_def by blast
  then have "\<forall>e \<in> set ds. md_Name e \<notin> names r1" using Cons.prems by (auto simp: image_iff)
  with Cons.IH [of r1] Cons.prems r1 show ?case by auto
qed simp

lemma metrics_good: "list_all good_metric (metrics_of s)" "distinct (map md_Name (metrics_of s))"
  "\<forall>d \<in> set (metrics_of s). \<not> process_name (md_Name d)"
proof -
  show "list_all good_metric (metrics_of s)" by code_simp
  show "distinct (map md_Name (metrics_of s))"
    by (simp add: metrics_of_def described_def)
  show "\<forall>d \<in> set (metrics_of s). \<not> process_name (md_Name d)"
    by (simp add: metrics_of_def described_def process_name_def namespace_def)
qed

lemma NewMetrics_taken: "prom_ok P names \<Longrightarrow> \<exists>r. NewMetrics P s = Some r"
  using register_all_taken [of P names "metrics_of s" "pr_empty P"] metrics_good [of s]
  by (fastforce simp: NewMetrics_def prom_ok_def)

section \<open>The log level\<close>

datatype log_level = LevelDebug | LevelInfo | LevelWarn | LevelError

definition ParseLevel :: "string \<Rightarrow> log_level" where
  "ParseLevel s =
    (let l = map lower (TrimSpace s)
     in if l = ''debug'' then LevelDebug
        else if l = ''warn'' \<or> l = ''warning'' then LevelWarn
        else if l = ''error'' then LevelError else LevelInfo)"

end
