(* ===== verification/Boot.thy ===== *)
theory Boot
  imports Services Metrics
begin

text \<open>
  What can end a service while it starts other than an error: a panic.  The scripts it embeds are
  read when its packages are initialised (\<open>src/scripts/lua/lua.go\<close>), its metrics are registered
  (\<open>Metrics\<close>), its routes are put on a \<open>http.ServeMux\<close> (\<open>src/internal/httpx/server.go\<close>, the
  \<open>Register\<close> methods of \<open>src/internal/api\<close>) and its loops start their tickers; each of these panics
  on bad input.  Patterns with a brace, which Go reads as wildcards, are outside the model; the
  properties exclude them.
\<close>

section \<open>Embedded scripts\<close>

text \<open>The files of the directory, by name; their contents are a parameter.\<close>

definition lua_files :: "string list" where
  "lua_files = [''admit.lua'', ''apply_action.lua'', ''enqueue.lua'', ''evict.lua'', ''heartbeat.lua'', ''move_shard.lua'',
    ''position.lua'', ''rechallenge.lua'', ''redeem.lua'', ''refill_budget.lua'', ''restore_shard.lua'']"

definition lua_Read :: "(string \<rightharpoonup> string) \<Rightarrow> string \<Rightarrow> string + string" where
  "lua_Read files name = (case files name of None \<Rightarrow> Inl (''lua: read '' @ name) | Some b \<Rightarrow> Inr b)"

definition MustRead :: "(string \<rightharpoonup> string) \<Rightarrow> string \<Rightarrow> string option" where
  "MustRead files name = (case lua_Read files name of Inl _ \<Rightarrow> None | Inr src \<Rightarrow> Some src)"

text \<open>What the packages \<open>queue\<close>, \<open>admission\<close> and \<open>botscore\<close> ask for when they are initialised.\<close>

definition queue_scripts :: "string list" where
  "queue_scripts = [''enqueue.lua'', ''position.lua'', ''heartbeat.lua'', ''evict.lua'', ''rechallenge.lua'']"
definition admission_scripts :: "string list" where
  "admission_scripts = [''refill_budget.lua'', ''admit.lua'', ''redeem.lua'']"
definition botscore_scripts :: "string list" where
  "botscore_scripts = [''apply_action.lua'', ''move_shard.lua'', ''restore_shard.lua'']"

section \<open>Patterns\<close>

text \<open>A segment is a literal or, at the end, what a trailing slash stands for.\<close>

datatype segment = Literal string | Multi

record pattern =
  pt_method :: string
  pt_host :: string
  pt_segments :: "segment list"

fun split_slash :: "string \<Rightarrow> string list" where
  "split_slash [] = [[]]"
| "split_slash (c # s) =
    (if c = CHR ''/'' then [] # split_slash s
     else case split_slash s of [] \<Rightarrow> [[c]] | w # ws \<Rightarrow> (c # w) # ws)"

text \<open>\<open>path.Clean\<close> of a rooted path, with the trailing slash kept as \<open>ServeMux\<close> does.\<close>

fun clean_onto :: "string list \<Rightarrow> string list \<Rightarrow> string list" where
  "clean_onto out [] = rev out"
| "clean_onto out (w # ws) =
    (if w = '''' \<or> w = ''.'' then clean_onto out ws
     else if w = ''..'' then clean_onto (drop 1 out) ws
     else clean_onto (w # out) ws)"

definition cleanPath :: "string \<Rightarrow> string" where
  "cleanPath p =
    (if p = '''' then ''/''
     else let p = (if hd p = CHR ''/'' then p else CHR ''/'' # p);
              ws = clean_onto [] (split_slash p);
              np = (if ws = [] then ''/'' else concat (map (\<lambda>w. CHR ''/'' # w) ws))
          in if last p = CHR ''/'' \<and> np \<noteq> ''/'' then np @ ''/'' else np)"

fun percent_decode :: "string \<Rightarrow> string option" where
  "percent_decode [] = Some []"
| "percent_decode (c # s) =
    (if c = CHR ''%'' then
       (case s of
          h # l # r \<Rightarrow>
            (case (Config.hex_val h, Config.hex_val l, percent_decode r) of
               (Some x, Some y, Some t) \<Rightarrow> Some (char_of (nat (16 * x + y)) # t)
             | _ \<Rightarrow> None)
        | _ \<Rightarrow> None)
     else map_option (Cons c) (percent_decode s))"

definition pathUnescape :: "string \<Rightarrow> string" where
  "pathUnescape s = or_else (percent_decode s) s"

definition tchar :: "char \<Rightarrow> bool" where
  "tchar c \<longleftrightarrow> ascii_letter c \<or> is_digit c \<or>
    c \<in> {CHR ''!'', CHR ''#'', CHR ''$'', CHR ''%'', CHR ''&'', CHR 0x27, CHR ''*'', CHR ''+'', CHR ''-'', CHR ''.'',
      CHR ''^'', CHR ''_'', CHR 0x60, CHR ''|'', CHR ''~''}"

definition blank :: "char \<Rightarrow> bool" where "blank c \<longleftrightarrow> c = CHR '' '' \<or> c = CHR 0x09"

definition segments_of :: "string \<Rightarrow> segment list" where
  "segments_of path =
    (let ws = tl (split_slash path)
     in map (\<lambda>w. Literal (pathUnescape w)) (butlast ws) @
        [if last ws = '''' then Multi else Literal (pathUnescape (last ws))])"

definition parsePattern :: "string \<Rightarrow> pattern option" where
  "parsePattern s =
    (let front = takeWhile (\<lambda>c. \<not> blank c) s;
         found = length front < length s;
         method = (if found then front else '''');
         rest = (if found then dropWhile blank (drop (length front + 1) s) else s);
         host = takeWhile (\<lambda>c. c \<noteq> CHR ''/'') rest;
         path = drop (length host) rest
     in if s = '''' \<or> method \<noteq> '''' \<and> \<not> list_all tchar method then None
        else if path = '''' then None
        else if method \<noteq> '''' \<and> method \<noteq> ''CONNECT'' \<and> path \<noteq> cleanPath path then None
        else if CHR ''{'' \<in> set rest then None
        else Some \<lparr>pt_method = method, pt_host = host, pt_segments = segments_of path\<rparr>)"

subsection \<open>Conflicts\<close>

datatype relationship = Equivalent | MoreGeneral | MoreSpecific | Disjoint | Overlaps

fun combineRelationships :: "relationship \<Rightarrow> relationship \<Rightarrow> relationship" where
  "combineRelationships Equivalent r = r"
| "combineRelationships Disjoint r = Disjoint"
| "combineRelationships Overlaps r = (if r = Disjoint then Disjoint else Overlaps)"
| "combineRelationships MoreGeneral r =
    (case r of Equivalent \<Rightarrow> MoreGeneral | MoreSpecific \<Rightarrow> Overlaps | _ \<Rightarrow> r)"
| "combineRelationships MoreSpecific r =
    (case r of Equivalent \<Rightarrow> MoreSpecific | MoreGeneral \<Rightarrow> Overlaps | _ \<Rightarrow> r)"

definition compareMethods :: "pattern \<Rightarrow> pattern \<Rightarrow> relationship" where
  "compareMethods p q =
    (if pt_method p = pt_method q then Equivalent
     else if pt_method p = '''' then MoreGeneral
     else if pt_method q = '''' then MoreSpecific
     else if pt_method p = ''GET'' \<and> pt_method q = ''HEAD'' then MoreGeneral
     else if pt_method q = ''GET'' \<and> pt_method p = ''HEAD'' then MoreSpecific
     else Disjoint)"

fun compareSegments :: "segment \<Rightarrow> segment \<Rightarrow> relationship" where
  "compareSegments Multi Multi = Equivalent"
| "compareSegments Multi (Literal _) = MoreGeneral"
| "compareSegments (Literal _) Multi = MoreSpecific"
| "compareSegments (Literal a) (Literal b) = (if a = b then Equivalent else Disjoint)"

fun compare_from :: "relationship \<Rightarrow> segment list \<Rightarrow> segment list \<Rightarrow> relationship" where
  "compare_from rel (a # as) (b # bs) =
    (let rel' = combineRelationships rel (compareSegments a b)
     in if rel' = Disjoint then Disjoint
        else if as = [] \<and> bs = [] then rel'
        else if as = [] then (if a = Multi then combineRelationships rel' MoreGeneral else Disjoint)
        else if bs = [] then (if b = Multi then combineRelationships rel' MoreSpecific else Disjoint)
        else compare_from rel' as bs)"
| "compare_from rel _ _ = Disjoint"

definition comparePaths :: "pattern \<Rightarrow> pattern \<Rightarrow> relationship" where
  "comparePaths p q =
    (let a = pt_segments p; b = pt_segments q
     in if length a \<noteq> length b \<and> last a \<noteq> Multi \<and> last b \<noteq> Multi then Disjoint
        else compare_from Equivalent a b)"

definition conflictsWith :: "pattern \<Rightarrow> pattern \<Rightarrow> bool" where
  "conflictsWith p q \<longleftrightarrow> pt_host p = pt_host q \<and>
    (let m = compareMethods p q
     in m \<noteq> Disjoint \<and> combineRelationships m (comparePaths p q) \<in> {Equivalent, Overlaps})"

section \<open>The router\<close>

text \<open>Registering panics on a pattern that does not parse and on a conflict.\<close>

definition mux_Handle :: "string \<Rightarrow> pattern list \<Rightarrow> pattern list option" where
  "mux_Handle s mux =
    (case parsePattern s of
       None \<Rightarrow> None
     | Some p \<Rightarrow> if list_ex (conflictsWith p) mux then None else Some (mux @ [p]))"

fun mux_Handle_all :: "string list \<Rightarrow> pattern list \<Rightarrow> pattern list option" where
  "mux_Handle_all [] mux = Some mux"
| "mux_Handle_all (s # ss) mux = (case mux_Handle s mux of None \<Rightarrow> None | Some mux' \<Rightarrow> mux_Handle_all ss mux')"

definition NewServer :: "Service_cfg \<Rightarrow> pattern list option" where
  "NewServer cfg = mux_Handle_all [''GET '' @ sv_MetricsPath cfg, ''GET /healthz'', ''GET /readyz''] []"

definition GateAPI_Register :: "pattern list \<Rightarrow> pattern list option" where
  "GateAPI_Register = mux_Handle_all [''POST /api/v1/queue/enter'', ''POST /api/v1/challenge/verify'',
    ''POST /api/v1/challenge/reissue'', ''POST /api/v1/challenge/reverify'']"

definition QueueAPI_Register :: "pattern list \<Rightarrow> pattern list option" where
  "QueueAPI_Register = mux_Handle_all [''GET /api/v1/queue/status'', ''POST /api/v1/queue/heartbeat'']"

definition AdmissionAPI_Register :: "pattern list \<Rightarrow> pattern list option" where
  "AdmissionAPI_Register = mux_Handle_all [''POST /api/v1/admission/redeem'']"

definition ShopAPI_Register :: "pattern list \<Rightarrow> pattern list option" where
  "ShopAPI_Register = mux_Handle_all [''POST /api/v1/orders'']"

section \<open>Starting, with its panics\<close>

datatype 'a boot = Panicked_start | Start_failed start_error | Running 'a

definition NewTicker :: "duration \<Rightarrow> bool" where
  "NewTicker d \<longleftrightarrow> 0 < d"

text \<open>
  The constructors of the client libraries of Redis and Kafka are code of others: whether they
  return on given settings, or panic, is a parameter.
\<close>

record clients =
  redis_NewUniversalClient :: "Redis_cfg \<Rightarrow> bool"
  kafka_NewReader :: "Kafka_cfg \<Rightarrow> bool"

text \<open>
  One service: the packages it links read their scripts, \<open>app.New\<close> loads the configuration and makes
  metrics, the client of Redis and the server, \<open>build\<close> is the rest of its \<open>run\<close>, then come the routes
  and what its loops start with.
\<close>

definition boot :: "'r prom \<Rightarrow> clients \<Rightarrow> (string \<rightharpoonup> string) \<Rightarrow> string list \<Rightarrow> string \<Rightarrow> string list \<Rightarrow>
    (Config \<Rightarrow> start_error + 'a) \<Rightarrow> (pattern list \<Rightarrow> pattern list option) \<Rightarrow> (Config \<Rightarrow> bool) \<Rightarrow> Config \<Rightarrow> 'a boot" where
  "boot P L files scripts service secrets build register loops c0 =
    (if list_ex (\<lambda>n. MustRead files n = None) scripts then Panicked_start
     else case app_New c0 secrets of
       Inl e \<Rightarrow> Start_failed (StartConfig e)
     | Inr c \<Rightarrow>
         case NewMetrics P service of
           None \<Rightarrow> Panicked_start
         | Some _ \<Rightarrow>
             if \<not> redis_NewUniversalClient L (cf_Redis c) then Panicked_start
             else case NewServer (cf_Service c) of
               None \<Rightarrow> Panicked_start
             | Some mux \<Rightarrow>
                 case build c of
                   Inl e \<Rightarrow> Start_failed e
                 | Inr s \<Rightarrow> if register mux = None \<or> \<not> loops c then Panicked_start else Running s)"

definition api_scripts :: "string list" where
  "api_scripts = queue_scripts @ admission_scripts @ botscore_scripts"

definition boot_gate :: "'r prom \<Rightarrow> clients \<Rightarrow> (string \<rightharpoonup> string) \<Rightarrow> Config \<Rightarrow> gate_service boot" where
  "boot_gate P L files = boot P L files api_scripts ''gate'' [''event_salt'', ''token_signing_key'', ''challenge_hmac_key'']
     run_gate GateAPI_Register (\<lambda>c. NewTicker (am_Interval (cf_Admission c)))"

definition boot_queue :: "'r prom \<Rightarrow> clients \<Rightarrow> (string \<rightharpoonup> string) \<Rightarrow> Config \<Rightarrow> queue_service boot" where
  "boot_queue P L files = boot P L files api_scripts ''queue'' [''event_salt'', ''token_signing_key'']
     run_queue QueueAPI_Register (\<lambda>c. NewTicker (qu_HeartbeatInterval (cf_Queue c)))"

definition boot_admission :: "'r prom \<Rightarrow> clients \<Rightarrow> (string \<rightharpoonup> string) \<Rightarrow> Config \<Rightarrow> admission_service boot" where
  "boot_admission P L files = boot P L files api_scripts ''admission'' [''token_signing_key'']
     run_admission AdmissionAPI_Register (\<lambda>c. NewTicker (am_Interval (cf_Admission c)))"

definition boot_shop :: "'r prom \<Rightarrow> clients \<Rightarrow> (string \<rightharpoonup> string) \<Rightarrow> bool \<Rightarrow> Config \<Rightarrow> ShopAPI boot" where
  "boot_shop P L files opened = boot P L files api_scripts ''shop'' [''token_signing_key'', ''postgres_dsn'']
     (run_shop opened) ShopAPI_Register (\<lambda>c. True)"

definition boot_scorer :: "'r prom \<Rightarrow> clients \<Rightarrow> (string \<rightharpoonup> string) \<Rightarrow> bool \<Rightarrow> Config \<Rightarrow> scorer_service boot" where
  "boot_scorer P L files opened = boot P L files botscore_scripts ''scorer'' [''event_salt'']
     (run_scorer opened) (\<lambda>mux. Some mux) 
     (\<lambda>c. NewTicker (bs_FlushEvery (cf_BotScore c)) \<and> (kf_Enabled (cf_Kafka c) \<longrightarrow> kafka_NewReader L (cf_Kafka c)))"

section \<open>Which patterns conflict\<close>

definition wf_segments :: "segment list \<Rightarrow> bool" where
  "wf_segments ss \<longleftrightarrow> ss \<noteq> [] \<and> Multi \<notin> set (butlast ss)"

lemma wf_segments_Cons: "wf_segments (s # ss) \<longleftrightarrow> ss = [] \<or> s \<noteq> Multi \<and> wf_segments ss"
  by (cases ss) (auto simp: wf_segments_def)

lemma segments_wf: "wf_segments (segments_of path)"
  by (auto simp: wf_segments_def segments_of_def Let_def butlast_append)

text \<open>Against a pattern without trailing slash, only the same path conflicts.\<close>

lemma compare_literals:
  "Multi \<notin> set as \<Longrightarrow> as \<noteq> [] \<Longrightarrow> wf_segments bs \<Longrightarrow>
    compare_from Equivalent as bs \<in> {Equivalent, MoreSpecific, Disjoint} \<and>
    (compare_from Equivalent as bs = Equivalent \<longleftrightarrow> as = bs)"
proof (induction as arbitrary: bs)
  case (Cons a as)
  then obtain x b bs' where a: "a = Literal x" "bs = b # bs'" by (cases a; cases bs) (auto simp: wf_segments_def)
  show ?case
  proof (cases b)
    case Multi
    with Cons.prems(3) a have "bs' = []" by (simp add: wf_segments_Cons)
    with a Multi show ?thesis by simp
  next
    case (Literal y)
    show ?thesis
    proof (cases "x = y \<and> as \<noteq> [] \<and> bs' \<noteq> []")
      case True
      with Cons.prems a have "wf_segments bs'" "Multi \<notin> set as" by (auto simp: wf_segments_Cons)
      with Cons.IH [of bs'] True a Literal show ?thesis by auto
    next
      case False
      with a Literal show ?thesis by auto
    qed
  qed
qed simp

lemma conflict_literals:
  assumes "Multi \<notin> set (pt_segments q)" "pt_segments q \<noteq> []" "wf_segments (pt_segments p)" "pt_method p = pt_method q"
  shows "conflictsWith q p \<longleftrightarrow> q = p"
proof -
  have "comparePaths q p \<in> {Equivalent, MoreSpecific, Disjoint} \<and> (comparePaths q p = Equivalent \<longleftrightarrow> pt_segments q = pt_segments p)"
    using compare_literals [OF assms(1-3)] by (auto simp: comparePaths_def Let_def)
  then show ?thesis
    using assms(4) by (cases q; cases p) (auto simp: conflictsWith_def compareMethods_def Let_def)
qed

definition metrics_pattern :: "string \<Rightarrow> pattern option" where
  "metrics_pattern path = parsePattern (''GET '' @ path)"

lemma metrics_pattern_wf: "metrics_pattern path = Some p \<Longrightarrow> pt_method p = ''GET'' \<and> wf_segments (pt_segments p)"
proof -
  have "takeWhile (\<lambda>c. \<not> blank c) (''GET '' @ path) = ''GET''" by (simp add: blank_def)
  then show "metrics_pattern path = Some p \<Longrightarrow> pt_method p = ''GET'' \<and> wf_segments (pt_segments p)"
    by (auto simp: metrics_pattern_def parsePattern_def Let_def segments_wf split: if_splits)
qed

text \<open>The fixed routes, parsed.\<close>

definition route :: "string \<Rightarrow> string list \<Rightarrow> pattern" where
  "route m ws = \<lparr>pt_method = m, pt_host = '''', pt_segments = map Literal ws\<rparr>"

lemma fixed_routes:
  "parsePattern ''GET /healthz'' = Some (route ''GET'' [''healthz''])"
  "parsePattern ''GET /readyz'' = Some (route ''GET'' [''readyz''])"
  "parsePattern ''GET /api/v1/queue/status'' = Some (route ''GET'' [''api'', ''v1'', ''queue'', ''status''])"
  "parsePattern ''POST /api/v1/queue/heartbeat'' = Some (route ''POST'' [''api'', ''v1'', ''queue'', ''heartbeat''])"
  "parsePattern ''POST /api/v1/queue/enter'' = Some (route ''POST'' [''api'', ''v1'', ''queue'', ''enter''])"
  "parsePattern ''POST /api/v1/challenge/verify'' = Some (route ''POST'' [''api'', ''v1'', ''challenge'', ''verify''])"
  "parsePattern ''POST /api/v1/challenge/reissue'' = Some (route ''POST'' [''api'', ''v1'', ''challenge'', ''reissue''])"
  "parsePattern ''POST /api/v1/challenge/reverify'' = Some (route ''POST'' [''api'', ''v1'', ''challenge'', ''reverify''])"
  "parsePattern ''POST /api/v1/admission/redeem'' = Some (route ''POST'' [''api'', ''v1'', ''admission'', ''redeem''])"
  "parsePattern ''POST /api/v1/orders'' = Some (route ''POST'' [''api'', ''v1'', ''orders''])"
  by code_simp+

lemma route_GET: "wf_segments (pt_segments p) \<Longrightarrow> pt_method p = ''GET'' \<Longrightarrow> ws \<noteq> [] \<Longrightarrow>
    conflictsWith (route ''GET'' ws) p \<longleftrightarrow> p = route ''GET'' ws"
  using conflict_literals [of "route ''GET'' ws" p] by (auto simp: route_def)

lemma route_POST: "pt_method p = ''GET'' \<Longrightarrow> \<not> conflictsWith (route ''POST'' ws) p"
  by (simp add: conflictsWith_def compareMethods_def route_def)

lemma routes_apart: "ws \<noteq> [] \<Longrightarrow> ws' \<noteq> [] \<Longrightarrow> conflictsWith (route m ws) (route m ws') \<longleftrightarrow> ws = ws'"
proof -
  have "Multi \<notin> set (map Literal w)" "Multi \<notin> set (butlast (map Literal w))" for w
    by (auto simp flip: map_butlast)
  then show "ws \<noteq> [] \<Longrightarrow> ws' \<noteq> [] \<Longrightarrow> conflictsWith (route m ws) (route m ws') \<longleftrightarrow> ws = ws'"
    using conflict_literals [of "route m ws" "route m ws'"]
    by (auto simp: route_def wf_segments_def inj_map_eq_map inj_def)
qed

section \<open>When a service panics\<close>

definition taken_route :: "string \<Rightarrow> string list list \<Rightarrow> bool" where
  "taken_route path routes \<longleftrightarrow> (case metrics_pattern path of None \<Rightarrow> True | Some p \<Rightarrow> p \<in> route ''GET'' ` set routes)"

abbreviation "health_routes \<equiv> [[''healthz''], [''readyz'']]"

lemma NewServer_cases:
  "NewServer cfg =
    (if taken_route (sv_MetricsPath cfg) health_routes then None
     else Some [the (metrics_pattern (sv_MetricsPath cfg)), route ''GET'' [''healthz''], route ''GET'' [''readyz'']])"
proof (cases "metrics_pattern (sv_MetricsPath cfg)")
  case None
  then show ?thesis by (simp add: NewServer_def mux_Handle_def taken_route_def metrics_pattern_def)
next
  case (Some p)
  note wf = metrics_pattern_wf [OF Some]
  have "parsePattern (''GET '' @ sv_MetricsPath cfg) = Some p" using Some by (simp add: metrics_pattern_def)
  then show ?thesis
    using wf route_GET [of p "[''healthz'']"] route_GET [of p "[''readyz'']"]
    by (auto simp: NewServer_def mux_Handle_def taken_route_def Some fixed_routes routes_apart)
qed

lemma registers:
  assumes "metrics_pattern path = Some p"
  shows "GateAPI_Register [p, route ''GET'' [''healthz''], route ''GET'' [''readyz'']] \<noteq> None"
    "AdmissionAPI_Register [p, route ''GET'' [''healthz''], route ''GET'' [''readyz'']] \<noteq> None"
    "ShopAPI_Register [p, route ''GET'' [''healthz''], route ''GET'' [''readyz'']] \<noteq> None"
    "QueueAPI_Register [p, route ''GET'' [''healthz''], route ''GET'' [''readyz'']] = None \<longleftrightarrow>
      p = route ''GET'' [''api'', ''v1'', ''queue'', ''status'']"
proof -
  note wf = metrics_pattern_wf [OF assms]
  have "\<not> conflictsWith (route ''POST'' ws) (route ''GET'' ws')" for ws ws'
    by (rule route_POST) (simp add: route_def)
  then show "GateAPI_Register [p, route ''GET'' [''healthz''], route ''GET'' [''readyz'']] \<noteq> None"
    "AdmissionAPI_Register [p, route ''GET'' [''healthz''], route ''GET'' [''readyz'']] \<noteq> None"
    "ShopAPI_Register [p, route ''GET'' [''healthz''], route ''GET'' [''readyz'']] \<noteq> None"
    "QueueAPI_Register [p, route ''GET'' [''healthz''], route ''GET'' [''readyz'']] = None \<longleftrightarrow>
      p = route ''GET'' [''api'', ''v1'', ''queue'', ''status'']"
    using wf route_POST [of p] route_GET [of p "[''api'', ''v1'', ''queue'', ''status'']"]
    by (simp_all add: GateAPI_Register_def AdmissionAPI_Register_def ShopAPI_Register_def QueueAPI_Register_def
      mux_Handle_def fixed_routes routes_apart)
qed

lemma boot_panics:
  assumes "prom_ok P names" "set scripts \<subseteq> dom files" "Validate_config c = []"
    "redis_NewUniversalClient L (cf_Redis c)"
  shows "boot P L files scripts service secrets build register loops c = Panicked_start \<longleftrightarrow>
    RequireSecrets c secrets = [] \<and>
    (taken_route (sv_MetricsPath (cf_Service c)) health_routes \<or>
     (\<exists>s. build c = Inr s) \<and>
     (register [the (metrics_pattern (sv_MetricsPath (cf_Service c))), route ''GET'' [''healthz''], route ''GET'' [''readyz'']] = None \<or>
      \<not> loops c))"
proof -
  have "\<not> list_ex (\<lambda>n. MustRead files n = None) scripts"
    using assms(2) by (auto simp: list_ex_iff MustRead_def lua_Read_def)
  moreover obtain m where "NewMetrics P service = Some m" using NewMetrics_taken [OF assms(1)] by blast
  moreover have "app_New c secrets = (if RequireSecrets c secrets = [] then Inr c else Inl (RequireSecrets c secrets))"
    using assms(3) by (simp add: app_New_def)
  ultimately show ?thesis
    using assms(4) by (auto simp: boot_def NewServer_cases split: sum.split)
qed

lemma boot_runs:
  assumes "prom_ok P names" "set scripts \<subseteq> dom files" "Validate_config c = []"
    "redis_NewUniversalClient L (cf_Redis c)"
  shows "(\<exists>s. boot P L files scripts service secrets build register loops c = Running s) \<longleftrightarrow>
    RequireSecrets c secrets = [] \<and> \<not> taken_route (sv_MetricsPath (cf_Service c)) health_routes \<and>
    (\<exists>s. build c = Inr s) \<and> loops c \<and>
    register [the (metrics_pattern (sv_MetricsPath (cf_Service c))), route ''GET'' [''healthz''], route ''GET'' [''readyz'']] \<noteq> None"
proof -
  have "\<not> list_ex (\<lambda>n. MustRead files n = None) scripts"
    using assms(2) by (auto simp: list_ex_iff MustRead_def lua_Read_def)
  moreover obtain m where "NewMetrics P service = Some m" using NewMetrics_taken [OF assms(1)] by blast
  moreover have "app_New c secrets = (if RequireSecrets c secrets = [] then Inr c else Inl (RequireSecrets c secrets))"
    using assms(3) by (simp add: app_New_def)
  ultimately show ?thesis
    using assms(4) by (auto simp: boot_def NewServer_cases split: sum.split)
qed

text \<open>What the properties of a start share: the scripts are there, the routes fit, the tickers run.\<close>

lemma scripts_there:
  assumes "set lua_files \<subseteq> dom files"
  shows "set api_scripts \<subseteq> dom files" "set botscore_scripts \<subseteq> dom files"
  using assms by (auto simp: lua_files_def api_scripts_def queue_scripts_def admission_scripts_def botscore_scripts_def)

lemma routes_fit:
  fixes path :: string
  defines "mux \<equiv> [the (metrics_pattern path), route ''GET'' [''healthz''], route ''GET'' [''readyz'']]"
  assumes "\<not> taken_route path health_routes"
  shows "GateAPI_Register mux \<noteq> None" "AdmissionAPI_Register mux \<noteq> None" "ShopAPI_Register mux \<noteq> None"
    "QueueAPI_Register mux = None \<longleftrightarrow> taken_route path [[''api'', ''v1'', ''queue'', ''status'']]"
  using assms registers by (auto simp: taken_route_def split: option.splits)

lemma tickers_run:
  "Validate_config c = [] \<Longrightarrow> NewTicker (am_Interval (cf_Admission c)) \<and> NewTicker (qu_HeartbeatInterval (cf_Queue c))"
  by (simp add: Validate_parts checks_infra_def checks_admission_def NewTicker_def)

text \<open>A service runs exactly when its parts are built and nothing panics.\<close>

lemma services_run:
  assumes "prom_ok P names" "set lua_files \<subseteq> dom files" "Validate_config c = []"
    "redis_NewUniversalClient L (cf_Redis c)" "kf_Enabled (cf_Kafka c) \<longrightarrow> kafka_NewReader L (cf_Kafka c)"
  defines "taken \<equiv> taken_route (sv_MetricsPath (cf_Service c)) health_routes"
  shows "(\<exists>s. boot_gate P L files c = Running s) \<longleftrightarrow> (\<exists>s. run_gate c = Inr s) \<and> \<not> taken"
    "(\<exists>s. boot_queue P L files c = Running s) \<longleftrightarrow> (\<exists>s. run_queue c = Inr s) \<and> \<not> taken \<and>
      \<not> taken_route (sv_MetricsPath (cf_Service c)) [[''api'', ''v1'', ''queue'', ''status'']]"
    "(\<exists>s. boot_admission P L files c = Running s) \<longleftrightarrow> (\<exists>s. run_admission c = Inr s) \<and> \<not> taken"
    "(\<exists>s. boot_shop P L files up c = Running s) \<longleftrightarrow> (\<exists>s. run_shop up c = Inr s) \<and> \<not> taken"
    "(\<exists>s. boot_scorer P L files up c = Running s) \<longleftrightarrow> (\<exists>s. run_scorer up c = Inr s) \<and> \<not> taken \<and> 0 < bs_FlushEvery (cf_BotScore c)"
proof -
  note runs = boot_runs [OF assms(1) scripts_there(1) [OF assms(2)] assms(3,4), folded taken_def]
    boot_runs [OF assms(1) scripts_there(2) [OF assms(2)] assms(3,4), folded taken_def]
  note fit = routes_fit [of "sv_MetricsPath (cf_Service c)", folded taken_def]
  note tick = tickers_run [OF assms(3)]
  have g: "(\<exists>s. run_gate c = Inr s) \<Longrightarrow> RequireSecrets c [''event_salt'', ''token_signing_key'', ''challenge_hmac_key''] = []"
    by (auto simp: run_gate_def app_New_def start_step_def split: if_splits)
  have q: "(\<exists>s. run_queue c = Inr s) \<Longrightarrow> RequireSecrets c [''event_salt'', ''token_signing_key''] = []"
    by (auto simp: run_queue_def app_New_def start_step_def split: if_splits)
  have a: "(\<exists>s. run_admission c = Inr s) \<Longrightarrow> RequireSecrets c [''token_signing_key''] = []"
    by (auto simp: run_admission_def app_New_def start_step_def split: if_splits)
  have h: "(\<exists>s. run_shop up c = Inr s) \<Longrightarrow> RequireSecrets c [''token_signing_key'', ''postgres_dsn''] = []"
    by (auto simp: run_shop_def app_New_def start_step_def split: if_splits)
  have b: "(\<exists>s. run_scorer up c = Inr s) \<Longrightarrow> RequireSecrets c [''event_salt''] = []"
    by (auto simp: run_scorer_def app_New_def start_step_def split: if_splits)
  show "(\<exists>s. boot_gate P L files c = Running s) \<longleftrightarrow> (\<exists>s. run_gate c = Inr s) \<and> \<not> taken"
    unfolding boot_gate_def runs using g fit(1) tick by blast
  show "(\<exists>s. boot_queue P L files c = Running s) \<longleftrightarrow> (\<exists>s. run_queue c = Inr s) \<and> \<not> taken \<and>
      \<not> taken_route (sv_MetricsPath (cf_Service c)) [[''api'', ''v1'', ''queue'', ''status'']]"
    unfolding boot_queue_def runs using q fit(4) tick by metis
  show "(\<exists>s. boot_admission P L files c = Running s) \<longleftrightarrow> (\<exists>s. run_admission c = Inr s) \<and> \<not> taken"
    unfolding boot_admission_def runs using a fit(2) tick by blast
  show "(\<exists>s. boot_shop P L files up c = Running s) \<longleftrightarrow> (\<exists>s. run_shop up c = Inr s) \<and> \<not> taken"
    unfolding boot_shop_def runs using h fit(3) by blast
  show "(\<exists>s. boot_scorer P L files up c = Running s) \<longleftrightarrow> (\<exists>s. run_scorer up c = Inr s) \<and> \<not> taken \<and> 0 < bs_FlushEvery (cf_BotScore c)"
    unfolding boot_scorer_def runs NewTicker_def using b assms(5) option.simps(3) by metis
qed

text \<open>
  C24. A service that starts on a validated configuration panics in exactly these cases, once its
  secrets are there: the path of the metrics does not parse as a pattern, or is the route of the
  health or readiness check, or at the queue service the route of the status; and at the scorer,
  when the interval between two flushes is not positive.  Neither the embedded scripts nor the
  metrics nor any other ticker can do it.  Nothing checks these two settings before.  The client
  libraries are taken to accept their own settings.
\<close>

theorem start_panics:
  assumes "prom_ok P names" "set lua_files \<subseteq> dom files" "Validate_config c = []"
    "CHR ''{'' \<notin> set (sv_MetricsPath (cf_Service c))"
    "redis_NewUniversalClient L (cf_Redis c)" "kf_Enabled (cf_Kafka c) \<longrightarrow> kafka_NewReader L (cf_Kafka c)"
  shows "(boot_gate P L files c = Panicked_start \<longleftrightarrow>
      RequireSecrets c [''event_salt'', ''token_signing_key'', ''challenge_hmac_key''] = [] \<and>
      taken_route (sv_MetricsPath (cf_Service c)) health_routes) \<and>
    (boot_queue P L files c = Panicked_start \<longleftrightarrow>
      RequireSecrets c [''event_salt'', ''token_signing_key''] = [] \<and>
      (taken_route (sv_MetricsPath (cf_Service c)) health_routes \<or>
       validID (ev_ID (cf_Event c)) \<and> taken_route (sv_MetricsPath (cf_Service c)) [[''api'', ''v1'', ''queue'', ''status'']])) \<and>
    (boot_admission P L files c = Panicked_start \<longleftrightarrow>
      RequireSecrets c [''token_signing_key''] = [] \<and> taken_route (sv_MetricsPath (cf_Service c)) health_routes) \<and>
    (boot_shop P L files up c = Panicked_start \<longleftrightarrow>
      RequireSecrets c [''token_signing_key'', ''postgres_dsn''] = [] \<and>
      taken_route (sv_MetricsPath (cf_Service c)) health_routes) \<and>
    (boot_scorer P L files up c = Panicked_start \<longleftrightarrow>
      RequireSecrets c [''event_salt''] = [] \<and>
      (taken_route (sv_MetricsPath (cf_Service c)) health_routes \<or>
       (up \<or> \<not> pg_Enabled (cf_Postgres c) \<or> IsZero (pg_DSN (cf_Postgres c))) \<and> bs_FlushEvery (cf_BotScore c) \<le> 0))"
proof -
  let ?path = "sv_MetricsPath (cf_Service c)"
  note sub = scripts_there [OF assms(2)]
  note panics = boot_panics [OF assms(1) sub(1) assms(3,5)] boot_panics [OF assms(1) sub(2) assms(3,5)]
  note reg = routes_fit [of ?path]
  note tick = conjunct1 [OF tickers_run [OF assms(3)]] conjunct2 [OF tickers_run [OF assms(3)]]
  note starts = services_start [OF assms(3), of up]
  let ?T = "taken_route ?path health_routes"
  let ?secrets = "\<lambda>names. RequireSecrets c names = []"
  have keys: "?secrets [''event_salt'', ''token_signing_key'', ''challenge_hmac_key''] \<Longrightarrow>
      \<not> IsZero (ev_Salt (cf_Event c)) \<and> \<not> IsZero (tc_SigningKey (cf_Token c))"
    "?secrets [''event_salt'', ''token_signing_key''] \<Longrightarrow>
      \<not> IsZero (ev_Salt (cf_Event c)) \<and> \<not> IsZero (tc_SigningKey (cf_Token c))"
    "?secrets [''event_salt''] \<Longrightarrow> \<not> IsZero (ev_Salt (cf_Event c))"
    by (auto simp: RequireSecrets_def split: if_splits)
  have run_q: "(\<exists>q. run_queue c = Inr q) \<longleftrightarrow> validID (ev_ID (cf_Event c))"
    if "?secrets [''event_salt'', ''token_signing_key'']"
    using starts keys(2) [OF that] by blast
  have run_s: "(\<exists>b. run_scorer up c = Inr b) \<longleftrightarrow> up \<or> \<not> pg_Enabled (cf_Postgres c) \<or> IsZero (pg_DSN (cf_Postgres c))"
    if "?secrets [''event_salt'']"
    using starts keys(3) [OF that] by blast
  show ?thesis
  proof (intro conjI)
    show "boot_gate P L files c = Panicked_start \<longleftrightarrow>
        ?secrets [''event_salt'', ''token_signing_key'', ''challenge_hmac_key''] \<and> ?T"
      unfolding boot_gate_def panics using reg(1) tick(1) by blast
    show "boot_queue P L files c = Panicked_start \<longleftrightarrow> ?secrets [''event_salt'', ''token_signing_key''] \<and>
        (?T \<or> validID (ev_ID (cf_Event c)) \<and> taken_route ?path [[''api'', ''v1'', ''queue'', ''status'']])"
      unfolding boot_queue_def panics using reg(4) tick(2) run_q by blast
    show "boot_admission P L files c = Panicked_start \<longleftrightarrow> ?secrets [''token_signing_key''] \<and> ?T"
      unfolding boot_admission_def panics using reg(2) tick(1) by blast
    show "boot_shop P L files up c = Panicked_start \<longleftrightarrow> ?secrets [''token_signing_key'', ''postgres_dsn''] \<and> ?T"
      unfolding boot_shop_def panics using reg(3) by blast
    show "boot_scorer P L files up c = Panicked_start \<longleftrightarrow> ?secrets [''event_salt''] \<and>
        (?T \<or> (up \<or> \<not> pg_Enabled (cf_Postgres c) \<or> IsZero (pg_DSN (cf_Postgres c))) \<and> bs_FlushEvery (cf_BotScore c) \<le> 0)"
      unfolding boot_scorer_def panics NewTicker_def
      using run_s assms(6) not_le [of "bs_FlushEvery (cf_BotScore c)" 0] option.simps(3) by metis
  qed
qed

text \<open>A validated configuration whose metrics path is the health check, and one without the slash.\<close>

definition any_clients :: clients where
  "any_clients = \<lparr>redis_NewUniversalClient = (\<lambda>_. True), kafka_NewReader = (\<lambda>k. kf_Brokers k \<noteq> [])\<rparr>"

theorem start_panics_witness:
  "boot_scorer list_prom any_clients (\<lambda>_. Some ''-- lua'') True
     ((default_config (Secret_of ''k''))\<lparr>cf_Service := (cf_Service (default_config (Secret_of ''k'')))\<lparr>sv_MetricsPath := ''/healthz''\<rparr>\<rparr>)
     = Panicked_start \<and>
   boot_scorer list_prom any_clients (\<lambda>_. Some ''-- lua'') True (default_config (Secret_of ''k'')) \<noteq> Panicked_start"
proof -
  let ?c = "default_config (Secret_of ''k'')"
  let ?d = "?c\<lparr>cf_Service := (cf_Service ?c)\<lparr>sv_MetricsPath := ''/healthz''\<rparr>\<rparr>"
  have v: "Validate_config ?c = []" by (rule Validate_default)
  then have v': "Validate_config ?d = []" by (simp add: Validate_parts checks_infra_def checks_admission_def)
  have p: "sv_MetricsPath (cf_Service ?c) = ''/internal/metrics''" by (simp add: default_config_def default_Service_def)
  have t: "taken_route ''/healthz'' health_routes" "\<not> taken_route ''/internal/metrics'' health_routes" by code_simp+
  have l: "redis_NewUniversalClient any_clients r" "kf_Enabled (cf_Kafka ?c) \<longrightarrow> kafka_NewReader any_clients (cf_Kafka ?c)"
    "kf_Enabled (cf_Kafka ?d) \<longrightarrow> kafka_NewReader any_clients (cf_Kafka ?d)" for r
    by (simp_all add: any_clients_def default_config_def default_Kafka_def)
  show ?thesis
    using start_panics [OF list_prom_ok _ v _ l(1,2), of "\<lambda>_. Some ''-- lua''" True] 
      start_panics [OF list_prom_ok _ v' _ l(1,3), of "\<lambda>_. Some ''-- lua''" True]
    by (simp add: p t default_config_def default_Event_def default_BotScore_def default_Service_def IsZero_def)
qed

end
