(* ===== verification/Parsing.thy ===== *)
theory Parsing
  imports Config "HOL-Library.State_Monad"
begin

text \<open>
  The three parsers of Go's standard library that the environment loader uses besides \<open>Atoi\<close> and
  \<open>ParseBool\<close>: \<open>strconv.ParseFloat\<close>, \<open>time.ParseDuration\<close> and \<open>time.Parse\<close> with the layout RFC3339.
  Each is written out as the library has it, with its overflow checks, and returns \<open>None\<close> for an
  error.  A parsed float may be NaN or an infinity, which the rationals of \<open>Float64\<close> are not:
  \<open>xfloat\<close> adds them, with the IEEE comparisons and sum that the validation needs.
\<close>

section \<open>Floats with NaN and infinities\<close>

datatype xfloat = Num float64 | NaN | Infinite bool \<comment> \<open>the sign: \<open>True\<close> is negative\<close>

text \<open>A rounded number of magnitude \<open>2 ^ 1024\<close> or more is an infinity.\<close>

definition overflow :: "float64 \<Rightarrow> xfloat" where
  "overflow r = (if r \<noteq> 0 \<and> 1023 < exponent \<bar>r\<bar> then Infinite (r < 0) else Num r)"

text \<open>Rounding to a \<open>float64\<close> with the limits of its exponent: subnormal numbers, then overflow.\<close>

definition round64 :: "rat \<Rightarrow> xfloat" where
  "round64 x =
    (if x \<noteq> 0 \<and> exponent \<bar>x\<bar> < - 1022 then Num (of_int (rne (x * pow2 1074)) * pow2 (- 1074))
     else overflow (rnd x))"

fun x_less :: "xfloat \<Rightarrow> xfloat \<Rightarrow> bool" where
  "x_less (Num a) (Num b) = (a < b)"
| "x_less NaN _ = False"
| "x_less _ NaN = False"
| "x_less (Infinite a) (Infinite b) = (a \<and> \<not> b)"
| "x_less (Infinite a) (Num _) = a"
| "x_less (Num _) (Infinite b) = (\<not> b)"

fun x_le :: "xfloat \<Rightarrow> xfloat \<Rightarrow> bool" where
  "x_le (Num a) (Num b) = (a \<le> b)"
| "x_le NaN _ = False"
| "x_le _ NaN = False"
| "x_le (Infinite a) (Infinite b) = (a \<or> \<not> b)"
| "x_le (Infinite a) (Num _) = a"
| "x_le (Num _) (Infinite b) = (\<not> b)"

text \<open>A sum of two floats is never inexact below the normal range, so \<open>rnd\<close> serves.\<close>

fun x_add :: "xfloat \<Rightarrow> xfloat \<Rightarrow> xfloat" where
  "x_add (Num a) (Num b) = overflow (fadd a b)"
| "x_add NaN _ = NaN"
| "x_add _ NaN = NaN"
| "x_add (Infinite a) (Infinite b) = (if a = b then Infinite a else NaN)"
| "x_add (Infinite a) (Num _) = Infinite a"
| "x_add (Num _) (Infinite b) = Infinite b"

lemma x_NaN [simp]: "\<not> x_less x NaN" "\<not> x_le x NaN" "x_add x NaN = NaN"
  by (cases x; simp)+

lemma x_add_Num: "x_add a b = Num r \<Longrightarrow> \<exists>p q. a = Num p \<and> b = Num q \<and> r = fadd p q"
  by (cases a; cases b) (auto simp: overflow_def split: if_splits)

section \<open>\<open>strconv.ParseFloat\<close>\<close>

definition to_lower :: "char \<Rightarrow> char" where
  "to_lower c = (let n = of_char c :: int in if 65 \<le> n \<and> n \<le> 90 then char_of (n + 32) else c)"

text \<open>\<open>special\<close>: an infinity with or without a sign, or NaN without one, in any case of letters.\<close>

definition special :: "string \<Rightarrow> xfloat option" where
  "special s =
    (let (signed, neg, t) = (case s of [] \<Rightarrow> (False, False, [])
           | c # cs \<Rightarrow> if c = CHR ''-'' then (True, True, cs)
                        else if c = CHR ''+'' then (True, False, cs) else (False, False, s));
         l = map to_lower t
     in if l = ''inf'' \<or> l = ''infinity'' then Some (Infinite neg)
        else if \<not> signed \<and> l = ''nan'' then Some NaN else None)"

text \<open>
  The mantissa: digits, at most one dot, underscores skipped and noted.  The result is whether
  there was a digit, the digits as a number, how many stood behind the dot, and what follows.
\<close>

fun read_mant :: "bool \<Rightarrow> bool \<Rightarrow> bool \<Rightarrow> int \<Rightarrow> int \<Rightarrow> bool \<Rightarrow> string \<Rightarrow> bool \<times> int \<times> int \<times> bool \<times> string" where
  "read_mant hex dot digs m fd us [] = (digs, m, fd, us, [])"
| "read_mant hex dot digs m fd us (c # s) =
    (if c = CHR ''_'' then read_mant hex dot digs m fd True s
     else if c = CHR ''.'' then
       (if dot then (digs, m, fd, us, c # s) else read_mant hex True digs m fd us s)
     else if is_digit c then
       read_mant hex dot True ((if hex then 16 else 10) * m + int (digit_val c)) (if dot then fd + 1 else fd) us s
     else case (if hex then hex_val c else None) of
         Some d \<Rightarrow> read_mant hex dot True (16 * m + d) (if dot then fd + 1 else fd) us s
       | None \<Rightarrow> (digs, m, fd, us, c # s))"

fun read_exp :: "int \<Rightarrow> bool \<Rightarrow> string \<Rightarrow> int \<times> bool \<times> string" where
  "read_exp e us [] = (e, us, [])"
| "read_exp e us (c # s) =
    (if c = CHR ''_'' then read_exp e True s
     else if is_digit c then read_exp (if e < 10000 then 10 * e + int (digit_val c) else e) us s
     else (e, us, c # s))"

fun underscore_scan :: "bool \<Rightarrow> char \<Rightarrow> string \<Rightarrow> bool" where
  "underscore_scan hex saw [] = (saw \<noteq> CHR ''_'')"
| "underscore_scan hex saw (c # s) =
    (if is_digit c \<or> hex \<and> hex_val c \<noteq> None then underscore_scan hex (CHR ''0'') s
     else if c = CHR ''_'' then saw = CHR ''0'' \<and> underscore_scan hex (CHR ''_'') s
     else saw \<noteq> CHR ''_'' \<and> underscore_scan hex (CHR ''!'') s)"

definition underscoreOK :: "string \<Rightarrow> bool" where
  "underscoreOK s =
    (let s = (case s of c # cs \<Rightarrow> if c = CHR ''-'' \<or> c = CHR ''+'' then cs else s | [] \<Rightarrow> [])
     in case s of
          c # d # t \<Rightarrow>
            if c = CHR ''0'' \<and> to_lower d \<in> {CHR ''b'', CHR ''o'', CHR ''x''}
            then underscore_scan (to_lower d = CHR ''x'') (CHR ''0'') t
            else underscore_scan False (CHR ''^'') s
        | _ \<Rightarrow> underscore_scan False (CHR ''^'') s)"

text \<open>\<open>readFloat\<close> on the whole string, as the exact number it denotes.\<close>

definition readFloat :: "string \<Rightarrow> rat option" where
  "readFloat s0 =
    (let (neg, s) = (case s0 of [] \<Rightarrow> (False, [])
           | c # cs \<Rightarrow> if c = CHR ''-'' then (True, cs)
                        else if c = CHR ''+'' then (False, cs) else (False, s0));
         hex = (length s > 2 \<and> s ! 0 = CHR ''0'' \<and> to_lower (s ! 1) = CHR ''x'');
         (digs, m, fd, us, rest) = read_mant hex False False 0 0 False (if hex then drop 2 s else s);
         value = (\<lambda>e us rest.
           if rest \<noteq> [] \<or> us \<and> \<not> underscoreOK s0 then None
           else let x = of_int m * (if hex then pow2 (e - 4 * fd)
                                    else if 0 \<le> e - fd then 10 ^ nat (e - fd) else 1 / 10 ^ nat (fd - e))
                in Some (if neg then - x else x))
     in if \<not> digs then None
        else case rest of
            c # cs \<Rightarrow>
              if to_lower c = (if hex then CHR ''p'' else CHR ''e'') then
                let (esign, t) = (case cs of [] \<Rightarrow> (1, [])
                      | d # ds \<Rightarrow> if d = CHR ''+'' then (1, ds) else if d = CHR ''-'' then (- 1, ds) else (1, cs))
                in if t = [] \<or> \<not> is_digit (hd t) then None
                   else let (e, us', rest') = read_exp 0 us t in value (esign * e) us' rest'
              else None
          | [] \<Rightarrow> if hex then None else value 0 us [])"

definition ParseFloat :: "string \<Rightarrow> xfloat option" where
  "ParseFloat s =
    (case special s of
       Some x \<Rightarrow> Some x
     | None \<Rightarrow>
         (case readFloat s of
            None \<Rightarrow> None
          | Some x \<Rightarrow> (case round64 x of Num r \<Rightarrow> Some (Num r) | _ \<Rightarrow> None)))"

section \<open>\<open>time.ParseDuration\<close>\<close>

text \<open>The unsigned 64-bit arithmetic of the code stays below its bounds but for \<open>d += v\<close>, which can wrap.\<close>

fun leadingInt :: "int \<Rightarrow> string \<Rightarrow> (int \<times> string) option" where
  "leadingInt x [] = Some (x, [])"
| "leadingInt x (c # s) =
    (if \<not> is_digit c then Some (x, c # s)
     else if x > 2 ^ 63 div 10 then None
     else let y = x * 10 + int (digit_val c) in if y > 2 ^ 63 then None else leadingInt y s)"

fun leadingFraction :: "int \<Rightarrow> float64 \<Rightarrow> bool \<Rightarrow> string \<Rightarrow> int \<times> float64 \<times> string" where
  "leadingFraction x scale ovf [] = (x, scale, [])"
| "leadingFraction x scale ovf (c # s) =
    (if \<not> is_digit c then (x, scale, c # s)
     else if ovf \<or> x > (2 ^ 63 - 1) div 10 then leadingFraction x scale True s
     else let y = x * 10 + int (digit_val c)
          in if y > 2 ^ 63 then leadingFraction x scale True s
             else leadingFraction y (fmul scale 10) False s)"

definition unitMap :: "string \<rightharpoonup> int" where
  "unitMap = [''ns'' \<mapsto> 1, ''us'' \<mapsto> 1000, map char_of [0xC2, 0xB5, 0x73 :: int] \<mapsto> 1000,
     map char_of [0xCE, 0xBC, 0x73 :: int] \<mapsto> 1000, ''ms'' \<mapsto> 1000000, ''s'' \<mapsto> 1000000000,
     ''m'' \<mapsto> 60000000000, ''h'' \<mapsto> 3600000000000]"

abbreviation unit_char :: "char \<Rightarrow> bool" where "unit_char c \<equiv> c \<noteq> CHR ''.'' \<and> \<not> is_digit c"

text \<open>One number with its unit: its nanoseconds and the rest of the string.\<close>

definition duration_part :: "string \<Rightarrow> (int \<times> string) option" where
  "duration_part s =
    (if s = [] \<or> \<not> (hd s = CHR ''.'' \<or> is_digit (hd s)) then None
     else case leadingInt 0 s of
         None \<Rightarrow> None
       | Some (v, s1) \<Rightarrow>
           let pre = (length s1 \<noteq> length s);
               (f, scale, s2, post) =
                 (if s1 \<noteq> [] \<and> hd s1 = CHR ''.''
                  then let (f, scale, t) = leadingFraction 0 1 False (tl s1)
                       in (f, scale, t, length t \<noteq> length (tl s1))
                  else (0, 1, s1, False));
               u = takeWhile unit_char s2
           in if \<not> pre \<and> \<not> post \<or> u = [] then None
              else case unitMap u of
                  None \<Rightarrow> None
                | Some unit \<Rightarrow>
                    if v > 2 ^ 63 div unit then None
                    else let v = v * unit;
                             v = (if f > 0 then v + int64_of (fmul (float_of f) (fdiv (float_of unit) scale)) else v)
                         in if v > 2 ^ 63 then None else Some (v, dropWhile unit_char s2))"

lemma leadingInt_length: "leadingInt x s = Some (y, t) \<Longrightarrow> length t \<le> length s"
  by (induction x s rule: leadingInt.induct) (auto simp: Let_def split: if_splits)

lemma leadingFraction_length: "leadingFraction x sc ovf s = (y, sc', t) \<Longrightarrow> length t \<le> length s"
  by (induction x sc ovf s rule: leadingFraction.induct) (auto simp: Let_def split: if_splits)

lemma dropWhile_shorter: "takeWhile P s \<noteq> [] \<Longrightarrow> length (dropWhile P s) < length s"
  by (cases s) (auto simp: length_dropWhile_le le_imp_less_Suc split: if_splits)

lemma duration_part_length: "duration_part s = Some (v, t) \<Longrightarrow> length t < length s"
  by (fastforce simp: duration_part_def Let_def split: if_splits option.splits prod.splits
      dest!: leadingInt_length leadingFraction_length dropWhile_shorter)

function duration_parts :: "int \<Rightarrow> string \<Rightarrow> int option" where
  "duration_parts d s =
    (if s = [] then Some d
     else case duration_part s of
         None \<Rightarrow> None
       | Some (v, t) \<Rightarrow>
           let d' = (d + v) mod 2 ^ 64 in if d' > 2 ^ 63 then None else duration_parts d' t)"
  by pat_completeness auto

termination
  by (relation "measure (\<lambda>(d, s). length s)") (auto dest: duration_part_length)

declare duration_parts.simps [simp del]

definition ParseDuration :: "string \<Rightarrow> duration option" where
  "ParseDuration s0 =
    (let (neg, s) = (case s0 of [] \<Rightarrow> (False, [])
           | c # cs \<Rightarrow> if c = CHR ''-'' then (True, cs)
                        else if c = CHR ''+'' then (False, cs) else (False, s0))
     in if s = ''0'' then Some 0
        else if s = [] then None
        else case duration_parts 0 s of
            None \<Rightarrow> None
          | Some d \<Rightarrow> if neg then Some (- d) else if d > 2 ^ 63 - 1 then None else Some d)"

section \<open>\<open>time.Parse\<close> with RFC3339\<close>

fun getnum :: "bool \<Rightarrow> string \<Rightarrow> (int \<times> string) option" where
  "getnum fixed (c # d # s) =
    (if \<not> is_digit c then None
     else if is_digit d then Some (int (digit_val c) * 10 + int (digit_val d), s)
     else if fixed then None else Some (int (digit_val c), d # s))"
| "getnum fixed [c] = (if \<not> is_digit c \<or> fixed then None else Some (int (digit_val c), []))"
| "getnum fixed [] = None"

definition skip :: "char \<Rightarrow> string \<Rightarrow> string option" where
  "skip c s = (case s of d # t \<Rightarrow> if d = c then Some t else None | [] \<Rightarrow> None)"

definition in_range :: "int \<Rightarrow> int \<Rightarrow> (int \<times> string) option \<Rightarrow> (int \<times> string) option" where
  "in_range lo hi r = (case r of Some (n, s) \<Rightarrow> if lo \<le> n \<and> n \<le> hi then Some (n, s) else None | None \<Rightarrow> None)"

definition long_year :: "string \<Rightarrow> (int \<times> string) option" where
  "long_year s =
    (if length s < 4 \<or> \<not> list_all is_digit (take 4 s) then None
     else Some (int (read_nat (take 4 s)), drop 4 s))"

text \<open>A fraction of a second is accepted though the layout has none; digits after the ninth are dropped.\<close>

definition fraction :: "string \<Rightarrow> int \<times> string" where
  "fraction s =
    (case s of
       c # d # t \<Rightarrow>
         if c \<in> {CHR ''.'', CHR '',''} \<and> is_digit d then
           let ds = take 9 (takeWhile is_digit (d # t))
           in (int (read_nat ds) * 10 ^ (9 - length ds), dropWhile is_digit (d # t))
         else (0, s)
     | _ \<Rightarrow> (0, s))"

text \<open>The offset from UTC in seconds.\<close>

definition zone :: "string \<Rightarrow> (int \<times> string) option" where
  "zone s =
    (case s of
       [] \<Rightarrow> None
     | c # t \<Rightarrow>
         if c = CHR ''Z'' then Some (0, t)
         else if length s < 6 \<or> s ! 3 \<noteq> CHR '':'' \<or> c \<noteq> CHR ''+'' \<and> c \<noteq> CHR ''-'' then None
         else case (in_range 0 24 (getnum True (take 2 t)), in_range 0 60 (getnum True (take 2 (drop 4 s)))) of
             (Some (hr, _), Some (mm, _)) \<Rightarrow>
               Some ((if c = CHR ''-'' then - 1 else 1) * (hr * 60 + mm) * 60, drop 6 s)
           | _ \<Rightarrow> None)"

definition isLeap :: "int \<Rightarrow> bool" where
  "isLeap y \<longleftrightarrow> y mod 4 = 0 \<and> (y mod 100 \<noteq> 0 \<or> y mod 400 = 0)"

definition daysIn :: "int \<Rightarrow> int \<Rightarrow> int" where
  "daysIn m y = (if m = 2 then if isLeap y then 29 else 28 else if m \<in> {4, 6, 9, 11} then 30 else 31)"

text \<open>\<open>time.Date\<close> in UTC: the days from the beginning of year 0, 719528 of them before 1970.\<close>

definition days_to :: "int \<Rightarrow> int \<Rightarrow> int \<Rightarrow> int" where
  "days_to y m d =
    365 * y + (y + 3) div 4 - (y + 99) div 100 + (y + 399) div 400 +
    sum_list (map (\<lambda>k. daysIn k y) [1 .. m - 1]) + (d - 1)"

definition Date :: "int \<Rightarrow> int \<Rightarrow> int \<Rightarrow> int \<Rightarrow> int \<Rightarrow> int \<Rightarrow> int \<Rightarrow> gotime" where
  "Date y m d hh mm ss ns =
    ((((days_to y m d - 719528) * 24 + hh) * 60 + mm) * 60 + ss) * 1000000000 + ns"

text \<open>The zero \<open>time.Time\<close> is the first of January of year 1.\<close>

definition zero_instant :: gotime where "zero_instant = Date 1 1 1 0 0 0 0"

definition time_Parse :: "string \<Rightarrow> gotime option" where
  "time_Parse s = do {
     (year, s) \<leftarrow> long_year s; s \<leftarrow> skip (CHR ''-'') s;
     (month, s) \<leftarrow> in_range 1 12 (getnum True s); s \<leftarrow> skip (CHR ''-'') s;
     (day, s) \<leftarrow> getnum True s; s \<leftarrow> skip (CHR ''T'') s;
     (hh, s) \<leftarrow> in_range 0 23 (getnum False s); s \<leftarrow> skip (CHR '':'') s;
     (mm, s) \<leftarrow> in_range 0 59 (getnum True s); s \<leftarrow> skip (CHR '':'') s;
     (ss, s) \<leftarrow> in_range 0 59 (getnum True s);
     let (ns, s) = fraction s;
     (offset, s) \<leftarrow> zone s;
     if s \<noteq> [] \<or> day < 1 \<or> daysIn month year < day then None
     else Some (Date year month day hh mm ss ns - offset * 1000000000)
   }"

section \<open>The loader's readers on them\<close>

definition floatVal :: "string \<Rightarrow> float64 \<Rightarrow> loader \<Rightarrow> xfloat \<times> loader" where
  "floatVal k def l =
    (case raw k l of
       (None, l') \<Rightarrow> (Num def, l')
     | (Some v, l') \<Rightarrow>
         (case ParseFloat v of None \<Rightarrow> (Num def, fail k ''not a number'' l') | Some f \<Rightarrow> (f, l')))"

definition dur :: "string \<Rightarrow> duration \<Rightarrow> loader \<Rightarrow> duration \<times> loader" where
  "dur k def l =
    (case raw k l of
       (None, l') \<Rightarrow> (def, l')
     | (Some v, l') \<Rightarrow>
         (case ParseDuration v of
            None \<Rightarrow> (def, fail k ''not a duration (e.g. 5s, 2m)'' l') | Some d \<Rightarrow> (d, l')))"

definition timeVal :: "string \<Rightarrow> gotime option \<Rightarrow> loader \<Rightarrow> gotime option \<times> loader" where
  "timeVal k def l =
    (case raw k l of
       (None, l') \<Rightarrow> (def, l')
     | (Some v, l') \<Rightarrow>
         (case time_Parse v of
            None \<Rightarrow> (def, fail k ''not an RFC3339 timestamp'' l')
          | Some t \<Rightarrow> (if t = zero_instant then None else Some t, l')))"

end
