(* ===== verification/Loading.thy ===== *)
theory Loading
  imports Parsing
begin

text \<open>
  Reading the configuration from the environment (\<open>LoadFrom\<close> of \<open>src/internal/config/config.go\<close>).
  The code threads one loader through all the reads of a composite literal, which Go evaluates in
  the order they are written: here a state monad over \<open>loader\<close>, one function per section.  The
  reads neither stop at a mistake nor depend on each other, which the second half shows: what
  \<open>LoadFrom\<close> returns is what the table \<open>config_vars\<close> of its variables says.

  \<open>Config\<close> holds rationals where the code has \<open>float64\<close>, so \<open>Loaded\<close> keeps the ten floats that were
  read beside it, NaN and infinities included, and the validation compares those; where all ten are
  finite, \<open>Config\<close> is the whole of what was loaded.
\<close>

section \<open>The readers as state transformers\<close>

definition rd_str :: "string \<Rightarrow> string \<Rightarrow> (loader, string) state" where "rd_str k d = State (str k d)"
definition rd_list :: "string \<Rightarrow> string list \<Rightarrow> (loader, string list) state" where "rd_list k d = State (list_val k d)"
definition rd_int :: "string \<Rightarrow> int \<Rightarrow> (loader, int) state" where "rd_int k d = State (intVal k d)"
definition rd_float :: "string \<Rightarrow> float64 \<Rightarrow> (loader, xfloat) state" where "rd_float k d = State (floatVal k d)"
definition rd_bool :: "string \<Rightarrow> bool \<Rightarrow> (loader, bool) state" where "rd_bool k d = State (boolVal k d)"
definition rd_dur :: "string \<Rightarrow> duration \<Rightarrow> (loader, duration) state" where "rd_dur k d = State (dur k d)"
definition rd_time :: "string \<Rightarrow> gotime option \<Rightarrow> (loader, gotime option) state" where "rd_time k d = State (timeVal k d)"
definition rd_hex :: "string \<Rightarrow> (loader, Secret) state" where "rd_hex k = State (secretHex k)"
definition rd_raw :: "string \<Rightarrow> (loader, Secret) state" where "rd_raw k = State (secretRaw k)"

definition fin :: "xfloat \<Rightarrow> float64" where "fin x = (case x of Num r \<Rightarrow> r | _ \<Rightarrow> 0)"

record Scoring_floats =
  fl_Decay :: xfloat
  fl_HeartbeatCVFloor :: xfloat
  fl_SignalZSpan :: xfloat
  fl_SignalMinContrib :: xfloat
  fl_Heartbeat :: xfloat
  fl_Correlation :: xfloat
  fl_Fingerprint :: xfloat
  fl_IPPrefix :: xfloat
  fl_PoW :: xfloat

section \<open>The sections\<close>

definition load_Service :: "string \<Rightarrow> string \<Rightarrow> (loader, Service_cfg) state" where
  "load_Service name addr = do {
     httpAddr \<leftarrow> rd_str ''HTTP_ADDR'' addr;
     logLevel \<leftarrow> rd_str ''LOG_LEVEL'' ''info'';
     metricsPath \<leftarrow> rd_str ''METRICS_PATH'' ''/internal/metrics'';
     shutdownTimeout \<leftarrow> rd_dur ''SHUTDOWN_TIMEOUT'' (seconds 15);
     State_Monad.return
       \<lparr>sv_Name = name, sv_HTTPAddr = httpAddr, sv_LogLevel = logLevel,
         sv_MetricsPath = metricsPath, sv_ShutdownTimeout = shutdownTimeout\<rparr>
   }"

definition load_Redis :: "(loader, Redis_cfg) state" where
  "load_Redis = do {
     addrs \<leftarrow> rd_list ''REDIS_ADDRS'' [''127.0.0.1:6379''];
     password \<leftarrow> rd_raw ''REDIS_PASSWORD'';
     db \<leftarrow> rd_int ''REDIS_DB'' 0;
     cluster \<leftarrow> rd_bool ''REDIS_CLUSTER'' False;
     poolSize \<leftarrow> rd_int ''REDIS_POOL_SIZE'' 64;
     State_Monad.return
       \<lparr>rs_Addrs = addrs, rs_Password = password, rs_DB = db, rs_Cluster = cluster,
         rs_PoolSize = poolSize\<rparr>
   }"

definition load_Postgres :: "(loader, Postgres_cfg) state" where
  "load_Postgres = do {
     dsn \<leftarrow> rd_raw ''POSTGRES_DSN'';
     enabled \<leftarrow> rd_bool ''POSTGRES_ENABLED'' True;
     maxConns \<leftarrow> rd_int ''POSTGRES_MAX_CONNS'' 8;
     State_Monad.return
       \<lparr>pg_DSN = dsn, pg_Enabled = enabled, pg_MaxConns = maxConns\<rparr>
   }"

definition load_Kafka :: "(loader, Kafka_cfg) state" where
  "load_Kafka = do {
     brokers \<leftarrow> rd_list ''KAFKA_BROKERS'' [''127.0.0.1:9092''];
     topic \<leftarrow> rd_str ''KAFKA_TOPIC'' ''shardgate.telemetry'';
     groupID \<leftarrow> rd_str ''KAFKA_GROUP_ID'' ''shardgate-scorer'';
     enabled \<leftarrow> rd_bool ''KAFKA_ENABLED'' True;
     State_Monad.return
       \<lparr>kf_Brokers = brokers, kf_Topic = topic, kf_GroupID = groupID, kf_Enabled = enabled\<rparr>
   }"

definition load_Event :: "(loader, Event_cfg) state" where
  "load_Event = do {
     id \<leftarrow> rd_str ''EVENT_ID'' ''demo'';
     salt \<leftarrow> rd_hex ''EVENT_SALT'';
     openAt \<leftarrow> rd_time ''EVENT_OPEN_AT'' None;
     shardSize \<leftarrow> rd_int ''SHARD_SIZE'' 1000;
     shardCount \<leftarrow> rd_int ''SHARD_COUNT'' 16;
     maxShardCount \<leftarrow> rd_int ''MAX_SHARD_COUNT'' 4096;
     lotteryWindow \<leftarrow> rd_dur ''LOTTERY_WINDOW'' (minutes 2);
     State_Monad.return
       \<lparr>ev_ID = id, ev_Salt = salt, ev_OpenAt = openAt, ev_ShardSize = shardSize,
         ev_ShardCount = shardCount, ev_MaxShardCount = maxShardCount,
         ev_LotteryWindow = lotteryWindow\<rparr>
   }"

definition load_Queue :: "(loader, Queue_cfg) state" where
  "load_Queue = do {
     heartbeatInterval \<leftarrow> rd_dur ''HEARTBEAT_INTERVAL'' (seconds 5);
     missedHeartbeats \<leftarrow> rd_int ''MISSED_HEARTBEATS'' 3;
     evictGrace \<leftarrow> rd_dur ''EVICT_GRACE'' (seconds 30);
     statusPollHint \<leftarrow> rd_dur ''STATUS_POLL_HINT'' (seconds 5);
     sseKeepalive \<leftarrow> rd_dur ''SSE_KEEPALIVE'' (seconds 15);
     sweepBatch \<leftarrow> rd_int ''SWEEP_BATCH'' 256;
     evictedRetain \<leftarrow> rd_dur ''EVICTED_RETAIN'' (minutes 10);
     State_Monad.return
       \<lparr>qu_HeartbeatInterval = heartbeatInterval, qu_MissedHeartbeats = missedHeartbeats,
         qu_EvictGrace = evictGrace, qu_StatusPollHint = statusPollHint,
         qu_SSEKeepalive = sseKeepalive, qu_SweepBatch = sweepBatch,
         qu_EvictedRetain = evictedRetain\<rparr>
   }"

definition load_Admission :: "(loader, xfloat \<times> Admission_cfg) state" where
  "load_Admission = do {
     ratePerMin \<leftarrow> rd_int ''ADMIT_RATE_PER_MIN'' 3000;
     interval \<leftarrow> rd_dur ''ADMIT_INTERVAL'' (seconds 5);
     afterLottery \<leftarrow> rd_bool ''ADMIT_AFTER_LOTTERY'' False;
     minDwell \<leftarrow> rd_dur ''ADMIT_MIN_DWELL'' 0;
     minBeats \<leftarrow> rd_int ''ADMIT_MIN_BEATS'' 0;
     maxBudgetPerShard \<leftarrow> rd_int ''MAX_BUDGET_PER_SHARD'' 500;
     backpressureMin \<leftarrow> rd_float ''BACKPRESSURE_MIN'' (rnd (1 / 10));
     breakerFailures \<leftarrow> rd_int ''BREAKER_FAILURES'' 5;
     breakerCooldown \<leftarrow> rd_dur ''BREAKER_COOLDOWN'' (seconds 30);
     shopHealthURL \<leftarrow> rd_str ''SHOP_HEALTH_URL'' '''';
     shopHealthTimeout \<leftarrow> rd_dur ''SHOP_HEALTH_TIMEOUT'' (seconds 2);
     State_Monad.return
       (backpressureMin,
        \<lparr>am_RatePerMin = ratePerMin, am_Interval = interval, am_AfterLottery = afterLottery,
         am_MinDwell = minDwell, am_MinBeats = minBeats, am_MaxBudgetPerShard = maxBudgetPerShard,
         am_BackpressureMin = fin backpressureMin, am_BreakerFailures = breakerFailures,
         am_BreakerCooldown = breakerCooldown, am_ShopHealthURL = shopHealthURL,
         am_ShopHealthTimeout = shopHealthTimeout\<rparr>)
   }"

definition load_Challenge :: "(loader, Challenge_cfg) state" where
  "load_Challenge = do {
     ttl \<leftarrow> rd_dur ''CHALLENGE_TTL'' (minutes 2);
     baseDifficulty \<leftarrow> rd_int ''POW_BASE_DIFFICULTY'' 16;
     maxDifficulty \<leftarrow> rd_int ''POW_MAX_DIFFICULTY'' 26;
     nonceBytes \<leftarrow> rd_int ''POW_NONCE_BYTES'' 16;
     hmacKey \<leftarrow> rd_hex ''CHALLENGE_HMAC_KEY'';
     captchaEnabled \<leftarrow> rd_bool ''CAPTCHA_ENABLED'' False;
     State_Monad.return
       \<lparr>cl_TTL = ttl, cl_BaseDifficulty = baseDifficulty, cl_MaxDifficulty = maxDifficulty,
         cl_NonceBytes = nonceBytes, cl_HMACKey = hmacKey, cl_CaptchaEnabled = captchaEnabled\<rparr>
   }"

definition load_Token :: "(loader, Token_cfg) state" where
  "load_Token = do {
     signingKey \<leftarrow> rd_hex ''TOKEN_SIGNING_KEY'';
     issuer \<leftarrow> rd_str ''TOKEN_ISSUER'' ''shardgate'';
     queueTTL \<leftarrow> rd_dur ''QUEUE_TOKEN_TTL'' (minutes 120);
     entryTTL \<leftarrow> rd_dur ''ENTRY_TOKEN_TTL'' (minutes 5);
     secureCookie \<leftarrow> rd_bool ''SECURE_COOKIE'' True;
     ipv4PrefixBits \<leftarrow> rd_int ''IPV4_PREFIX_BITS'' 24;
     ipv6PrefixBits \<leftarrow> rd_int ''IPV6_PREFIX_BITS'' 48;
     State_Monad.return
       \<lparr>tc_SigningKey = signingKey, tc_Issuer = issuer, tc_QueueTTL = queueTTL,
         tc_EntryTTL = entryTTL, tc_IPv4PrefixBits = ipv4PrefixBits,
         tc_IPv6PrefixBits = ipv6PrefixBits, tc_SecureCookie = secureCookie\<rparr>
   }"

definition load_BotScore :: "(loader, Scoring_floats \<times> BotScore_cfg) state" where
  "load_BotScore = do {
     greylist \<leftarrow> rd_int ''SCORE_GREYLIST'' 40;
     hold \<leftarrow> rd_int ''SCORE_HOLD'' 70;
     block \<leftarrow> rd_int ''SCORE_BLOCK'' 90;
     window \<leftarrow> rd_dur ''SCORE_WINDOW'' (seconds 60);
     flushEvery \<leftarrow> rd_dur ''SCORE_FLUSH_EVERY'' (seconds 5);
     minSamples \<leftarrow> rd_int ''SCORE_MIN_SAMPLES'' 5;
     decay \<leftarrow> rd_float ''SCORE_DECAY'' (rnd (9 / 10));
     heartbeatCVFloor \<leftarrow> rd_float ''HEARTBEAT_CV_FLOOR'' (rnd (2 / 100));
     signalZSpan \<leftarrow> rd_float ''SIGNAL_Z_SPAN'' 3;
     robustBaseline \<leftarrow> rd_bool ''SCORE_ROBUST_BASELINE'' True;
     syncBin \<leftarrow> rd_dur ''SYNC_BIN'' (ms 250);
     fpGroupCap \<leftarrow> rd_int ''FP_GROUP_CAP'' 5;
     ipGroupCap \<leftarrow> rd_int ''IP_GROUP_CAP'' 8;
     minSignalsToBlock \<leftarrow> rd_int ''SCORE_MIN_SIGNALS_TO_BLOCK'' 2;
     signalMinContrib \<leftarrow> rd_float ''SIGNAL_MIN_CONTRIB'' (rnd (2 / 10));
     suspicionTTL \<leftarrow> rd_dur ''SUSPICION_TTL'' (minutes 30);
     greylistDifficulty \<leftarrow> rd_int ''GREYLIST_DIFFICULTY_BUMP'' 4;
     rechallengePassScore \<leftarrow> rd_int ''RECHALLENGE_PASS_SCORE'' 35;
     rechallengeMaxAttempts \<leftarrow> rd_int ''RECHALLENGE_MAX_ATTEMPTS'' 2;
     heartbeatW \<leftarrow> rd_float ''WEIGHT_HEARTBEAT'' (rnd (25 / 100));
     correlationW \<leftarrow> rd_float ''WEIGHT_CORRELATION'' (rnd (20 / 100));
     fingerprintW \<leftarrow> rd_float ''WEIGHT_FINGERPRINT'' (rnd (25 / 100));
     ipPrefixW \<leftarrow> rd_float ''WEIGHT_IP_PREFIX'' (rnd (15 / 100));
     poWW \<leftarrow> rd_float ''WEIGHT_POW'' (rnd (15 / 100));
     State_Monad.return
       (\<lparr>fl_Decay = decay, fl_HeartbeatCVFloor = heartbeatCVFloor, fl_SignalZSpan = signalZSpan, fl_SignalMinContrib = signalMinContrib, fl_Heartbeat = heartbeatW, fl_Correlation = correlationW, fl_Fingerprint = fingerprintW, fl_IPPrefix = ipPrefixW, fl_PoW = poWW\<rparr>,
        \<lparr>bs_Greylist = greylist, bs_Hold = hold, bs_Block = block, bs_Window = window,
         bs_FlushEvery = flushEvery, bs_MinSamples = minSamples, bs_Decay = fin decay,
         bs_Weights = \<lparr>wt_Heartbeat = fin heartbeatW, wt_Correlation = fin correlationW, wt_Fingerprint = fin fingerprintW, wt_IPPrefix = fin ipPrefixW, wt_PoW = fin poWW\<rparr>,
         bs_HeartbeatCVFloor = fin heartbeatCVFloor, bs_SignalZSpan = fin signalZSpan,
         bs_SyncBin = syncBin, bs_FPGroupCap = fpGroupCap, bs_IPGroupCap = ipGroupCap,
         bs_RobustBaseline = robustBaseline, bs_MinSignalsToBlock = minSignalsToBlock,
         bs_SignalMinContrib = fin signalMinContrib, bs_SuspicionTTL = suspicionTTL,
         bs_GreylistDifficulty = greylistDifficulty,
         bs_RechallengePassScore = rechallengePassScore,
         bs_RechallengeMaxAttempts = rechallengeMaxAttempts\<rparr>)
   }"

section \<open>The whole\<close>

record Loaded =
  lo_Config :: Config
  lo_Backpressure :: xfloat
  lo_Scoring :: Scoring_floats

definition load_all :: "string \<Rightarrow> string \<Rightarrow> (loader, Loaded) state" where
  "load_all name addr = do {
     service \<leftarrow> load_Service name addr;
     redis \<leftarrow> load_Redis;
     postgres \<leftarrow> load_Postgres;
     kafka \<leftarrow> load_Kafka;
     event \<leftarrow> load_Event;
     queue \<leftarrow> load_Queue;
     (backpressure, admission) \<leftarrow> load_Admission;
     challenge \<leftarrow> load_Challenge;
     token \<leftarrow> load_Token;
     (scoring, botScore) \<leftarrow> load_BotScore;
     State_Monad.return
       \<lparr>lo_Config = \<lparr>cf_Service = service, cf_Redis = redis, cf_Postgres = postgres, cf_Kafka = kafka,
          cf_Event = event, cf_Queue = queue, cf_Admission = admission, cf_Challenge = challenge,
          cf_Token = token, cf_BotScore = botScore, cf_fromEnv = Map.empty\<rparr>,
        lo_Backpressure = backpressure, lo_Scoring = scoring\<rparr>
   }"

text \<open>The checks on floats compare what was read, so that NaN fails every comparison.\<close>

definition weight_sum :: "Scoring_floats \<Rightarrow> xfloat" where
  "weight_sum f =
    x_add (x_add (x_add (x_add (fl_Heartbeat f) (fl_Correlation f)) (fl_Fingerprint f)) (fl_IPPrefix f)) (fl_PoW f)"

definition unit_interval :: "xfloat \<Rightarrow> bool" where
  "unit_interval x \<longleftrightarrow> x_less (Num 0) x \<and> x_le x (Num 1)"

definition float_checks :: "Loaded \<Rightarrow> string \<rightharpoonup> bool" where
  "float_checks lo =
    [''BACKPRESSURE_MIN'' \<mapsto> unit_interval (lo_Backpressure lo),
     ''SIGNAL_Z_SPAN'' \<mapsto> x_less (Num 0) (fl_SignalZSpan (lo_Scoring lo)),
     ''SIGNAL_MIN_CONTRIB'' \<mapsto> unit_interval (fl_SignalMinContrib (lo_Scoring lo)),
     ''SCORE_DECAY'' \<mapsto> unit_interval (fl_Decay (lo_Scoring lo)),
     ''botscore weights'' \<mapsto>
       \<not> (x_less (weight_sum (lo_Scoring lo)) (Num (rnd (1 - weightEpsilon))) \<or>
          x_less (Num (rnd (1 + weightEpsilon))) (weight_sum (lo_Scoring lo)))]"

definition with_floats :: "Loaded \<Rightarrow> (bool \<times> string) list \<Rightarrow> (bool \<times> string) list" where
  "with_floats lo = map (\<lambda>(ok, n). (case float_checks lo n of Some b \<Rightarrow> b | None \<Rightarrow> ok, n))"

definition Validate_loaded :: "Loaded \<Rightarrow> string list" where
  "Validate_loaded lo =
    (let c = lo_Config lo
     in failed (with_floats lo (checks_infra c @ checks_admission c @ checks_botscore (cf_BotScore c))))"

datatype load_error = ParseEnv "(string \<times> string) list" | InvalidConfig "string list"

definition LoadFrom :: "(string \<rightharpoonup> string) \<Rightarrow> string \<Rightarrow> string \<Rightarrow> load_error + Loaded" where
  "LoadFrom lookup serviceName defaultAddr =
    (case run_state (load_all serviceName defaultAddr) (new_loader lookup) of
       (cfg, l) \<Rightarrow>
         if ld_errs l \<noteq> [] then Inl (ParseEnv (ld_errs l))
         else if Validate_loaded cfg \<noteq> [] then Inl (InvalidConfig (Validate_loaded cfg))
         else Inr (cfg\<lparr>lo_Config := (lo_Config cfg)\<lparr>cf_fromEnv := ld_fromEnv l\<rparr>\<rparr>))"

section \<open>The table of the variables\<close>

text \<open>What a variable of each kind may hold, after trimming, and what is said otherwise.\<close>

datatype kind = KStr | KList | KInt | KFloat | KBool | KDur | KTime | KHex | KRaw

fun complaint :: "kind \<Rightarrow> string \<Rightarrow> string option" where
  "complaint KInt v = (if Atoi v = None then Some ''not an integer'' else None)"
| "complaint KFloat v = (if ParseFloat v = None then Some ''not a number'' else None)"
| "complaint KBool v = (if ParseBool v = None then Some ''not a boolean'' else None)"
| "complaint KDur v = (if ParseDuration v = None then Some ''not a duration (e.g. 5s, 2m)'' else None)"
| "complaint KTime v = (if time_Parse v = None then Some ''not an RFC3339 timestamp'' else None)"
| "complaint KHex v = (if hex_DecodeString v = None then Some ''secret is not valid hex'' else None)"
| "complaint _ v = None"

definition mistake :: "(string \<rightharpoonup> string) \<Rightarrow> string \<times> kind \<Rightarrow> (string \<times> string) option" where
  "mistake env = (\<lambda>(k, kd).
     case trimmed env (envPrefix @ k) of
       None \<Rightarrow> None
     | Some v \<Rightarrow> map_option (Pair (envPrefix @ k)) (complaint kd v))"

text \<open>The value of a variable: what its text parses to, or the default.\<close>

definition value_in :: "(string \<Rightarrow> 'a option) \<Rightarrow> (string \<rightharpoonup> string) \<Rightarrow> string \<Rightarrow> 'a \<Rightarrow> 'a" where
  "value_in parse env k d =
    (case trimmed env (envPrefix @ k) of
       None \<Rightarrow> d
     | Some v \<Rightarrow> (case parse v of None \<Rightarrow> d | Some x \<Rightarrow> x))"

definition parse_list :: "string \<Rightarrow> string list option" where
  "parse_list v = (let out = filter (\<lambda>p. p \<noteq> '''') (map TrimSpace (Split_comma v)) in if out = [] then None else Some out)"

definition parse_time :: "string \<Rightarrow> gotime option option" where
  "parse_time v = map_option (\<lambda>t. if t = zero_instant then None else Some t) (time_Parse v)"

abbreviation str_in :: "(string \<rightharpoonup> string) \<Rightarrow> string \<Rightarrow> string \<Rightarrow> string" where "str_in \<equiv> value_in Some"
abbreviation list_in :: "(string \<rightharpoonup> string) \<Rightarrow> string \<Rightarrow> string list \<Rightarrow> string list" where "list_in \<equiv> value_in parse_list"
abbreviation int_in :: "(string \<rightharpoonup> string) \<Rightarrow> string \<Rightarrow> int \<Rightarrow> int" where "int_in \<equiv> value_in Atoi"
abbreviation float_in :: "(string \<rightharpoonup> string) \<Rightarrow> string \<Rightarrow> float64 \<Rightarrow> xfloat" where
  "float_in env k d \<equiv> value_in ParseFloat env k (Num d)"
abbreviation bool_in :: "(string \<rightharpoonup> string) \<Rightarrow> string \<Rightarrow> bool \<Rightarrow> bool" where "bool_in \<equiv> value_in ParseBool"
abbreviation dur_in :: "(string \<rightharpoonup> string) \<Rightarrow> string \<Rightarrow> duration \<Rightarrow> duration" where "dur_in \<equiv> value_in ParseDuration"
abbreviation time_in :: "(string \<rightharpoonup> string) \<Rightarrow> string \<Rightarrow> gotime option \<Rightarrow> gotime option" where
  "time_in \<equiv> value_in parse_time"
abbreviation hex_in :: "(string \<rightharpoonup> string) \<Rightarrow> string \<Rightarrow> Secret" where
  "hex_in env k \<equiv> value_in (map_option Secret_of \<circ> hex_DecodeString) env k (Secret_of [])"
abbreviation raw_in :: "(string \<rightharpoonup> string) \<Rightarrow> string \<Rightarrow> Secret" where
  "raw_in env k \<equiv> value_in (Some \<circ> Secret_of) env k (Secret_of [])"

text \<open>What a read leaves in the loader, whatever it returns.\<close>

definition note_read :: "string \<times> kind \<Rightarrow> loader \<Rightarrow> loader" where
  "note_read kk l =
    l\<lparr>ld_errs := ld_errs l @ (case mistake (ld_lookup l) kk of None \<Rightarrow> [] | Some e \<Rightarrow> [e]),
      ld_fromEnv := ld_fromEnv (snd (raw (fst kk) l))\<rparr>"

definition noted :: "(string \<times> kind) list \<Rightarrow> loader \<Rightarrow> loader" where
  "noted = fold note_read"

lemma noted_simps [simp]: "noted [] l = l" "noted (kk # ks) l = noted ks (note_read kk l)"
  by (simp_all add: noted_def)

lemma lookup_note [simp]: "ld_lookup (note_read kk l) = ld_lookup l"
  by (simp add: note_read_def)

lemma lookup_noted [simp]: "ld_lookup (noted ks l) = ld_lookup l"
  by (induction ks arbitrary: l) simp_all

lemma noted_append: "noted (xs @ ys) l = noted ys (noted xs l)"
  by (simp add: noted_def)

lemma errs_noted:
  "ld_errs (noted ks l) = ld_errs l @ List.map_filter (mistake (ld_lookup l)) ks"
  by (induction ks arbitrary: l) (auto simp: note_read_def List.map_filter_simps split: option.split)

lemma fromEnv_note [simp]: "ld_fromEnv (note_read kk l) = ld_fromEnv (snd (raw (fst kk) l))"
  by (simp add: note_read_def)

lemma fromEnv_noted: "ld_fromEnv (noted ks l) = ld_fromEnv (read_all (map fst ks) l)"
proof (induction ks arbitrary: l)
  case (Cons kk ks)
  then show ?case
    by (auto simp: fun_eq_iff read_all_fromEnv raw_fromEnv read_all_def [of "_ # _"] read_all_def [symmetric])
qed (simp add: read_all_def)

text \<open>Every reader returns the value of its variable and leaves a note.\<close>

lemma secretHex_eq: "v \<noteq> '''' \<Longrightarrow>
    ParseSecretHex v = (case hex_DecodeString v of None \<Rightarrow> Inl ErrNotHex | Some b \<Rightarrow> Inr (Secret_of b))"
  by (simp add: ParseSecretHex_def)

lemmas read_defs = raw_def trimmed_def value_in_def note_read_def mistake_def fail_def Let_def

lemma run_readers [simp]:
  "run_state (rd_str k ds) l = (str_in (ld_lookup l) k ds, note_read (k, KStr) l)"
  "run_state (rd_list k dl) l = (list_in (ld_lookup l) k dl, note_read (k, KList) l)"
  "run_state (rd_int k di) l = (int_in (ld_lookup l) k di, note_read (k, KInt) l)"
  "run_state (rd_float k df) l = (float_in (ld_lookup l) k df, note_read (k, KFloat) l)"
  "run_state (rd_bool k db) l = (bool_in (ld_lookup l) k db, note_read (k, KBool) l)"
  "run_state (rd_dur k dd) l = (dur_in (ld_lookup l) k dd, note_read (k, KDur) l)"
  "run_state (rd_time k dt) l = (time_in (ld_lookup l) k dt, note_read (k, KTime) l)"
  "run_state (rd_hex k) l = (hex_in (ld_lookup l) k, note_read (k, KHex) l)"
  "run_state (rd_raw k) l = (raw_in (ld_lookup l) k, note_read (k, KRaw) l)"
  by (auto simp: rd_str_def rd_list_def rd_int_def rd_float_def rd_bool_def rd_dur_def rd_time_def
      rd_hex_def rd_raw_def str_def list_val_def intVal_def floatVal_def boolVal_def dur_def timeVal_def
      secretHex_def secretRaw_def NewSecret_def parse_list_def parse_time_def secretHex_eq read_defs
      split: option.split)

section \<open>The sections by the table\<close>

definition Service_in :: "string \<Rightarrow> string \<Rightarrow> (string \<rightharpoonup> string) \<Rightarrow> Service_cfg" where
  "Service_in name addr env =
       \<lparr>sv_Name = name, sv_HTTPAddr = str_in env ''HTTP_ADDR'' addr,
         sv_LogLevel = str_in env ''LOG_LEVEL'' ''info'',
         sv_MetricsPath = str_in env ''METRICS_PATH'' ''/internal/metrics'',
         sv_ShutdownTimeout = dur_in env ''SHUTDOWN_TIMEOUT'' (seconds 15)\<rparr>"

definition Service_vars :: "(string \<times> kind) list" where
  "Service_vars = [
     (''HTTP_ADDR'', KStr), (''LOG_LEVEL'', KStr), (''METRICS_PATH'', KStr),
     (''SHUTDOWN_TIMEOUT'', KDur)]"

lemma run_Service [simp]:
  "run_state (load_Service name addr) l = (Service_in name addr (ld_lookup l), noted Service_vars l)"
  by (simp add: load_Service_def Service_in_def Service_vars_def)

definition Redis_in :: "(string \<rightharpoonup> string) \<Rightarrow> Redis_cfg" where
  "Redis_in env =
       \<lparr>rs_Addrs = list_in env ''REDIS_ADDRS'' [''127.0.0.1:6379''],
         rs_Password = raw_in env ''REDIS_PASSWORD'', rs_DB = int_in env ''REDIS_DB'' 0,
         rs_Cluster = bool_in env ''REDIS_CLUSTER'' False,
         rs_PoolSize = int_in env ''REDIS_POOL_SIZE'' 64\<rparr>"

definition Redis_vars :: "(string \<times> kind) list" where
  "Redis_vars = [
     (''REDIS_ADDRS'', KList), (''REDIS_PASSWORD'', KRaw), (''REDIS_DB'', KInt),
     (''REDIS_CLUSTER'', KBool), (''REDIS_POOL_SIZE'', KInt)]"

lemma run_Redis [simp]:
  "run_state load_Redis l = (Redis_in (ld_lookup l), noted Redis_vars l)"
  by (simp add: load_Redis_def Redis_in_def Redis_vars_def)

definition Postgres_in :: "(string \<rightharpoonup> string) \<Rightarrow> Postgres_cfg" where
  "Postgres_in env =
       \<lparr>pg_DSN = raw_in env ''POSTGRES_DSN'', pg_Enabled = bool_in env ''POSTGRES_ENABLED'' True,
         pg_MaxConns = int_in env ''POSTGRES_MAX_CONNS'' 8\<rparr>"

definition Postgres_vars :: "(string \<times> kind) list" where
  "Postgres_vars = [
     (''POSTGRES_DSN'', KRaw), (''POSTGRES_ENABLED'', KBool), (''POSTGRES_MAX_CONNS'', KInt)]"

lemma run_Postgres [simp]:
  "run_state load_Postgres l = (Postgres_in (ld_lookup l), noted Postgres_vars l)"
  by (simp add: load_Postgres_def Postgres_in_def Postgres_vars_def)

definition Kafka_in :: "(string \<rightharpoonup> string) \<Rightarrow> Kafka_cfg" where
  "Kafka_in env =
       \<lparr>kf_Brokers = list_in env ''KAFKA_BROKERS'' [''127.0.0.1:9092''],
         kf_Topic = str_in env ''KAFKA_TOPIC'' ''shardgate.telemetry'',
         kf_GroupID = str_in env ''KAFKA_GROUP_ID'' ''shardgate-scorer'',
         kf_Enabled = bool_in env ''KAFKA_ENABLED'' True\<rparr>"

definition Kafka_vars :: "(string \<times> kind) list" where
  "Kafka_vars = [
     (''KAFKA_BROKERS'', KList), (''KAFKA_TOPIC'', KStr), (''KAFKA_GROUP_ID'', KStr),
     (''KAFKA_ENABLED'', KBool)]"

lemma run_Kafka [simp]:
  "run_state load_Kafka l = (Kafka_in (ld_lookup l), noted Kafka_vars l)"
  by (simp add: load_Kafka_def Kafka_in_def Kafka_vars_def)

definition Event_in :: "(string \<rightharpoonup> string) \<Rightarrow> Event_cfg" where
  "Event_in env =
       \<lparr>ev_ID = str_in env ''EVENT_ID'' ''demo'', ev_Salt = hex_in env ''EVENT_SALT'',
         ev_OpenAt = time_in env ''EVENT_OPEN_AT'' None,
         ev_ShardSize = int_in env ''SHARD_SIZE'' 1000,
         ev_ShardCount = int_in env ''SHARD_COUNT'' 16,
         ev_MaxShardCount = int_in env ''MAX_SHARD_COUNT'' 4096,
         ev_LotteryWindow = dur_in env ''LOTTERY_WINDOW'' (minutes 2)\<rparr>"

definition Event_vars :: "(string \<times> kind) list" where
  "Event_vars = [
     (''EVENT_ID'', KStr), (''EVENT_SALT'', KHex), (''EVENT_OPEN_AT'', KTime),
     (''SHARD_SIZE'', KInt), (''SHARD_COUNT'', KInt), (''MAX_SHARD_COUNT'', KInt),
     (''LOTTERY_WINDOW'', KDur)]"

lemma run_Event [simp]:
  "run_state load_Event l = (Event_in (ld_lookup l), noted Event_vars l)"
  by (simp add: load_Event_def Event_in_def Event_vars_def)

definition Queue_in :: "(string \<rightharpoonup> string) \<Rightarrow> Queue_cfg" where
  "Queue_in env =
       \<lparr>qu_HeartbeatInterval = dur_in env ''HEARTBEAT_INTERVAL'' (seconds 5),
         qu_MissedHeartbeats = int_in env ''MISSED_HEARTBEATS'' 3,
         qu_EvictGrace = dur_in env ''EVICT_GRACE'' (seconds 30),
         qu_StatusPollHint = dur_in env ''STATUS_POLL_HINT'' (seconds 5),
         qu_SSEKeepalive = dur_in env ''SSE_KEEPALIVE'' (seconds 15),
         qu_SweepBatch = int_in env ''SWEEP_BATCH'' 256,
         qu_EvictedRetain = dur_in env ''EVICTED_RETAIN'' (minutes 10)\<rparr>"

definition Queue_vars :: "(string \<times> kind) list" where
  "Queue_vars = [
     (''HEARTBEAT_INTERVAL'', KDur), (''MISSED_HEARTBEATS'', KInt), (''EVICT_GRACE'', KDur),
     (''STATUS_POLL_HINT'', KDur), (''SSE_KEEPALIVE'', KDur), (''SWEEP_BATCH'', KInt),
     (''EVICTED_RETAIN'', KDur)]"

lemma run_Queue [simp]:
  "run_state load_Queue l = (Queue_in (ld_lookup l), noted Queue_vars l)"
  by (simp add: load_Queue_def Queue_in_def Queue_vars_def)

definition Admission_in :: "(string \<rightharpoonup> string) \<Rightarrow> xfloat \<times> Admission_cfg" where
  "Admission_in env =
       (float_in env ''BACKPRESSURE_MIN'' (rnd (1 / 10)),
        \<lparr>am_RatePerMin = int_in env ''ADMIT_RATE_PER_MIN'' 3000,
         am_Interval = dur_in env ''ADMIT_INTERVAL'' (seconds 5),
         am_AfterLottery = bool_in env ''ADMIT_AFTER_LOTTERY'' False,
         am_MinDwell = dur_in env ''ADMIT_MIN_DWELL'' 0,
         am_MinBeats = int_in env ''ADMIT_MIN_BEATS'' 0,
         am_MaxBudgetPerShard = int_in env ''MAX_BUDGET_PER_SHARD'' 500,
         am_BackpressureMin = fin (float_in env ''BACKPRESSURE_MIN'' (rnd (1 / 10))),
         am_BreakerFailures = int_in env ''BREAKER_FAILURES'' 5,
         am_BreakerCooldown = dur_in env ''BREAKER_COOLDOWN'' (seconds 30),
         am_ShopHealthURL = str_in env ''SHOP_HEALTH_URL'' '''',
         am_ShopHealthTimeout = dur_in env ''SHOP_HEALTH_TIMEOUT'' (seconds 2)\<rparr>)"

definition Admission_vars :: "(string \<times> kind) list" where
  "Admission_vars = [
     (''ADMIT_RATE_PER_MIN'', KInt), (''ADMIT_INTERVAL'', KDur),
     (''ADMIT_AFTER_LOTTERY'', KBool), (''ADMIT_MIN_DWELL'', KDur),
     (''ADMIT_MIN_BEATS'', KInt), (''MAX_BUDGET_PER_SHARD'', KInt),
     (''BACKPRESSURE_MIN'', KFloat), (''BREAKER_FAILURES'', KInt),
     (''BREAKER_COOLDOWN'', KDur), (''SHOP_HEALTH_URL'', KStr),
     (''SHOP_HEALTH_TIMEOUT'', KDur)]"

lemma run_Admission [simp]:
  "run_state load_Admission l = (Admission_in (ld_lookup l), noted Admission_vars l)"
  by (simp add: load_Admission_def Admission_in_def Admission_vars_def)

definition Challenge_in :: "(string \<rightharpoonup> string) \<Rightarrow> Challenge_cfg" where
  "Challenge_in env =
       \<lparr>cl_TTL = dur_in env ''CHALLENGE_TTL'' (minutes 2),
         cl_BaseDifficulty = int_in env ''POW_BASE_DIFFICULTY'' 16,
         cl_MaxDifficulty = int_in env ''POW_MAX_DIFFICULTY'' 26,
         cl_NonceBytes = int_in env ''POW_NONCE_BYTES'' 16,
         cl_HMACKey = hex_in env ''CHALLENGE_HMAC_KEY'',
         cl_CaptchaEnabled = bool_in env ''CAPTCHA_ENABLED'' False\<rparr>"

definition Challenge_vars :: "(string \<times> kind) list" where
  "Challenge_vars = [
     (''CHALLENGE_TTL'', KDur), (''POW_BASE_DIFFICULTY'', KInt),
     (''POW_MAX_DIFFICULTY'', KInt), (''POW_NONCE_BYTES'', KInt),
     (''CHALLENGE_HMAC_KEY'', KHex), (''CAPTCHA_ENABLED'', KBool)]"

lemma run_Challenge [simp]:
  "run_state load_Challenge l = (Challenge_in (ld_lookup l), noted Challenge_vars l)"
  by (simp add: load_Challenge_def Challenge_in_def Challenge_vars_def)

definition Token_in :: "(string \<rightharpoonup> string) \<Rightarrow> Token_cfg" where
  "Token_in env =
       \<lparr>tc_SigningKey = hex_in env ''TOKEN_SIGNING_KEY'',
         tc_Issuer = str_in env ''TOKEN_ISSUER'' ''shardgate'',
         tc_QueueTTL = dur_in env ''QUEUE_TOKEN_TTL'' (minutes 120),
         tc_EntryTTL = dur_in env ''ENTRY_TOKEN_TTL'' (minutes 5),
         tc_IPv4PrefixBits = int_in env ''IPV4_PREFIX_BITS'' 24,
         tc_IPv6PrefixBits = int_in env ''IPV6_PREFIX_BITS'' 48,
         tc_SecureCookie = bool_in env ''SECURE_COOKIE'' True\<rparr>"

definition Token_vars :: "(string \<times> kind) list" where
  "Token_vars = [
     (''TOKEN_SIGNING_KEY'', KHex), (''TOKEN_ISSUER'', KStr), (''QUEUE_TOKEN_TTL'', KDur),
     (''ENTRY_TOKEN_TTL'', KDur), (''SECURE_COOKIE'', KBool), (''IPV4_PREFIX_BITS'', KInt),
     (''IPV6_PREFIX_BITS'', KInt)]"

lemma run_Token [simp]:
  "run_state load_Token l = (Token_in (ld_lookup l), noted Token_vars l)"
  by (simp add: load_Token_def Token_in_def Token_vars_def)

definition BotScore_in :: "(string \<rightharpoonup> string) \<Rightarrow> Scoring_floats \<times> BotScore_cfg" where
  "BotScore_in env =
       (\<lparr>fl_Decay = float_in env ''SCORE_DECAY'' (rnd (9 / 10)),
          fl_HeartbeatCVFloor = float_in env ''HEARTBEAT_CV_FLOOR'' (rnd (2 / 100)),
          fl_SignalZSpan = float_in env ''SIGNAL_Z_SPAN'' 3,
          fl_SignalMinContrib = float_in env ''SIGNAL_MIN_CONTRIB'' (rnd (2 / 10)),
          fl_Heartbeat = float_in env ''WEIGHT_HEARTBEAT'' (rnd (25 / 100)),
          fl_Correlation = float_in env ''WEIGHT_CORRELATION'' (rnd (20 / 100)),
          fl_Fingerprint = float_in env ''WEIGHT_FINGERPRINT'' (rnd (25 / 100)),
          fl_IPPrefix = float_in env ''WEIGHT_IP_PREFIX'' (rnd (15 / 100)),
          fl_PoW = float_in env ''WEIGHT_POW'' (rnd (15 / 100))\<rparr>,
        \<lparr>bs_Greylist = int_in env ''SCORE_GREYLIST'' 40, bs_Hold = int_in env ''SCORE_HOLD'' 70,
         bs_Block = int_in env ''SCORE_BLOCK'' 90,
         bs_Window = dur_in env ''SCORE_WINDOW'' (seconds 60),
         bs_FlushEvery = dur_in env ''SCORE_FLUSH_EVERY'' (seconds 5),
         bs_MinSamples = int_in env ''SCORE_MIN_SAMPLES'' 5,
         bs_Decay = fin (float_in env ''SCORE_DECAY'' (rnd (9 / 10))),
         bs_Weights = \<lparr>wt_Heartbeat = fin (float_in env ''WEIGHT_HEARTBEAT'' (rnd (25 / 100))), wt_Correlation = fin (float_in env ''WEIGHT_CORRELATION'' (rnd (20 / 100))), wt_Fingerprint = fin (float_in env ''WEIGHT_FINGERPRINT'' (rnd (25 / 100))), wt_IPPrefix = fin (float_in env ''WEIGHT_IP_PREFIX'' (rnd (15 / 100))), wt_PoW = fin (float_in env ''WEIGHT_POW'' (rnd (15 / 100)))\<rparr>,
         bs_HeartbeatCVFloor = fin (float_in env ''HEARTBEAT_CV_FLOOR'' (rnd (2 / 100))),
         bs_SignalZSpan = fin (float_in env ''SIGNAL_Z_SPAN'' 3),
         bs_SyncBin = dur_in env ''SYNC_BIN'' (ms 250),
         bs_FPGroupCap = int_in env ''FP_GROUP_CAP'' 5,
         bs_IPGroupCap = int_in env ''IP_GROUP_CAP'' 8,
         bs_RobustBaseline = bool_in env ''SCORE_ROBUST_BASELINE'' True,
         bs_MinSignalsToBlock = int_in env ''SCORE_MIN_SIGNALS_TO_BLOCK'' 2,
         bs_SignalMinContrib = fin (float_in env ''SIGNAL_MIN_CONTRIB'' (rnd (2 / 10))),
         bs_SuspicionTTL = dur_in env ''SUSPICION_TTL'' (minutes 30),
         bs_GreylistDifficulty = int_in env ''GREYLIST_DIFFICULTY_BUMP'' 4,
         bs_RechallengePassScore = int_in env ''RECHALLENGE_PASS_SCORE'' 35,
         bs_RechallengeMaxAttempts = int_in env ''RECHALLENGE_MAX_ATTEMPTS'' 2\<rparr>)"

definition BotScore_vars :: "(string \<times> kind) list" where
  "BotScore_vars = [
     (''SCORE_GREYLIST'', KInt), (''SCORE_HOLD'', KInt), (''SCORE_BLOCK'', KInt),
     (''SCORE_WINDOW'', KDur), (''SCORE_FLUSH_EVERY'', KDur), (''SCORE_MIN_SAMPLES'', KInt),
     (''SCORE_DECAY'', KFloat), (''HEARTBEAT_CV_FLOOR'', KFloat), (''SIGNAL_Z_SPAN'', KFloat),
     (''SCORE_ROBUST_BASELINE'', KBool), (''SYNC_BIN'', KDur), (''FP_GROUP_CAP'', KInt),
     (''IP_GROUP_CAP'', KInt), (''SCORE_MIN_SIGNALS_TO_BLOCK'', KInt),
     (''SIGNAL_MIN_CONTRIB'', KFloat), (''SUSPICION_TTL'', KDur),
     (''GREYLIST_DIFFICULTY_BUMP'', KInt), (''RECHALLENGE_PASS_SCORE'', KInt),
     (''RECHALLENGE_MAX_ATTEMPTS'', KInt), (''WEIGHT_HEARTBEAT'', KFloat),
     (''WEIGHT_CORRELATION'', KFloat), (''WEIGHT_FINGERPRINT'', KFloat),
     (''WEIGHT_IP_PREFIX'', KFloat), (''WEIGHT_POW'', KFloat)]"

lemma run_BotScore [simp]:
  "run_state load_BotScore l = (BotScore_in (ld_lookup l), noted BotScore_vars l)"
  by (simp add: load_BotScore_def BotScore_in_def BotScore_vars_def)

definition config_vars :: "(string \<times> kind) list" where
  "config_vars = Service_vars @ Redis_vars @ Postgres_vars @ Kafka_vars @ Event_vars @ Queue_vars @
     Admission_vars @ Challenge_vars @ Token_vars @ BotScore_vars"

definition config_in :: "string \<Rightarrow> string \<Rightarrow> (string \<rightharpoonup> string) \<Rightarrow> Loaded" where
  "config_in name addr env =
     \<lparr>lo_Config = \<lparr>cf_Service = Service_in name addr env, cf_Redis = Redis_in env,
        cf_Postgres = Postgres_in env, cf_Kafka = Kafka_in env, cf_Event = Event_in env,
        cf_Queue = Queue_in env, cf_Admission = snd (Admission_in env), cf_Challenge = Challenge_in env,
        cf_Token = Token_in env, cf_BotScore = snd (BotScore_in env),
        cf_fromEnv = (\<lambda>k. if k \<in> (@) envPrefix ` set (map fst config_vars) then trimmed env k else None)\<rparr>,
      lo_Backpressure = fst (Admission_in env), lo_Scoring = fst (BotScore_in env)\<rparr>"

definition mistakes :: "(string \<rightharpoonup> string) \<Rightarrow> (string \<times> string) list" where
  "mistakes env = List.map_filter (mistake env) config_vars"

lemma run_load_all:
  "run_state (load_all name addr) l =
    ((config_in name addr (ld_lookup l))
       \<lparr>lo_Config := (lo_Config (config_in name addr (ld_lookup l)))\<lparr>cf_fromEnv := Map.empty\<rparr>\<rparr>,
     noted config_vars l)"
  by (simp add: load_all_def config_in_def config_vars_def noted_append case_prod_unfold)

lemma fromEnv_loaded: "ld_fromEnv (noted config_vars (new_loader env)) = cf_fromEnv (lo_Config (config_in name addr env))"
  by (auto simp: fromEnv_noted fun_eq_iff read_all_fromEnv config_in_def)

lemma checks_fromEnv [simp]:
  "checks_infra (c\<lparr>cf_fromEnv := e\<rparr>) = checks_infra c" "checks_admission (c\<lparr>cf_fromEnv := e\<rparr>) = checks_admission c"
  by (simp_all add: checks_infra_def checks_admission_def)

lemma with_floats_fromEnv [simp]: "with_floats (lo\<lparr>lo_Config := c\<rparr>) = with_floats lo"
  by (simp add: with_floats_def float_checks_def)

lemma Validate_loaded_fromEnv [simp]:
  "Validate_loaded (lo\<lparr>lo_Config := (lo_Config lo)\<lparr>cf_fromEnv := e\<rparr>\<rparr>) = Validate_loaded lo"
  by (simp add: Validate_loaded_def Let_def)

lemma LoadFrom_eq:
  "LoadFrom env name addr =
    (if mistakes env \<noteq> [] then Inl (ParseEnv (mistakes env))
     else if Validate_loaded (config_in name addr env) \<noteq> [] then
       Inl (InvalidConfig (Validate_loaded (config_in name addr env)))
     else Inr (config_in name addr env))"
proof -
  have "ld_errs (noted config_vars (new_loader env)) = mistakes env"
    by (simp add: errs_noted mistakes_def new_loader_def)
  then show ?thesis by (simp add: LoadFrom_def run_load_all fromEnv_loaded)
qed

section \<open>What a loaded configuration guarantees\<close>

definition all_finite :: "Loaded \<Rightarrow> bool" where
  "all_finite lo \<longleftrightarrow> list_all (\<lambda>x. x = Num (fin x))
     (lo_Backpressure lo # (let f = lo_Scoring lo in
        [fl_Decay f, fl_HeartbeatCVFloor f, fl_SignalZSpan f, fl_SignalMinContrib f, fl_Heartbeat f,
         fl_Correlation f, fl_Fingerprint f, fl_IPPrefix f, fl_PoW f]))"

lemma weight_sum_Num:
  "weight_sum f = Num s \<Longrightarrow>
   s = Sum_weights \<lparr>wt_Heartbeat = fin (fl_Heartbeat f), wt_Correlation = fin (fl_Correlation f),
     wt_Fingerprint = fin (fl_Fingerprint f), wt_IPPrefix = fin (fl_IPPrefix f), wt_PoW = fin (fl_PoW f)\<rparr>"
  unfolding weight_sum_def Sum_weights_def
  by (elim x_add_Num [elim_format] exE conjE) (auto simp: fin_def dest!: x_add_Num)

lemma finite_sum: "x_add a (Num q) \<noteq> NaN" if "a \<noteq> NaN"
  using that by (cases a) (auto simp: overflow_def)


lemma map_filter_Nil: "List.map_filter f xs = [] \<longleftrightarrow> (\<forall>x \<in> set xs. f x = None)"
  by (induction xs) (auto simp: List.map_filter_simps split: option.split)

lemma mistakes_Nil: "mistakes env = [] \<longleftrightarrow> (\<forall>kk \<in> set config_vars. mistake env kk = None)"
  by (simp add: mistakes_def map_filter_Nil)

lemma unit_interval_Num [simp]: "unit_interval (Num r) \<longleftrightarrow> 0 < r \<and> r \<le> 1"
  by (simp add: unit_interval_def)

lemma with_floats_simps [simp]:
  "with_floats lo [] = []"
  "with_floats lo ((ok, n) # cs) = (case float_checks lo n of Some b \<Rightarrow> b | None \<Rightarrow> ok, n) # with_floats lo cs"
  "with_floats lo (cs @ ds) = with_floats lo cs @ with_floats lo ds"
  by (simp_all add: with_floats_def)

lemma weights_finite:
  assumes "fl_Heartbeat f = Num a" "fl_Correlation f = Num b" "fl_Fingerprint f = Num c"
    "fl_IPPrefix f = Num d" "fl_PoW f = Num e"
    and "\<not> x_less (weight_sum f) (Num lo)" "\<not> x_less (Num hi) (weight_sum f)"
  shows "weight_sum f =
    Num (Sum_weights \<lparr>wt_Heartbeat = a, wt_Correlation = b, wt_Fingerprint = c, wt_IPPrefix = d, wt_PoW = e\<rparr>)"
proof -
  have "weight_sum f \<noteq> NaN" using assms(1-5) by (simp only: weight_sum_def finite_sum xfloat.distinct not_False_eq_True)
  then obtain s where "weight_sum f = Num s" using assms(6, 7) by (cases "weight_sum f") auto
  then show ?thesis using weight_sum_Num [of f s] assms(1-5) by (simp add: fin_def)
qed

lemma Validate_finite:
  assumes "Validate_loaded lo = []" "lo = config_in name addr env" "all_finite lo"
  shows "Validate_config (lo_Config lo) = []"
proof -
  let ?f = "lo_Scoring lo" and ?b = "cf_BotScore (lo_Config lo)"
  have eq: "x = Num (fin x)" if "x \<in> set (lo_Backpressure lo # [fl_Decay ?f, fl_HeartbeatCVFloor ?f,
      fl_SignalZSpan ?f, fl_SignalMinContrib ?f, fl_Heartbeat ?f, fl_Correlation ?f, fl_Fingerprint ?f,
      fl_IPPrefix ?f, fl_PoW ?f])" for x
    using assms(3) that unfolding all_finite_def Let_def list_all_iff by blast
  obtain bp d z mc a b c e p where num: "lo_Backpressure lo = Num bp" "fl_Decay ?f = Num d"
    "fl_SignalZSpan ?f = Num z" "fl_SignalMinContrib ?f = Num mc" "fl_Heartbeat ?f = Num a"
    "fl_Correlation ?f = Num b" "fl_Fingerprint ?f = Num c" "fl_IPPrefix ?f = Num e" "fl_PoW ?f = Num p"
    by (meson eq list.set_intros)
  have cfg: "am_BackpressureMin (cf_Admission (lo_Config lo)) = fin (lo_Backpressure lo)"
    "bs_Decay ?b = fin (fl_Decay ?f)" "bs_SignalZSpan ?b = fin (fl_SignalZSpan ?f)"
    "bs_SignalMinContrib ?b = fin (fl_SignalMinContrib ?f)"
    "bs_Weights ?b = \<lparr>wt_Heartbeat = fin (fl_Heartbeat ?f), wt_Correlation = fin (fl_Correlation ?f),
       wt_Fingerprint = fin (fl_Fingerprint ?f), wt_IPPrefix = fin (fl_IPPrefix ?f), wt_PoW = fin (fl_PoW ?f)\<rparr>"
    by (simp_all add: assms(2) config_in_def Admission_in_def BotScore_in_def)
  note V = assms(1) [unfolded Validate_loaded_def Let_def, simplified]
  have "list_all fst (checks_infra (lo_Config lo))"
    using V by (simp add: checks_infra_def float_checks_def)
  moreover have "list_all fst (checks_admission (lo_Config lo))"
    using V by (simp add: checks_admission_def float_checks_def num cfg fin_def)
  moreover have "list_all fst (checks_botscore ?b)"
  proof -
    have ck: "list_all fst (with_floats lo (checks_botscore ?b))" using V by simp
    then have "\<not> x_less (weight_sum ?f) (Num (rnd (1 - weightEpsilon)))"
      "\<not> x_less (Num (rnd (1 + weightEpsilon))) (weight_sum ?f)"
      by (simp_all add: checks_botscore_def float_checks_def)
    then have "weight_sum ?f = Num (Sum_weights (bs_Weights ?b))"
      using weights_finite [OF num(5-9)] by (simp add: cfg num fin_def)
    with ck show ?thesis by (simp add: checks_botscore_def float_checks_def num cfg fin_def Let_def)
  qed
  ultimately show ?thesis by (simp add: Validate_parts)
qed

section \<open>Properties\<close>

text \<open>
  C19. Every mistake is reported, none stops the others.  The configuration of an environment is
  refused for exactly the variables of the table whose trimmed text is not empty and does not
  parse, each named once, in the order they are read; without such a variable, for exactly the
  checks the validation fails; and otherwise every field holds the value of its own variable or
  its default, and the effective environment is the trimmed text of the variables that were set.
\<close>

theorem load_reports_every_mistake:
  "case LoadFrom env name addr of
     Inl (ParseEnv es) \<Rightarrow> es \<noteq> [] \<and> distinct (map fst es) \<and>
       es = map (\<lambda>(k, kd). (envPrefix @ k, the (complaint kd (the (trimmed env (envPrefix @ k))))))
              (filter (\<lambda>(k, kd). \<exists>v. trimmed env (envPrefix @ k) = Some v \<and> complaint kd v \<noteq> None) config_vars)
   | Inl (InvalidConfig ws) \<Rightarrow> mistakes env = [] \<and> ws \<noteq> [] \<and> ws = Validate_loaded (config_in name addr env)
   | Inr lo \<Rightarrow> mistakes env = [] \<and> Validate_loaded lo = [] \<and> lo = config_in name addr env"
proof -
  have m: "List.map_filter (mistake env) kks =
    map (\<lambda>(k, kd). (envPrefix @ k, the (complaint kd (the (trimmed env (envPrefix @ k))))))
      (filter (\<lambda>(k, kd). \<exists>v. trimmed env (envPrefix @ k) = Some v \<and> complaint kd v \<noteq> None) kks)" for kks
    by (induction kks) (auto simp: List.map_filter_simps mistake_def split: option.splits)
  have "distinct (map fst config_vars)" by code_simp
  then have "distinct (map fst (List.map_filter (mistake env) config_vars))"
    unfolding m by (simp add: distinct_map inj_on_def case_prod_unfold comp_def)
  then show ?thesis by (simp add: LoadFrom_eq mistakes_def m)
qed

lemma fromEnv_config_in:
  "cf_fromEnv (lo_Config (config_in name addr env)) = ld_fromEnv (read_all (map fst config_vars) (new_loader env))"
  by (simp add: fromEnv_loaded [symmetric] fromEnv_noted)

lemma trimmed_upd: "trimmed (env(k \<mapsto> v)) k' = (if k' = k then if TrimSpace v = '''' then None else Some (TrimSpace v) else trimmed env k')"
  by (simp add: trimmed_def)

text \<open>
  A weight that is not a number passes the validation.  Whatever environment loads, it still
  loads after the weight of the proof of work is set to NaN, and the loaded weight is NaN: every
  comparison with the sum of the weights is false, so the check that the sum is 1 accepts it.
\<close>

theorem nan_weight_passes:
  assumes "LoadFrom env name addr = Inr lo"
  shows "\<exists>lo'. LoadFrom (env(''SG_WEIGHT_POW'' \<mapsto> ''NaN'')) name addr = Inr lo' \<and>
    fl_PoW (lo_Scoring lo') = NaN"
proof -
  let ?env = "env(''SG_WEIGHT_POW'' \<mapsto> ''NaN'')"
  have t: "TrimSpace ''NaN'' = ''NaN''" "ParseFloat ''NaN'' = Some NaN" by code_simp+
  have old: "mistakes env = []" "Validate_loaded (config_in name addr env) = []"
    using assms by (auto simp: LoadFrom_eq split: if_splits)
  have kd: "(''WEIGHT_POW'', kd) \<in> set config_vars \<Longrightarrow> kd = KFloat" for kd
    by (simp add: config_vars_def Service_vars_def Redis_vars_def Postgres_vars_def Kafka_vars_def
        Event_vars_def Queue_vars_def Admission_vars_def Challenge_vars_def Token_vars_def BotScore_vars_def)
  have "mistake ?env kk = None" if "kk \<in> set config_vars" for kk
  proof (cases "fst kk = ''WEIGHT_POW''")
    case True
    with that kd have "kk = (''WEIGHT_POW'', KFloat)" by (metis prod.collapse)
    then show ?thesis by (simp add: mistake_def trimmed_upd t envPrefix_def)
  next
    case False
    then have "mistake ?env kk = mistake env kk"
      by (cases kk) (simp add: mistake_def trimmed_upd envPrefix_def)
    then show ?thesis using old(1) that by (simp add: mistakes_Nil)
  qed
  then have m: "mistakes ?env = []" by (simp add: mistakes_Nil)
  let ?lo = "config_in name addr env" and ?lo' = "config_in name addr ?env"
  have eqs: "lo_Backpressure ?lo' = lo_Backpressure ?lo" "checks_infra (lo_Config ?lo') = checks_infra (lo_Config ?lo)"
    "checks_admission (lo_Config ?lo') = checks_admission (lo_Config ?lo)"
    by (simp_all add: checks_infra_def checks_admission_def config_in_def Event_in_def Redis_in_def Queue_in_def
        Admission_in_def Token_in_def Challenge_in_def value_in_def trimmed_upd envPrefix_def)
  have nan: "weight_sum (lo_Scoring ?lo') = NaN" "fl_PoW (lo_Scoring ?lo') = NaN"
    by (simp_all add: config_in_def weight_sum_def BotScore_in_def value_in_def trimmed_upd t envPrefix_def)
  have fl: "fl_Decay (lo_Scoring ?lo') = fl_Decay (lo_Scoring ?lo)"
    "fl_SignalZSpan (lo_Scoring ?lo') = fl_SignalZSpan (lo_Scoring ?lo)"
    "fl_SignalMinContrib (lo_Scoring ?lo') = fl_SignalMinContrib (lo_Scoring ?lo)"
    by (simp_all add: config_in_def BotScore_in_def value_in_def trimmed_upd envPrefix_def)
  have bs: "cf_BotScore (lo_Config ?lo') = (cf_BotScore (lo_Config ?lo))\<lparr>bs_Weights := bs_Weights (cf_BotScore (lo_Config ?lo'))\<rparr>"
    by (simp add: config_in_def BotScore_in_def value_in_def trimmed_upd envPrefix_def)
  have "Validate_loaded ?lo' = []"
    using old(2) nan eqs fl unfolding Validate_loaded_def Let_def
    by (subst bs) (simp add: checks_infra_def checks_admission_def checks_botscore_def float_checks_def)
  then show ?thesis using m nan(2) by (simp add: LoadFrom_eq)
qed

text \<open>Nothing set: the defaults load.\<close>

lemma trimmed_empty [simp]: "trimmed Map.empty k = None"
  by (simp add: trimmed_def)

lemma mistakes_empty: "mistakes Map.empty = []"
  by (simp add: mistakes_Nil mistake_def case_prod_unfold)

lemma loads_defaults:
  "LoadFrom Map.empty name addr = Inr (config_in name addr Map.empty)"
  "lo_Config (config_in ''gate'' '':8080'' Map.empty) = default_config (Secret_of '''')"
  "all_finite (config_in name addr Map.empty)"
proof -
  show d: "lo_Config (config_in ''gate'' '':8080'' Map.empty) = default_config (Secret_of '''')"
    by (simp add: config_in_def Service_in_def Redis_in_def Postgres_in_def Kafka_in_def Event_in_def Queue_in_def
        Admission_in_def Challenge_in_def Token_in_def BotScore_in_def value_in_def fin_def default_config_def
        default_Service_def default_Redis_def default_Postgres_def default_Kafka_def default_Event_def
        default_Queue_def default_Admission_def default_Challenge_def default_Token_def default_BotScore_def
        default_Weights_def cong: if_cong)
  show "all_finite (config_in name addr Map.empty)"
    by (simp add: all_finite_def config_in_def Admission_in_def BotScore_in_def value_in_def fin_def)
  have "Validate_loaded (config_in name addr Map.empty) = Validate_loaded (config_in '''' '''' Map.empty)"
    by (simp add: Validate_loaded_def config_in_def with_floats_def float_checks_def checks_infra_def checks_admission_def)
  moreover have "Validate_loaded (config_in '''' '''' Map.empty) = []"
  proof -
    have f: "unit_interval (Num (rnd (1 / 10)))" "unit_interval (Num (rnd (2 / 10)))" "unit_interval (Num (rnd (9 / 10)))"
      by code_simp+
    have "let s = x_add (x_add (x_add (x_add (Num (rnd (25 / 100))) (Num (rnd (20 / 100)))) (Num (rnd (25 / 100))))
        (Num (rnd (15 / 100)))) (Num (rnd (15 / 100)))
      in \<not> x_less s (Num (rnd (1 - weightEpsilon))) \<and> \<not> x_less (Num (rnd (1 + weightEpsilon))) s"
      by code_simp
    with f show ?thesis
      by (simp add: Validate_loaded_def config_in_def Event_in_def Redis_in_def Queue_in_def Admission_in_def
          Challenge_in_def Token_in_def BotScore_in_def value_in_def checks_infra_def checks_admission_def
          checks_botscore_def float_checks_def weight_sum_def maxSupportedDifficulty_def minNonceBytes_def
          scoreMax_def Let_def del: unit_interval_Num x_add.simps)
  qed
  ultimately show "LoadFrom Map.empty name addr = Inr (config_in name addr Map.empty)"
    by (simp add: LoadFrom_eq mistakes_empty)
qed

theorem nan_weight_passes_witness:
  "\<exists>lo. LoadFrom [''SG_WEIGHT_POW'' \<mapsto> ''NaN''] ''gate'' '':8080'' = Inr lo \<and> fl_PoW (lo_Scoring lo) = NaN"
  by (rule nan_weight_passes [OF loads_defaults(1)])

end
