(* ===== verification/Startup.thy ===== *)
theory Startup
  imports Boot Loading
begin

text \<open>
  From the environment to the services (\<open>New\<close> of \<open>src/internal/app/bootstrap.go\<close>, which loads the
  configuration and then requires the secrets of its service).
\<close>

definition given :: "(string \<rightharpoonup> string) \<Rightarrow> string \<Rightarrow> bool" where
  "given env k \<longleftrightarrow> trimmed env (envPrefix @ k) \<noteq> None"

lemma hex_nonempty: "hex_DecodeString v = Some b \<Longrightarrow> v \<noteq> '''' \<Longrightarrow> b \<noteq> ''''"
  by (induction v rule: hex_DecodeString.induct) (auto split: option.splits)

lemma trimmed_nonempty: "trimmed env k = Some v \<Longrightarrow> v \<noteq> ''''"
  by (auto simp: trimmed_def split: option.splits if_splits)

text \<open>A secret of a loaded configuration is empty exactly when its variable is not set.\<close>

lemma hex_given:
  assumes "mistakes env = []" "(k, KHex) \<in> set config_vars"
  shows "IsZero (hex_in env k) \<longleftrightarrow> \<not> given env k"
proof -
  have "mistake env (k, KHex) = None" using assms by (simp add: mistakes_Nil)
  then show ?thesis
    by (auto simp: mistake_def value_in_def given_def IsZero_def split: option.splits if_splits
        dest: trimmed_nonempty hex_nonempty)
qed

lemma raw_given: "IsZero (raw_in env k) \<longleftrightarrow> \<not> given env k"
  by (auto simp: value_in_def given_def IsZero_def split: option.splits dest: trimmed_nonempty)

lemma secret_vars:
  "(''EVENT_SALT'', KHex) \<in> set config_vars" "(''TOKEN_SIGNING_KEY'', KHex) \<in> set config_vars"
  "(''CHALLENGE_HMAC_KEY'', KHex) \<in> set config_vars"
  by (simp_all add: config_vars_def Event_vars_def Token_vars_def Challenge_vars_def)

text \<open>The path of the metrics, and the interval of the scorer's flushes.\<close>

abbreviation "metrics_path env \<equiv> str_in env ''METRICS_PATH'' ''/internal/metrics''"

text \<open>
  C18. Which environments start which service.  Take an environment that loads with finite
  floats, a metrics path without a brace, and client libraries that take their settings.  Then a
  service comes to run exactly when the variables of the secrets it needs are set and the path of
  the metrics is a route pattern that is none of its own routes; for the shop PostgreSQL must
  also be enabled and reachable, for the scorer no configured database may be away and the flush
  interval must be positive, and for the gate, the queue and the admission service the event
  identifier must be one that a queue accepts.  Loading checks neither the path, nor the flush
  interval, nor the identifier.
\<close>

theorem started_from_environment:
  assumes "LoadFrom env name addr = Inr lo" "all_finite lo"
    "prom_ok P names" "set lua_files \<subseteq> dom files" "CHR ''{'' \<notin> set (metrics_path env)"
    "redis_NewUniversalClient L (cf_Redis (lo_Config lo))"
    "kf_Enabled (cf_Kafka (lo_Config lo)) \<longrightarrow> kafka_NewReader L (cf_Kafka (lo_Config lo))"
  shows "((\<exists>g. boot_gate P L files (lo_Config lo) = Running g) \<longleftrightarrow> validID (str_in env ''EVENT_ID'' ''demo'') \<and>
      list_all (given env) [''EVENT_SALT'', ''TOKEN_SIGNING_KEY'', ''CHALLENGE_HMAC_KEY''] \<and>
      \<not> taken_route (metrics_path env) [[''healthz''], [''readyz'']]) \<and>
    ((\<exists>q. boot_queue P L files (lo_Config lo) = Running q) \<longleftrightarrow> validID (str_in env ''EVENT_ID'' ''demo'') \<and>
      list_all (given env) [''EVENT_SALT'', ''TOKEN_SIGNING_KEY''] \<and>
      \<not> taken_route (metrics_path env) [[''healthz''], [''readyz'']] \<and>
      \<not> taken_route (metrics_path env) [[''api'', ''v1'', ''queue'', ''status'']]) \<and>
    ((\<exists>a. boot_admission P L files (lo_Config lo) = Running a) \<longleftrightarrow> validID (str_in env ''EVENT_ID'' ''demo'') \<and>
      given env ''TOKEN_SIGNING_KEY'' \<and> \<not> taken_route (metrics_path env) [[''healthz''], [''readyz'']]) \<and>
    ((\<exists>s. boot_shop P L files up (lo_Config lo) = Running s) \<longleftrightarrow> up \<and> bool_in env ''POSTGRES_ENABLED'' True \<and>
      list_all (given env) [''POSTGRES_DSN'', ''TOKEN_SIGNING_KEY''] \<and>
      \<not> taken_route (metrics_path env) [[''healthz''], [''readyz'']]) \<and>
    ((\<exists>b. boot_scorer P L files up (lo_Config lo) = Running b) \<longleftrightarrow> given env ''EVENT_SALT'' \<and>
      (up \<or> \<not> (bool_in env ''POSTGRES_ENABLED'' True \<and> given env ''POSTGRES_DSN'')) \<and>
      \<not> taken_route (metrics_path env) [[''healthz''], [''readyz'']] \<and>
      0 < dur_in env ''SCORE_FLUSH_EVERY'' (seconds 5))"
proof -
  have lo: "mistakes env = []" "Validate_loaded lo = []" "lo = config_in name addr env"
    using assms(1) by (auto simp: LoadFrom_eq split: if_splits)
  note valid = Validate_finite [OF lo(2,3) assms(2)]
  note runs = services_run [OF assms(3,4) valid assms(6,7)]
  have z: "IsZero (ev_Salt (cf_Event (lo_Config lo))) \<longleftrightarrow> \<not> given env ''EVENT_SALT''"
    "IsZero (tc_SigningKey (cf_Token (lo_Config lo))) \<longleftrightarrow> \<not> given env ''TOKEN_SIGNING_KEY''"
    "IsZero (cl_HMACKey (cf_Challenge (lo_Config lo))) \<longleftrightarrow> \<not> given env ''CHALLENGE_HMAC_KEY''"
    "IsZero (pg_DSN (cf_Postgres (lo_Config lo))) \<longleftrightarrow> \<not> given env ''POSTGRES_DSN''"
    using hex_given [OF lo(1)] secret_vars
    by (simp_all add: lo(3) config_in_def Event_in_def Token_in_def Challenge_in_def Postgres_in_def raw_given)
  have f: "ev_ID (cf_Event (lo_Config lo)) = str_in env ''EVENT_ID'' ''demo''"
    "pg_Enabled (cf_Postgres (lo_Config lo)) = bool_in env ''POSTGRES_ENABLED'' True"
    "sv_MetricsPath (cf_Service (lo_Config lo)) = metrics_path env"
    "bs_FlushEvery (cf_BotScore (lo_Config lo)) = dur_in env ''SCORE_FLUSH_EVERY'' (seconds 5)"
    by (simp_all add: lo(3) config_in_def Event_in_def Postgres_in_def Service_in_def BotScore_in_def)
  note starts = services_start [OF valid, of up, unfolded f z]
  have "(\<exists>g. run_gate (lo_Config lo) = Inr g) \<longleftrightarrow> validID (str_in env ''EVENT_ID'' ''demo'') \<and>
      given env ''EVENT_SALT'' \<and> given env ''TOKEN_SIGNING_KEY'' \<and> given env ''CHALLENGE_HMAC_KEY''"
    "(\<exists>q. run_queue (lo_Config lo) = Inr q) \<longleftrightarrow> validID (str_in env ''EVENT_ID'' ''demo'') \<and>
      given env ''EVENT_SALT'' \<and> given env ''TOKEN_SIGNING_KEY''"
    "(\<exists>a. run_admission (lo_Config lo) = Inr a) \<longleftrightarrow> validID (str_in env ''EVENT_ID'' ''demo'') \<and>
      given env ''TOKEN_SIGNING_KEY''"
    "(\<exists>s. run_shop up (lo_Config lo) = Inr s) \<longleftrightarrow> up \<and> bool_in env ''POSTGRES_ENABLED'' True \<and>
      given env ''POSTGRES_DSN'' \<and> given env ''TOKEN_SIGNING_KEY''"
    "(\<exists>b. run_scorer up (lo_Config lo) = Inr b) \<longleftrightarrow> given env ''EVENT_SALT'' \<and>
      (up \<or> \<not> (bool_in env ''POSTGRES_ENABLED'' True \<and> given env ''POSTGRES_DSN''))"
    using starts by blast+
  then show ?thesis unfolding runs f by simp
qed

text \<open>The secrets of a development setup, a byte each but for the salt, and nothing else.\<close>

definition dev_env :: "string \<Rightarrow> (string \<rightharpoonup> string)" where
  "dev_env salt = [''SG_EVENT_SALT'' \<mapsto> salt, ''SG_TOKEN_SIGNING_KEY'' \<mapsto> ''02'', ''SG_CHALLENGE_HMAC_KEY'' \<mapsto> ''03'']"

lemma trimmed_dev:
  assumes "TrimSpace salt = salt" "salt \<noteq> ''''"
  shows "trimmed (dev_env salt) k =
    (if k = ''SG_CHALLENGE_HMAC_KEY'' then Some ''03'' else if k = ''SG_TOKEN_SIGNING_KEY'' then Some ''02''
     else if k = ''SG_EVENT_SALT'' then Some salt else None)"
proof -
  have "TrimSpace ''02'' = ''02''" "TrimSpace ''03'' = ''03''" by code_simp+
  with assms show ?thesis by (simp add: dev_env_def trimmed_upd)
qed

lemma dev_env_loads:
  assumes salt: "TrimSpace salt = salt" "salt \<noteq> ''''" "hex_DecodeString salt \<noteq> None"
  shows "LoadFrom (dev_env salt) name addr = Inr (config_in name addr (dev_env salt))"
    "all_finite (config_in name addr (dev_env salt))"
proof -
  note tr = trimmed_dev [OF salt(1,2)]
  have h: "hex_DecodeString ''02'' \<noteq> None" "hex_DecodeString ''03'' \<noteq> None" by code_simp+
  have m: "mistakes (dev_env salt) = []"
    using h salt(3) by (simp add: mistakes_Nil mistake_def tr envPrefix_def config_vars_def Service_vars_def
        Redis_vars_def Postgres_vars_def Kafka_vars_def Event_vars_def Queue_vars_def Admission_vars_def
        Challenge_vars_def Token_vars_def BotScore_vars_def)
  have "Validate_loaded (config_in name addr (dev_env salt)) = Validate_loaded (config_in name addr Map.empty)"
    by (simp add: Validate_loaded_def with_floats_def float_checks_def checks_infra_def checks_admission_def
        config_in_def Event_in_def Redis_in_def Queue_in_def Admission_in_def Challenge_in_def Token_in_def
        BotScore_in_def value_in_def tr envPrefix_def)
  also have "\<dots> = []"
    using loads_defaults(1) [of name addr] by (simp add: LoadFrom_eq split: if_splits)
  finally show "LoadFrom (dev_env salt) name addr = Inr (config_in name addr (dev_env salt))" by (simp add: LoadFrom_eq m)
  show "all_finite (config_in name addr (dev_env salt))"
    by (simp add: all_finite_def config_in_def Admission_in_def BotScore_in_def value_in_def fin_def tr envPrefix_def)
qed

lemma dev_salts:
  "TrimSpace ''aa'' = ''aa''" "TrimSpace ''bb'' = ''bb''" "hex_DecodeString ''aa'' \<noteq> None" "hex_DecodeString ''bb'' \<noteq> None"
  by code_simp+

theorem started_from_environment_witness:
  "(\<exists>g. boot_gate list_prom any_clients (\<lambda>_. Some ''-- lua'')
      (lo_Config (config_in ''gate'' '':8080'' (dev_env ''aa''))) = Running g) \<and>
   \<not> (\<exists>s. boot_shop list_prom any_clients (\<lambda>_. Some ''-- lua'') True
      (lo_Config (config_in ''shop'' '':8084'' (dev_env ''aa''))) = Running s)"
proof -
  have v: "validID ''demo''" by code_simp
  have m: "\<not> taken_route ''/internal/metrics'' [[''healthz''], [''readyz'']]" by code_simp
  note loads = dev_env_loads [OF dev_salts(1) _ dev_salts(3)]
  have l: "redis_NewUniversalClient any_clients r"
    "kf_Enabled (cf_Kafka (lo_Config (config_in name addr (dev_env ''aa'')))) \<longrightarrow>
      kafka_NewReader any_clients (cf_Kafka (lo_Config (config_in name addr (dev_env ''aa''))))" for r name addr
    by (simp_all add: any_clients_def config_in_def Kafka_in_def value_in_def trimmed_dev [OF dev_salts(1)] envPrefix_def)
  show ?thesis
    using started_from_environment [OF loads [of "''gate''" "'':8080''"] list_prom_ok _ _ l, of "\<lambda>_. Some ''-- lua''" True]
      started_from_environment [OF loads [of "''shop''" "'':8084''"] list_prom_ok _ _ l, of "\<lambda>_. Some ''-- lua''" True]
    by (simp add: v m given_def value_in_def trimmed_dev [OF dev_salts(1)] envPrefix_def)
qed

text \<open>
  C40. The log of a start keeps the secrets.  Two environments that load, set the same variables
  and agree, after trimming, on every one whose name does not mark it as a secret are logged as
  the same effective environment; the five variables the program reads as secrets are all marked.
\<close>

theorem startup_log_keeps_secrets:
  assumes "LoadFrom env1 name addr = Inr lo1" "LoadFrom env2 name addr = Inr lo2"
    and "\<And>k. \<not> list_ex (Contains k) secretKeyParts \<Longrightarrow> trimmed env1 k = trimmed env2 k"
    and "\<And>k. trimmed env1 k = None \<longleftrightarrow> trimmed env2 k = None"
  shows "EffectiveEnv (cf_fromEnv (lo_Config lo1)) = EffectiveEnv (cf_fromEnv (lo_Config lo2)) \<and>
    list_all (\<lambda>(k, kd). kd \<in> {KHex, KRaw} \<longrightarrow> list_ex (Contains (envPrefix @ k)) secretKeyParts) config_vars"
proof -
  have "lo1 = config_in name addr env1" "lo2 = config_in name addr env2"
    using assms(1,2) by (auto simp: LoadFrom_eq split: if_splits)
  moreover have "list_all (\<lambda>(k, kd). kd \<in> {KHex, KRaw} \<longrightarrow> list_ex (Contains (envPrefix @ k)) secretKeyParts) config_vars"
    by code_simp
  ultimately show ?thesis
    using EffectiveEnv_noninterference [OF assms(3,4), of "map fst config_vars"] by (simp add: fromEnv_config_in)
qed

theorem startup_log_keeps_secrets_witness:
  "EffectiveEnv (cf_fromEnv (lo_Config (config_in ''gate'' '':8080'' (dev_env ''aa'')))) =
   EffectiveEnv (cf_fromEnv (lo_Config (config_in ''gate'' '':8080'' (dev_env ''bb''))))"
proof -
  have salt: "list_ex (Contains ''SG_EVENT_SALT'') secretKeyParts" by code_simp
  note tr = trimmed_dev [OF dev_salts(1)] trimmed_dev [OF dev_salts(2)]
  have a: "trimmed (dev_env ''aa'') k = trimmed (dev_env ''bb'') k" if "\<not> list_ex (Contains k) secretKeyParts" for k
    using that salt by (auto simp: tr)
  have b: "trimmed (dev_env ''aa'') k = None \<longleftrightarrow> trimmed (dev_env ''bb'') k = None" for k by (auto simp: tr)
  show ?thesis
    using startup_log_keeps_secrets [OF dev_env_loads(1) [OF dev_salts(1) _ dev_salts(3)]
        dev_env_loads(1) [OF dev_salts(2) _ dev_salts(4)] a b] by simp
qed

end
