(* ===== verification/Rehabilitation.thy ===== *)
theory Rehabilitation
  imports Journey
begin

text \<open>
  The way back from the greylist through the gate (\<open>reissue\<close> and \<open>reverify\<close> of
  \<open>src/internal/api/rechallenge.go\<close>): a harder challenge, and with its solution the place the
  user had.  What the second handler demands is computed from the attempts alone, so that
  suspicion that grows in between refuses nobody; the theorem says how far that carries.
\<close>

section \<open>Reading the attempts\<close>

lemma Position_read:
  assumes "Position n sh t (s, r) = (Inr snap, sr')" "sn_Status snap = ''greylist''"
  shows "check sh t = None" "hget r (User (qc_EventID (st_cfg s)) sh t) u_state = Some ''greylist''"
    "sn_Rechallenges snap = or_else (hget r (User (qc_EventID (st_cfg s)) sh t) u_rc_count) 0"
proof -
  let ?U = "User (qc_EventID (st_cfg s)) sh t"
  show chk: "check sh t = None" using assms(1) by (auto simp: Position_def split: option.splits)
  from assms(1) chk obtain vals r' where c: "call n ''position.lua'' 12
      (position_lua (Queue (qc_EventID (st_cfg s)) sh) (Hold (qc_EventID (st_cfg s)) sh) ?U t) r = (Inr vals, r')"
    and v: "sn_Status snap = asString (vals ! 0)" "sn_Rechallenges snap = asInt64 (vals ! 10)"
    by (auto simp: Position_def Let_def split: sum.splits prod.splits)
  from call_once [OF c] obtain L where "position_lua (Queue (qc_EventID (st_cfg s)) sh) (Hold (qc_EventID (st_cfg s)) sh) ?U t
      (r\<lparr>loaded := L\<rparr>) = (Inr vals, r')" by blast
  with v assms(2) show "hget r ?U u_state = Some ''greylist''"
    "sn_Rechallenges snap = or_else (hget r ?U u_rc_count) 0"
    by (auto simp: position_lua_def asString_def asInt64_def split: option.splits)
qed

lemma Position_known:
  assumes "check sh t = None" "hget r (User (qc_EventID (st_cfg s)) sh t) u_state = Some state"
  obtains snap where "Position good_net sh t (s, r) = (Inr snap, s, r\<lparr>loaded := insert ''position.lua'' (loaded r)\<rparr>)"
    "sn_Status snap = state" "sn_Rechallenges snap = or_else (hget r (User (qc_EventID (st_cfg s)) sh t) u_rc_count) 0"
  using assms
  by (intro that) (auto simp: Position_def call_def Run_connected NewScript_def Let_def position_lua_def reply_def
      asString_def asInt64_def)

lemma attemptOf_known:
  assumes "check (cm_Shard c) (cm_TokenID c) = None"
    "hget r (User (qc_EventID (st_cfg s)) (cm_Shard c) (cm_TokenID c)) u_state = Some ''greylist''"
  shows "attemptOf good_net g c (s, r) =
    (or_else (hget r (User (qc_EventID (st_cfg s)) (cm_Shard c) (cm_TokenID c)) u_rc_count) 0 + 1, s,
     r\<lparr>loaded := insert ''position.lua'' (loaded r)\<rparr>)"
proof -
  obtain snap where "Position good_net (cm_Shard c) (cm_TokenID c) (s, r) =
      (Inr snap, s, r\<lparr>loaded := insert ''position.lua'' (loaded r)\<rparr>)"
    "sn_Rechallenges snap = or_else (hget r (User (qc_EventID (st_cfg s)) (cm_Shard c) (cm_TokenID c)) u_rc_count) 0"
    by (rule Position_known [OF assms])
  then show ?thesis by (simp add: attemptOf_def)
qed

section \<open>The exchange of a solution\<close>

lemma zscore_added: "zscore (zadd z rk t) t = Some rk"
proof -
  have "\<forall>p \<in> set xs. snd p \<noteq> t \<Longrightarrow> List.find (\<lambda>p. snd p = t) (insort (rk, t) xs) = Some (rk, t)" for xs
    by (induction xs) auto
  then show ?thesis by (simp add: zscore_def zadd_def zrem_def)
qed

lemma Rechallenge_known:
  fixes s :: Store and r :: redis
  defines "ev \<equiv> qc_EventID (st_cfg s)"
  assumes "check sh t = None" "Origin sh = Inr sh" "0 < Milliseconds (qc_UserTTL (st_cfg s))"
    and "hget r (User ev sh t) u_state = Some ''greylist''" "hget r (User ev sh t) u_orig_rank = Some rk"
    and n: "n = or_else (hget r (User ev sh t) u_rc_count) 0"
  obtains res r' where
    "Rechallenge good_net now \<lparr>rq_Shard = sh, rq_TokenID = t, rq_MaxAttempts = mx, rq_PassScore = pass,
       rq_HoldScore = hold\<rparr> (s, r) = (Inr res, s, r')"
    "rr_Rank res = rk" "rr_Attempts res = n + 1"
    "if n < mx then rr_Outcome res = ''restored'' \<and> rr_Status res = ''waiting'' \<and>
       hget r' (User ev sh t) u_state = Some ''waiting'' \<and> zscore (zsets r' (Queue ev sh)) t = Some rk
     else rr_Outcome res = ''exhausted'' \<and> rr_Status res = ''held'' \<and>
       hget r' (User ev sh t) u_state = Some ''held'' \<and> zscore (zsets r' (Hold ev sh)) t = Some rk"
proof -
  have "Validate sh = None" using assms(2) by (rule check_Validate)
  then obtain grey where grey: "Greylist sh = Inr grey" by (rule Origin_Greylist)
  let ?r = "r\<lparr>loaded := insert ''rechallenge.lua'' (loaded r)\<rparr>"
  obtain u where u: "user_get ?r (User ev sh t) = Some u" "u_state u = Some ''greylist''" "u_orig_rank u = Some rk"
    "or_else (u_rc_count u) 0 = n"
    using assms(5,6) n by (auto simp: hget_def split: option.splits)
  let ?p = "rechallenge_lua (Queue ev sh) (Queue ev grey) (Hold ev sh) (Score ev sh) (User ev sh t) t sh mx pass hold
    (UnixMilli now) (Milliseconds (qc_UserTTL (st_cfg s))) ?r"
  have "\<exists>sc. if n < mx then fst ?p = Inr [LStr ''restored'', LStr ''waiting'', LInt rk, LInt (n + 1), LInt sc] \<and>
       hget (snd ?p) (User ev sh t) u_state = Some ''waiting'' \<and> zscore (zsets (snd ?p) (Queue ev sh)) t = Some rk
     else fst ?p = Inr [LStr ''exhausted'', LStr ''held'', LInt rk, LInt (n + 1), LInt sc] \<and>
       hget (snd ?p) (User ev sh t) u_state = Some ''held'' \<and> zscore (zsets (snd ?p) (Hold ev sh)) t = Some rk"
    using assms(4) u by (cases "n < mx") (simp_all add: rechallenge_lua_def Let_def user_simps zscore_added)
  then obtain sc out stt where p: "fst ?p = Inr [LStr out, LStr stt, LInt rk, LInt (n + 1), LInt sc]"
    "if n < mx then out = ''restored'' \<and> stt = ''waiting'' \<and>
       hget (snd ?p) (User ev sh t) u_state = Some ''waiting'' \<and> zscore (zsets (snd ?p) (Queue ev sh)) t = Some rk
     else out = ''exhausted'' \<and> stt = ''held'' \<and>
       hget (snd ?p) (User ev sh t) u_state = Some ''held'' \<and> zscore (zsets (snd ?p) (Hold ev sh)) t = Some rk"
    by (metis (no_types))
  obtain v r' where pr: "?p = (v, r')" by (meson surj_pair)
  note p = p [unfolded pr fst_conv snd_conv]
  have "Rechallenge good_net now \<lparr>rq_Shard = sh, rq_TokenID = t, rq_MaxAttempts = mx, rq_PassScore = pass,
       rq_HoldScore = hold\<rparr> (s, r) =
     (Inr \<lparr>rr_Outcome = out, rr_Status = stt, rr_Rank = rk, rr_Attempts = n + 1, rr_Score = sc\<rparr>, s, r')"
    using assms(2,3) grey pr p(1)
    by (simp add: Rechallenge_def ev_def [symmetric] call_def Run_connected NewScript_def reply_def Let_def
        asString_def asInt64_def)
  then show thesis by (rule that) (use p(2) in \<open>simp_all split: if_splits\<close>)
qed

section \<open>What is asked\<close>

lemma worst_nonneg: "0 \<le> fold (worse l d r) ss 0"
proof -
  have "w \<le> fold (worse l d r) ss w" for w
    by (induction ss arbitrary: w) (auto intro: order_trans [OF worse_ge])
  then show ?thesis .
qed

lemma clamp_mono: "a \<le> b \<Longrightarrow> is_base i \<le> is_maxDiff i \<Longrightarrow> clamp i a \<le> clamp i b"
  by (simp add: clamp_def)

lemma Required_attempt:
  "0 < a \<Longrightarrow> Required i (Difficulty l r d) \<lparr>su_FPHash = '''', su_IPPrefix = '''', su_Attempt = a\<rparr> =
    clamp i (df_base d + a * df_bump d)"
  by (simp add: Required_def Difficulty_def worse_def)

lemma Issue_difficulty:
  "Issue i (Difficulty l r d) now bs s = Inr c \<Longrightarrow>
    ch_Difficulty c = clamp i (df_base d + max (su_Attempt s) (fold (worse l d r) [su_FPHash s, su_IPPrefix s] 0) * df_bump d)"
  by (auto simp: Issue_def Difficulty_def Let_def max_def split: option.splits)

lemma gate_parts:
  assumes "run_gate cfg = Inr gs"
  obtains chal where "Validate_config cfg = []" "NewIssuer (ev_ID (cf_Event cfg)) (cf_Challenge cfg) = Inr chal"
    "ga_chal (gs_api gs) = chal" "ga_rechalMax (gs_api gs) = bs_RechallengeMaxAttempts (cf_BotScore cfg)"
    "is_base chal = cl_BaseDifficulty (cf_Challenge cfg)" "is_maxDiff chal = cl_MaxDifficulty (cf_Challenge cfg)"
    "gs_difficulty gs = NewDifficulty (ev_ID (cf_Event cfg)) (cf_Challenge cfg) (cf_BotScore cfg)"
  using assms that by (auto simp: run_gate_def NewGateAPI_def NewIssuer_def split: if_splits)

text \<open>What \<open>reissue\<close> gave, and what \<open>reverify\<close> does with it.\<close>

lemma reissued:
  assumes "reissue J w g req (s, r) = (Reply 200 ans, sr)"
    and "auth_verify J (ga_auth g) (gx_auth_at w) req (queueToken req) KindQueue = Inr c"
    and "n = or_else (hget r (User (qc_EventID (st_cfg s)) (cm_Shard c) (cm_TokenID c)) u_rc_count) 0"
  shows "check (cm_Shard c) (cm_TokenID c) = None"
    "Issue (ga_chal g) (gx_provider w) (gx_at w) (gx_nonce w) \<lparr>su_FPHash = fingerprint req '''',
       su_IPPrefix = gate_prefix g req, su_Attempt = min n (ga_rechalMax g) + 1\<rparr> = Inr (ri_Challenge ans)"
    "ri_AttemptsLeft ans = attempts_left g n"
proof -
  from assms(1) obtain snap where pos: "Position (gx_net w) (cm_Shard c) (cm_TokenID c) (s, r) = (Inr snap, sr)"
    "sn_Status snap = ''greylist''"
    and iss: "Issue (ga_chal g) (gx_provider w) (gx_at w) (gx_nonce w) \<lparr>su_FPHash = fingerprint req '''',
       su_IPPrefix = gate_prefix g req, su_Attempt = min (sn_Rechallenges snap) (ga_rechalMax g) + 1\<rparr> = Inr (ri_Challenge ans)"
    and left: "ri_AttemptsLeft ans = attempts_left g (sn_Rechallenges snap)"
    by (auto simp: reissue_def assms(2) Let_def min_def split: sum.splits prod.splits if_splits)
  note read = Position_read [OF pos]
  show "check (cm_Shard c) (cm_TokenID c) = None" by (rule read(1))
  show "Issue (ga_chal g) (gx_provider w) (gx_at w) (gx_nonce w) \<lparr>su_FPHash = fingerprint req '''',
       su_IPPrefix = gate_prefix g req, su_Attempt = min n (ga_rechalMax g) + 1\<rparr> = Inr (ri_Challenge ans)"
    "ri_AttemptsLeft ans = attempts_left g n"
    using iss left by (simp_all add: assms(3) read(3))
qed

lemma reverify_accepts:
  fixes s :: Store and r :: redis
  assumes "auth_verify J (ga_auth g) (gx_auth_at w) req (queueToken req) KindQueue = Inr c"
    and net: "gx_net w = good_net" "gx_net2 w = good_net"
    and U: "U = User (qc_EventID (st_cfg s)) (cm_Shard c) (cm_TokenID c)" "Origin (cm_Shard c) = Inr (cm_Shard c)"
      "check (cm_Shard c) (cm_TokenID c) = None" "0 < Milliseconds (qc_UserTTL (st_cfg s))"
    and st: "hget r U u_state = Some ''greylist''" "hget r U u_orig_rank = Some rk" "n = or_else (hget r U u_rc_count) 0"
    and hard: "Required (ga_chal g) (gx_provider w) \<lparr>su_FPHash = '''', su_IPPrefix = '''', su_Attempt = n + 1\<rparr>
        \<le> ch_Difficulty (re_Challenge b)"
    and burnt: "Verify (gx_burn w) (gx_px w) (ga_chal g) (gx_at w) (re_Challenge b) (re_Solution b)
        (r\<lparr>loaded := insert ''position.lua'' (loaded r)\<rparr>) = (None, r1)"
  obtains a evs r2 where "reverify J w g req (Inr b) (s, r) = (Reply 200 a, evs, s, r2)" "rv_Rank a = rk"
    "rv_AttemptsLeft a = attempts_left g (n + 1)"
    "if n < ga_rechalMax g then rv_Outcome a = ''restored'' \<and> rv_Status a = ''waiting'' \<and>
       zscore (zsets r2 (Queue (qc_EventID (st_cfg s)) (cm_Shard c))) (cm_TokenID c) = Some rk
     else rv_Outcome a = ''exhausted'' \<and> rv_Status a = ''held'' \<and> evs = [] \<and>
       zscore (zsets r2 (Hold (qc_EventID (st_cfg s)) (cm_Shard c))) (cm_TokenID c) = Some rk"
proof -
  have attempt: "attemptOf good_net g c (s, r) = (n + 1, s, r\<lparr>loaded := insert ''position.lua'' (loaded r)\<rparr>)"
    using attemptOf_known [OF U(3), of r s g] st U(1) by simp
  have same: "user_get r1 U = user_get r U" using Verify_frame [OF burnt, of U u_state] by simp
  have U1': "hget r1 U u_state = Some ''greylist''" "hget r1 U u_orig_rank = Some rk" "n = or_else (hget r1 U u_rc_count) 0"
    using st by (simp_all add: hget_def same)
  obtain res r2 where rech: "Rechallenge good_net (gx_at w) \<lparr>rq_Shard = cm_Shard c, rq_TokenID = cm_TokenID c,
      rq_MaxAttempts = ga_rechalMax g, rq_PassScore = ga_rechalPass g, rq_HoldScore = ga_rechalHold g\<rparr> (s, r1) = (Inr res, s, r2)"
    "rr_Rank res = rk" "rr_Attempts res = n + 1"
    "if n < ga_rechalMax g then rr_Outcome res = ''restored'' \<and> rr_Status res = ''waiting'' \<and> hget r2 U u_state = Some ''waiting'' \<and>
        zscore (zsets r2 (Queue (qc_EventID (st_cfg s)) (cm_Shard c))) (cm_TokenID c) = Some rk
      else rr_Outcome res = ''exhausted'' \<and> rr_Status res = ''held'' \<and> hget r2 U u_state = Some ''held'' \<and>
        zscore (zsets r2 (Hold (qc_EventID (st_cfg s)) (cm_Shard c))) (cm_TokenID c) = Some rk"
    by (rule Rechallenge_known [OF U(3,2,4) U1' [unfolded U(1)], folded U(1)])
  have "rr_Outcome res \<noteq> ''unknown''" using rech(4) by (auto split: if_splits)
  with assms(1) net attempt hard burnt rech show thesis
    by (intro that) (auto simp: reverify_def not_less [symmetric] split: if_splits)
qed

text \<open>
  C16. A greylisted user comes back with one solution.  Take a challenge that \<open>reissue\<close> gave to a
  user with \<open>n\<close> re-challenges behind it, and its solution, brought to \<open>reverify\<close> in time and for
  the first time, while the user is still greylisted; between the two suspicion may have grown or
  fallen in any way, whatever reads of it failed.  Below the limit of attempts the user is
  waiting again at the rank it had; at the limit it is held at that rank.  Beyond the limit
  \<open>reissue\<close> caps the attempts it counts and \<open>reverify\<close> does not.  Where the difficulty has
  reached its highest value by then, as it has under the default configuration, or where attempts
  do not raise it, the user is still held at that rank.  Otherwise, when nothing was suspected at
  the issue, \<open>reverify\<close> refuses the challenge that \<open>reissue\<close> has just given.
\<close>

theorem greylisted_user_returns:
  assumes gate: "run_gate cfg = Inr gs" "g = gs_api gs"
    and prov: "gx_provider w1 = Difficulty l1 q1 (gs_difficulty gs)" "gx_provider w2 = Difficulty l2 q2 (gs_difficulty gs)"
    and tok: "auth_verify J (ga_auth g) (gx_auth_at w2) req2 (queueToken req2) KindQueue = Inr c"
      "auth_verify J (ga_auth g) (gx_auth_at w1) req1 (queueToken req1) KindQueue = Inr c"
    and ri: "reissue J w1 g req1 (s, r1) = (Reply 200 ans, sr1)" "gx_nonce w1 = Some bytes" "bytes \<noteq> []"
    and U: "U = User (qc_EventID (st_cfg s)) (cm_Shard c) (cm_TokenID c)" "Origin (cm_Shard c) = Inr (cm_Shard c)"
    and st: "hget r2 U u_state = Some ''greylist''" "hget r2 U u_orig_rank = Some rk"
      "hget r2 U u_rc_count = hget r1 U u_rc_count" "n = or_else (hget r1 U u_rc_count) 0" "0 \<le> n"
      "0 < Milliseconds (qc_UserTTL (st_cfg s))"
    and solved: "Check (ch_Nonce (ri_Challenge ans)) sol (ch_Difficulty (ri_Challenge ans))" "sol \<noteq> ''''"
    and time: "gx_at w2 < ch_ExpiresAt (ri_Challenge ans) * 1000000"
    and net: "gx_net w2 = good_net" "gx_net2 w2 = good_net" "gx_burn w2 = Delivered"
    and fresh: "string_get r2 (Challenge_key (is_eventID (ga_chal g)) (ch_Nonce (ri_Challenge ans))) = None"
  shows "let b = \<lparr>re_Challenge = ri_Challenge ans, re_Solution = sol, re_SolveMS = took\<rparr>;
      mx = bs_RechallengeMaxAttempts (cf_BotScore cfg)
    in (n < mx \<longrightarrow> (\<exists>a evs r3. reverify J w2 g req2 (Inr b) (s, r2) = (Reply 200 a, evs, s, r3) \<and>
           rv_Outcome a = ''restored'' \<and> rv_Status a = ''waiting'' \<and> rv_Rank a = rk \<and>
           rv_AttemptsLeft a = ri_AttemptsLeft ans - 1 \<and>
           zscore (zsets r3 (Queue (qc_EventID (st_cfg s)) (cm_Shard c))) (cm_TokenID c) = Some rk)) \<and>
       (mx \<le> n \<and> (n = mx \<or> bs_GreylistDifficulty (cf_BotScore cfg) = 0 \<or>
          cl_MaxDifficulty (cf_Challenge cfg)
            \<le> cl_BaseDifficulty (cf_Challenge cfg) + (mx + 1) * bs_GreylistDifficulty (cf_BotScore cfg)) \<longrightarrow>
        (\<exists>a r3. reverify J w2 g req2 (Inr b) (s, r2) = (Reply 200 a, [], s, r3) \<and>
           rv_Outcome a = ''exhausted'' \<and> rv_Status a = ''held'' \<and>
           zscore (zsets r3 (Hold (qc_EventID (st_cfg s)) (cm_Shard c))) (cm_TokenID c) = Some rk)) \<and>
       (mx < n \<and> bs_GreylistDifficulty (cf_BotScore cfg) \<noteq> 0 \<and>
        cl_BaseDifficulty (cf_Challenge cfg) + (mx + 1) * bs_GreylistDifficulty (cf_BotScore cfg)
          < cl_MaxDifficulty (cf_Challenge cfg) \<and> (\<forall>k. counter_get q1 k = None) \<longrightarrow>
        (\<exists>r3. reverify J w2 g req2 (Inr b) (s, r2) = (APIError (409, ''challenge_stale''), [], s, r3)))"
proof -
  let ?mx = "bs_RechallengeMaxAttempts (cf_BotScore cfg)" and ?base = "cl_BaseDifficulty (cf_Challenge cfg)"
    and ?bump = "bs_GreylistDifficulty (cf_BotScore cfg)" and ?ch = "ri_Challenge ans"
    and ?b = "\<lparr>re_Challenge = ri_Challenge ans, re_Solution = sol, re_SolveMS = took\<rparr>"
    and ?r3 = "r2\<lparr>loaded := insert ''position.lua'' (loaded r2)\<rparr>"
  obtain chal where valid: "Validate_config cfg = []" and new: "NewIssuer (ev_ID (cf_Event cfg)) (cf_Challenge cfg) = Inr chal"
    and chal: "ga_chal g = chal" "ga_rechalMax g = ?mx" and lim: "is_base chal = ?base" "is_maxDiff chal = cl_MaxDifficulty (cf_Challenge cfg)"
    and d: "gs_difficulty gs = NewDifficulty (ev_ID (cf_Event cfg)) (cf_Challenge cfg) (cf_BotScore cfg)"
    by (rule gate_parts [OF gate(1), folded gate(2)])
  note cok = Validate_challenge [OF valid]
  have bump: "0 \<le> ?bump" "1 \<le> ?mx" using Validate_scoring [OF valid] by (simp_all add: scoring_ok_def)
  have range: "is_base chal \<le> is_maxDiff chal" using cok lim by (simp add: challenge_ok_def)
  note given = reissued [OF ri(1) tok(2), folded U(1), OF st(4), unfolded chal prov]
  have diff: "ch_Difficulty ?ch = clamp chal (?base +
      max (min n ?mx + 1) (fold (worse l1 (gs_difficulty gs) q1) [fingerprint req1 '''', gate_prefix g req1] 0) * ?bump)"
    using Issue_difficulty [OF given(2)] by (simp add: d NewDifficulty_def)
  have want: "Required (ga_chal g) (gx_provider w2) \<lparr>su_FPHash = '''', su_IPPrefix = '''', su_Attempt = n + 1\<rparr> =
      clamp chal (?base + (n + 1) * ?bump)"
    using st(5) by (simp add: prov Required_attempt d NewDifficulty_def chal)
  have accepted: "\<exists>a evs r3. reverify J w2 g req2 (Inr ?b) (s, r2) = (Reply 200 a, evs, s, r3) \<and> rv_Rank a = rk \<and>
      rv_AttemptsLeft a = attempts_left g (n + 1) \<and>
      (if n < ?mx then rv_Outcome a = ''restored'' \<and> rv_Status a = ''waiting'' \<and>
         zscore (zsets r3 (Queue (qc_EventID (st_cfg s)) (cm_Shard c))) (cm_TokenID c) = Some rk
       else rv_Outcome a = ''exhausted'' \<and> rv_Status a = ''held'' \<and> evs = [] \<and>
         zscore (zsets r3 (Hold (qc_EventID (st_cfg s)) (cm_Shard c))) (cm_TokenID c) = Some rk)"
    if "n \<le> ?mx \<or> ?bump = 0 \<or> cl_MaxDifficulty (cf_Challenge cfg) \<le> ?base + (?mx + 1) * ?bump"
  proof -
    have cap: "clamp chal (?base + (n + 1) * ?bump) \<le> clamp chal (?base + max (min n ?mx + 1) x * ?bump)" for x
    proof (cases "n \<le> ?mx \<or> ?bump = 0")
      case True
      then have "(n + 1) * ?bump \<le> max (min n ?mx + 1) x * ?bump"
        using bump(1) by (elim disjE) (intro mult_right_mono, simp_all)
      then show ?thesis by (intro clamp_mono [OF _ range]) simp
    next
      case False
      have "(?mx + 1) * ?bump \<le> max (min n ?mx + 1) x * ?bump"
        using False bump(1) by (intro mult_right_mono) simp_all
      with False that lim have "is_maxDiff chal \<le> ?base + max (min n ?mx + 1) x * ?bump" by linarith
      then show ?thesis using range by (simp add: clamp_def)
    qed
    then have hard: "clamp chal (?base + (n + 1) * ?bump) \<le> ch_Difficulty ?ch" unfolding diff .
    have "string_get ?r3 (Challenge_key (is_eventID chal) (ch_Nonce ?ch)) = None"
      using fresh by (simp add: chal string_get_def live_def)
    note V = Verify_fresh [OF new cok given(2) [unfolded ri(2)] ri(3) solved time this, of "gx_px w2"]
    have hard': "Required (ga_chal g) (gx_provider w2) \<lparr>su_FPHash = '''', su_IPPrefix = '''', su_Attempt = n + 1\<rparr>
        \<le> ch_Difficulty (re_Challenge ?b)" using hard by (simp add: want)
    obtain r4 where V': "Verify (gx_burn w2) (gx_px w2) (ga_chal g) (gx_at w2) (re_Challenge ?b) (re_Solution ?b) ?r3 = (None, r4)"
      using V by (simp add: net chal)
    show ?thesis
      by (rule reverify_accepts [OF tok(1) net(1,2) U given(1) st(6) st(1,2) st(4) [folded st(3)] hard' V'])
        (use chal(2) in auto)
  qed
  have stale: "reverify J w2 g req2 (Inr ?b) (s, r2) = (APIError (409, ''challenge_stale''), [], s, ?r3)"
    if "?mx < n" "\<forall>k. counter_get q1 k = None" "?bump \<noteq> 0" "?base + (?mx + 1) * ?bump < cl_MaxDifficulty (cf_Challenge cfg)"
  proof -
    have "worse l1 d q1 x w = w" for d x w using that(2) by (simp add: worse_def)
    then have "ch_Difficulty ?ch = clamp chal (?base + (?mx + 1) * ?bump)"
      using that(1) bump(2) by (simp add: diff max_def)
    moreover have "?base + (?mx + 1) * ?bump < ?base + (n + 1) * ?bump" "0 \<le> (?mx + 1) * ?bump"
      using that(1,3) bump by simp_all
    ultimately have "ch_Difficulty ?ch < clamp chal (?base + (n + 1) * ?bump)"
      using that(4) lim by (simp add: clamp_def)
    moreover have "attemptOf good_net g c (s, r2) = (n + 1, s, ?r3)"
      using attemptOf_known [OF given(1), of r2 s g] st(1,3,4) U(1) by simp
    ultimately show ?thesis by (simp add: reverify_def tok(1) net want)
  qed
  have "attempts_left g (n + 1) = attempts_left g n - 1" if "n < ?mx"
    using that by (simp add: attempts_left_def chal Let_def)
  with accepted stale show ?thesis unfolding Let_def given(3) by fastforce
qed

section \<open>A user comes back\<close>

text \<open>The user of \<open>Journey\<close> on the greylist, with rank 7 and no re-challenge yet.\<close>

definition demo_grey :: redis where
  "demo_grey = hset empty_redis (User ''ev'' demo_place demo_id)
     (\<lambda>h. h\<lparr>u_state := Some ''greylist'', u_orig_rank := Some 7\<rparr>)"

definition demo_difficulty :: DifficultyProvider where
  "demo_difficulty = NewDifficulty ''ev'' (cf_Challenge demo_config) (cf_BotScore demo_config)"

lemma demo_solved_5: "Check ''YWJj'' ''34'' 5"
  by code_simp

theorem greylisted_user_returns_witness:
  "\<exists>gs vr evs sr2 ans sr3 a evs2 r4.
     run_gate demo_config = Inr gs \<and>
     gate_verify plain_jwt demo_gate_wires (gs_api gs) demo_visit (Inr demo_solution) (demo_store, empty_redis)
       = (Reply 200 vr, evs, sr2) \<and>
     reissue plain_jwt (demo_gate_wires\<lparr>gx_provider := Difficulty (\<lambda>_. Delivered) demo_grey (gs_difficulty gs)\<rparr>) (gs_api gs)
       (demo_visit\<lparr>hr_QueueCookie := Some (vr_Token vr)\<rparr>) (demo_store, demo_grey) = (Reply 200 ans, sr3) \<and>
     reverify plain_jwt (demo_gate_wires\<lparr>gx_provider := Difficulty (\<lambda>_. RequestLost) demo_grey (gs_difficulty gs)\<rparr>) (gs_api gs)
       (demo_visit\<lparr>hr_QueueCookie := Some (vr_Token vr)\<rparr>)
       (Inr \<lparr>re_Challenge = ri_Challenge ans, re_Solution = ''34'', re_SolveMS = 0\<rparr>) (demo_store, demo_grey)
       = (Reply 200 a, evs2, demo_store, r4) \<and> rv_Status a = ''waiting'' \<and> rv_Rank a = 7"
proof -
  obtain gs where gs: "run_gate demo_config = Inr gs" "gs_api gs = demo_gate"
    by (rule demo_services)
  obtain vr evs sr2 where gv: "gate_verify plain_jwt demo_gate_wires demo_gate demo_visit (Inr demo_solution)
    (demo_store, empty_redis) = (Reply 200 vr, evs, sr2)" by (rule demo_gate_reply) blast
  let ?req = "demo_visit\<lparr>hr_QueueCookie := Some (vr_Token vr)\<rparr>"
    and ?w1 = "demo_gate_wires\<lparr>gx_provider := Difficulty (\<lambda>_. Delivered) demo_grey (gs_difficulty gs)\<rparr>"
    and ?w2 = "demo_gate_wires\<lparr>gx_provider := Difficulty (\<lambda>_. RequestLost) demo_grey (gs_difficulty gs)\<rparr>"
  have id: "NewID (gx_random demo_gate_wires) = Inr demo_id"
    by (simp add: NewID_def idBytes_def demo_gate_wires_def)
  have asc: "list_all is_ascii [ti_issuer demo_token_issuer, ev_ID (cf_Event demo_config),
      fingerprint demo_visit (vq_FingerprintHash demo_solution), gate_prefix demo_gate demo_visit]"
    by (simp add: demo_token_issuer_def demo_config_def fingerprint_def gate_prefix_def demo_visit_def demo_gate_def
        is_ascii_def less_char_def)
  obtain c where c: "auth_verify plain_jwt (NewAuthenticator demo_token_issuer demo_config) (seconds 5) ?req (queueToken ?req) KindQueue = Inr c"
    "cm_TokenID c = demo_id" "cm_Shard c = demo_place"
    by (rule gate_token_accepted [OF plain_jwt_ok demo_gate_def gv id asc, of ?req "seconds 5"])
      (simp_all add: demo_visit_def demo_gate_wires_def Truncate_second_def demo_token_issuer_def demo_config_def)
  have auth: "auth_verify plain_jwt (ga_auth (gs_api gs)) (seconds 5) ?req (queueToken ?req) KindQueue = Inr c"
    using c(1) by (simp add: gs(2) demo_gate_def NewGateAPI_def)
  have pl: "Validate demo_place = None" "Origin demo_place = Inr demo_place"
  proof -
    show v: "Validate demo_place = None" by (rule Assign_valid) (simp_all add: demo_assigner_def)
    show "Origin demo_place = Inr demo_place" using v by (simp add: Origin_def Assign_def ID_def)
  qed
  have U: "hget demo_grey (User ''ev'' demo_place demo_id) u_state = Some ''greylist''"
    "hget demo_grey (User ''ev'' demo_place demo_id) u_orig_rank = Some 7"
    "hget demo_grey (User ''ev'' demo_place demo_id) u_rc_count = None"
    by (simp_all add: demo_grey_def hget_def redis_simps) (simp_all add: user_get_def empty_redis_def live_def no_user_def)
  have vid: "validID demo_id"
    using length_RawURLEncoding [of "replicate 16 (CHR ''a'')"] RawURLEncoding_chars url_char_id_char
    by (auto simp: validID_def maxIDLen_def list_all_iff)
  then have chk: "check demo_place demo_id = None" using pl(1) by (auto simp: check_def validID_def)
  have susp: "counter_get demo_grey k = None" for k
    by (simp add: demo_grey_def redis_simps, simp add: counter_get_def empty_redis_def live_def)
  have d: "gs_difficulty gs = \<lparr>df_eventID = ''ev'', df_base = 1, df_bump = 4\<rparr>"
    using gs(1) by (auto simp: run_gate_def NewDifficulty_def demo_config_def default_config_def default_Event_def
        default_Challenge_def default_BotScore_def)
  have wt: "worse (\<lambda>_. Delivered) (gs_difficulty gs) demo_grey x w = w" for x w by (simp add: worse_def susp)
  have nonce: "RawURLEncoding ''abc'' = ''YWJj''" by code_simp
  have ev: "qc_EventID (st_cfg demo_store) = ''ev''" "0 < Milliseconds (qc_UserTTL (st_cfg demo_store))"
    by (simp_all add: demo_store_def demo_cfg_def Milliseconds_def quot_def)
  let ?ch = "\<lparr>ch_Nonce = ''YWJj'', ch_Difficulty = 5, ch_ExpiresAt = 125000,
    ch_Signature = sign demo_issuer ''YWJj'' 5 125000, ch_Algorithm = Algorithm\<rparr>"
  have iss: "Issue demo_issuer (Difficulty (\<lambda>_. Delivered) demo_grey (gs_difficulty gs)) (seconds 5) (Some ''abc'')
      \<lparr>su_FPHash = fp, su_IPPrefix = ipp, su_Attempt = 1\<rparr> = Inr ?ch" for fp ipp
  proof -
    have "Difficulty (\<lambda>_. Delivered) demo_grey (gs_difficulty gs) \<lparr>su_FPHash = fp, su_IPPrefix = ipp, su_Attempt = 1\<rparr> = Inr 5"
      by (simp add: Difficulty_def wt) (simp add: d)
    moreover have "clamp demo_issuer 5 = 5" "UnixMilli (seconds 5 + is_ttl demo_issuer) = 125000" by code_simp+
    ultimately show ?thesis unfolding Issue_def option.case Let_def nonce by simp
  qed
  obtain snap sr3 where pos: "Position good_net demo_place demo_id (demo_store, demo_grey) = (Inr snap, sr3)"
    "sn_Status snap = ''greylist''" "sn_Rechallenges snap = 0"
  proof -
    have "hget demo_grey (User (qc_EventID (st_cfg demo_store)) demo_place demo_id) u_state = Some ''greylist''"
      using U(1) ev(1) by simp
    then show thesis by (rule Position_known [OF chk]) (rule that, use U(3) ev(1) in simp_all)
  qed
  have gd: "ga_chal (gs_api gs) = demo_issuer" "1 \<le> ga_rechalMax (gs_api gs)"
    by (simp_all add: gs(2) demo_gate_def NewGateAPI_def demo_config_def default_config_def default_BotScore_def)
  obtain ans where ri: "reissue plain_jwt ?w1 (gs_api gs) ?req (demo_store, demo_grey) = (Reply 200 ans, sr3)"
    and ch: "ri_Challenge ans = ?ch"
    using pos auth gd iss c(2,3)
    by - (rule that, simp add: reissue_def demo_gate_wires_def Let_def, simp)
  have fresh: "string_get demo_grey k = None" for k
    by (simp add: demo_grey_def redis_simps, simp add: string_get_def empty_redis_def live_def)
  have mx: "bs_RechallengeMaxAttempts (cf_BotScore demo_config) = 2"
    by (simp add: demo_config_def default_config_def default_BotScore_def)
  have n0: "or_else (hget demo_grey (User ''ev'' demo_place demo_id) u_rc_count) 0 = (0 :: int)"
    unfolding U(3) by simp
  have a1: "auth_verify plain_jwt (ga_auth (gs_api gs)) (gx_auth_at ?w2) ?req (queueToken ?req) KindQueue = Inr c"
    "auth_verify plain_jwt (ga_auth (gs_api gs)) (gx_auth_at ?w1) ?req (queueToken ?req) KindQueue = Inr c"
    using auth by (simp_all add: demo_gate_wires_def)
  have "\<exists>a evs2 r4. reverify plain_jwt ?w2 (gs_api gs) ?req
       (Inr \<lparr>re_Challenge = ri_Challenge ans, re_Solution = ''34'', re_SolveMS = 0\<rparr>) (demo_store, demo_grey)
       = (Reply 200 a, evs2, demo_store, r4) \<and> rv_Outcome a = ''restored'' \<and> rv_Status a = ''waiting'' \<and> rv_Rank a = 7 \<and>
       rv_AttemptsLeft a = ri_AttemptsLeft ans - 1 \<and>
       zscore (zsets r4 (Queue (qc_EventID (st_cfg demo_store)) (cm_Shard c))) (cm_TokenID c) = Some 7"
    by (rule greylisted_user_returns [OF gs(1) refl _ _ a1 ri, where n = 0 and sol = "''34''" and bytes = "''abc''",
          unfolded Let_def mx, THEN conjunct1, rule_format])
      (use U c(2,3) ch pl(2) ev demo_solved_5 fresh in \<open>simp_all add: demo_gate_wires_def\<close>, rule n0)
  with gs gv ri(1) show ?thesis by auto
qed

end
