(* ===== verification/Consuming.thy ===== *)
theory Consuming
  imports Telemetry Config
begin

text \<open>
  The consumer of the scorer as a whole (\<open>src/internal/telemetry/consumer.go\<close>): it joins the
  group only once the topic has a partition, since a group that joins a topic without partitions
  is assigned none and never reads.  The Kafka client is what each dial, each reading of the
  partitions and each read returns.
\<close>

section \<open>Waiting for the topic\<close>

record Consumer =
  co_Brokers :: "string list"
  co_Topic :: string
  co_GroupID :: string

definition NewConsumer :: "Kafka_cfg \<Rightarrow> Consumer" where
  "NewConsumer cfg = \<lparr>co_Brokers = kf_Brokers cfg, co_Topic = kf_Topic cfg, co_GroupID = kf_GroupID cfg\<rparr>"

text \<open>One turn of the loop: the connection, the partitions, and whether the wait after it is cancelled.\<close>

record poll =
  po_dial :: "string + unit"
  po_partitions :: "string + nat list"
  po_cancelled :: bool

definition partitionCount :: "poll \<Rightarrow> string + nat" where
  "partitionCount q =
    (case po_dial q of
       Inl e \<Rightarrow> Inl e
     | Inr _ \<Rightarrow> (case po_partitions q of Inl e \<Rightarrow> Inl e | Inr parts \<Rightarrow> Inr (length parts)))"

definition has_partition :: "poll \<Rightarrow> bool" where
  "has_partition q \<longleftrightarrow> (case partitionCount q of Inr n \<Rightarrow> 0 < n | Inl _ \<Rightarrow> False)"

datatype wait_end = Ready | Cancelled

text \<open>\<open>None\<close>: still waiting after these turns.\<close>

fun wait_loop :: "poll list \<Rightarrow> wait_end option" where
  "wait_loop [] = None"
| "wait_loop (q # qs) =
    (if has_partition q then Some Ready else if po_cancelled q then Some Cancelled else wait_loop qs)"

datatype consumer_error = ErrNoBrokers

definition waitForTopic :: "Consumer \<Rightarrow> poll list \<Rightarrow> (consumer_error + wait_end) option" where
  "waitForTopic c qs = (if co_Brokers c = [] then Some (Inl ErrNoBrokers) else map_option Inr (wait_loop qs))"

section \<open>The whole consumer\<close>

text \<open>
  The result is \<open>None\<close> while the consumer runs on, and what \<open>Run\<close> returns otherwise.  With the
  context cancelled the first read fails and ends it; the other failures of a read are repeated.
\<close>

definition Consumer_Run :: "Consumer \<Rightarrow> (Event \<Rightarrow> 's \<Rightarrow> 's) \<Rightarrow> poll list \<Rightarrow> read list \<Rightarrow> 's \<Rightarrow>
    (consumer_error + unit) option \<times> 's" where
  "Consumer_Run c handle qs rs s =
    (case waitForTopic c qs of
       None \<Rightarrow> (None, s)
     | Some (Inl e) \<Rightarrow> (Some (Inl e), s)
     | Some (Inr Cancelled) \<Rightarrow> (Some (Inr ()), s)
     | Some (Inr Ready) \<Rightarrow> (if EndOfStream \<in> set rs then Some (Inr ()) else None, Consume handle rs s))"

section \<open>From the handlers to the scorer\<close>

text \<open>The payloads the reads carry.\<close>

definition payloads :: "read list \<Rightarrow> Event list" where
  "payloads rs = List.map_filter (\<lambda>r. case r of Msg v \<Rightarrow> v | _ \<Rightarrow> None) rs"

lemma payloads_simps [simp]:
  "payloads [] = []" "payloads (Msg None # rs) = payloads rs" "payloads (Msg (Some e) # rs) = e # payloads rs"
  "payloads (ReadError # rs) = payloads rs" "payloads (EndOfStream # rs) = payloads rs"
  by (simp_all add: payloads_def List.map_filter_simps)

lemma Consume_hears: "\<exists>es. Consume handle rs s = fold handle es s \<and> subseq es (filter Valid (payloads rs))"
proof (induction handle rs s rule: Consume.induct)
  case (4 handle v rs s)
  show ?case
  proof (cases v)
    case None
    with 4 show ?thesis by (auto simp: Decode_def)
  next
    case (Some e)
    show ?thesis
    proof (cases "Valid e")
      case True
      with Some have d: "Decode v = Some e" by (simp add: Decode_def)
      from "4.IH"(2) [OF d] obtain es where "Consume handle rs (handle e s) = fold handle es (handle e s)"
        "subseq es (filter Valid (payloads rs))" by blast
      then show ?thesis using Some True d by (intro exI [of _ "e # es"]) simp
    next
      case False
      with Some have "Decode v = None" by (simp add: Decode_def)
      with "4.IH"(1) Some False show ?thesis by simp
    qed
  qed
qed (auto intro!: exI [of _ "[]"])

lemma wait_loop_ready: "wait_loop qs = Some Ready \<Longrightarrow> \<exists>q \<in> set qs. has_partition q"
  by (induction qs) (auto split: if_splits)

text \<open>
  What the scorer hears.  In any run of the producer, whose writes may lose messages but
  neither invent nor reorder them, and whatever part of the topic the reads then bring, in its
  order, between failures and foreign payloads: the consumer hands over a subsequence of the
  events that were published, all of them valid, and none before a poll has seen a partition of
  the topic; without brokers it returns an error and hands over nothing.
\<close>

theorem scorer_hears_in_order:
  assumes "producer_run ss NewProducer = Some p" "list_all drops_only (writers ss)"
    and "subseq (payloads rs) (map km_Value (pr_topic p))"
  shows "\<exists>es. snd (Consumer_Run c handle qs rs s) = fold handle es s \<and> subseq es (published ss) \<and>
    list_all Valid es \<and> (es \<noteq> [] \<longrightarrow> list_ex has_partition qs) \<and>
    (co_Brokers c = [] \<longrightarrow> es = [] \<and> fst (Consumer_Run c handle qs rs s) = Some (Inl ErrNoBrokers))"
proof (cases "waitForTopic c qs = Some (Inr Ready)")
  case True
  then have q: "co_Brokers c \<noteq> []" "list_ex has_partition qs"
    using wait_loop_ready by (auto simp: waitForTopic_def list_ex_iff split: if_splits)
  obtain es where es: "Consume handle rs s = fold handle es s" "subseq es (filter Valid (payloads rs))"
    using Consume_hears [of handle rs s] by auto
  have "subseq (map km_Value (pr_topic p)) (published ss)" 
    by (rule telemetry_order [OF assms(1), THEN conjunct1]) (use assms(2) in \<open>simp add: list_all_iff\<close>)
  with assms(3) have "subseq (payloads rs) (published ss)" by (rule subseq_order.trans)
  then have "subseq es (published ss)"
    by (rule subseq_order.trans [OF subseq_order.trans [OF es(2) subseq_filter_left]])
  moreover have "list_all Valid es"
    using subseq_set [OF es(2)] by (auto simp: list_all_iff)
  ultimately show ?thesis using True es(1) q by (auto simp: Consumer_Run_def)
next
  case False
  then have "snd (Consumer_Run c handle qs rs s) = fold handle [] s"
    by (auto simp: Consumer_Run_def split: option.splits sum.splits wait_end.splits)
  moreover have "fst (Consumer_Run c handle qs rs s) = Some (Inl ErrNoBrokers)" if "co_Brokers c = []"
    using that by (simp add: Consumer_Run_def waitForTopic_def)
  ultimately show ?thesis by (intro exI [of _ "[]"]) simp
qed

theorem scorer_hears_in_order_witness:
  "\<exists>p es. producer_run [Pub (demo_event KindEnter ''a'' 1), Pub (demo_event KindHeartbeat ''b'' 2),
      Receive (\<lambda>_. []), Receive (\<lambda>_. []), Ticker (\<lambda>b. b)] NewProducer = Some p \<and>
    snd (Consumer_Run (NewConsumer default_Kafka) (\<lambda>e l. l @ [e])
      [\<lparr>po_dial = Inl ''refused'', po_partitions = Inr [], po_cancelled = False\<rparr>,
       \<lparr>po_dial = Inr (), po_partitions = Inr [0], po_cancelled = False\<rparr>]
      (ReadError # Msg None # map (\<lambda>m. Msg (Some (km_Value m))) (pr_topic p)) []) = fold (\<lambda>e l. l @ [e]) es [] \<and>
    subseq es [demo_event KindEnter ''a'' 1, demo_event KindHeartbeat ''b'' 2]"
proof -
  let ?ss = "[Pub (demo_event KindEnter ''a'' 1), Pub (demo_event KindHeartbeat ''b'' 2),
      Receive (\<lambda>_. []), Receive (\<lambda>_. []), Ticker (\<lambda>b. b)]"
  have v: "Valid (demo_event KindEnter ''a'' 1)" "Valid (demo_event KindHeartbeat ''b'' 2)"
    by code_simp+
  then obtain p where p: "producer_run ?ss NewProducer = Some p"
    by (auto simp: Publish_def NewProducer_def bufferSize_def batchSize_def loop_receive_def Let_def flush_def)
  have d: "list_all drops_only (writers ?ss)" by (simp add: drops_only_def)
  have pm: "payloads (map (\<lambda>m. Msg (Some (km_Value m))) ms) = map km_Value ms" for ms
    by (induction ms) simp_all
  let ?rs = "ReadError # Msg None # map (\<lambda>m. Msg (Some (km_Value m))) (pr_topic p)"
  have sub: "subseq (payloads ?rs) (map km_Value (pr_topic p))" by (simp only: payloads_simps pm subseq_order.refl)
  have pub: "published ?ss = [demo_event KindEnter ''a'' 1, demo_event KindHeartbeat ''b'' 2]" using v by simp
  let ?c = "NewConsumer default_Kafka" and ?h = "\<lambda>e l. l @ [e]" and
    ?qs = "[\<lparr>po_dial = Inl ''refused'', po_partitions = Inr [], po_cancelled = False\<rparr>,
       \<lparr>po_dial = Inr (), po_partitions = Inr [0], po_cancelled = False\<rparr>]"
  obtain es where "snd (Consumer_Run ?c ?h ?qs ?rs []) = fold ?h es []" "subseq es (published ?ss)"
    using scorer_hears_in_order [OF p d sub, of ?c ?h ?qs "[]"] by (elim exE conjE, intro that)
  with p pub show ?thesis by (intro exI [of _ p] exI [of _ es]) simp
qed

end
