(* ===== verification/RateLimit.thy ===== *)
theory RateLimit
  imports Controller
begin

text \<open>
  The loop of the admission controller (\<open>Run\<close> of \<open>src/internal/admission/controller.go\<close>) in the
  middle of everything else: between two ticks any number of scripts run on any shard of the
  event and shards are registered; a cycle that fails is logged and the next tick tries again.
  The theories before this one bound what one slot hands out by what was granted to it, and what
  one cycle grants by its total; here the two meet for the whole event.
\<close>

section \<open>The loop and what happens around it\<close>

datatype event_op = On_shard string slot_op | Registered string

fun event_step :: "string \<Rightarrow> event_op \<Rightarrow> redis \<Rightarrow> redis" where
  "event_step ev (On_shard sid opn) r = snd (exec ev sid opn r)"
| "event_step ev (Registered sid) r = r\<lparr>sets := (sets r)(Shards ev := insert sid (sets r (Shards ev)))\<rparr>"

text \<open>A tick, with what happened since the tick before it and what its cycle meets.\<close>

record cycle_tick =
  ck_before :: "event_op list"
  ck_now :: gotime
  ck_clock :: "nat \<Rightarrow> gotime"
  ck_health :: http_outcome
  ck_shards :: link
  ck_sizes :: link
  ck_refills :: "string \<Rightarrow> net"

fun Controller_Run :: "AConfig \<Rightarrow> HealthChecker \<Rightarrow> Store \<Rightarrow> cycle_tick list \<Rightarrow> Breaker \<times> redis \<Rightarrow> Breaker \<times> redis" where
  "Controller_Run cfg h q [] br = br"
| "Controller_Run cfg h q (k # ks) (b, r) =
    (let r1 = fold (event_step (ac_EventID cfg)) (ck_before k) r
     in case Cycle (ck_now k) (ck_clock k) (ck_health k) (ck_shards k) (ck_sizes k) (ck_refills k) cfg h q (b, r1) of
          (_, br') \<Rightarrow> Controller_Run cfg h q ks br')"

text \<open>
  What is counted: the places handed out between the ticks, and the cycles that are not held
  back by the lottery window.
\<close>

fun handed_out :: "string \<Rightarrow> event_op list \<Rightarrow> redis \<Rightarrow> int" where
  "handed_out ev [] r = 0"
| "handed_out ev (e # es) r =
    (case e of On_shard sid opn \<Rightarrow> if fresh_admit ev sid r opn then 1 else 0 | Registered _ \<Rightarrow> 0) +
    handed_out ev es (event_step ev e r)"

fun admitted_in_run :: "AConfig \<Rightarrow> HealthChecker \<Rightarrow> Store \<Rightarrow> cycle_tick list \<Rightarrow> Breaker \<times> redis \<Rightarrow> int" where
  "admitted_in_run cfg h q [] br = 0"
| "admitted_in_run cfg h q (k # ks) (b, r) =
    (let r1 = fold (event_step (ac_EventID cfg)) (ck_before k) r
     in handed_out (ac_EventID cfg) (ck_before k) r +
        (case Cycle (ck_now k) (ck_clock k) (ck_health k) (ck_shards k) (ck_sizes k) (ck_refills k) cfg h q (b, r1) of
          (_, br') \<Rightarrow> admitted_in_run cfg h q ks br'))"

definition open_cycles :: "AConfig \<Rightarrow> cycle_tick list \<Rightarrow> int" where
  "open_cycles cfg ks = int (length (filter (\<lambda>k. \<not> snd (gateRemaining cfg (ck_now k))) ks))"

text \<open>
  What a run must satisfy: only the controller refills, the scripts are called as the code calls
  them on normal shards of the event, and fewer than \<open>2 ^ 53\<close> people wait when a cycle counts them.
\<close>

fun event_ok :: "string \<Rightarrow> redis \<Rightarrow> event_op \<Rightarrow> bool" where
  "event_ok ev r (On_shard sid opn) \<longleftrightarrow> slot_ok ev sid \<and> op_ok ev sid r opn \<and> granted opn = 0 \<and>
     (case opn of Refill_op _ _ _ \<Rightarrow> False | _ \<Rightarrow> True)"
| "event_ok ev r (Registered sid) \<longleftrightarrow> Validate sid = None"

fun events_ok :: "string \<Rightarrow> event_op list \<Rightarrow> redis \<Rightarrow> bool" where
  "events_ok ev [] r \<longleftrightarrow> True"
| "events_ok ev (e # es) r \<longleftrightarrow> event_ok ev r e \<and> events_ok ev es (event_step ev e r)"

definition countable_queue :: "Store \<Rightarrow> redis \<Rightarrow> bool" where
  "countable_queue q r \<longleftrightarrow>
    (case Shards_list Delivered q r of Inl _ \<Rightarrow> True
     | Inr shards \<Rightarrow> (case Sizes Delivered q shards r of Inl _ \<Rightarrow> True
         | Inr sizes \<Rightarrow> counts_ok (masked shards sizes)))"

fun run_fits :: "AConfig \<Rightarrow> HealthChecker \<Rightarrow> Store \<Rightarrow> cycle_tick list \<Rightarrow> Breaker \<times> redis \<Rightarrow> bool" where
  "run_fits cfg h q [] br \<longleftrightarrow> True"
| "run_fits cfg h q (k # ks) (b, r) \<longleftrightarrow>
    (let r1 = fold (event_step (ac_EventID cfg)) (ck_before k) r
     in events_ok (ac_EventID cfg) (ck_before k) r \<and> countable_queue q r1 \<and>
        (case Cycle (ck_now k) (ck_clock k) (ck_health k) (ck_shards k) (ck_sizes k) (ck_refills k) cfg h q (b, r1) of
          (_, br') \<Rightarrow> run_fits cfg h q ks br'))"

section \<open>The budgets of all shards\<close>

definition budgets_ok :: "string \<Rightarrow> string set \<Rightarrow> redis \<Rightarrow> bool" where
  "budgets_ok ev S r \<longleftrightarrow> (\<forall>sid \<in> S. 0 \<le> budget_of ev sid r)"

definition all_budgets :: "string \<Rightarrow> string set \<Rightarrow> redis \<Rightarrow> int" where
  "all_budgets ev S r = (\<Sum>sid \<in> S. budget_of ev sid r)"

lemma budgets_same:
  "(\<And>sid. sid \<in> S \<Longrightarrow> budget_of ev sid r' = budget_of ev sid r) \<Longrightarrow>
    budgets_ok ev S r' = budgets_ok ev S r \<and> all_budgets ev S r' = all_budgets ev S r"
  by (simp add: budgets_ok_def all_budgets_def)

text \<open>One budget moves, the others stay.\<close>

lemma budgets_moved:
  assumes "finite S" "budgets_ok ev S r"
    and "\<And>x. x \<in> S \<Longrightarrow> x \<noteq> sid \<Longrightarrow> budget_of ev x r' = budget_of ev x r"
    and "0 \<le> budget_of ev sid r \<Longrightarrow> 0 \<le> budget_of ev sid r' \<and> budget_of ev sid r' \<le> budget_of ev sid r + d" "0 \<le> d \<or> sid \<in> S"
  shows "budgets_ok ev S r' \<and> all_budgets ev S r' \<le> all_budgets ev S r + d"
proof (cases "sid \<in> S")
  case True
  have "budgets_ok ev S r'" using assms(2-4) by (metis budgets_ok_def)
  moreover have "(\<Sum>x \<in> S - {sid}. budget_of ev x r') = (\<Sum>x \<in> S - {sid}. budget_of ev x r)"
    using assms(3) by (intro sum.cong) auto
  ultimately show ?thesis
    using assms(1,2,4) True by (simp add: all_budgets_def budgets_ok_def sum.remove [of S sid])
next
  case False
  then have "budget_of ev x r' = budget_of ev x r" if "x \<in> S" for x using assms(3) that by metis
  with budgets_same [of S ev r' r] assms(2,5) False show ?thesis by simp
qed

lemma slot_plain: "slot_ok ev sid \<Longrightarrow> plain ev \<and> plain sid"
  by (auto simp: slot_ok_def Validate_plain)

text \<open>A script on one shard leaves the budgets of the others alone.\<close>

lemma other_budget:
  assumes "slot_ok ev sid" "plain x" "x \<noteq> sid" "\<And>d. opn \<noteq> Tick d" "op_ok ev sid r opn"
  shows "budget_of ev x (snd (exec ev sid opn r)) = budget_of ev x r"
proof -
  have k: "Budget ev x \<noteq> Budget ev sid"
    using slot_plain [OF assms(1)] assms(2,3) by (simp add: Budget_inj)
  show ?thesis
    using assms(4,5) k
    by (cases opn)
      (auto simp: budget_of_def enqueue_new_def enqueue_lua_def position_lua_def heartbeat_lua_def
        rechallenge_lua_def admission_script_defs action_script_defs Let_def
        redis_simps key_simps counter_evict split: option.splits)
qed

lemma ticked_budget: "0 \<le> d \<Longrightarrow> 0 \<le> budget_of ev x r \<Longrightarrow>
    0 \<le> budget_of ev x (tick d r) \<and> budget_of ev x (tick d r) \<le> budget_of ev x r"
  using counter_tick [of d r "Budget ev x"] by (auto simp: budget_of_def)

lemma event_step_budgets:
  assumes "event_ok ev r e" "finite S" "budgets_ok ev S r"
    and "\<And>sid opn. e = On_shard sid opn \<Longrightarrow> sid \<in> S" "\<forall>x \<in> S. plain x"
  shows "budgets_ok ev S (event_step ev e r) \<and> all_budgets ev S (event_step ev e r) + handed_out ev [e] r \<le> all_budgets ev S r"
proof (cases e)
  case (Registered sid)
  then show ?thesis
    using assms(3) budgets_same [of S ev "event_step ev e r" r] by (simp add: budget_of_def counter_get_def alive_def live_def)
next
  case (On_shard sid opn)
  show ?thesis
  proof (cases "\<exists>d. opn = Tick d")
    case True
    with On_shard assms(1,3) ticked_budget show ?thesis
      by (auto simp: budgets_ok_def all_budgets_def intro!: sum_mono)
  next
    case False
    let ?d = "- handed_out ev [e] r"
    have "op_ok ev sid r opn" "slot_ok ev sid" "granted opn = 0" using assms(1) On_shard by auto
    with exec_budget [of ev sid r opn] other_budget [of ev sid _ opn r] False On_shard assms
    have "budgets_ok ev S (event_step ev e r) \<and> all_budgets ev S (event_step ev e r) \<le> all_budgets ev S r + ?d"
      by (intro budgets_moved [of S ev r sid]) (auto simp del: exec.simps fresh_admit.simps)
    then show ?thesis by simp
  qed
qed

lemma events_budgets:
  assumes "finite S" "\<forall>x \<in> S. plain x"
  shows "events_ok ev es r \<Longrightarrow> budgets_ok ev S r \<Longrightarrow> \<forall>sid opn. On_shard sid opn \<in> set es \<longrightarrow> sid \<in> S \<Longrightarrow>
    budgets_ok ev S (fold (event_step ev) es r) \<and>
    all_budgets ev S (fold (event_step ev) es r) + handed_out ev es r \<le> all_budgets ev S r"
proof (induction es arbitrary: r)
  case (Cons e es)
  have s: "budgets_ok ev S (event_step ev e r) \<and> all_budgets ev S (event_step ev e r) + handed_out ev [e] r \<le> all_budgets ev S r"
    using Cons.prems by (intro event_step_budgets [OF _ assms(1) _ _ assms(2)]) auto
  moreover have "handed_out ev (e # es) r = handed_out ev [e] r + handed_out ev es (event_step ev e r)" by simp
  moreover have "budgets_ok ev S (fold (event_step ev) es (event_step ev e r)) \<and>
      all_budgets ev S (fold (event_step ev) es (event_step ev e r)) + handed_out ev es (event_step ev e r)
      \<le> all_budgets ev S (event_step ev e r)"
    using Cons.prems s by (intro Cons.IH) auto
  ultimately show ?case by simp
qed simp

section \<open>A cycle adds at most its total\<close>

lemma refill_budgets:
  assumes "finite S" "\<forall>x \<in> S. plain x" "plain (ac_EventID cfg)" "budgets_ok (ac_EventID cfg) S r" "0 \<le> grant"
    and "Refill n cfg sh grant r = (res, r')"
  shows "budgets_ok (ac_EventID cfg) S r' \<and> all_budgets (ac_EventID cfg) S r' \<le> all_budgets (ac_EventID cfg) S r + grant"
proof (cases "Validate sh")
  case (Some e)
  with assms show ?thesis by (simp add: Refill_def)
next
  case None
  let ?ev = "ac_EventID cfg" and ?ttl = "Milliseconds (ac_Interval cfg * budgetTTLFactor)"
  let ?body = "refill_budget_lua (Budget ?ev sh) (Queue ?ev sh) grant (ac_MaxBudgetPerShard cfg) ?ttl"
  obtain L where r': "r' = r\<lparr>loaded := L\<rparr> \<or> r' = snd (?body (r\<lparr>loaded := L\<rparr>))"
  proof (cases "Run n (NewScript ''refill_budget.lua'' ?body) r")
    case (Pair v s)
    from assms(6) None Pair have "r' = s" by (auto simp: Refill_def admission_call_def split: sum.splits)
    have "\<exists>L. s = r\<lparr>loaded := L\<rparr> \<or> s = snd (?body (r\<lparr>loaded := L\<rparr>))"
      using Pair Run_once [where n = n and sc = "NewScript ''refill_budget.lua'' ?body" and r = r]
      by (cases v) (simp_all add: NewScript_def, metis snd_conv)
    with \<open>r' = s\<close> that show thesis by blast
  qed
  have L: "budget_of ?ev x (r\<lparr>loaded := L\<rparr>) = budget_of ?ev x r" for x
    by (simp add: budget_of_def counter_get_def live_def alive_def)
  have other: "budget_of ?ev x r' = budget_of ?ev x r" if "x \<in> S" "x \<noteq> sh" for x
  proof -
    have "Budget ?ev x \<noteq> Budget ?ev sh"
      using that assms(2,3) Validate_plain [OF None] by (simp add: Budget_inj)
    with r' L [of x] show ?thesis
      by (auto simp: refill_budget_lua_def Let_def budget_of_def redis_simps)
  qed
  have "0 \<le> budget_of ?ev sh r' \<and> budget_of ?ev sh r' \<le> budget_of ?ev sh r + grant" if "0 \<le> budget_of ?ev sh r"
    using r' L [of sh] that assms(5)
    by (auto simp: refill_budget_lua_def Let_def budget_of_def redis_simps)
  with other show ?thesis
    using assms(5) by (intro budgets_moved [OF assms(1,4), of sh]) auto
qed

lemma refill_shards_budgets:
  assumes "finite S" "\<forall>x \<in> S. plain x" "plain (ac_EventID cfg)"
  shows "budgets_ok (ac_EventID cfg) S r \<Longrightarrow> \<forall>w \<in> set work. 0 \<le> snd (snd w) \<Longrightarrow>
    budgets_ok (ac_EventID cfg) S (snd (refill_shards n cfg work (rep, r))) \<and>
    all_budgets (ac_EventID cfg) S (snd (refill_shards n cfg work (rep, r)))
      \<le> all_budgets (ac_EventID cfg) S r + sum_list (map (\<lambda>w. snd (snd w)) work)"
proof (induction work arbitrary: rep r)
  case (Cons w work)
  obtain sh waiting grant where w: "w = (sh, waiting, grant)" by (cases w)
  with Cons.prems have g: "0 \<le> grant" "\<forall>w \<in> set work. 0 \<le> snd (snd w)" by auto
  obtain res r' where Pair: "Refill (n sh) cfg sh grant r = (res, r')" by (cases "Refill (n sh) cfg sh grant r")
  note f = refill_budgets [OF assms Cons.prems(1) g(1) Pair]
  have A: "budgets_ok (ac_EventID cfg) S (snd (refill_shards n cfg work (rp, r)))"
    "all_budgets (ac_EventID cfg) S (snd (refill_shards n cfg work (rp, r)))
      \<le> all_budgets (ac_EventID cfg) S r + (grant + sum_list (map (\<lambda>w. snd (snd w)) work))" for rp
    using Cons.IH [OF Cons.prems(1) g(2), of rp] g(1) by auto
  have B: "budgets_ok (ac_EventID cfg) S (snd (refill_shards n cfg work (rp, r')))"
    "all_budgets (ac_EventID cfg) S (snd (refill_shards n cfg work (rp, r')))
      \<le> all_budgets (ac_EventID cfg) S r + (grant + sum_list (map (\<lambda>w. snd (snd w)) work))" for rp
    using Cons.IH [OF conjunct1 [OF f] g(2), of rp] f by auto
  show ?case
  proof (cases "waiting = 0 \<and> grant = 0")
    case True
    with A show ?thesis by (simp add: w Let_def)
  next
    case False
    with B show ?thesis by (cases res) (auto simp: w Let_def Pair)
  qed
qed simp

lemma Cycle_budgets:
  assumes "finite S" "\<forall>x \<in> S. plain x" "plain (ac_EventID cfg)" "budgets_ok (ac_EventID cfg) S r"
    and cfg: "0 \<le> ac_BackpressureMin cfg" "ac_BackpressureMin cfg \<le> 1" "0 \<le> ac_RatePerMin cfg" "0 \<le> ac_Interval cfg"
      "perCycle cfg 1 \<le> 2 ^ 50"
    and "countable_queue q r" "Cycle now clk out l1 l2 n cfg h q (b, r) = (rep, b', r')"
  shows "budgets_ok (ac_EventID cfg) S r' \<and> all_budgets (ac_EventID cfg) S r' \<le>
    all_budgets (ac_EventID cfg) S r + (if snd (gateRemaining cfg now) then 0 else perCycle cfg 1)"
proof -
  have same: ?thesis if "r' = r" using that assms(4) perCycle_nonneg [of cfg 1] by simp
  show ?thesis
  proof (cases "\<not> snd (gateRemaining cfg now) \<and> l1 = Delivered \<and> l2 = Delivered")
    case False
    with assms(11) have "r' = r"
      by (auto simp: Cycle_def Shards_list_def Sizes_def Let_def split: prod.splits if_splits)
    then show ?thesis by (rule same)
  next
    case True
    obtain factor b1 where p: "pressure cfg h out clk b = (factor, b1)" by (cases "pressure cfg h out clk b")
    obtain st b2 where s: "State (clk 4) b1 = (st, b2)" by (cases "State (clk 4) b1")
    obtain shards where sh: "Shards_list Delivered q r = Inr shards" by (simp add: Shards_list_def)
    obtain sizes where sz: "Sizes Delivered q shards r = Inr sizes"
      by (cases "shards = []") (simp_all add: Sizes_def)
    let ?T = "perCycle cfg factor" and ?ns = "masked shards sizes"
    let ?gs = "apportion ?T (map of_int ?ns)" and ?work = "zip shards (zip sizes (apportion (perCycle cfg factor) (map of_int (masked shards sizes))))"
    show ?thesis
    proof (cases "shards = []")
      case ne: True
      with assms(11) True p s sh have "r' = r" by (auto simp: Cycle_def split: sum.splits)
      then show ?thesis by (rule same)
    next
      case ne: False
      have ok: "counts_ok ?ns" using assms(10) sh sz by (simp add: countable_queue_def)
      have r': "r' = snd (refill_shards n cfg ?work (empty_report\<lparr>cr_Factor := factor, cr_Breaker := Some st,
          cr_Shards := int (length shards)\<rparr>, r))"
        using assms(11) True p s sh sz ne by (simp add: Cycle_def Let_def weights_masked [OF ok] split: prod.splits)
      have T: "?T \<le> perCycle cfg 1"
        using pressure_bounds [OF cfg(1,2), of h out clk b] p by (intro perCycle_mono [OF cfg(3,4)]) simp
      have a: "sum_list ?gs \<le> ?T" "\<forall>g \<in> set ?gs. 0 \<le> g"
        using apportion_sum_le [OF perCycle_nonneg _ ok, of cfg factor] T cfg(5) by auto
      have g: "\<forall>w \<in> set ?work. 0 \<le> snd (snd w)" using a(2) by (auto dest!: set_zip_rightD)
      have "map (\<lambda>w. snd (snd w)) ?work = take (length ?work) ?gs" by (rule nth_equalityI) auto
      then have "sum_list (map (\<lambda>w. snd (snd w)) ?work) \<le> perCycle cfg 1"
        using sum_take_le [OF a(2), of "length ?work"] a(1) T by simp
      with refill_shards_budgets [OF assms(1-4) g, where n = n and rep = "empty_report\<lparr>cr_Factor := factor,
          cr_Breaker := Some st, cr_Shards := int (length shards)\<rparr>"] True
      show ?thesis unfolding r' by (simp only: not_False_eq_True simp_thms if_False) linarith
    qed
  qed
qed

section \<open>The rate limit of the event\<close>

lemma run_budgets:
  assumes "finite S" "\<forall>x \<in> S. plain x" "plain (ac_EventID cfg)"
    and cfg: "0 \<le> ac_BackpressureMin cfg" "ac_BackpressureMin cfg \<le> 1" "0 \<le> ac_RatePerMin cfg" "0 \<le> ac_Interval cfg"
      "perCycle cfg 1 \<le> 2 ^ 50"
  shows "run_fits cfg h q ks (b, r) \<Longrightarrow> budgets_ok (ac_EventID cfg) S r \<Longrightarrow>
    \<forall>k \<in> set ks. \<forall>sid opn. On_shard sid opn \<in> set (ck_before k) \<longrightarrow> sid \<in> S \<Longrightarrow>
    budgets_ok (ac_EventID cfg) S (snd (Controller_Run cfg h q ks (b, r))) \<and>
    all_budgets (ac_EventID cfg) S (snd (Controller_Run cfg h q ks (b, r))) + admitted_in_run cfg h q ks (b, r)
      \<le> all_budgets (ac_EventID cfg) S r + open_cycles cfg ks * perCycle cfg 1"
proof (induction ks arbitrary: b r)
  case Nil
  then show ?case by (simp add: open_cycles_def)
next
  case (Cons k ks)
  let ?ev = "ac_EventID cfg"
  let ?r1 = "fold (event_step ?ev) (ck_before k) r"
  obtain rep b' r' where c: "Cycle (ck_now k) (ck_clock k) (ck_health k) (ck_shards k) (ck_sizes k) (ck_refills k)
      cfg h q (b, ?r1) = (rep, b', r')" by (rule prod_cases3)
  have e: "budgets_ok ?ev S ?r1 \<and> all_budgets ?ev S ?r1 + handed_out ?ev (ck_before k) r \<le> all_budgets ?ev S r"
    using Cons.prems by (intro events_budgets [OF assms(1,2)]) (auto simp: Let_def)
  have f: "countable_queue q ?r1" "run_fits cfg h q ks (b', r')" using Cons.prems(1) c by (auto simp: Let_def)
  note cy = Cycle_budgets [OF assms(1-3) conjunct1 [OF e] cfg f(1) c]
  have o: "open_cycles cfg (k # ks) * perCycle cfg 1 =
      (if snd (gateRemaining cfg (ck_now k)) then 0 else perCycle cfg 1) + open_cycles cfg ks * perCycle cfg 1"
    by (simp add: open_cycles_def algebra_simps)
  have "budgets_ok ?ev S (snd (Controller_Run cfg h q ks (b', r'))) \<and>
    all_budgets ?ev S (snd (Controller_Run cfg h q ks (b', r'))) + admitted_in_run cfg h q ks (b', r')
      \<le> all_budgets ?ev S r' + open_cycles cfg ks * perCycle cfg 1"
    using Cons.prems(3) by (intro Cons.IH [OF f(2) conjunct1 [OF cy]]) simp
  with e cy c show ?case unfolding o by (simp add: Let_def)
qed

lemma events_slots: "events_ok ev es r \<Longrightarrow> On_shard sid opn \<in> set es \<Longrightarrow> slot_ok ev sid"
  by (induction es arbitrary: r) auto

lemma run_slots: "run_fits cfg h q ks (b, r) \<Longrightarrow> k \<in> set ks \<Longrightarrow> On_shard sid opn \<in> set (ck_before k) \<Longrightarrow>
    slot_ok (ac_EventID cfg) sid"
  by (induction ks arbitrary: b r) (auto simp: Let_def events_slots split: prod.splits)

text \<open>
  C2. The event keeps its rate.  Whatever the network does to the calls of the controller and
  whatever the scripts of all shards do between its ticks, in any order, the number of people
  admitted over all shards, together with the places still in the budgets of any shards, never
  exceeds the number of cycles that ran outside the lottery window times what the configured
  rate allows for one interval; and no budget is negative.  Nobody is admitted before the first
  of these cycles.
\<close>

theorem event_keeps_its_rate:
  assumes "plain (ac_EventID cfg)" "0 \<le> ac_BackpressureMin cfg" "ac_BackpressureMin cfg \<le> 1"
    "0 \<le> ac_RatePerMin cfg" "0 \<le> ac_Interval cfg" "perCycle cfg 1 \<le> 2 ^ 50"
    and "run_fits cfg h q ks (b, empty_redis)"
    and "finite shards" "\<forall>sid \<in> shards. plain sid"
    and "(b', r') = Controller_Run cfg h q ks (b, empty_redis)"
  shows "admitted_in_run cfg h q ks (b, empty_redis) + (\<Sum>sid \<in> shards. budget_of (ac_EventID cfg) sid r')
      \<le> open_cycles cfg ks * perCycle cfg 1 \<and>
    (\<forall>sid \<in> shards. 0 \<le> budget_of (ac_EventID cfg) sid r')"
proof -
  let ?ev = "ac_EventID cfg"
  define S where "S = shards \<union> {sid. \<exists>k \<in> set ks. \<exists>opn. On_shard sid opn \<in> set (ck_before k)}"
  let ?used = "{sid. \<exists>k \<in> set ks. \<exists>opn. On_shard sid opn \<in> set (ck_before k)}"
  have "?used \<subseteq> (\<Union>k \<in> set ks. (\<lambda>e. case e of On_shard sid opn \<Rightarrow> sid | Registered sid \<Rightarrow> sid) ` set (ck_before k))"
    by force
  then have "finite ?used" by (rule finite_subset) simp
  then have fin: "finite S" unfolding S_def using assms(8) by (rule finite_UnI [rotated])
  have S: "\<forall>k \<in> set ks. \<forall>sid opn. On_shard sid opn \<in> set (ck_before k) \<longrightarrow> sid \<in> S" by (auto simp: S_def)
  have p: "\<forall>x \<in> S. plain x"
    using run_slots [OF assms(7)] assms(9) by (auto simp: S_def dest!: slot_plain)
  have zero: "budget_of ev x empty_redis = 0" for ev x
    by (simp add: budget_of_def empty_redis_def counter_get_def)
  have r': "r' = snd (Controller_Run cfg h q ks (b, empty_redis))" using assms(10) by (metis snd_conv)
  note run = run_budgets [OF fin p assms(1-7) _ S]
  have le: "all_budgets ?ev S r' + admitted_in_run cfg h q ks (b, empty_redis) \<le> open_cycles cfg ks * perCycle cfg 1"
    and ok: "budgets_ok ?ev S r'"
    using run zero by (simp_all add: r' budgets_ok_def all_budgets_def)
  have "all_budgets ?ev shards r' \<le> all_budgets ?ev S r'"
    unfolding all_budgets_def using fin ok by (intro sum_mono2) (auto simp: S_def budgets_ok_def)
  with le ok show ?thesis by (auto simp: all_budgets_def budgets_ok_def S_def)
qed

section \<open>A run\<close>

definition demo_ticks :: "cycle_tick list" where
  "demo_ticks =
    (let quiet = \<lparr>ck_before = [], ck_now = 0, ck_clock = (\<lambda>_. 0), ck_health = HTTPStatus 200 0, ck_shards = Delivered,
       ck_sizes = Delivered, ck_refills = (\<lambda>_. good_net)\<rparr>
     in [quiet\<lparr>ck_before := [Registered ''s0000'',
           On_shard ''s0000'' (Enqueue_op ''a'' 1 0 0 LotteryBand ''f'' ''i'' 1000000),
           On_shard ''s0000'' (Enqueue_op ''b'' 2 0 0 LotteryBand ''f'' ''i'' 1000000)]\<rparr>,
         quiet\<lparr>ck_before := [On_shard ''s0000'' (Admit_op ''a'' ''J'' 5 60000 90000 0 0)]\<rparr>])"

theorem event_keeps_its_rate_witness:
  "admitted_in_run demo_acfg NoopHealth demo_store demo_ticks (NewBreaker 3 0, empty_redis) = 1 \<and>
   1 + budget_of (ac_EventID demo_acfg) ''s0000'' (snd (Controller_Run demo_acfg NoopHealth demo_store demo_ticks (NewBreaker 3 0, empty_redis)))
     \<le> 2 * 50"
proof -
  let ?br = "(NewBreaker 3 0, empty_redis)"
  have fits: "run_fits demo_acfg NoopHealth demo_store demo_ticks ?br" by code_simp
  have one: "admitted_in_run demo_acfg NoopHealth demo_store demo_ticks ?br = 1" by code_simp
  have p: "perCycle demo_acfg 1 = 50" "open_cycles demo_acfg demo_ticks = 2" by code_simp+
  have "plain (ac_EventID demo_acfg)" "plain ''s0000''" by code_simp+
  with event_keeps_its_rate [OF _ _ _ _ _ _ fits, of "{''s0000''}",
      OF _ _ _ _ _ _ _ _ prod.collapse [of "Controller_Run demo_acfg NoopHealth demo_store demo_ticks ?br"]] p one
  show ?thesis by (simp add: demo_acfg_def)
qed

end
