(* ===== verification/Wire.thy ===== *)
theory Wire
  imports QueueApi "HOL-Library.Sublist"
begin

text \<open>
  What goes over the wire while a user waits: \<open>json.Marshal\<close> on flat structs of strings and
  integers, and the frames of server-sent events (\<open>src/internal/api/sse.go\<close>, the writes of
  \<open>stream\<close> in \<open>src/internal/api/queue.go\<close>).  Strings are bytes.  The reading side is the
  published formats, JSON strings, numbers and objects and the event-stream format, as the browser
  reads them (\<open>src/web/app.js\<close>).
\<close>

section \<open>Bytes and runes\<close>

definition byte :: "char \<Rightarrow> nat" where "byte c = of_char c"

definition between :: "nat \<Rightarrow> nat \<Rightarrow> char \<Rightarrow> bool" where
  "between lo hi c \<longleftrightarrow> lo \<le> byte c \<and> byte c \<le> hi"

definition tail_byte :: "char \<Rightarrow> bool" where "tail_byte = between 128 191"

text \<open>
  The width of the rune at the front, by the table of \<open>utf8.DecodeRune\<close>; 0 when the bytes
  there are no rune (Go then skips one byte as \<open>RuneError\<close>).
\<close>

fun rune_width :: "string \<Rightarrow> nat" where
  "rune_width [] = 0"
| "rune_width (a # s) =
    (if byte a < 128 then 1
     else if between 194 223 a then (case s of b # _ \<Rightarrow> if tail_byte b then 2 else 0 | _ \<Rightarrow> 0)
     else if between 224 239 a then
       (case s of
          b # c # _ \<Rightarrow>
            if (if byte a = 224 then between 160 191 b else if byte a = 237 then between 128 159 b else tail_byte b) \<and> tail_byte c
            then 3 else 0
        | _ \<Rightarrow> 0)
     else if between 240 244 a then
       (case s of
          b # c # d # _ \<Rightarrow>
            if (if byte a = 240 then between 144 191 b else if byte a = 244 then between 128 143 b else tail_byte b) \<and>
              tail_byte c \<and> tail_byte d
            then 4 else 0
        | _ \<Rightarrow> 0)
     else 0)"

function valid_utf8 :: "string \<Rightarrow> bool" where
  "valid_utf8 s =
    (if s = [] then True else if rune_width s = 0 then False else valid_utf8 (drop (rune_width s) s))"
  by pat_completeness auto
termination by (relation "measure length") auto

declare valid_utf8.simps [simp del]

section \<open>Encoding\<close>

definition hex_low :: "nat \<Rightarrow> char" where
  "hex_low d = (if d < 10 then char_of (48 + d) else char_of (87 + d))"

text \<open>An ASCII byte inside a JSON string, with the HTML escapes \<open>json.Marshal\<close> adds.\<close>

definition json_ascii :: "char \<Rightarrow> string" where
  "json_ascii c =
    (if c = CHR 0x22 then [CHR 0x5C, CHR 0x22]
     else if c = CHR 0x5C then [CHR 0x5C, CHR 0x5C]
     else if byte c = 8 then [CHR 0x5C, CHR ''b'']
     else if byte c = 12 then [CHR 0x5C, CHR ''f'']
     else if byte c = 10 then [CHR 0x5C, CHR ''n'']
     else if byte c = 13 then [CHR 0x5C, CHR ''r'']
     else if byte c = 9 then [CHR 0x5C, CHR ''t'']
     else if byte c < 32 \<or> c = CHR ''<'' \<or> c = CHR ''>'' \<or> c = CHR ''&''
       then CHR 0x5C # ''u00'' @ [hex_low (byte c div 16), hex_low (byte c mod 16)]
     else [c])"

definition line_separators :: "string list" where
  "line_separators = [[CHR 0xE2, CHR 0x80, CHR 0xA8], [CHR 0xE2, CHR 0x80, CHR 0xA9]]"

function json_chars :: "string \<Rightarrow> string" where
  "json_chars s =
    (if s = [] then []
     else if byte (hd s) < 128 then json_ascii (hd s) @ json_chars (tl s)
     else let n = rune_width s; u = take n s
          in if n = 0 then CHR 0x5C # ''ufffd'' @ json_chars (tl s)
             else (if u = line_separators ! 0 then CHR 0x5C # ''u2028''
                   else if u = line_separators ! 1 then CHR 0x5C # ''u2029'' else u) @ json_chars (drop n s))"
  by pat_completeness auto
termination by (relation "measure length") (auto simp: Let_def)

declare json_chars.simps [simp del]

definition json_string :: "string \<Rightarrow> string" where
  "json_string s = CHR 0x22 # json_chars s @ [CHR 0x22]"

datatype json_value = JString string | JInt int

fun json_text :: "json_value \<Rightarrow> string" where
  "json_text (JString s) = json_string s"
| "json_text (JInt n) = Itoa n"

definition json_field :: "string \<times> json_value \<Rightarrow> string" where
  "json_field f = json_string (fst f) @ CHR '':'' # json_text (snd f)"

fun json_fields :: "(string \<times> json_value) list \<Rightarrow> string" where
  "json_fields [] = ''''"
| "json_fields [f] = json_field f"
| "json_fields (f # fs) = json_field f @ CHR '','' # json_fields fs"

definition json_object :: "(string \<times> json_value) list \<Rightarrow> string" where
  "json_object fs = CHR ''{'' # json_fields fs @ ''}''"

text \<open>The struct tags of the status response; an empty segment is left out.\<close>

definition status_fields :: "StatusResponse \<Rightarrow> (string \<times> json_value) list" where
  "status_fields s =
    [(''event'', JString (ss_Event s)), (''shard'', JString (ss_Shard s)), (''state'', JString (ss_State s))] @
    (if ss_Segment s = '''' then [] else [(''segment'', JString (ss_Segment s))]) @
    [(''rank'', JInt (ss_Rank s)), (''ahead'', JInt (ss_Ahead s)), (''shard_size'', JInt (ss_ShardSize s)),
     (''estimated_wait_ms'', JInt (ss_EstimateMS s)), (''poll_after_ms'', JInt (ss_PollAfter s))]"

section \<open>Frames\<close>

abbreviation newline :: char where "newline \<equiv> CHR 0x0A"

definition writeSSE :: "string \<Rightarrow> string \<Rightarrow> string" where
  "writeSSE event payload = ''event: '' @ event @ newline # ''data: '' @ payload @ [newline, newline]"

definition keepalive_text :: string where
  "keepalive_text = '': keepalive'' @ [newline, newline]"

fun frame_text :: "frame \<Rightarrow> string" where
  "frame_text (StatusFrame s) = writeSSE ''status'' (json_object (status_fields s))"
| "frame_text KeepaliveFrame = keepalive_text"

definition stream_text :: "frame list \<Rightarrow> string" where
  "stream_text fs = concat (map frame_text fs)"

section \<open>The reading side\<close>

definition utf8_encode :: "nat \<Rightarrow> string" where
  "utf8_encode n =
    (if n < 128 then [char_of n]
     else if n < 2048 then [char_of (192 + n div 64), char_of (128 + n mod 64)]
     else [char_of (224 + n div 4096), char_of (128 + n div 64 mod 64), char_of (128 + n mod 64)])"

definition hex_rune :: "char \<Rightarrow> char \<Rightarrow> char \<Rightarrow> char \<Rightarrow> nat option" where
  "hex_rune a b c d =
    (case (Config.hex_val a, Config.hex_val b, Config.hex_val c, Config.hex_val d) of
       (Some w, Some x, Some y, Some z) \<Rightarrow>
         let n = nat (((w * 16 + x) * 16 + y) * 16 + z)
         in if 0xD800 \<le> n \<and> n < 0xE000 then None else Some n
     | _ \<Rightarrow> None)"

definition simple_escape :: "char \<Rightarrow> char option" where
  "simple_escape e =
    (if e = CHR 0x22 \<or> e = CHR 0x5C \<or> e = CHR ''/'' then Some e
     else map_of [(CHR ''b'', CHR 0x08), (CHR ''f'', CHR 0x0C), (CHR ''n'', CHR 0x0A), (CHR ''r'', CHR 0x0D),
       (CHR ''t'', CHR 0x09)] e)"

definition in_front :: "string \<Rightarrow> (string \<times> string) option \<Rightarrow> (string \<times> string) option" where
  "in_front u p = map_option (\<lambda>(v, rest). (u @ v, rest)) p"

text \<open>
  The inside of a JSON string up to its quote, and what follows.  Surrogate pairs, which
  \<open>json.Marshal\<close> never writes, are refused.
\<close>

function json_unchars :: "string \<Rightarrow> (string \<times> string) option" where
  "json_unchars s =
    (case s of
       [] \<Rightarrow> None
     | c # r \<Rightarrow>
         if c = CHR 0x22 then Some ([], r)
         else if c = CHR 0x5C then
           (case r of
              [] \<Rightarrow> None
            | e # r1 \<Rightarrow>
                if e = CHR ''u'' then
                  (case r1 of
                     x1 # x2 # x3 # x4 # r2 \<Rightarrow>
                       (case hex_rune x1 x2 x3 x4 of None \<Rightarrow> None | Some n \<Rightarrow> in_front (utf8_encode n) (json_unchars r2))
                   | _ \<Rightarrow> None)
                else (case simple_escape e of None \<Rightarrow> None | Some x \<Rightarrow> in_front [x] (json_unchars r1)))
         else if byte c < 32 then None
         else in_front [c] (json_unchars r))"
  by pat_completeness auto
termination by (relation "measure length") auto

declare json_unchars.simps [simp del]

definition json_unint :: "string \<Rightarrow> (int \<times> string) option" where
  "json_unint s =
    (let (neg, r) = (case s of c # r \<Rightarrow> if c = CHR ''-'' then (True, r) else (False, s) | [] \<Rightarrow> (False, s));
         ds = takeWhile is_digit r; n = int (read_nat ds)
     in if ds = [] then None else Some (if neg then - n else n, dropWhile is_digit r))"

definition json_unstring :: "string \<Rightarrow> (string \<times> string) option" where
  "json_unstring s = (case s of c # r \<Rightarrow> if c = CHR 0x22 then json_unchars r else None | [] \<Rightarrow> None)"

definition json_unvalue :: "string \<Rightarrow> (json_value \<times> string) option" where
  "json_unvalue s =
    (if s \<noteq> [] \<and> hd s = CHR 0x22 then map_option (map_prod JString id) (json_unstring s)
     else map_option (map_prod JInt id) (json_unint s))"

definition json_unfield :: "string \<Rightarrow> ((string \<times> json_value) \<times> string) option" where
  "json_unfield s =
    (case json_unstring s of
       Some (k, c # r) \<Rightarrow> if c = CHR '':'' then map_option (map_prod (Pair k) id) (json_unvalue r) else None
     | _ \<Rightarrow> None)"

fun json_unfields :: "nat \<Rightarrow> string \<Rightarrow> ((string \<times> json_value) list \<times> string) option" where
  "json_unfields 0 s = None"
| "json_unfields (Suc n) s =
    (case json_unfield s of
       Some (f, c # r) \<Rightarrow>
         if c = CHR ''}'' then Some ([f], r)
         else if c = CHR '','' then map_option (map_prod (Cons f) id) (json_unfields n r)
         else None
     | _ \<Rightarrow> None)"

definition json_unobject :: "string \<Rightarrow> ((string \<times> json_value) list \<times> string) option" where
  "json_unobject s =
    (case s of
       c # r \<Rightarrow> if c \<noteq> CHR ''{'' then None
         else if r \<noteq> [] \<and> hd r = CHR ''}'' then Some ([], tl r) else json_unfields (length r) r
     | [] \<Rightarrow> None)"

definition text_of :: "(string \<times> json_value) list \<Rightarrow> string \<Rightarrow> string" where
  "text_of fs k = (case map_of fs k of Some (JString v) \<Rightarrow> v | _ \<Rightarrow> '''')"

definition number_of :: "(string \<times> json_value) list \<Rightarrow> string \<Rightarrow> int" where
  "number_of fs k = (case map_of fs k of Some (JInt v) \<Rightarrow> v | _ \<Rightarrow> 0)"

definition read_status :: "(string \<times> json_value) list \<Rightarrow> StatusResponse" where
  "read_status fs =
    \<lparr>ss_Event = text_of fs ''event'', ss_Shard = text_of fs ''shard'', ss_State = text_of fs ''state'',
     ss_Segment = text_of fs ''segment'', ss_Rank = number_of fs ''rank'', ss_Ahead = number_of fs ''ahead'',
     ss_ShardSize = number_of fs ''shard_size'', ss_EstimateMS = number_of fs ''estimated_wait_ms'',
     ss_PollAfter = number_of fs ''poll_after_ms''\<rparr>"

text \<open>
  The event stream: lines end with a newline, a carriage return or both, and a line that is not
  ended is not read.  A blank line dispatches the event collected so far if it has data; a line
  that starts with a colon is a comment.
\<close>

function sse_lines :: "string \<Rightarrow> string \<Rightarrow> string list" where
  "sse_lines cur s =
    (case s of
       [] \<Rightarrow> []
     | c # r \<Rightarrow>
         if c = newline then cur # sse_lines [] r
         else if c = CHR 0x0D then cur # sse_lines [] (if r \<noteq> [] \<and> hd r = newline then tl r else r)
         else sse_lines (cur @ [c]) r)"
  by pat_completeness auto
termination by (relation "measure (\<lambda>(cur, s). length s)") auto

declare sse_lines.simps [simp del]

definition sse_field :: "string \<Rightarrow> string \<times> string" where
  "sse_field line =
    (let name = takeWhile (\<lambda>c. c \<noteq> CHR '':'') line; v = drop (length name + 1) line
     in (name, if v \<noteq> [] \<and> hd v = CHR '' '' then tl v else v))"

fun sse_dispatch :: "string \<Rightarrow> string \<Rightarrow> string list \<Rightarrow> (string \<times> string) list" where
  "sse_dispatch ty dat [] = []"
| "sse_dispatch ty dat (line # ls) =
    (if line = '''' then
       (if dat = '''' then sse_dispatch '''' '''' ls
        else (if ty = '''' then ''message'' else ty, butlast dat) # sse_dispatch '''' '''' ls)
     else if hd line = CHR '':'' then sse_dispatch ty dat ls
     else let (name, v) = sse_field line
          in if name = ''event'' then sse_dispatch v dat ls
             else if name = ''data'' then sse_dispatch ty (dat @ v @ [newline]) ls
             else sse_dispatch ty dat ls)"

definition sse_events :: "string \<Rightarrow> (string \<times> string) list" where
  "sse_events s = sse_dispatch '''' '''' (sse_lines [] s)"

text \<open>What the page shows: each event with the object its data parses to.\<close>

definition page_sees :: "string \<Rightarrow> (string \<times> StatusResponse option) list" where
  "page_sees s = map (\<lambda>(ty, d). (ty, map_option (\<lambda>(fs, rest). read_status fs) (json_unobject d))) (sse_events s)"

section \<open>Strings survive\<close>

lemma in_front_in_front [simp]: "in_front u (in_front v p) = in_front (u @ v) p"
  by (cases p) (auto simp: in_front_def)

lemma in_front_Nil [simp]: "in_front [] p = p"
  by (cases p) (auto simp: in_front_def)

lemma in_front_Some [simp]: "in_front u (Some (v, r)) = Some (u @ v, r)"
  by (simp add: in_front_def)

lemma unchars_escape: "e \<noteq> CHR ''u'' \<Longrightarrow> simple_escape e = Some x \<Longrightarrow>
    json_unchars (CHR 0x5C # e # r) = in_front [x] (json_unchars r)"
  by (subst json_unchars.simps) simp

lemma unchars_rune: "hex_rune a b c d = Some n \<Longrightarrow>
    json_unchars (CHR 0x5C # CHR ''u'' # a # b # c # d # r) = in_front (utf8_encode n) (json_unchars r)"
  by (subst json_unchars.simps) simp

lemma unchars_plain: "32 \<le> byte c \<Longrightarrow> c \<noteq> CHR 0x22 \<Longrightarrow> c \<noteq> CHR 0x5C \<Longrightarrow> json_unchars (c # r) = in_front [c] (json_unchars r)"
  by (subst json_unchars.simps) simp

text \<open>The three shapes an ASCII byte takes.\<close>

definition ascii_shape :: "char \<Rightarrow> bool" where
  "ascii_shape c \<longleftrightarrow>
    (case json_ascii c of
       [x] \<Rightarrow> x = c \<and> 32 \<le> byte c \<and> c \<noteq> CHR 0x22 \<and> c \<noteq> CHR 0x5C
     | [b, e] \<Rightarrow> b = CHR 0x5C \<and> e \<noteq> CHR ''u'' \<and> 32 \<le> byte e \<and> simple_escape e = Some c
     | [b, u, w, x, y, z] \<Rightarrow> b = CHR 0x5C \<and> u = CHR ''u'' \<and> list_all (\<lambda>h. 32 \<le> byte h) [w, x, y, z] \<and>
         (case hex_rune w x y z of None \<Rightarrow> False | Some n \<Rightarrow> utf8_encode n = [c])
     | _ \<Rightarrow> False)"

lemma hex_val_byte: "Config.hex_val c =
    (if 48 \<le> byte c \<and> byte c \<le> 57 then Some (int (byte c) - 48)
     else if 97 \<le> byte c \<and> byte c \<le> 102 then Some (int (byte c) - 87)
     else if 65 \<le> byte c \<and> byte c \<le> 70 then Some (int (byte c) - 55) else None)"
  by (simp add: Config.hex_val_def less_eq_char_def byte_def of_nat_of_char)

lemma byte_char_of [simp]: "n < 256 \<Longrightarrow> byte (char_of n) = n"
  by (simp add: byte_def of_char_of)

lemma char_of_iff: "n < 256 \<Longrightarrow> char_of n = c \<longleftrightarrow> n = byte c"
  by (auto simp: byte_def of_char_of)

lemma hex_low_val: "d < 16 \<Longrightarrow> Config.hex_val (hex_low d) = Some (int d) \<and> 32 \<le> byte (hex_low d)"
  by (cases "d < 10") (simp_all add: hex_val_byte hex_low_def)

lemma hex_zero: "Config.hex_val (CHR ''0'') = Some 0"
  by (simp add: Config.hex_val_def)

lemma byte_eq: "byte c = byte d \<longleftrightarrow> c = d"
  by (simp add: byte_def)

lemma special_shapes:
  "ascii_shape (CHR 0x22)" "ascii_shape (CHR 0x5C)" "ascii_shape (CHR 0x08)" "ascii_shape (CHR 0x09)"
  "ascii_shape (CHR 0x0A)" "ascii_shape (CHR 0x0C)" "ascii_shape (CHR 0x0D)"
  by (simp_all add: ascii_shape_def json_ascii_def simple_escape_def byte_def)

lemma ascii_shapes: "byte c < 128 \<Longrightarrow> ascii_shape c"
proof -
  assume b: "byte c < 128"
  show ?thesis
  proof (cases "c \<in> {CHR 0x22, CHR 0x5C, CHR 0x08, CHR 0x09, CHR 0x0A, CHR 0x0C, CHR 0x0D}")
    case True
    with special_shapes show ?thesis by auto
  next
    case c: False
    then have n: "byte c \<notin> {8, 9, 10, 12, 13}"
      using byte_eq [of c "CHR 0x08"] byte_eq [of c "CHR 0x09"] byte_eq [of c "CHR 0x0A"] byte_eq [of c "CHR 0x0C"]
        byte_eq [of c "CHR 0x0D"] by (simp add: byte_def)
    show ?thesis
    proof (cases "byte c < 32 \<or> c = CHR ''<'' \<or> c = CHR ''>'' \<or> c = CHR ''&''")
      case True
      have "hex_rune (CHR ''0'') (CHR ''0'') (hex_low (byte c div 16)) (hex_low (byte c mod 16)) = Some (byte c)"
        using hex_low_val [of "byte c div 16"] hex_low_val [of "byte c mod 16"] b
          div_mult_mod_eq [of "int (byte c)" 16] by (simp add: hex_rune_def hex_zero Let_def zdiv_int zmod_int)
      moreover have "utf8_encode (byte c) = [c]" using b by (simp add: utf8_encode_def byte_def)
      ultimately show ?thesis
        using True c n b hex_low_val [of "byte c div 16"] hex_low_val [of "byte c mod 16"]
        by (simp add: ascii_shape_def json_ascii_def byte_def)
    next
      case False
      with c n show ?thesis by (simp add: ascii_shape_def json_ascii_def)
    qed
  qed
qed

lemma unchars_ascii: "byte c < 128 \<Longrightarrow> json_unchars (json_ascii c @ r) = in_front [c] (json_unchars r)"
  using ascii_shapes [of c]
  by (auto simp: ascii_shape_def unchars_escape unchars_rune unchars_plain split: list.splits option.splits)

lemma ascii_visible: "byte c < 128 \<Longrightarrow> \<forall>x \<in> set (json_ascii c). 32 \<le> byte x"
  using ascii_shapes [of c]
  by (auto simp: ascii_shape_def byte_def split: list.splits)

lemma unchars_high: "\<forall>c \<in> set u. 128 \<le> byte c \<Longrightarrow> json_unchars (u @ r) = in_front u (json_unchars r)"
proof (induction u)
  case (Cons c u)
  then have "c \<noteq> CHR 0x22" "c \<noteq> CHR 0x5C" "32 \<le> byte c" by (auto simp: byte_def)
  with Cons show ?case by (simp add: unchars_plain)
qed simp

lemma rune_high:
  assumes "rune_width s = n" "n \<noteq> 0" "\<not> byte (hd s) < 128"
  shows "\<forall>c \<in> set (take n s). 128 \<le> byte c"
proof -
  obtain a t where s: "s = a # t" using assms by (cases s) auto
  have a: "128 \<le> byte a" using assms(3) s by simp
  have tail: "tail_byte c \<Longrightarrow> 128 \<le> byte c" for c by (simp add: tail_byte_def between_def)
  consider (two) b u where "t = b # u" "n = 2" "tail_byte b"
    | (three) b c u where "t = b # c # u" "n = 3" "128 \<le> byte b" "tail_byte c"
    | (four) b c d u where "t = b # c # d # u" "n = 4" "128 \<le> byte b" "tail_byte c" "tail_byte d"
    using assms(1,2) a unfolding s
    by (simp only: rune_width.simps not_less [symmetric] if_False split: if_splits list.splits)
      (auto simp: between_def tail_byte_def split: if_splits)
  then show ?thesis
    using a tail by cases (auto simp: s)
qed

lemma unchars_line_separators:
  "json_unchars (CHR 0x5C # ''u2028'' @ r) = in_front (line_separators ! 0) (json_unchars r)"
  "json_unchars (CHR 0x5C # ''u2029'' @ r) = in_front (line_separators ! 1) (json_unchars r)"
proof -
  have "hex_rune (CHR ''2'') (CHR ''0'') (CHR ''2'') (CHR ''8'') = Some 0x2028"
    "hex_rune (CHR ''2'') (CHR ''0'') (CHR ''2'') (CHR ''9'') = Some 0x2029"
    by (simp_all add: hex_rune_def Config.hex_val_def less_eq_char_def)
  moreover have "utf8_encode 0x2028 = line_separators ! 0" "utf8_encode 0x2029 = line_separators ! 1"
    by (simp_all add: utf8_encode_def line_separators_def char_of_iff) (simp_all add: byte_def)
  ultimately show "json_unchars (CHR 0x5C # ''u2028'' @ r) = in_front (line_separators ! 0) (json_unchars r)"
    "json_unchars (CHR 0x5C # ''u2029'' @ r) = in_front (line_separators ! 1) (json_unchars r)"
    by (simp_all add: unchars_rune)
qed

lemma string_round_trip: "valid_utf8 s \<Longrightarrow> json_unchars (json_chars s @ CHR 0x22 # r) = Some (s, r)"
proof (induction s rule: json_chars.induct)
  case (1 s)
  show ?case
  proof (cases "s = []")
    case True
    then show ?thesis by (subst json_chars.simps, subst json_unchars.simps) simp
  next
    case s: False
    have v: "rune_width s \<noteq> 0" "valid_utf8 (drop (rune_width s) s)"
      using "1.prems" s by (subst (asm) valid_utf8.simps, simp split: if_splits)+
    show ?thesis
    proof (cases "byte (hd s) < 128")
      case True
      then have "rune_width s = 1" using s by (cases s) auto
      with True s v "1.IH"(1) show ?thesis
        by (subst json_chars.simps) (simp add: unchars_ascii drop_Suc)
    next
      case False
      let ?u = "take (rune_width s) s"
      have IH: "json_unchars (json_chars (drop (rune_width s) s) @ CHR 0x22 # r) = Some (drop (rune_width s) s, r)"
        using "1.IH"(3) [OF s False refl refl v(1)] v(2) by simp
      let ?w = "if ?u = line_separators ! 0 then CHR 0x5C # ''u2028''
        else if ?u = line_separators ! 1 then CHR 0x5C # ''u2029'' else ?u"
      have w: "json_unchars (?w @ x) = in_front ?u (json_unchars x)" for x
        using unchars_line_separators [of x] unchars_high [OF rune_high [OF refl v(1) False], of x] by simp
      have "json_chars s = ?w @ json_chars (drop (rune_width s) s)"
        using s False v(1) by (subst json_chars.simps) (simp only: Let_def if_False)
      then have "json_unchars (json_chars s @ CHR 0x22 # r) = in_front ?u (Some (drop (rune_width s) s, r))"
        by (simp only: append_assoc w IH)
      then show ?thesis by simp
    qed
  qed
qed

lemma chars_visible: "\<forall>c \<in> set (json_chars s). 32 \<le> byte c"
proof (induction s rule: json_chars.induct)
  case (1 s)
  show ?case
  proof (cases "s = [] \<or> byte (hd s) < 128")
    case True
    with "1.IH"(1) show ?thesis
      by (subst json_chars.simps) (auto dest: ascii_visible)
  next
    case False
    then have "\<forall>c \<in> set (take (rune_width s) s). 32 \<le> byte c" if "rune_width s \<noteq> 0"
      using rune_high [OF refl that] by fastforce
    moreover have "\<forall>c \<in> set (CHR 0x5C # ''ufffd''). 32 \<le> byte c" "\<forall>c \<in> set (CHR 0x5C # ''u2028''). 32 \<le> byte c"
      "\<forall>c \<in> set (CHR 0x5C # ''u2029''). 32 \<le> byte c" by (simp_all add: byte_def)
    ultimately show ?thesis
      using False "1.IH"(2,3) by (subst json_chars.simps) (simp add: Let_def ball_Un)
  qed
qed

section \<open>Objects survive\<close>

lemma int_round_trip:
  assumes "\<not> is_digit c"
  shows "json_unint (Itoa n @ c # r) = Some (n, c # r)"
proof -
  have d: "takeWhile is_digit (show_nat k @ c # r) = show_nat k" "dropWhile is_digit (show_nat k @ c # r) = c # r" for k
    using assms show_nat_digits [of k] by (simp_all add: list_all_iff)
  obtain x xs where x: "show_nat (nat n) = x # xs" "x \<noteq> CHR ''-''"
    using show_nat_no_minus by (cases "show_nat (nat n)") auto
  show ?thesis
  proof (cases "n < 0")
    case True
    then show ?thesis by (simp add: json_unint_def Itoa_def d)
  next
    case False
    with d [of "nat n"] x show ?thesis
      using read_show_nat [of "nat n"] by (simp add: json_unint_def Itoa_def Let_def split: if_splits)
  qed
qed

fun sendable :: "json_value \<Rightarrow> bool" where
  "sendable (JString s) = valid_utf8 s"
| "sendable (JInt n) = True"

definition fields_sendable :: "(string \<times> json_value) list \<Rightarrow> bool" where
  "fields_sendable fs \<longleftrightarrow> list_all (\<lambda>(k, v). valid_utf8 k \<and> sendable v) fs"

lemma Itoa_hd: "Itoa n @ r \<noteq> [] \<and> hd (Itoa n @ r) \<noteq> CHR 0x22"
proof -
  have "Itoa n \<noteq> []" by (simp add: Itoa_def)
  moreover from this have "hd (Itoa n) \<in> set (Itoa n)" by simp
  then have "hd (Itoa n) \<noteq> CHR 0x22" using Itoa_chars by (fastforce simp: is_digit_of_char)
  ultimately show ?thesis by simp
qed

lemma unstring_json [simp]: "valid_utf8 s \<Longrightarrow> json_unstring (json_string s @ r) = Some (s, r)"
  by (simp add: json_unstring_def json_string_def string_round_trip)

lemma value_round_trip: "sendable v \<Longrightarrow> \<not> is_digit c \<Longrightarrow> json_unvalue (json_text v @ c # r) = Some (v, c # r)"
  using Itoa_hd by (cases v) (simp_all add: json_unvalue_def int_round_trip, simp add: json_string_def)

lemma field_round_trip:
  "valid_utf8 (fst f) \<Longrightarrow> sendable (snd f) \<Longrightarrow> \<not> is_digit c \<Longrightarrow> json_unfield (json_field f @ c # r) = Some (f, c # r)"
  by (cases f) (simp add: json_unfield_def json_field_def value_round_trip)

lemma not_digits: "\<not> is_digit (CHR '','')" "\<not> is_digit (CHR ''}'')"
  by (simp_all add: is_digit_of_char)

lemma fields_round_trip:
  "fs \<noteq> [] \<Longrightarrow> fields_sendable fs \<Longrightarrow> length fs \<le> n \<Longrightarrow> json_unfields n (json_fields fs @ CHR ''}'' # r) = Some (fs, r)"
proof (induction fs arbitrary: n rule: json_fields.induct)
  case (2 f)
  then show ?case by (cases n) (auto simp: fields_sendable_def field_round_trip not_digits)
next
  case (3 f g fs)
  then obtain m where n: "n = Suc m" by (cases n) auto
  with "3.prems" "3.IH" [of m] show ?case
    by (auto simp: fields_sendable_def field_round_trip not_digits)
qed simp

lemma length_fields: "length fs \<le> length (json_fields fs)"
  by (induction fs rule: json_fields.induct) (simp_all add: json_field_def json_string_def)

lemma object_round_trip: "fields_sendable fs \<Longrightarrow> json_unobject (json_object fs @ r) = Some (fs, r)"
proof (cases fs)
  case (Cons f fs')
  assume s: "fields_sendable fs"
  have "json_fields fs \<noteq> [] \<and> hd (json_fields fs) \<noteq> CHR ''}''"
    using Cons by (cases fs') (simp_all add: json_field_def json_string_def)
  moreover have "json_unfields (length (json_fields fs @ CHR ''}'' # r)) (json_fields fs @ CHR ''}'' # r) = Some (fs, r)"
    using Cons s length_fields [of fs] by (intro fields_round_trip) auto
  ultimately show ?thesis by (simp add: json_unobject_def json_object_def)
qed (simp add: json_unobject_def json_object_def)

definition status_sendable :: "StatusResponse \<Rightarrow> bool" where
  "status_sendable s \<longleftrightarrow> list_all valid_utf8 [ss_Event s, ss_Shard s, ss_State s, ss_Segment s]"

lemma valid_ascii: "list_all (\<lambda>c. byte c < 128) s \<Longrightarrow> valid_utf8 s"
proof (induction s)
  case (Cons c s)
  then show ?case by (subst valid_utf8.simps) simp
qed (subst valid_utf8.simps, simp)

lemma status_fields_sendable: "status_sendable s \<Longrightarrow> fields_sendable (status_fields s)"
  by (auto simp: fields_sendable_def status_fields_def status_sendable_def byte_def intro!: valid_ascii)

lemma read_status_fields [simp]: "read_status (status_fields s) = s"
  by (cases s) (simp add: read_status_def status_fields_def text_of_def number_of_def)

section \<open>The stream survives, cut anywhere\<close>

definition one_line :: "string \<Rightarrow> bool" where
  "one_line l \<longleftrightarrow> l \<noteq> '''' \<and> newline \<notin> set l \<and> CHR 0x0D \<notin> set l"

lemma lines_one: "newline \<notin> set l \<Longrightarrow> CHR 0x0D \<notin> set l \<Longrightarrow> sse_lines cur (l @ newline # r) = (cur @ l) # sse_lines [] r"
proof (induction l arbitrary: cur)
  case Nil
  then show ?case by (subst sse_lines.simps) simp
next
  case (Cons c l)
  then show ?case by (subst sse_lines.simps) auto
qed

lemma lines_open: "newline \<notin> set l \<Longrightarrow> CHR 0x0D \<notin> set l \<Longrightarrow> sse_lines cur l = []"
proof (induction l arbitrary: cur)
  case Nil
  then show ?case by (subst sse_lines.simps) simp
next
  case (Cons c l)
  then show ?case by (subst sse_lines.simps) auto
qed

lemma lines_of_prefix:
  "list_all one_line ls \<Longrightarrow> prefix p (concat (map (\<lambda>l. l @ [newline]) ls)) \<Longrightarrow> \<exists>k. sse_lines [] p = take k ls"
proof (induction ls arbitrary: p)
  case Nil
  then show ?case by (subst sse_lines.simps) simp
next
  case (Cons l ls)
  then have l: "newline \<notin> set l" "CHR 0x0D \<notin> set l" by (auto simp: one_line_def)
  from Cons.prems(2) have "prefix p l \<or> (\<exists>q. p = l @ newline # q \<and> prefix q (concat (map (\<lambda>l. l @ [newline]) ls)))"
    by (auto simp: prefix_append prefix_Cons)
  then show ?case
  proof
    assume "prefix p l"
    then have "newline \<notin> set p" "CHR 0x0D \<notin> set p" using l by (auto simp: prefix_def)
    then show ?thesis using lines_open by (intro exI [of _ 0]) simp
  next
    assume "\<exists>q. p = l @ newline # q \<and> prefix q (concat (map (\<lambda>l. l @ [newline]) ls))"
    then obtain q where q: "p = l @ newline # q" "prefix q (concat (map (\<lambda>l. l @ [newline]) ls))" by blast
    with Cons.IH Cons.prems(1) obtain k where "sse_lines [] q = take k ls" by auto
    with q(1) l show ?thesis by (intro exI [of _ "Suc k"]) (simp add: lines_one)
  qed
qed

lemma no_blank_no_event: "list_all one_line ls \<Longrightarrow> sse_dispatch ty dat ls = []"
  by (induction ls arbitrary: ty dat) (auto simp: one_line_def Let_def split: prod.splits)

fun frame_lines :: "frame \<Rightarrow> string list" where
  "frame_lines (StatusFrame s) = [''event: status'', ''data: '' @ json_object (status_fields s)]"
| "frame_lines KeepaliveFrame = ['': keepalive'']"

lemma frame_text_lines: "frame_text f = concat (map (\<lambda>l. l @ [newline]) (frame_lines f)) @ [newline]"
  by (cases f) (simp_all add: writeSSE_def keepalive_text_def)

lemma fields_visible: "\<forall>c \<in> set (json_fields fs). 32 \<le> byte c"
proof -
  have "32 \<le> byte c" if "c \<in> set (Itoa n)" for c n
    using Itoa_chars [OF that] by (auto simp: is_digit_of_char byte_def)
  moreover have "32 \<le> byte (CHR 0x22)" "32 \<le> byte (CHR '':'')" "32 \<le> byte (CHR '','')" by (simp_all add: byte_def)
  ultimately have t: "\<forall>c \<in> set (json_field f). 32 \<le> byte c" for f
    using chars_visible by (cases f; cases "snd f") (auto simp: json_field_def json_string_def)
  then show ?thesis
    by (induction fs rule: json_fields.induct) (auto simp: byte_def)
qed

lemma frame_lines_one: "list_all one_line (frame_lines f)"
proof -
  have "one_line (''data: '' @ json_object fs)" for fs
    using fields_visible [of fs] by (auto simp: one_line_def json_object_def byte_def)
  then show ?thesis by (cases f) (simp_all add: one_line_def)
qed

fun frame_events :: "frame \<Rightarrow> (string \<times> string) list" where
  "frame_events (StatusFrame s) = [(''status'', json_object (status_fields s))]"
| "frame_events KeepaliveFrame = []"

lemma lines_of_frame: "list_all one_line ls \<Longrightarrow>
    sse_lines [] (concat (map (\<lambda>l. l @ [newline]) ls) @ newline # r) = ls @ [] # sse_lines [] r"
proof (induction ls)
  case Nil
  then show ?case using lines_one [of "[]" "[]" r] by simp
next
  case (Cons l ls)
  then show ?case by (simp add: one_line_def lines_one)
qed

lemma frame_then: "sse_events (frame_text f @ r) = frame_events f @ sse_events r"
proof -
  have "sse_dispatch '''' '''' (frame_lines f @ [] # ls) = frame_events f @ sse_dispatch '''' '''' ls" for ls
    by (cases f) (simp_all add: sse_field_def)
  then show ?thesis
    using lines_of_frame [OF frame_lines_one, of f r] by (simp add: sse_events_def frame_text_lines)
qed

lemma frame_cut: "strict_prefix p (frame_text f) \<Longrightarrow> sse_events p = []"
proof -
  assume "strict_prefix p (frame_text f)"
  then have "prefix p (concat (map (\<lambda>l. l @ [newline]) (frame_lines f)))"
    by (auto simp: frame_text_lines strict_prefix_def)
  from lines_of_prefix [OF frame_lines_one this] obtain k where "sse_lines [] p = take k (frame_lines f)" ..
  moreover have "list_all one_line (take k (frame_lines f))"
    using frame_lines_one [of f] by (auto simp: list_all_iff dest: in_set_takeD)
  ultimately show ?thesis by (simp add: sse_events_def no_blank_no_event)
qed

lemma stream_cut: "prefix p (stream_text fs) \<Longrightarrow> \<exists>k. sse_events p = concat (map frame_events (take k fs))"
proof (induction fs arbitrary: p)
  case Nil
  then show ?case by (simp add: stream_text_def sse_events_def) (subst sse_lines.simps, simp)
next
  case (Cons f fs)
  then have "strict_prefix p (frame_text f) \<or> (\<exists>q. p = frame_text f @ q \<and> prefix q (stream_text fs))"
    by (auto simp: stream_text_def prefix_append strict_prefix_def)
  then show ?case
  proof
    assume "strict_prefix p (frame_text f)"
    then show ?thesis by (intro exI [of _ 0]) (simp add: frame_cut)
  next
    assume "\<exists>q. p = frame_text f @ q \<and> prefix q (stream_text fs)"
    then obtain q where q: "p = frame_text f @ q" "prefix q (stream_text fs)" by blast
    with Cons.IH obtain k where "sse_events q = concat (map frame_events (take k fs))" by blast
    with q(1) show ?thesis by (intro exI [of _ "Suc k"]) (simp add: frame_then)
  qed
qed

lemma stream_whole: "sse_events (stream_text fs) = concat (map frame_events fs)"
proof (induction fs)
  case Nil
  then show ?case by (simp add: stream_text_def sse_events_def) (subst sse_lines.simps, simp)
next
  case (Cons f fs)
  then show ?case using frame_then [of f "stream_text fs"] by (simp add: stream_text_def)
qed

fun frame_status :: "frame \<Rightarrow> StatusResponse list" where
  "frame_status (StatusFrame s) = [s]"
| "frame_status KeepaliveFrame = []"

lemma page_sees_frame:
  "(\<And>s. f = StatusFrame s \<Longrightarrow> status_sendable s) \<Longrightarrow>
    map (\<lambda>(ty, d). (ty, map_option (\<lambda>(fs, rest). read_status fs) (json_unobject d))) (frame_events f) =
    map (\<lambda>s. (''status'', Some s)) (frame_status f)"
  using object_round_trip [OF status_fields_sendable, of _ "[]"] by (cases f) simp_all

lemma page_sees_frames:
  "\<forall>s. StatusFrame s \<in> set fs \<longrightarrow> status_sendable s \<Longrightarrow>
    map (\<lambda>(ty, d). (ty, map_option (\<lambda>(fs, rest). read_status fs) (json_unobject d))) (concat (map frame_events fs)) =
    map (\<lambda>s. (''status'', Some s)) (concat (map frame_status fs))"
proof (induction fs)
  case (Cons f fs)
  then have "map (\<lambda>(ty, d). (ty, map_option (\<lambda>(fs, rest). read_status fs) (json_unobject d))) (frame_events f) =
    map (\<lambda>s. (''status'', Some s)) (frame_status f)" by (intro page_sees_frame) simp
  with Cons show ?case by (simp add: map_concat)
qed simp

text \<open>
  C20. A waiting user sees exactly what the server says, in order, whenever the connection breaks.
  The bytes of any sequence of status and keepalive frames, read as an event stream whose data is
  parsed as JSON, give back the status responses, each complete and none twice; any initial part
  of the bytes gives an initial part of them and never half a response.
\<close>

theorem stream_reads_back:
  assumes "\<forall>s. StatusFrame s \<in> set fs \<longrightarrow> status_sendable s" "prefix p (stream_text fs)"
  shows "page_sees (stream_text fs) = map (\<lambda>s. (''status'', Some s)) (concat (map frame_status fs)) \<and>
    prefix (page_sees p) (page_sees (stream_text fs))"
proof -
  have whole: "page_sees (stream_text fs) = map (\<lambda>s. (''status'', Some s)) (concat (map frame_status fs))"
    using page_sees_frames [OF assms(1)] by (simp add: page_sees_def stream_whole)
  obtain k where "sse_events p = concat (map frame_events (take k fs))" using stream_cut [OF assms(2)] by blast
  moreover have "\<forall>s. StatusFrame s \<in> set (take k fs) \<longrightarrow> status_sendable s"
    using assms(1) by (auto dest: in_set_takeD)
  ultimately have "page_sees p = map (\<lambda>s. (''status'', Some s)) (concat (map frame_status (take k fs)))"
    using page_sees_frames by (simp add: page_sees_def)
  moreover have "concat (map frame_status fs) =
      concat (map frame_status (take k fs)) @ concat (map frame_status (drop k fs))"
    by (metis append_take_drop_id concat_append map_append)
  ultimately show ?thesis unfolding whole by (simp add: prefix_def)
qed

definition demo_status :: StatusResponse where
  "demo_status = \<lparr>ss_Event = ''demo'', ss_Shard = ''s0000'', ss_State = ''waiting'', ss_Segment = '''', ss_Rank = 7,
    ss_Ahead = 7, ss_ShardSize = 12, ss_EstimateMS = 61000, ss_PollAfter = 5000\<rparr>"

theorem stream_reads_back_witness:
  "page_sees (stream_text [StatusFrame demo_status, KeepaliveFrame]) = [(''status'', Some demo_status)] \<and>
   prefix (page_sees ''event: status'') [(''status'', Some demo_status)]"
proof -
  have "status_sendable demo_status" by (auto simp: status_sendable_def demo_status_def byte_def intro!: valid_ascii)
  then have a: "\<forall>s. StatusFrame s \<in> set [StatusFrame demo_status, KeepaliveFrame] \<longrightarrow> status_sendable s" by simp
  have "prefix ''event: status'' (stream_text [StatusFrame demo_status, KeepaliveFrame])"
    by (simp add: stream_text_def writeSSE_def)
  note b = stream_reads_back [OF a this]
  from b have w: "page_sees (stream_text [StatusFrame demo_status, KeepaliveFrame]) = [(''status'', Some demo_status)]"
    by simp
  from conjunct2 [OF b, unfolded w] w show ?thesis by blast
qed

end
