(* ===== verification/Server.thy ===== *)
theory Server
  imports Boot Serving Wire
begin

text \<open>
  The server every service runs (\<open>src/internal/httpx/server.go\<close>): the two health routes, what
  \<open>DecodeJSON\<close> of \<open>httpx.go\<close> takes from a body, and \<open>Run\<close>, until its listener fails or its graceful
  shutdown is over, with the polls of \<open>Shutdown\<close> in \<open>net/http\<close> and the exit code of \<open>app.Main\<close>.
\<close>

section \<open>Health routes\<close>

text \<open>\<open>json.Encoder\<close> writes the keys of a map in their order and ends the line.\<close>

definition encode_map :: "(string \<times> string) list \<Rightarrow> string" where
  "encode_map kvs = json_object (map (\<lambda>(k, v). (k, JString v)) kvs) @ [newline]"

definition healthz :: "Service_cfg \<Rightarrow> writer \<Rightarrow> writer" where
  "healthz cfg = WriteJSON 200 (encode_map [(''service'', sv_Name cfg), (''status'', ''ok'')])"

text \<open>\<open>ready\<close> is what the readiness check of \<open>app.New\<close> answers: the error of the ping, if any.\<close>

definition readyz :: "string option \<Rightarrow> writer \<Rightarrow> writer" where
  "readyz ready =
    (case ready of
       Some err \<Rightarrow> WriteJSON 503 (encode_map [(''reason'', err), (''status'', ''unready'')])
     | None \<Rightarrow> WriteJSON 200 (encode_map [(''status'', ''ok'')]))"

definition app_ready :: "string option \<Rightarrow> string option" where
  "app_ready ping = map_option (\<lambda>e. ''redis: '' @ e) ping"

section \<open>Request bodies\<close>

definition maxBodyBytes :: nat where
  "maxBodyBytes = 1048576"

definition json_space :: "char \<Rightarrow> bool" where
  "json_space c \<longleftrightarrow> c \<in> {CHR '' '', CHR 0x09, CHR 0x0A, CHR 0x0D}"

text \<open>
  \<open>decode\<close> reads one JSON document of the wanted shape at the front and gives back the rest.  The
  second read must meet the end of the body, so a body over the limit fails there or before.
\<close>

definition DecodeJSON :: "(string \<Rightarrow> ('a \<times> string) option) \<Rightarrow> string \<Rightarrow> api_error + 'a" where
  "DecodeJSON decode body =
    (if maxBodyBytes < length body then Inl (400, ''bad_request'')
     else case decode body of
       None \<Rightarrow> Inl (400, ''bad_request'')
     | Some (v, rest) \<Rightarrow> if list_all json_space rest then Inr v else Inl (400, ''bad_request''))"

text \<open>One object of strings and numbers is read back; a second document after it is refused.\<close>

lemma DecodeJSON_object:
  assumes "fields_sendable fs" "length (json_object fs @ rest) \<le> maxBodyBytes"
  shows "DecodeJSON json_unobject (json_object fs @ rest) =
    (if list_all json_space rest then Inr fs else Inl (400, ''bad_request''))"
  using assms by (simp add: DecodeJSON_def object_round_trip)

section \<open>Running and stopping\<close>

text \<open>
  A connection that \<open>http.Server\<close> tracks: at every time its state and the second it entered it,
  which is 0 while none is set yet.  What the clients and the handlers do is this function.  A connection
  that was accepted before the listener closed may still become active afterwards and serve a request.
\<close>

datatype ConnState = StateNew | StateActive | StateIdle | StateClosed

type_synonym conn = "gotime \<Rightarrow> ConnState \<times> int"

text \<open>
  \<open>closeIdleConns\<close> closes what is idle, or new without a request for more than five seconds, and
  tells what is left.
\<close>

definition at_rest :: "gotime \<Rightarrow> conn \<Rightarrow> bool" where
  "at_rest now c \<longleftrightarrow>
    (case c now of (st, unixSec) \<Rightarrow>
       st = StateClosed \<or>
       (st = StateIdle \<or> st = StateNew \<and> unixSec < now div seconds 1 - 5) \<and> unixSec \<noteq> 0)"

definition closeIdleConns :: "gotime \<Rightarrow> conn list \<Rightarrow> conn list" where
  "closeIdleConns now conns = filter (\<lambda>c. \<not> at_rest now c) conns"

text \<open>
  The waits between two polls: a millisecond at first, doubled up to half a second, each with a
  random part below a tenth.  A draw is that random number and, for a deadline and a timer that
  are due together, which of the two the \<open>select\<close> takes.
\<close>

definition shutdownPollIntervalMax :: duration where
  "shutdownPollIntervalMax = ms 500"

fun pollIntervals :: "duration \<Rightarrow> (nat \<times> bool) list \<Rightarrow> (duration \<times> bool) list" where
  "pollIntervals base [] = []"
| "pollIntervals base ((n, ctx_first) # draws) =
    (base + int n mod (base div 10), ctx_first) # pollIntervals (min (2 * base) shutdownPollIntervalMax) draws"

text \<open>
  The loop of \<open>Shutdown\<close>, from a poll on: the time of its return and its error.  It is undecided
  (\<open>None\<close>) only when the waits run out.  An expired context is noticed at once, a timer at its time.
\<close>

fun Shutdown_polls :: "gotime \<Rightarrow> (duration \<times> bool) list \<Rightarrow> gotime \<Rightarrow> conn list \<Rightarrow> (gotime \<times> string option) option" where
  "Shutdown_polls deadline [] now conns =
    (if closeIdleConns now conns = [] then Some (now, None) else None)"
| "Shutdown_polls deadline ((w, ctx_first) # ws) now conns =
    (let left = closeIdleConns now conns
     in if left = [] then Some (now, None)
        else if deadline < now + w \<or> deadline = now + w \<and> ctx_first
        then Some (max now deadline, Some ''context deadline exceeded'')
        else Shutdown_polls deadline ws (now + w) left)"

text \<open>
  \<open>Run\<close>: the listener fails at some time with an error, or never; the signal comes at some time, or
  never; when both have, the \<open>select\<close> takes either.  \<open>conns\<close> are the connections open at the
  signal; closing the listener is taken not to fail.
\<close>

definition Server_Run :: "Service_cfg \<Rightarrow> (gotime \<times> string) option \<Rightarrow> gotime option \<Rightarrow> bool \<Rightarrow> conn list \<Rightarrow>
    (nat \<times> bool) list \<Rightarrow> (gotime \<times> string option) option" where
  "Server_Run cfg listener signal err_first conns draws =
    (let shut = (\<lambda>t. Shutdown_polls (t + sv_ShutdownTimeout cfg) (pollIntervals (ms 1) draws) t conns)
     in case (listener, signal) of
       (None, None) \<Rightarrow> None
     | (Some (t, err), None) \<Rightarrow> Some (t, Some err)
     | (None, Some t) \<Rightarrow> shut t
     | (Some (t1, err), Some t2) \<Rightarrow>
         if t1 < t2 \<or> t1 = t2 \<and> err_first then Some (t1, Some err) else shut t2)"

text \<open>\<open>app.Main\<close>: an error of \<open>Run\<close> ends the process with code 1.\<close>

definition exit_code :: "string option \<Rightarrow> int" where
  "exit_code err = (if err = None then 0 else 1)"

subsection \<open>How a shutdown goes\<close>

lemma pollIntervals_length [simp]: "length (pollIntervals base draws) = length draws"
  by (induction base draws rule: pollIntervals.induct) simp_all

text \<open>Every wait is at least a millisecond and less than 550.\<close>

lemma pollIntervals_bounds:
  "1000000 \<le> base \<Longrightarrow> base \<le> shutdownPollIntervalMax \<Longrightarrow>
    \<forall>(w, b)\<in>set (pollIntervals base draws). 1000000 \<le> w \<and> w < 550000000"
proof (induction base draws rule: pollIntervals.induct)
  case (2 base n b draws)
  have "0 < base div 10" "base div 10 \<le> 50000000" using 2(2,3) unfolding shutdownPollIntervalMax_def by linarith+
  then have "int n mod (base div 10) < 50000000" "0 \<le> int n mod (base div 10)"
    using order.strict_trans2 [OF pos_mod_bound [of "base div 10" "int n"]] pos_mod_sign [of "base div 10" "int n"] by blast+
  then have "1000000 \<le> base + int n mod (base div 10)" "base + int n mod (base div 10) < 550000000"
    using 2(2,3) unfolding shutdownPollIntervalMax_def by linarith+
  moreover have "1000000 \<le> min (2 * base) shutdownPollIntervalMax" using 2(2) by (simp add: shutdownPollIntervalMax_def)
  ultimately show ?case using 2(1) by auto
qed simp

lemma closeIdleConns_Nil: "closeIdleConns now conns = [] \<longleftrightarrow> (\<forall>c\<in>set conns. at_rest now c)"
  by (auto simp: closeIdleConns_def filter_empty_conv)

text \<open>With waits enough the loop returns by the deadline, and its error tells what it found.\<close>

lemma Shutdown_polls_returns:
  assumes "\<forall>(w, b)\<in>set waits. 1000000 \<le> w \<and> w < 550000000" "max 0 (deadline - now) < 1000000 * int (length waits)"
  shows "\<exists>t err. Shutdown_polls deadline waits now conns = Some (t, err) \<and> now \<le> t \<and> t \<le> max now deadline \<and>
    (err = None \<longrightarrow> (\<forall>c\<in>set conns. \<exists>u. now \<le> u \<and> u \<le> t \<and> at_rest u c)) \<and>
    (err \<noteq> None \<longrightarrow> err = Some ''context deadline exceeded'' \<and> t = max now deadline \<and>
      (\<exists>c\<in>set conns. \<exists>u. now \<le> u \<and> u \<le> t \<and> t < u + 550000000 \<and> \<not> at_rest u c))"
  using assms
proof (induction deadline waits now conns rule: Shutdown_polls.induct)
  case (2 deadline w b ws now conns)
  let ?left = "closeIdleConns now conns"
  have w: "1000000 \<le> w" "w < 550000000" using 2(2) by auto
  have rests: "\<And>c. c \<in> set conns \<Longrightarrow> at_rest now c \<or> c \<in> set ?left" by (auto simp: closeIdleConns_def)
  have left: "set ?left \<subseteq> set conns" by (auto simp: closeIdleConns_def)
  consider "?left = []" | "?left \<noteq> []" "deadline < now + w \<or> deadline = now + w \<and> b"
    | "?left \<noteq> []" "\<not> (deadline < now + w \<or> deadline = now + w \<and> b)" by blast
  then show ?case
  proof cases
    case 1
    then show ?thesis by (force simp: closeIdleConns_Nil)
  next
    case 2
    then obtain c where "c \<in> set conns" "\<not> at_rest now c" by (auto simp: closeIdleConns_Nil)
    then have "\<exists>c\<in>set conns. \<exists>u. now \<le> u \<and> u \<le> max now deadline \<and> max now deadline < u + 550000000 \<and> \<not> at_rest u c"
      using 2(2) w by (intro bexI [of _ c] exI [of _ now]) auto
    with 2 show ?thesis by (auto simp: Let_def)
  next
    case 3
    have fuel: "max 0 (deadline - (now + w)) < 1000000 * int (length ws)" using "2.prems"(2) 3(2) w by (auto simp: max_def)
    obtain t err where r: "Shutdown_polls deadline ws (now + w) ?left = Some (t, err)" "now + w \<le> t" "t \<le> max (now + w) deadline"
      "err = None \<Longrightarrow> \<forall>c\<in>set ?left. \<exists>u. now + w \<le> u \<and> u \<le> t \<and> at_rest u c"
      "err \<noteq> None \<Longrightarrow> err = Some ''context deadline exceeded'' \<and> t = max (now + w) deadline \<and>
        (\<exists>c\<in>set ?left. \<exists>u. now + w \<le> u \<and> u \<le> t \<and> t < u + 550000000 \<and> \<not> at_rest u c)"
      using "2.IH" [OF refl 3 _ fuel] "2.prems"(1) by auto
    have d: "max (now + w) deadline = deadline" "max now deadline = deadline" using 3(2) w by auto
    have go: "Shutdown_polls deadline ((w, b) # ws) now conns = Some (t, err)" using 3 r(1) by (auto simp: Let_def)
    have "\<exists>u. now \<le> u \<and> u \<le> t \<and> at_rest u c" if e: "err = None" and c: "c \<in> set conns" for c
      using rests [OF c]
    proof
      assume "at_rest now c"
      then show ?thesis using r(2) w by (intro exI [of _ now]) simp
    next
      assume "c \<in> set ?left"
      then obtain u where "now + w \<le> u" "u \<le> t" "at_rest u c" using r(4) [OF e] by blast
      then show ?thesis using w by (intro exI [of _ u]) simp
    qed
    moreover have "\<exists>c\<in>set conns. \<exists>u. now \<le> u \<and> u \<le> t \<and> t < u + 550000000 \<and> \<not> at_rest u c" if e: "err \<noteq> None"
    proof -
      obtain c u where "c \<in> set ?left" "now + w \<le> u" "u \<le> t" "t < u + 550000000" "\<not> at_rest u c"
        using r(5) [OF e] by blast
      then show ?thesis using left w by (intro bexI [of _ c] exI [of _ u]) auto
    qed
    moreover have "now \<le> t" "t \<le> max now deadline" "err \<noteq> None \<Longrightarrow> err = Some ''context deadline exceeded'' \<and> t = max now deadline"
      using r(2,3,5) d w by auto
    ultimately show ?thesis using go by blast
  qed
qed (simp add: closeIdleConns_Nil)

text \<open>When everything is at rest from some time on, the next poll sees it.\<close>

lemma Shutdown_polls_notices:
  assumes "\<forall>(w, b)\<in>set waits. 1000000 \<le> w \<and> w < 550000000" "now < q + 550000000" "q + 550000000 \<le> deadline"
    "\<And>u c. q \<le> u \<Longrightarrow> c \<in> set conns \<Longrightarrow> at_rest u c" "Shutdown_polls deadline waits now conns = Some (t, err)"
  shows "err = None \<and> t < q + 550000000"
  using assms
proof (induction deadline waits now conns rule: Shutdown_polls.induct)
  case (2 deadline w b ws now conns)
  show ?case
  proof (cases "closeIdleConns now conns = []")
    case False
    then obtain c where "c \<in> set conns" "\<not> at_rest now c" by (auto simp: closeIdleConns_Nil)
    then have "now < q" using "2.prems"(4) not_le by blast
    then have next_poll: "\<not> (deadline < now + w \<or> deadline = now + w \<and> b)" "now + w < q + 550000000"
      using "2.prems"(1,3) by auto
    then show ?thesis
      using "2.IH" [OF refl False] "2.prems" False by (auto simp: Let_def closeIdleConns_def)
  qed (use "2.prems" in simp)
qed (simp split: if_splits)

text \<open>
  C23. A shutdown ends, and its outcome is the right one.  When the signal comes before the
  listener fails, \<open>Run\<close> returns, and not after the signal and the configured time-out.  With
  code 0 the process leaves only when every connection has been found at rest at some poll.  With code
  1 it leaves only exactly at that deadline, with a connection that was still busy less than 550
  milliseconds before.  And once every connection is at rest for good, 550 milliseconds or more before the
  deadline, it leaves with code 0 within 550 milliseconds.  The draws must only be one for each
  millisecond of the time-out, and one more.
\<close>

theorem shutdown_ends:
  assumes "\<And>t err. listener = Some (t, err) \<Longrightarrow> signal < t"
    "max 0 (sv_ShutdownTimeout cfg) < 1000000 * int (length draws)"
  shows "\<exists>t err. Server_Run cfg listener (Some signal) err_first conns draws = Some (t, err) \<and>
    signal \<le> t \<and> t \<le> signal + max 0 (sv_ShutdownTimeout cfg) \<and>
    (exit_code err = 0 \<longrightarrow> (\<forall>c\<in>set conns. \<exists>u. signal \<le> u \<and> u \<le> t \<and> at_rest u c)) \<and>
    (exit_code err \<noteq> 0 \<longrightarrow> err = Some ''context deadline exceeded'' \<and> t = signal + max 0 (sv_ShutdownTimeout cfg) \<and>
      (\<exists>c\<in>set conns. \<exists>u. signal \<le> u \<and> u \<le> t \<and> t < u + 550000000 \<and> \<not> at_rest u c)) \<and>
    (\<forall>q. signal \<le> q \<and> q + 550000000 \<le> signal + sv_ShutdownTimeout cfg \<and>
        (\<forall>u c. q \<le> u \<longrightarrow> c \<in> set conns \<longrightarrow> at_rest u c) \<longrightarrow>
      exit_code err = 0 \<and> t < q + 550000000)"
proof -
  let ?T = "sv_ShutdownTimeout cfg"
  let ?waits = "pollIntervals 1000000 draws"
  have run: "Server_Run cfg listener (Some signal) err_first conns draws = Shutdown_polls (signal + ?T) ?waits signal conns"
    using assms(1) by (cases listener) (force simp: Server_Run_def Let_def)+
  have waits: "\<forall>(w, b)\<in>set ?waits. 1000000 \<le> w \<and> w < 550000000"
    by (rule pollIntervals_bounds) (simp_all add: shutdownPollIntervalMax_def)
  have d: "max signal (signal + ?T) = signal + max 0 ?T" by simp
  have code: "exit_code err = 0 \<longleftrightarrow> err = None" for err by (simp add: exit_code_def)
  obtain t err where r: "Shutdown_polls (signal + ?T) ?waits signal conns = Some (t, err)"
    and out: "signal \<le> t \<and> t \<le> signal + max 0 ?T \<and>
      (err = None \<longrightarrow> (\<forall>c\<in>set conns. \<exists>u. signal \<le> u \<and> u \<le> t \<and> at_rest u c)) \<and>
      (err \<noteq> None \<longrightarrow> err = Some ''context deadline exceeded'' \<and> t = signal + max 0 ?T \<and>
        (\<exists>c\<in>set conns. \<exists>u. signal \<le> u \<and> u \<le> t \<and> t < u + 550000000 \<and> \<not> at_rest u c))"
    using Shutdown_polls_returns [OF waits, of "signal + ?T" signal conns] assms(2) by (auto simp: d)
  have "err = None \<and> t < q + 550000000"
    if "signal \<le> q" "q + 550000000 \<le> signal + ?T" "\<And>u c. q \<le> u \<Longrightarrow> c \<in> set conns \<Longrightarrow> at_rest u c" for q
    using Shutdown_polls_notices [OF waits _ that(2) that(3) r] that(1) by simp
  then show ?thesis using out unfolding run r code by blast
qed

text \<open>A time-out of 600 milliseconds: a request that never ends, and only an idle connection.\<close>

definition busy_conn :: conn where "busy_conn = (\<lambda>_. (StateActive, 1))"

definition idle_conn :: conn where "idle_conn = (\<lambda>_. (StateIdle, 1))"

theorem shutdown_ends_witness:
  "Server_Run (default_Service ''gate'' '':8080''\<lparr>sv_ShutdownTimeout := ms 600\<rparr>) None (Some 0) True
     [idle_conn, busy_conn] (replicate 601 (0, True)) = Some (ms 600, Some ''context deadline exceeded'') \<and>
   (\<exists>t<ms 550. Server_Run (default_Service ''gate'' '':8080''\<lparr>sv_ShutdownTimeout := ms 600\<rparr>) None (Some 0) True
     [idle_conn] (replicate 601 (0, True)) = Some (t, None))"
proof -
  let ?cfg = "default_Service ''gate'' '':8080''\<lparr>sv_ShutdownTimeout := ms 600\<rparr>"
  let ?draws = "replicate 601 (0 :: nat, True)"
  have rest: "at_rest u idle_conn" "\<not> at_rest u busy_conn" for u
    by (simp_all add: at_rest_def idle_conn_def busy_conn_def)
  have fuel: "max 0 (sv_ShutdownTimeout ?cfg) < 1000000 * int (length ?draws)" by simp
  note ends = shutdown_ends [of None 0, OF _ fuel, of True]
  have "Server_Run ?cfg None (Some 0) True [idle_conn, busy_conn] ?draws = Some (ms 600, Some ''context deadline exceeded'')"
    using ends [of "[idle_conn, busy_conn]"] by (auto simp: rest exit_code_def split: if_splits)
  moreover have "\<exists>t<ms 550. Server_Run ?cfg None (Some 0) True [idle_conn] ?draws = Some (t, None)"
  proof -
    obtain t err where "Server_Run ?cfg None (Some 0) True [idle_conn] ?draws = Some (t, err)"
      "exit_code err = 0 \<and> t < 0 + 550000000"
      using ends [of "[idle_conn]"] rest(1) by fastforce
    then show ?thesis by (auto simp: exit_code_def split: if_splits)
  qed
  ultimately show ?thesis by blast
qed

end
