(* ===== verification/Typing.thy ===== *)
theory Typing
  imports BotActuator Challenge QueueStore
begin

text \<open>
  The types of the keys.  Redis gives every key one type and answers a command of another type
  with \<open>WRONGTYPE\<close>; the keyspace of the model has a map for each kind of value and no such error.
  Here the two are reconciled: the kind of a key's value is read off its name, every write of the
  program respects it, and so no command of the program ever meets a key of another type.
\<close>

datatype redis_type = TZSet | TUser | TCounter | TString | TScores | TSet

definition key_type :: "key \<Rightarrow> redis_type option" where
  "key_type k =
    (if key_kind k = prefixQueue \<or> key_kind k = prefixHold then Some TZSet
     else if key_kind k = prefixUser then Some TUser
     else if key_kind k = prefixSeq \<or> key_kind k = prefixBudget \<or> key_kind k = prefixSuspicion then Some TCounter
     else if key_kind k = prefixEntry \<or> key_kind k = prefixChallenge then Some TString
     else if key_kind k = prefixScore then Some TScores
     else if key_kind k = prefixShards then Some TSet
     else None)"

lemma key_types [simp]:
  "key_type (Queue ev s) = Some TZSet" "key_type (Hold ev s) = Some TZSet"
  "key_type (User ev s t) = Some TUser"
  "key_type (Seq ev s) = Some TCounter" "key_type (Budget ev s) = Some TCounter" "key_type (Suspicion ev x) = Some TCounter"
  "key_type (Entry ev s j) = Some TString" "key_type (Challenge_key ev n) = Some TString"
  "key_type (Score ev s) = Some TScores" "key_type (Shards ev) = Some TSet"
  by (simp_all add: key_type_def prefix_defs)

lemma key_type_prefix [simp]: "key_type (UserPrefix ev s @ t) = Some TUser" "key_type (EntryPrefix ev s @ j) = Some TString"
  by (simp_all add: UserPrefix_User EntryPrefix_Entry)

text \<open>The types under which a key holds a value.\<close>

fun holds :: "redis \<Rightarrow> key \<Rightarrow> redis_type \<Rightarrow> bool" where
  "holds r k TZSet \<longleftrightarrow> zsets r k \<noteq> []"
| "holds r k TUser \<longleftrightarrow> users r k \<noteq> None"
| "holds r k TCounter \<longleftrightarrow> counters r k \<noteq> None"
| "holds r k TString \<longleftrightarrow> strings r k \<noteq> None"
| "holds r k TScores \<longleftrightarrow> scores r k \<noteq> Map.empty"
| "holds r k TSet \<longleftrightarrow> sets r k \<noteq> {}"

definition well_typed :: "redis \<Rightarrow> bool" where
  "well_typed r \<longleftrightarrow> (\<forall>k ty. holds r k ty \<longrightarrow> key_type k = Some ty)"

lemma all_types: "(\<forall>ty. P ty) \<longleftrightarrow> P TZSet \<and> P TUser \<and> P TCounter \<and> P TString \<and> P TScores \<and> P TSet"
  by (metis redis_type.exhaust)

lemma well_typed_iff:
  "well_typed r \<longleftrightarrow> (\<forall>k. (zsets r k \<noteq> [] \<longrightarrow> key_type k = Some TZSet) \<and> (users r k \<noteq> None \<longrightarrow> key_type k = Some TUser) \<and>
    (counters r k \<noteq> None \<longrightarrow> key_type k = Some TCounter) \<and> (strings r k \<noteq> None \<longrightarrow> key_type k = Some TString) \<and>
    (scores r k \<noteq> Map.empty \<longrightarrow> key_type k = Some TScores) \<and> (sets r k \<noteq> {} \<longrightarrow> key_type k = Some TSet))"
  by (simp add: well_typed_def all_types)

section \<open>Every command keeps the types\<close>

lemma typed_commands [simp, intro]:
  assumes "well_typed r"
  shows "key_type k = Some TZSet \<Longrightarrow> well_typed (ZADD r k n m)"
    "well_typed (ZREM r k m)"
    "key_type k = Some TUser \<Longrightarrow> well_typed (hset r k f)"
    "well_typed (del_user r k)" "well_typed (pexpire r k d)"
    "key_type k = Some TCounter \<Longrightarrow> well_typed (snd (incr_by r k n))"
    "key_type k = Some TCounter \<Longrightarrow> well_typed (set_counter_px r k v d)"
    "key_type k = Some TString \<Longrightarrow> well_typed (set_string_px r k s d)"
    "well_typed (del_string r k)"
    "key_type k = Some TScores \<Longrightarrow> well_typed (hset_score r k t v)"
    "well_typed (tick d r)"
    "well_typed (r\<lparr>loaded := L\<rparr>)"
    "key_type k = Some TSet \<Longrightarrow> well_typed (r\<lparr>sets := (sets r)(k := X)\<rparr>)"
proof -
  have "zrem z m \<noteq> [] \<Longrightarrow> z \<noteq> []" for z by (auto simp: zrem_def)
  then show "well_typed (ZREM r k m)"
    using assms by (simp add: well_typed_iff ZREM_def)
  show "well_typed (hset r k f)" if "key_type k = Some TUser"
    using assms that by (simp add: well_typed_iff hset_def split: option.split)
  show "well_typed (pexpire r k d)"
    using assms by (auto simp: well_typed_iff pexpire_def del_user_def user_get_def live_def split: option.split)
  show "well_typed (snd (incr_by r k n))" if "key_type k = Some TCounter"
    using assms that by (simp add: well_typed_iff incr_by_def split: option.split)
qed (use assms in \<open>simp_all add: well_typed_iff ZADD_def del_user_def set_counter_px_def set_string_px_def
      del_string_def hset_score_def tick_def\<close>)

lemma typed_empty: "well_typed empty_redis"
  by (simp add: well_typed_iff empty_redis_def)

section \<open>Every write of the program keeps the types\<close>

lemma typed_evict_member:
  "well_typed (sw_store a) \<Longrightarrow> key_type q = Some TZSet \<Longrightarrow> (\<And>t. key_type (p @ t) = Some TUser) \<Longrightarrow>
    well_typed (sw_store (evict_member q p now stale grace ettl t a))"
  by (auto simp: evict_member_def Let_def split: option.splits)

lemma typed_evict_fold:
  assumes "key_type q = Some TZSet" "\<And>t. key_type (p @ t) = Some TUser"
  shows "well_typed (sw_store a) \<Longrightarrow> well_typed (sw_store (fold (evict_member q p now stale grace ettl) ts a))"
  by (induction ts arbitrary: a) (simp_all add: typed_evict_member assms)

lemma typed_evict:
  "well_typed r \<Longrightarrow> key_type q = Some TZSet \<Longrightarrow> (\<And>t. key_type (p @ t) = Some TUser) \<Longrightarrow>
    well_typed (snd (evict_lua q p now stale grace off mx ettl r))"
  by (simp add: evict_lua_def Let_def typed_evict_fold)

lemma typed_exec: "well_typed r \<Longrightarrow> well_typed (snd (exec ev sid opn r))"
  by (cases opn)
    (simp_all add: enqueue_new_def enqueue_lua_def position_lua_def heartbeat_lua_def rechallenge_lua_def
      admission_script_defs action_script_defs Let_def typed_evict split: option.splits)

lemma typed_expire: "well_typed r \<Longrightarrow> well_typed (expire_counter r k d)"
  by (auto simp: well_typed_iff expire_counter_def counter_get_def live_def split: option.splits)

lemma typed_raise_one: "well_typed r \<Longrightarrow> well_typed (raise_one w a subj r)"
  by (auto simp: raise_one_def typed_expire Let_def split: link.splits)

lemma typed_raise: "well_typed r \<Longrightarrow> well_typed (raiseSuspicion w a d r)"
proof -
  have "well_typed r \<Longrightarrow> well_typed (fold (raise_one w a) ss r)" for ss
    by (induction ss arbitrary: r) (simp_all add: typed_raise_one)
  then show "well_typed r \<Longrightarrow> well_typed (raiseSuspicion w a d r)" by (simp add: raiseSuspicion_def)
qed

lemma typed_burn: "well_typed r \<Longrightarrow> well_typed (snd (burn l px i now c r))"
  by (auto simp: burn_def SetNX_def Let_def split: link.splits)

lemma typed_register:
  "well_typed r \<Longrightarrow> registerShard l clk sh (s, r) = (e, s', r') \<Longrightarrow> well_typed r'"
  by (auto simp: registerShard_def SAdd_def Let_def split: if_splits link.splits prod.splits)

text \<open>
  The stores the program can produce: the scripts on any shard of any event with any arguments, the
  index of shards, burned challenges, suspicion counters, time, and the script cache, in any order.
\<close>

inductive written :: "redis \<Rightarrow> bool" where
  fresh: "written empty_redis"
| script: "written r \<Longrightarrow> written (snd (exec ev sid opn r))"
| cached: "written r \<Longrightarrow> written (r\<lparr>loaded := L\<rparr>)"
| register: "written r \<Longrightarrow> registerShard l clk sh (s, r) = (e, s', r') \<Longrightarrow> written r'"
| burned: "written r \<Longrightarrow> written (snd (burn l px i now c r))"
| suspected: "written r \<Longrightarrow> written (raiseSuspicion w a d r)"

text \<open>
  C22. No command of the program meets a key of another type.  In every store the program can
  produce, with any events, shards, tokens and arguments, whatever the network loses, a key that
  holds a value holds the one type its name stands for; so no key holds two types, and Redis never
  answers \<open>WRONGTYPE\<close>.
\<close>

theorem keys_keep_their_type:
  assumes "written r" "holds r k ty"
  shows "key_type k = Some ty \<and> (\<forall>ty'. holds r k ty' \<longrightarrow> ty' = ty)"
proof -
  have "well_typed r"
    using assms(1)
    by induction (auto simp: typed_empty typed_exec typed_burn typed_raise dest: typed_register simp del: exec.simps)
  then have t: "holds r k ty' \<Longrightarrow> key_type k = Some ty'" for ty' by (simp add: well_typed_def)
  from t [OF assms(2)] t show ?thesis by auto
qed

theorem keys_keep_their_type_witness:
  "let r = snd (exec ''ev'' ''s0000'' (Enqueue_op ''a'' 1 0 0 LotteryBand ''f'' ''i'' 1000000) empty_redis)
    in holds r (Queue ''ev'' ''s0000'') TZSet \<and> \<not> holds r (Queue ''ev'' ''s0000'') TSet \<and>
       holds r (Seq ''ev'' ''s0000'') TCounter \<and> key_type (Seq ''ev'' ''s0000'') = Some TCounter"
proof -
  define r where "r = snd (exec ''ev'' ''s0000'' (Enqueue_op ''a'' 1 0 0 LotteryBand ''f'' ''i'' 1000000) empty_redis)"
  have w: "written r" unfolding r_def by (rule written.script [OF written.fresh])
  have "zsets r (Queue ''ev'' ''s0000'') = [(LotteryBand + 1, ''a'')]" unfolding r_def by code_simp
  moreover have "counter_get r (Seq ''ev'' ''s0000'') = Some 1" unfolding r_def by code_simp
  ultimately have h: "holds r (Queue ''ev'' ''s0000'') TZSet" "holds r (Seq ''ev'' ''s0000'') TCounter"
    by (auto simp: counter_get_def live_def split: option.splits)
  from keys_keep_their_type [OF w h(1)] keys_keep_their_type [OF w h(2)] h show ?thesis
    unfolding r_def [symmetric] by (auto simp: Let_def simp del: holds.simps)
qed

end
