(* ===== verification/Answers.thy ===== *)
theory Answers
  imports Typing AdmissionStore
begin

text \<open>
  The vocabulary between the scripts and the Go side.  The scripts answer with strings, the Go code
  converts them to \<open>Status\<close>, \<open>Segment\<close>, \<open>RechallengeOutcome\<close> or \<open>BurnStatus\<close> without looking, and
  the handlers compare them with the declared constants.  Nothing in either language ties the
  two; here they are tied.
\<close>

section \<open>The declared constants\<close>

definition queue_Status :: "string list" where
  "queue_Status = [''created'', ''exists'', ''waiting'', ''greylist'', ''evicting'', ''evicted'', ''held'',
    ''blocked'', ''admitted'', ''unknown'']"

definition Segment :: "string list" where
  "Segment = [''lottery'', ''fifo'']"

definition RechallengeOutcome :: "string list" where
  "RechallengeOutcome = [''restored'', ''exhausted'', ''noop'', ''no_rank'', ''unknown'']"

definition admission_Status :: "string list" where
  "admission_Status = [''admitted'', ''not_yet'', ''observing'', ''greylist'', ''unknown'', ''evicting'',
    ''evicted'', ''held'', ''blocked'']"

definition BurnStatus :: "string list" where
  "BurnStatus = [''burned'', ''missing'', ''mismatch'']"

text \<open>The first three of the queue's constants tell what a call did or found; the states that are stored:\<close>

definition stored_states :: "string set" where
  "stored_states = set queue_Status - {''created'', ''exists'', ''unknown''}"

section \<open>What is stored\<close>

definition hash_declared :: "user_hash \<Rightarrow> bool" where
  "hash_declared h \<longleftrightarrow> (\<forall>s. u_state h = Some s \<longrightarrow> s \<in> stored_states) \<and> (\<forall>g. u_segment h = Some g \<longrightarrow> g \<in> set Segment)"

definition declared :: "redis \<Rightarrow> bool" where
  "declared r \<longleftrightarrow> (\<forall>k v. users r k = Some v \<longrightarrow> hash_declared (fst v))"

lemma declared_get: "declared r \<Longrightarrow> user_get r k = Some h \<Longrightarrow> hash_declared h"
  unfolding declared_def user_get_def live_def by (fastforce split: option.splits if_splits)

lemma declared_hget:
  assumes "declared r"
  shows "hget r k u_state = Some s \<Longrightarrow> s \<in> stored_states" "hget r k u_segment = Some g \<Longrightarrow> g \<in> set Segment"
  using declared_get [OF assms, of k] by (auto simp: hget_def hash_declared_def split: option.splits)

lemma declared_cong: "users r' = users r \<Longrightarrow> declared r' = declared r"
  by (simp add: declared_def)

lemma declared_frame [simp]:
  "declared (ZADD r k n m) = declared r" "declared (ZREM r k m) = declared r"
  "declared (snd (incr_by r k n)) = declared r" "declared (set_counter_px r k v d) = declared r"
  "declared (set_string_px r k s d) = declared r" "declared (del_string r k) = declared r"
  "declared (hset_score r k t v) = declared r" "declared (tick d r) = declared r"
  "declared (r\<lparr>loaded := L\<rparr>) = declared r" "declared (r\<lparr>sets := X\<rparr>) = declared r"
  by (rule declared_cong; simp add: ZADD_def ZREM_def incr_by_def set_counter_px_def set_string_px_def
      del_string_def hset_score_def tick_def split: option.split)+

text \<open>A write that keeps what is declared.\<close>

definition keeps :: "(user_hash \<Rightarrow> user_hash) \<Rightarrow> bool" where
  "keeps f \<longleftrightarrow> (\<forall>h. hash_declared h \<longrightarrow> hash_declared (f h))"

lemma declared_hset [simp]: "declared r \<Longrightarrow> keeps f \<Longrightarrow> declared (hset r k f)"
proof -
  assume a: "declared r" "keeps f"
  have "hash_declared no_user" by (simp add: hash_declared_def no_user_def)
  with a declared_get [OF a(1), of k] show "declared (hset r k f)"
    by (auto simp: hset_def declared_def keeps_def split: option.split)
qed

lemma declared_del [simp]: "declared r \<Longrightarrow> declared (del_user r k)"
  by (auto simp: declared_def del_user_def)

lemma declared_pexpire [simp]: "declared r \<Longrightarrow> declared (pexpire r k d)"
proof -
  assume "declared r"
  then have "user_get r k = Some h \<Longrightarrow> declared (r\<lparr>users := (users r)(k \<mapsto> (h, e))\<rparr>)" for h e
    using declared_get [of r k h] by (simp add: declared_def)
  with \<open>declared r\<close> show "declared (pexpire r k d)" by (auto simp: pexpire_def split: option.split)
qed

lemma declared_literals [simp]:
  "''waiting'' \<in> stored_states" "''greylist'' \<in> stored_states" "''evicting'' \<in> stored_states"
  "''evicted'' \<in> stored_states" "''held'' \<in> stored_states" "''blocked'' \<in> stored_states"
  "''admitted'' \<in> stored_states" "''lottery'' \<in> set Segment" "''fifo'' \<in> set Segment"
  by (simp_all add: stored_states_def queue_Status_def Segment_def)

lemma declared_evict:
  assumes "declared r"
  shows "declared (snd (evict_lua q p now stale grace off mx ettl r))"
proof -
  have "declared (sw_store a) \<Longrightarrow> declared (sw_store (evict_member q p now stale grace ettl t a))" for t a
    by (auto simp: evict_member_def Let_def keeps_def hash_declared_def split: option.splits)
  then have "declared (sw_store a) \<Longrightarrow> declared (sw_store (fold (evict_member q p now stale grace ettl) ts a))" for ts a
    by (induction ts arbitrary: a) simp_all
  with assms show ?thesis by (simp add: evict_lua_def Let_def)
qed

lemma declared_exec: "declared r \<Longrightarrow> declared (snd (exec ev sid opn r))"
  by (cases opn)
    (simp_all add: enqueue_new_def enqueue_lua_def position_lua_def heartbeat_lua_def rechallenge_lua_def
      admission_script_defs action_script_defs Let_def declared_evict keeps_def hash_declared_def split: option.splits)

lemma written_declared: "written r \<Longrightarrow> declared r"
proof (induction rule: written.induct)
  case fresh
  show ?case by (simp add: declared_def empty_redis_def)
next
  case (script r ev sid opn)
  then show ?case by (simp add: declared_exec)
next
  case (cached r L)
  then show ?case by simp
next
  case (register r l clk sh s e s' r')
  then have "users r' = users r"
    by (auto simp: registerShard_def SAdd_def Let_def split: if_splits link.splits prod.splits)
  then show ?case using register declared_cong by blast
next
  case (burned r l px i now c)
  have "users (snd (burn l px i now c r)) = users r"
    by (auto simp: burn_def SetNX_def set_string_px_def Let_def split: link.splits)
  then show ?case using burned declared_cong by blast
next
  case (suspected r w a d)
  have one: "users (raise_one w a s r) = users r" for s r
    by (auto simp: raise_one_def expire_counter_def incr_by_def Let_def split: link.splits option.splits)
  have "users (fold (raise_one w a) ss r) = users r" for ss
    by (induction ss arbitrary: r) (simp_all add: one)
  then have "users (raiseSuspicion w a d r) = users r" by (simp add: raiseSuspicion_def)
  then show ?case using suspected declared_cong by blast
qed

section \<open>What is answered\<close>

text \<open>What entering can answer, and what a heartbeat can.\<close>

definition entered_Status :: "string set" where
  "entered_Status = set queue_Status - {''waiting'', ''evicting'', ''evicted'', ''unknown''}"

lemma answer_literals [simp]:
  "''created'' \<in> entered_Status" "''exists'' \<in> entered_Status"
  "''restored'' \<in> set RechallengeOutcome" "''exhausted'' \<in> set RechallengeOutcome"
  "''noop'' \<in> set RechallengeOutcome" "''no_rank'' \<in> set RechallengeOutcome" "''unknown'' \<in> set RechallengeOutcome"
  "''admitted'' \<in> set admission_Status" "''not_yet'' \<in> set admission_Status"
  "''observing'' \<in> set admission_Status" "''unknown'' \<in> set admission_Status"
  "''burned'' \<in> set BurnStatus" "''missing'' \<in> set BurnStatus" "''mismatch'' \<in> set BurnStatus"
  by (simp_all add: entered_Status_def queue_Status_def RechallengeOutcome_def admission_Status_def BurnStatus_def)

lemma stored_answers:
  "s \<in> stored_states \<Longrightarrow> s \<noteq> ''waiting'' \<Longrightarrow> s \<noteq> ''evicting'' \<Longrightarrow> s \<noteq> ''evicted'' \<Longrightarrow> s \<in> entered_Status"
  "s \<in> stored_states \<Longrightarrow> s \<noteq> ''waiting'' \<Longrightarrow> s \<in> set admission_Status"
  by (auto simp: stored_states_def entered_Status_def queue_Status_def admission_Status_def)

lemma asString_LStr [simp]: "asString (LStr s) = s"
  by (simp add: asString_def)

lemma enqueue_answer:
  assumes "declared r" "fst (enqueue_lua q sq u t sh now lend lrand band fp ip ttl r) = Inr v"
  shows "asString (v ! 0) \<in> entered_Status \<and> asString (v ! 4) \<in> insert '''' (set Segment)"
proof -
  have new: "fst (enqueue_new q sq u t sh now lend lrand band fp ip ttl r') = Inr v \<Longrightarrow>
      asString (v ! 0) \<in> entered_Status \<and> asString (v ! 4) \<in> insert '''' (set Segment)" for r'
    by (cases "now < lend") (auto simp: enqueue_new_def enqueue_snapshot_def Let_def)
  have seg: "or_else (hget r u u_segment) '''' \<in> insert '''' (set Segment)"
    using declared_hget(2) [OF assms(1), of u] by (cases "hget r u u_segment") (simp_all add: or_else_def)
  show ?thesis
  proof (cases "hget r u u_state")
    case None
    with assms(2) new show ?thesis by (simp add: enqueue_lua_def)
  next
    case (Some s)
    then have "s \<in> stored_states" using declared_hget(1) [OF assms(1)] by blast
    with Some assms(2) new seg stored_answers(1) [of s] show ?thesis
      by (cases "s = ''waiting'' \<or> s = ''evicting''"; cases "s = ''evicted''")
        (auto simp: enqueue_lua_def enqueue_snapshot_def Let_def)
  qed
qed

lemma position_answer:
  assumes "declared r" "fst (position_lua q h u t r) = Inr v"
  shows "asString (v ! 0) \<in> insert ''unknown'' stored_states \<and> asString (v ! 6) \<in> insert '''' (set Segment)"
proof (cases "hget r u u_state")
  case None
  with assms(2) show ?thesis by (auto simp: position_lua_def)
next
  case (Some s)
  have "or_else (hget r u u_segment) '''' \<in> insert '''' (set Segment)"
    using declared_hget(2) [OF assms(1), of u] by (cases "hget r u u_segment") (simp_all add: or_else_def)
  with Some assms(2) declared_hget(1) [OF assms(1) Some] show ?thesis by (auto simp: position_lua_def)
qed

lemma heartbeat_answer:
  assumes "declared r" "fst (heartbeat_lua q u t now ttl r) = Inr v"
  shows "asString (v ! 0) \<in> insert ''unknown'' stored_states - {''evicting''}"
proof (cases "hget r u u_state")
  case None
  with assms(2) show ?thesis by (auto simp: heartbeat_lua_def)
next
  case (Some s)
  with assms(2) declared_hget(1) [OF assms(1) Some] show ?thesis
    by (auto simp: heartbeat_lua_def Let_def split: if_splits)
qed

lemma rechallenge_answer:
  assumes "declared r" "fst (rechallenge_lua og g h sc u t sh mx pass hold now ttl r) = Inr v"
  shows "asString (v ! 0) \<in> set RechallengeOutcome \<and> asString (v ! 1) \<in> insert ''unknown'' stored_states"
proof (cases "hget r u u_state")
  case None
  with assms(2) show ?thesis by (auto simp: rechallenge_lua_def)
next
  case (Some s)
  with assms(2) declared_hget(1) [OF assms(1) Some] show ?thesis
    by (auto simp: rechallenge_lua_def Let_def split: option.splits if_splits)
qed

lemma admit_answer:
  assumes "declared r" "fst (admit_lua q b u t jti now p ettl uttl dwell beats r) = Inr v"
  shows "asString (v ! 0) \<in> set admission_Status"
proof (cases "hget r u u_state")
  case None
  with assms(2) show ?thesis by (auto simp: admit_lua_def Let_def)
next
  case (Some s)
  note d = stored_answers(2) [OF declared_hget(1) [OF assms(1) Some]]
  show ?thesis
  proof (cases "s = ''waiting''")
    case True
    with Some assms(2) show ?thesis by (auto simp: admit_lua_def Let_def split: option.splits if_splits)
  next
    case False
    with Some assms(2) d show ?thesis by (cases "s = ''admitted''") (simp_all add: admit_lua_def Let_def, auto)
  qed
qed

lemma redeem_answer: "fst (redeem_lua e u t now r) = Inr v \<Longrightarrow> asString (v ! 0) \<in> set BurnStatus"
  by (auto simp: redeem_lua_def split: option.splits if_splits)

text \<open>
  Two calls of the Go side run a script on the store there is, up to the cache of scripts; so
  \<open>declared\<close> is there for every script that answers.
\<close>

lemma admission_call_once:
  assumes "admission_call n name want body r = (Inr vals, r')"
  obtains L where "body (r\<lparr>loaded := L\<rparr>) = (Inr vals, r')"
  using assms Run_once [where n = n and sc = "NewScript name body" and r = r]
  by (auto simp: admission_call_def NewScript_def admission_reply_def split: prod.splits sum.splits if_splits)

lemma call_answer:
  assumes "call n name want body r = (Inr vals, r')" "declared r" "\<And>r1. declared r1 \<Longrightarrow> fst (body r1) = Inr vals \<Longrightarrow> P vals"
  shows "P vals"
proof -
  obtain L where "body (r\<lparr>loaded := L\<rparr>) = (Inr vals, r')" using call_once [OF assms(1)] by blast
  then show ?thesis using assms(2) assms(3) [of "r\<lparr>loaded := L\<rparr>"] by simp
qed

lemma admission_call_answer:
  assumes "admission_call n name want body r = (Inr vals, r')" "declared r"
    "\<And>r1. declared r1 \<Longrightarrow> fst (body r1) = Inr vals \<Longrightarrow> P vals"
  shows "P vals"
proof -
  obtain L where "body (r\<lparr>loaded := L\<rparr>) = (Inr vals, r')" using admission_call_once [OF assms(1)] by blast
  then show ?thesis using assms(2) assms(3) [of "r\<lparr>loaded := L\<rparr>"] by simp
qed

lemma registerShard_declared: "registerShard l clk sh (s, r) = (e, s', r') \<Longrightarrow> declared r \<Longrightarrow> declared r'"
  by (auto simp: registerShard_def SAdd_def Let_def split: if_splits link.splits prod.splits)

lemma Enqueue_answer:
  assumes "declared r" "Enqueue n l rand clk req (s, r) = (Inr t, sr')"
  shows "tk_Status t \<in> entered_Status \<and> tk_Segment t \<in> insert '''' (set Segment)"
proof -
  obtain s1 r1 lot r2 vals where
    "registerShard l clk (er_Shard req) (s, r) = (None, s1, r1)"
    and c: "call n ''enqueue.lua'' 5 (enqueue_lua (Queue (qc_EventID (st_cfg s1)) (er_Shard req))
        (Seq (qc_EventID (st_cfg s1)) (er_Shard req)) (User (qc_EventID (st_cfg s1)) (er_Shard req) (er_TokenID req))
        (er_TokenID req) (er_Shard req) (UnixMilli (clk 2)) (milliOrZero (LotteryEnd s1)) lot LotteryBand
        (er_FPHash req) (er_IPPrefix req) (Milliseconds (qc_UserTTL (st_cfg s1)))) r1 = (Inr vals, r2)"
    and t: "tk_Status t = asString (vals ! 0)" "tk_Segment t = asString (vals ! 4)"
    using assms(2) by (auto simp: Enqueue_def Let_def split: option.splits prod.splits sum.splits)
  then have "declared r1" using assms(1) registerShard_declared by blast
  from call_answer [OF c this, where P = "\<lambda>v. asString (v ! 0) \<in> entered_Status \<and> asString (v ! 4) \<in> insert '''' (set Segment)"]
    enqueue_answer t show ?thesis by simp
qed

lemma Position_answer:
  assumes "declared r" "Position n sh t (s, r) = (Inr sn, sr')"
  shows "sn_Status sn \<in> insert ''unknown'' stored_states \<and> sn_Segment sn \<in> insert '''' (set Segment)"
proof -
  let ?ev = "qc_EventID (st_cfg s)"
  obtain vals r' where c: "call n ''position.lua'' 12 (position_lua (Queue ?ev sh) (Hold ?ev sh) (User ?ev sh t) t) r = (Inr vals, r')"
    and v: "sn_Status sn = asString (vals ! 0)" "sn_Segment sn = asString (vals ! 6)"
    using assms(2) by (auto simp: Position_def Let_def split: option.splits prod.splits sum.splits)
  from call_answer [OF c assms(1), where P = "\<lambda>v. asString (v ! 0) \<in> insert ''unknown'' stored_states \<and> asString (v ! 6) \<in> insert '''' (set Segment)"]
    position_answer v show ?thesis by simp
qed

lemma Heartbeat_answer:
  assumes "declared r" "Heartbeat n now sh t (s, r) = (Inr b, sr')"
  shows "bt_Status b \<in> insert ''unknown'' stored_states - {''evicting''}"
proof -
  let ?ev = "qc_EventID (st_cfg s)"
  obtain vals r' where c: "call n ''heartbeat.lua'' 5 (heartbeat_lua (Queue ?ev sh) (User ?ev sh t) t (UnixMilli now)
      (Milliseconds (qc_UserTTL (st_cfg s)))) r = (Inr vals, r')"
    and v: "bt_Status b = asString (vals ! 0)"
    using assms(2) by (auto simp: Heartbeat_def Let_def split: option.splits prod.splits sum.splits)
  from call_answer [OF c assms(1), where P = "\<lambda>v. asString (v ! 0) \<in> insert ''unknown'' stored_states - {''evicting''}"]
    heartbeat_answer v show ?thesis by simp
qed

lemma Rechallenge_answer:
  assumes "declared r" "Rechallenge n now req (s, r) = (Inr x, sr')"
  shows "rr_Outcome x \<in> set RechallengeOutcome \<and> rr_Status x \<in> insert ''unknown'' stored_states"
proof -
  obtain og g vals r' where c: "call n ''rechallenge.lua'' 5 (rechallenge_lua (Queue (qc_EventID (st_cfg s)) og)
      (Queue (qc_EventID (st_cfg s)) g) (Hold (qc_EventID (st_cfg s)) og) (Score (qc_EventID (st_cfg s)) og)
      (User (qc_EventID (st_cfg s)) og (rq_TokenID req)) (rq_TokenID req) og (rq_MaxAttempts req) (rq_PassScore req)
      (rq_HoldScore req) (UnixMilli now) (Milliseconds (qc_UserTTL (st_cfg s)))) r = (Inr vals, r')"
    and v: "rr_Outcome x = asString (vals ! 0)" "rr_Status x = asString (vals ! 1)"
    using assms(2) by (auto simp: Rechallenge_def Let_def split: option.splits prod.splits sum.splits)
  from call_answer [OF c assms(1), where P = "\<lambda>v. asString (v ! 0) \<in> set RechallengeOutcome \<and> asString (v ! 1) \<in> insert ''unknown'' stored_states"]
    rechallenge_answer v show ?thesis by simp
qed

lemma Admit_answer:
  assumes "declared r" "Admit n now cfg sh t jti r = (Inr x, r')"
  shows "rs_Status x \<in> set admission_Status"
proof -
  let ?ev = "ac_EventID cfg"
  obtain vals r1 where c: "admission_call n ''admit.lua'' 5 (admit_lua (Queue ?ev sh) (Budget ?ev sh) (User ?ev sh t) t jti
      (UnixMilli now) (EntryPrefix ?ev sh) (Milliseconds (ac_EntryTTL cfg)) (Milliseconds (ac_UserTTL cfg))
      (Milliseconds (ac_MinDwell cfg)) (ac_MinBeats cfg)) r = (Inr vals, r1)"
    and v: "rs_Status x = asString (vals ! 0)"
    using assms(2) by (auto simp: Admit_def Let_def split: option.splits prod.splits sum.splits if_splits)
  from admission_call_answer [OF c assms(1), where P = "\<lambda>v. asString (v ! 0) \<in> set admission_Status"]
    admit_answer v show ?thesis by simp
qed

lemma Burn_answer:
  assumes "declared r" "Burn n now cfg sh jti t r = (Inr b, r')"
  shows "b \<in> set BurnStatus"
proof -
  obtain vals r1 where c: "admission_call n ''redeem.lua'' 2 (redeem_lua (Entry (ac_EventID cfg) sh jti)
      (User (ac_EventID cfg) sh t) t (UnixMilli now)) r = (Inr vals, r1)"
    and v: "b = asString (vals ! 0)"
    using assms(2) by (auto simp: Burn_def Let_def split: option.splits prod.splits sum.splits if_splits)
  from admission_call_answer [OF c assms(1), where P = "\<lambda>v. asString (v ! 0) \<in> set BurnStatus"]
    redeem_answer v show ?thesis by simp
qed

text \<open>
  C21. Every string the scripts answer is one the Go code declares.  On every store the program can
  produce, whatever the network loses: the status of a queue operation is a declared \<open>Status\<close>, of
  entering never one that only a lookup finds, of a heartbeat never \<open>evicting\<close>; the segment is empty
  or a declared \<open>Segment\<close>; the outcome of a re-challenge, of an admission and of burning a
  ticket is one of the constants of its type.
\<close>

theorem answers_are_declared:
  assumes "written r"
  shows "(Enqueue n l rand clk req (s, r) = (Inr tk, sr') \<longrightarrow>
      tk_Status tk \<in> set queue_Status - {''waiting'', ''evicting'', ''evicted'', ''unknown''} \<and>
      tk_Segment tk \<in> insert '''' (set Segment)) \<and>
    (Position n sh t (s, r) = (Inr sn, sr') \<longrightarrow>
      sn_Status sn \<in> set queue_Status - {''created'', ''exists''} \<and> sn_Segment sn \<in> insert '''' (set Segment)) \<and>
    (Heartbeat n now sh t (s, r) = (Inr b, sr') \<longrightarrow> bt_Status b \<in> set queue_Status - {''created'', ''exists'', ''evicting''}) \<and>
    (Rechallenge n now rq (s, r) = (Inr x, sr') \<longrightarrow>
      rr_Outcome x \<in> set RechallengeOutcome \<and> rr_Status x \<in> set queue_Status - {''created'', ''exists''}) \<and>
    (Admit n now cfg sh t jti r = (Inr a, r') \<longrightarrow> rs_Status a \<in> set admission_Status) \<and>
    (Burn n now cfg sh jti t r = (Inr u, r') \<longrightarrow> u \<in> set BurnStatus)"
proof -
  note d = written_declared [OF assms]
  have known: "insert ''unknown'' stored_states = set queue_Status - {''created'', ''exists''}"
    by (auto simp: stored_states_def queue_Status_def)
  show ?thesis
    using Enqueue_answer [OF d, of n l rand clk req s tk sr'] Position_answer [OF d, of n sh t s sn sr']
      Heartbeat_answer [OF d, of n now sh t s b sr'] Rechallenge_answer [OF d, of n now rq s x sr']
      Admit_answer [OF d, of n now cfg sh t jti a r'] Burn_answer [OF d, of n now cfg sh jti t u r']
    unfolding known entered_Status_def by blast
qed

theorem answers_are_declared_witness:
  "\<exists>sn. fst (Position good_net ''s0000'' ''a'' (demo_store,
      snd (exec ''ev'' ''s0000'' (Enqueue_op ''a'' 1 0 0 LotteryBand ''f'' ''i'' 1000000) empty_redis))) = Inr sn \<and>
    sn_Status sn \<in> set queue_Status - {''created'', ''exists''} \<and> sn_Segment sn \<in> insert '''' (set Segment)"
proof -
  let ?r = "snd (exec ''ev'' ''s0000'' (Enqueue_op ''a'' 1 0 0 LotteryBand ''f'' ''i'' 1000000) empty_redis)"
  have w: "written ?r" by (rule written.script [OF written.fresh])
  have "isl (fst (Position good_net ''s0000'' ''a'' (demo_store, ?r))) = False" by code_simp
  then obtain sn sr' where "Position good_net ''s0000'' ''a'' (demo_store, ?r) = (Inr sn, sr')"
    by (cases "Position good_net ''s0000'' ''a'' (demo_store, ?r)"; cases "fst (Position good_net ''s0000'' ''a'' (demo_store, ?r))") auto
  with answers_are_declared [OF w, where n = good_net and sh = "''s0000''" and t = "''a''" and sn = sn] show ?thesis by auto
qed

end
