(* ===== verification/Clients.thy ===== *)
theory Clients
  imports Services Telemetry
begin

text \<open>
  What the program asks of its client libraries: the options of the Redis client
  (\<open>src/internal/redisx/redisx.go\<close>), the connection pool of PostgreSQL
  (\<open>src/internal/store/pg/orders.go\<close>) and the choice between a Kafka producer and none
  (\<open>src/internal/telemetry/producer.go\<close>).  The libraries themselves are parameters.
\<close>

section \<open>Redis\<close>

record UniversalOptions =
  uo_Addrs :: "string list"
  uo_Password :: string
  uo_DB :: int
  uo_PoolSize :: int
  uo_DialTimeout :: duration
  uo_ReadTimeout :: duration
  uo_WriteTimeout :: duration
  uo_IsClusterMode :: bool

definition redisx_New :: "Redis_cfg \<Rightarrow> UniversalOptions" where
  "redisx_New cfg = \<lparr>uo_Addrs = rs_Addrs cfg, uo_Password = Bytes (rs_Password cfg), uo_DB = rs_DB cfg,
    uo_PoolSize = rs_PoolSize cfg, uo_DialTimeout = seconds 3, uo_ReadTimeout = seconds 3,
    uo_WriteTimeout = seconds 3, uo_IsClusterMode = rs_Cluster cfg\<rparr>"

section \<open>PostgreSQL\<close>

datatype open_error = InvalidDSN | Connect string

text \<open>Go's conversion \<open>int32(n)\<close> keeps the low 32 bits.\<close>

definition int32_of :: "int \<Rightarrow> 32 word" where
  "int32_of n = word_of_int n"

text \<open>
  \<open>ParseConfig\<close> gives the pool size of the connection string, or the library's default;
  \<open>NewWithConfig\<close> opens a pool of the size it is given or refuses.
\<close>

definition pg_Open :: "(string \<Rightarrow> (32 word) option) \<Rightarrow> (string \<Rightarrow> 32 word \<Rightarrow> string + 'p) \<Rightarrow> Postgres_cfg \<Rightarrow> open_error + 'p" where
  "pg_Open ParseConfig NewWithConfig cfg =
    (let dsn = Bytes (pg_DSN cfg)
     in case ParseConfig dsn of
          None \<Rightarrow> Inl InvalidDSN
        | Some conns \<Rightarrow>
            let conns = (if pg_MaxConns cfg > 0 then int32_of (pg_MaxConns cfg) else conns)
            in case NewWithConfig dsn conns of Inl e \<Rightarrow> Inl (Connect e) | Inr p \<Rightarrow> Inr p)"

definition pool_Close :: "('p \<Rightarrow> 'p) \<Rightarrow> 'p option option \<Rightarrow> 'p option option" where
  "pool_Close close p = (case p of Some (Some pool) \<Rightarrow> Some (Some (close pool)) | _ \<Rightarrow> p)"

definition pool_Ping :: "string option \<Rightarrow> string option" where
  "pool_Ping err = map_option (\<lambda>e. ''pg: ping: '' @ e) err"

text \<open>What the pool documents: it refuses a size below one and else has the size it was given.\<close>

definition pool_ok :: "(string \<Rightarrow> 32 word \<Rightarrow> string + 'p) \<Rightarrow> ('p \<Rightarrow> int) \<Rightarrow> bool" where
  "pool_ok NewWithConfig conns_of \<longleftrightarrow>
    (\<forall>dsn n. (sint n < 1 \<longrightarrow> isl (NewWithConfig dsn n)) \<and> (\<forall>p. NewWithConfig dsn n = Inr p \<longrightarrow> conns_of p = sint n))"

lemma sint_int32: "sint (int32_of n) = (n + 2 ^ 31) mod 2 ^ 32 - 2 ^ 31"
  by (simp add: int32_of_def sint_sbintrunc' signed_take_bit_eq_take_bit_shift take_bit_eq_mod)

lemma int32_exact: "0 \<le> n \<Longrightarrow> sint (int32_of n) = n \<longleftrightarrow> n < 2 ^ 31"
proof -
  assume "0 \<le> n"
  have "(n + 2 ^ 31) mod 2 ^ 32 - 2 ^ 31 < (2 ^ 31 :: int)" using pos_mod_bound [of "2 ^ 32" "n + 2 ^ 31"] by simp
  with \<open>0 \<le> n\<close> show ?thesis unfolding sint_int32 by (cases "n < 2 ^ 31") auto
qed

text \<open>
  The comment at the conversion says that the configuration bounds the size; nothing does.  A
  size of at least 2 ^ 31 passes validation, and the pool is then refused or smaller than asked.
\<close>

theorem pool_size:
  assumes "pool_ok NewWithConfig conns_of" "0 < pg_MaxConns cfg"
    "pg_Open ParseConfig NewWithConfig cfg = Inr p"
  shows "(conns_of p = pg_MaxConns cfg \<longleftrightarrow> pg_MaxConns cfg < 2 ^ 31) \<and> 1 \<le> conns_of p \<and> conns_of p \<le> pg_MaxConns cfg"
proof -
  obtain dsn where n: "NewWithConfig dsn (int32_of (pg_MaxConns cfg)) = Inr p"
    using assms(2,3) by (auto simp: pg_Open_def Let_def split: option.splits sum.splits)
  then have s: "conns_of p = sint (int32_of (pg_MaxConns cfg))" "1 \<le> conns_of p"
    using assms(1) unfolding pool_ok_def by (metis, metis not_less isl_def sum.disc(2))
  have "sint (int32_of (pg_MaxConns cfg)) < 2 ^ 31"
    unfolding sint_int32 using pos_mod_bound [of "2 ^ 32" "pg_MaxConns cfg + 2 ^ 31"] by simp
  then have "conns_of p \<le> pg_MaxConns cfg" using s int32_exact [of "pg_MaxConns cfg"] assms(2) by linarith
  with s int32_exact [of "pg_MaxConns cfg"] assms(2) show ?thesis by simp
qed

text \<open>A pool asked to have 2 ^ 32 + 1 connections has one.\<close>

theorem pool_size_witness:
  "let new = (\<lambda>dsn n. if sint n < 1 then Inl ''MaxSize must be >= 1'' else Inr (sint n));
       cfg = (default_Postgres (Secret_of ''dsn''))\<lparr>pg_MaxConns := 4294967297\<rparr>
   in pg_Open (\<lambda>_. Some 4) new cfg = Inr 1 \<and> 1 \<le> (1 :: int) \<and> (1 = pg_MaxConns cfg) = False"
proof -
  let ?new = "\<lambda>dsn n. if sint n < 1 then Inl ''MaxSize must be >= 1'' else Inr (sint n)"
  let ?cfg = "(default_Postgres (Secret_of ''dsn''))\<lparr>pg_MaxConns := 4294967297\<rparr>"
  have ok: "pool_ok ?new (\<lambda>p. p)" by (auto simp: pool_ok_def)
  have o: "pg_Open (\<lambda>_. Some 4) ?new ?cfg = Inr 1" by (simp add: pg_Open_def sint_int32)
  from pool_size [OF ok _ o] o show ?thesis by simp
qed

text \<open>The evidence of a record as JSON; \<open>Marshal\<close> fails on what JSON cannot say, a NaN for one.\<close>

definition mustJSON :: "('v \<Rightarrow> string option) \<Rightarrow> 'v option \<Rightarrow> string" where
  "mustJSON Marshal v =
    (case v of
       None \<Rightarrow> ''{}''
     | Some m \<Rightarrow> or_else (Marshal m) (CHR ''{'' # CHR 0x22 # ''error'' @ CHR 0x22 # CHR '':'' # CHR 0x22 #
         ''reason could not be encoded'' @ [CHR 0x22, CHR ''}'']))"

section \<open>Kafka\<close>

text \<open>Without Kafka or without brokers events are thrown away.\<close>

datatype Publisher = Discard | Kafka Producer

definition NewPublisher :: "Kafka_cfg \<Rightarrow> Publisher" where
  "NewPublisher cfg = (if \<not> kf_Enabled cfg \<or> kf_Brokers cfg = [] then Discard else Kafka NewProducer)"

fun Publisher_Publish :: "Event \<Rightarrow> Publisher \<Rightarrow> Publisher option" where
  "Publisher_Publish e Discard = Some Discard"
| "Publisher_Publish e (Kafka p) = map_option Kafka (Publish e p)"

fun Publisher_Close :: "Publisher \<Rightarrow> Publisher" where
  "Publisher_Close Discard = Discard"
| "Publisher_Close (Kafka p) = Kafka (Close p)"

text \<open>A fresh publisher never panics before it is closed, whatever is published.\<close>

lemma NewPublisher_takes:
  "fold (\<lambda>e p. Option.bind p (Publisher_Publish e)) es (Some (NewPublisher cfg)) \<noteq> None"
proof -
  have "fold (\<lambda>e p. Option.bind p (Publisher_Publish e)) es (Some (Kafka p)) \<noteq> None" if "\<not> pr_closed p" for p
    using that
  proof (induction es arbitrary: p)
    case (Cons e es)
    then have "\<exists>p'. Publish e p = Some p' \<and> \<not> pr_closed p'" by (simp add: Publish_def)
    then obtain p' where "Publish e p = Some p'" "\<not> pr_closed p'" by blast
    with Cons.IH show ?case by simp
  qed simp
  moreover have "fold (\<lambda>e p. Option.bind p (Publisher_Publish e)) es (Some Discard) \<noteq> None"
    by (induction es) simp_all
  ultimately show ?thesis by (simp add: NewPublisher_def NewProducer_def)
qed

end
