(* ===== verification/Spec2Isabelle.thy ===== *)
theory Spec2Isabelle
  imports SlotProperties Controller BotRobust Sweeping Journey Detection Address Serving Growth Startup Rehabilitation
    Consuming RateLimit Server Answers Clients
begin

text \<open>
  A verification of ShardGate, the virtual waiting room of this repository: five Go services
  (\<open>src/cmd/\<close>) over Redis, PostgreSQL and Kafka that let a crowd into a shop a few at a time,
  in the order of arrival or of a lottery, and keep bots out.

  \<^bold>\<open>How the parts interact.\<close>  A visitor solves a proof-of-work puzzle at the gate, is assigned
  a shard by a keyed hash and gets a signed queue token and a place in the shard's line, a Redis
  sorted set.  Every change of a place is one Lua script (\<open>src/scripts/lua/\<close>), which Redis runs
  atomically.  The admission controller measures the shop and hands each shard a budget; who is
  within the budget exchanges the queue token for an entry token whose ticket can be burned once,
  by the shop, which writes the order under unique constraints.  Heartbeats and the events of the
  handlers go through Kafka to the scorer, which weighs them over windows and moves users to a
  greylist, a hold set or a block; the actuator applies that through the same scripts.

  \<^bold>\<open>Theories and code.\<close>
  \<^item> \<open>Prelude\<close>: Go's numbers, durations and numerals, the collections of rewrite rules.
  \<^item> \<open>Redis\<close>: the keyspace as a record with one map per kind of value, deadlines and a clock
    that only \<open>tick\<close> moves; \<open>EVALSHA\<close> with its fallback (\<open>redisx/redisx.go\<close>).
    \<open>Keys\<close>: \<open>keys/keys.go\<close>.  \<open>Sha256\<close>: SHA-256, HMAC, base64url, computed.
    \<open>Shard\<close>, \<open>Growth\<close>: \<open>shard/shard.go\<close>, \<open>shard/grower.go\<close>.
  \<^item> \<open>QueueScripts\<close>, \<open>AdmissionScripts\<close>, \<open>ActionScripts\<close>: the Lua scripts, one function each,
    from keys, arguments and store to reply and store.
  \<^item> \<open>Lanes\<close>, \<open>SlotRuns\<close>, \<open>Fairness\<close>: runs of a slot as sequences of script executions, the
    invariant that a user is in at most one lane, the abstract ladder of states and its
    refinement, budgets, tickets and order.  \<open>SlotProperties\<close> states the results.
  \<^item> \<open>QueueStore\<close>: \<open>queue/queue.go\<close>, \<open>queue/sweeper.go\<close>.  \<open>Sweeping\<close>: laps of the sweeper.
    \<open>AdmissionStore\<close>, \<open>Controller\<close>, \<open>RateLimit\<close>: \<open>admission/\<close>, the last the loop of cycles
    with everything else going on in the event.  \<open>Typing\<close>, \<open>Answers\<close>: the types of the keys, and
    the words the scripts and the Go code share.
  \<^item> \<open>Float64\<close>, \<open>BotWindow\<close>, \<open>BotSignals\<close>, \<open>BotScorer\<close>, \<open>BotRobust\<close>, \<open>BotActuator\<close>:
    \<open>botscore/\<close>.  \<open>Challenge\<close>: \<open>challenge/challenge.go\<close>.  \<open>Telemetry\<close>, \<open>Consuming\<close>:
    \<open>telemetry/\<close>.
  \<^item> \<open>Config\<close>, \<open>Parsing\<close>, \<open>Loading\<close>: \<open>config/\<close>, with the parsers of the standard library
    and \<open>LoadFrom\<close> in a state monad.  \<open>Token\<close>: \<open>token/token.go\<close>.  \<open>Postgres\<close>: \<open>store/pg/\<close> with the
    schema of \<open>src/deploy/postgres/init/\<close>.
  \<^item> \<open>Http\<close>, \<open>QueueApi\<close>, \<open>GateApi\<close>, \<open>ShopApi\<close>: \<open>api/\<close>, every handler.  \<open>Services\<close>, \<open>Startup\<close>: \<open>src/cmd/\<close>
    and \<open>app/bootstrap.go\<close>.  \<open>Address\<close>, \<open>Serving\<close>: \<open>httpx/\<close>, the client's network and what surrounds
    every handler.  \<open>Wire\<close>: \<open>api/sse.go\<close>, the bytes of the status stream.  \<open>Metrics\<close>: \<open>obs/\<close>.  \<open>Boot\<close>: the
    routes of \<open>httpx/server.go\<close>, \<open>scripts/lua/lua.go\<close>, and the panics of a start.  \<open>Clients\<close>: what is asked of the client
    libraries.  \<open>Server\<close>: running
    and stopping the HTTP server, with the polls of \<open>http.Server.Shutdown\<close> over connections whose
    states are functions of the time.  \<open>Journey\<close>: one user's way through all services,
    \<open>Rehabilitation\<close>: the way back from the greylist.  \<open>Detection\<close>: the scorer
    service, from the events it reads to the users it blocks.

  \<^bold>\<open>State and operations.\<close>  A stateful object is a record, its method a function that returns
  the record updated; a Go error is the left side of a sum; a script reply is a list of values
  that the Go side decodes.  What the environment decides is an argument: the fate of every
  network call (\<open>link\<close>, \<open>net\<close>, the \<open>wires\<close> records: delivered, lost before it runs, or run with
  its reply lost), readings of the clock, random bytes, the order in which a Go map is iterated,
  the violated constraint a database names (\<open>pick\<close>), the bytes of a JSON body (decoded or
  refused).  The Prometheus registry is the parameter \<open>P\<close>; \<open>prom_ok P\<close> states its documented
  behaviour, and \<open>list_prom\<close> is an instance.  The JSON Web Token library is the parameter \<open>J\<close>; \<open>jwt_ok J\<close> states its documented
  behaviour, and \<open>plain_jwt\<close> is an instance.

  \<^bold>\<open>Interfaces.\<close>  The locales state what one component relies on in another: \<open>ranked_set\<close> (the
  facts about ranks, interpreted on sorted sets in \<open>Redis\<close>), \<open>rounding\<close> (monotone rounding that
  is exact on small numbers, interpreted on \<open>rnd\<close> in \<open>Float64\<close>), \<open>waiting_counter\<close> (what the
  grower knows of the queue, interpreted on the queue's store in \<open>Growth\<close>) and \<open>scorer_history\<close> (what one
  decision keeps of an invariant over the decisions so far, a whole run keeps; interpreted in
  \<open>BotScorer\<close> on the invariants its properties need).

  \<^bold>\<open>What the lemmas show.\<close>  Of a slot: one lane for everybody, the ladder of states, admissions
  within the grants, tickets burned once, the lottery before the others and the others in order,
  sweeps that spare the living, and laps that end and reach everybody.  Of the controller: exact
  apportioning by largest remainders, never more than the cycle's total, over the whole event never
  more admissions than the open cycles allow, and the breaker as a function of the failures.  Of
  the store: every key keeps its type, every state and answer is a declared word.  Of the status
  stream: a page reads exactly the statuses sent, wherever the connection breaks.  Of a service's
  life: what can make it panic at start, which environments it comes to run in, and that a shutdown ends
  by its deadline, without an error once its connections are at rest.  Of the scorer service: no user
  is blocked without the agreement of several signals, nor before 22 windows under the default weights and decay, and baselines
  that a minority of attackers cannot move.  Of challenges: bound to their signer, paid by work,
  burned once.  Of the shop: one order for an account, a token, a ticket and a key, only against
  a ticket; replays that change nothing.  Of the configuration: every mistake reported, every field
  from its own variable, which environments start which service.  Of the composition: who passed the gate sees the
  promised place, who is admitted can buy, and who solves the harder challenge in time comes back.

  \<^bold>\<open>Bounds.\<close>  \<open>float64\<close> is the rational number it stands for, every operation rounded to a 53-bit
  significand, ties to even; the exponent is unbounded, NaN and the infinities are no values
  (but in \<open>Parsing\<close> and \<open>Loading\<close>, where an environment can name them),
  and no multiplication is fused with an addition.  A division that could be by zero is guarded as
  in the code, or returns \<open>None\<close> where the code panics (\<open>SYNC_BIN\<close>).  \<open>int\<close> and \<open>int64\<close> values are
  integers; words are used where the code computes on them (hashing, shard index).  The search
  \<open>Solve\<close> and the compare-and-swap loop of \<open>Grow\<close> carry the number of turns; the
  polls of a shutdown carry one random draw each, and one for each millisecond of the time-out and
  one more are enough; the other loops are structural or shorten their input.

  \<^bold>\<open>Not modelled.\<close>  The values of Prometheus metrics (but for the request counter) and log lines, which carry
  no state of the program; the contexts of requests, which the signal cancels (a handler's calls may fail at any
  point anyway); the JSON text of bodies other than the status stream and the health routes; Go's
  \<open>encoding/json\<close> decoder and \<open>net/http\<close> but for what the theorems need of them; the clients of Redis, PostgreSQL and Kafka
  themselves; the SHA-1 digest of a script, which its name stands for.

  Each theory opens with what it holds; the texts before its theorems state them in words.
\<close>

end
